(* ===== verification/Prelude.thy ===== *)
theory Prelude
  imports Main "HOL-Library.Word"
begin

text \<open>
  What every component of the development shares: the machine types of the Go code, the
  outcome of a Go call (a value, an error value, a panic), slices and buffers with Go's
  bounds checks, the big-endian codecs of \<open>encoding/binary\<close>, the source of random bytes
  that stands for \<open>crypto/rand\<close>, and the rewrite collections the component proofs use.
\<close>

unbundle bit_operations_syntax

section \<open>Machine types\<close>

type_synonym byte = "8 word"
type_synonym u16 = "16 word"
type_synonym u32 = "32 word"
type_synonym u64 = "64 word"
type_synonym bytes = "byte list"

text \<open>Instants and durations are \<open>time.Time\<close> and \<open>time.Duration\<close> counted in nanoseconds.\<close>

type_synonym instant = int
type_synonym duration = int

abbreviation second :: duration where "second \<equiv> 1000000000"
abbreviation minute :: duration where "minute \<equiv> 60000000000"
abbreviation millisecond :: duration where "millisecond \<equiv> 1000000"

named_theorems go_simps \<open>outcomes, slices and indexing\<close>
named_theorems buf_simps \<open>the symbolic execution of buffer writes\<close>
named_theorems codec_simps \<open>the big-endian codecs\<close>

section \<open>Outcomes of a Go call\<close>

text \<open>
  The error values of the program, by the names of the package variables that hold them.
  \<open>IoEOF\<close> and \<open>IoUnexpectedEOF\<close> are those of package io, \<open>NetClosed\<close> is
  \<open>net.ErrClosed\<close>, \<open>RecordNotFound\<close> that of gorm; \<open>OtherError\<close> is an anonymous \<open>errors.New\<close>.
\<close>

datatype go_error =
    ErrInvalidPacket | ErrUnwrapFailed | ErrCorruptedData
  | ErrInvalidHandshakeMagic | ErrHandshakeChecksumMismatch | ErrAuthFailed | ErrHandshakeReplay
  | ErrSessionNotFound | ErrFrameTooLarge
  | ErrMissingAddress | ErrInvalidMTU | ErrInvalidFragmentMin | ErrInvalidFragmentMax
  | IoEOF | IoUnexpectedEOF | NetClosed | NetTimeout | RecordNotFound | OtherError

datatype 'a result = Ok 'a | Fail go_error | Panic

fun bindR :: "'a result \<Rightarrow> ('a \<Rightarrow> 'b result) \<Rightarrow> 'b result" where
  "bindR (Ok x) f = f x"
| "bindR (Fail e) f = Fail e"
| "bindR Panic f = Panic"

fun is_ok :: "'a result \<Rightarrow> bool" where
  "is_ok (Ok _) = True"
| "is_ok _ = False"

lemma bindR_eq_Ok: "bindR m f = Ok y \<longleftrightarrow> (\<exists>x. m = Ok x \<and> f x = Ok y)"
  by (cases m) auto

lemma bindR_eq_Fail: "bindR m f = Fail e \<longleftrightarrow> m = Fail e \<or> (\<exists>x. m = Ok x \<and> f x = Fail e)"
  by (cases m) auto

lemma bindR_eq_Panic: "bindR m f = Panic \<longleftrightarrow> m = Panic \<or> (\<exists>x. m = Ok x \<and> f x = Panic)"
  by (cases m) auto

lemma bindR_assoc: "bindR (bindR m f) g = bindR m (\<lambda>x. bindR (f x) g)"
  by (cases m) auto

lemmas bindR_elims = bindR_eq_Ok bindR_eq_Fail bindR_eq_Panic

lemma is_ok_iff: "is_ok m \<longleftrightarrow> (\<exists>x. m = Ok x)"
  by (cases m) auto

text \<open>
  A call that may not return is an outcome or \<open>None\<close>, the call that never returns.
\<close>

fun bindO :: "'a result option \<Rightarrow> ('a \<Rightarrow> 'b result option) \<Rightarrow> 'b result option" where
  "bindO None f = None"
| "bindO (Some (Ok x)) f = f x"
| "bindO (Some (Fail e)) f = Some (Fail e)"
| "bindO (Some Panic) f = Some Panic"

lemma bindO_eq_Ok: "bindO m f = Some (Ok y) \<longleftrightarrow> (\<exists>x. m = Some (Ok x) \<and> f x = Some (Ok y))"
  by (cases "(m, f)" rule: bindO.cases) auto

section \<open>Slices and indexing\<close>

text \<open>
  \<open>data[lo:hi]\<close> and \<open>data[i]\<close> panic out of range. A slice is modelled with capacity equal
  to its length, which is what \<open>make\<close> gives and what bounds every slice expression the
  modelled code leaves unchecked.
\<close>

definition slice :: "'a list \<Rightarrow> nat \<Rightarrow> nat \<Rightarrow> 'a list result" where
  "slice xs lo hi =
     (if lo \<le> hi \<and> hi \<le> length xs then Ok (take (hi - lo) (drop lo xs)) else Panic)"

definition slice_from :: "'a list \<Rightarrow> nat \<Rightarrow> 'a list result" where
  "slice_from xs lo = slice xs lo (length xs)"

definition slice_int :: "'a list \<Rightarrow> int \<Rightarrow> int \<Rightarrow> 'a list result" where
  "slice_int xs lo hi = (if lo < 0 \<or> hi < 0 then Panic else slice xs (nat lo) (nat hi))"

definition index :: "'a list \<Rightarrow> nat \<Rightarrow> 'a result" where
  "index xs i = (if i < length xs then Ok (xs ! i) else Panic)"

lemma slice_ok [go_simps]:
  "lo \<le> hi \<Longrightarrow> hi \<le> length xs \<Longrightarrow> slice xs lo hi = Ok (take (hi - lo) (drop lo xs))"
  by (simp add: slice_def)

lemma slice_from_ok [go_simps]: "lo \<le> length xs \<Longrightarrow> slice_from xs lo = Ok (drop lo xs)"
  by (simp add: slice_from_def slice_def)

lemma slice_from_panic: "length xs < lo \<Longrightarrow> slice_from xs lo = Panic"
  by (simp add: slice_from_def slice_def)

lemma index_ok [go_simps]: "i < length xs \<Longrightarrow> index xs i = Ok (xs ! i)"
  by (simp add: index_def)

lemma slice_not_Fail [simp]: "slice xs lo hi \<noteq> Fail e"
  by (simp add: slice_def)

lemma slice_from_not_Fail [simp]: "slice_from xs lo \<noteq> Fail e"
  by (simp add: slice_from_def)

lemma index_not_Fail [simp]: "index xs i \<noteq> Fail e"
  by (simp add: index_def)

section \<open>Big-endian integers\<close>

text \<open>\<open>binary.BigEndian.PutUint16/32/64\<close> and \<open>Uint16/32/64\<close>, and \<open>putUint24\<close> of the masks.\<close>

definition be16 :: "u16 \<Rightarrow> bytes" where
  "be16 v = [ucast (drop_bit 8 v), ucast v]"

definition be24 :: "u32 \<Rightarrow> bytes" where
  "be24 v = [ucast (drop_bit 16 v), ucast (drop_bit 8 v), ucast v]"

definition be32 :: "u32 \<Rightarrow> bytes" where
  "be32 v = [ucast (drop_bit 24 v), ucast (drop_bit 16 v), ucast (drop_bit 8 v), ucast v]"

definition be64 :: "u64 \<Rightarrow> bytes" where
  "be64 v = [ucast (drop_bit 56 v), ucast (drop_bit 48 v), ucast (drop_bit 40 v),
     ucast (drop_bit 32 v), ucast (drop_bit 24 v), ucast (drop_bit 16 v),
     ucast (drop_bit 8 v), ucast v]"

fun de16 :: "bytes \<Rightarrow> u16" where
  "de16 (a # b # _) = push_bit 8 (ucast a) OR ucast b"
| "de16 _ = 0"

fun de32 :: "bytes \<Rightarrow> u32" where
  "de32 (a # b # c # d # _) =
     push_bit 24 (ucast a) OR push_bit 16 (ucast b) OR push_bit 8 (ucast c) OR ucast d"
| "de32 _ = 0"

fun de64 :: "bytes \<Rightarrow> u64" where
  "de64 (a # b # c # d # e # f # g # h # _) =
     push_bit 56 (ucast a) OR push_bit 48 (ucast b) OR push_bit 40 (ucast c) OR
     push_bit 32 (ucast d) OR push_bit 24 (ucast e) OR push_bit 16 (ucast f) OR
     push_bit 8 (ucast g) OR ucast h"
| "de64 _ = 0"

declare de16.simps [simp del] de32.simps [simp del] de64.simps [simp del]

lemma length_be [simp, codec_simps]:
  "length (be16 a) = 2" "length (be24 b) = 3" "length (be32 c) = 4" "length (be64 d) = 8"
  by (simp_all add: be16_def be24_def be32_def be64_def)

lemma byte_high_bit: "8 \<le> n \<Longrightarrow> \<not> bit (b :: byte) n"
  by (auto dest: bit_imp_le_length)

lemma de16_be16 [simp, codec_simps]: "de16 (be16 v @ r) = v"
  unfolding be16_def
  by (rule bit_word_eqI) (auto simp: bit_simps de16.simps)

lemma de32_be32 [simp, codec_simps]: "de32 (be32 v @ r) = v"
proof (rule bit_word_eqI)
  fix n assume "n < LENGTH(32)"
  then consider "n < 8" | "8 \<le> n" "n < 16" | "16 \<le> n" "n < 24" | "24 \<le> n" "n < 32"
    by fastforce
  then show "bit (de32 (be32 v @ r)) n = bit v n"
    by cases (simp_all add: be32_def bit_simps de32.simps less_diff_conv2)
qed

lemma de64_be64 [simp, codec_simps]: "de64 (be64 v @ r) = v"
proof (rule bit_word_eqI)
  fix n assume "n < LENGTH(64)"
  then consider "n < 8" | "8 \<le> n" "n < 16" | "16 \<le> n" "n < 24" | "24 \<le> n" "n < 32"
    | "32 \<le> n" "n < 40" | "40 \<le> n" "n < 48" | "48 \<le> n" "n < 56" | "56 \<le> n" "n < 64"
    by fastforce
  then show "bit (de64 (be64 v @ r)) n = bit v n"
    by cases (simp_all add: be64_def bit_simps de64.simps less_diff_conv2)
qed

lemmas de_be_exact [simp, codec_simps] =
  de16_be16 [of _ "[]", simplified] de32_be32 [of _ "[]", simplified]
  de64_be64 [of _ "[]", simplified]

lemma be16_de16: "be16 (de16 [a, b]) = [a, b]"
  by (auto intro!: bit_word_eqI simp: be16_def bit_simps byte_high_bit de16.simps)

lemma be32_de32: "be32 (de32 [a, b, c, d]) = [a, b, c, d]"
  by (auto intro!: bit_word_eqI simp: be32_def bit_simps byte_high_bit de32.simps)

lemma be64_de64: "be64 (de64 [a, b, c, d, e, f, g, h]) = [a, b, c, d, e, f, g, h]"
  by (auto intro!: bit_word_eqI simp: be64_def bit_simps byte_high_bit de64.simps)

lemma be32_inj: "be32 a = be32 b \<longleftrightarrow> a = b"
  by (metis de_be_exact(2))

lemma be64_inj: "be64 a = be64 b \<longleftrightarrow> a = b"
  by (metis de_be_exact(3))

text \<open>Reading an integer out of a slice, \<open>binary.BigEndian.Uint32(data[o:o+4])\<close> and its like.\<close>

definition u16_at :: "bytes \<Rightarrow> nat \<Rightarrow> u16 result" where
  "u16_at xs off = bindR (slice xs off (off + 2)) (\<lambda>b. Ok (de16 b))"

definition u32_at :: "bytes \<Rightarrow> nat \<Rightarrow> u32 result" where
  "u32_at xs off = bindR (slice xs off (off + 4)) (\<lambda>b. Ok (de32 b))"

definition u64_at :: "bytes \<Rightarrow> nat \<Rightarrow> u64 result" where
  "u64_at xs off = bindR (slice xs off (off + 8)) (\<lambda>b. Ok (de64 b))"

lemma u16_at_ok [go_simps]:
  "off + 2 \<le> length xs \<Longrightarrow> u16_at xs off = Ok (de16 (take 2 (drop off xs)))"
  by (simp add: u16_at_def slice_def)

lemma u32_at_ok [go_simps]:
  "off + 4 \<le> length xs \<Longrightarrow> u32_at xs off = Ok (de32 (take 4 (drop off xs)))"
  by (simp add: u32_at_def slice_def)

lemma u64_at_ok [go_simps]:
  "off + 8 \<le> length xs \<Longrightarrow> u64_at xs off = Ok (de64 (take 8 (drop off xs)))"
  by (simp add: u64_at_def slice_def)

section \<open>Buffers\<close>

text \<open>
  A header is built in a zeroed buffer by a sequence of writes: an indexed assignment, a
  \<open>PutUint\<close> into a subslice, a \<open>copy\<close> into \<open>buf[lo:hi]\<close> or \<open>buf[lo:]\<close>. Each checks its
  bounds, and \<open>copy\<close> moves as many bytes as fit.
\<close>

datatype wop =
    SetByte nat byte
  | PutU16 nat u16
  | PutU24 nat u32
  | PutU32 nat u32
  | PutU64 nat u64
  | CopyTo nat nat bytes
  | CopyFrom nat bytes

definition make_buf :: "nat \<Rightarrow> bytes" where
  "make_buf n = replicate n 0"

definition splice :: "nat \<Rightarrow> bytes \<Rightarrow> bytes \<Rightarrow> bytes" where
  "splice off src buf = take off buf @ src @ drop (off + length src) buf"

definition write_at :: "nat \<Rightarrow> bytes \<Rightarrow> bytes \<Rightarrow> bytes result" where
  "write_at off src buf =
     (if off + length src \<le> length buf then Ok (splice off src buf) else Panic)"

fun do_write :: "bytes \<Rightarrow> wop \<Rightarrow> bytes result" where
  "do_write buf (SetByte i b) = write_at i [b] buf"
| "do_write buf (PutU16 off v) = write_at off (be16 v) buf"
| "do_write buf (PutU24 off v) = write_at off (be24 v) buf"
| "do_write buf (PutU32 off v) = write_at off (be32 v) buf"
| "do_write buf (PutU64 off v) = write_at off (be64 v) buf"
| "do_write buf (CopyTo lo hi src) =
     (if lo \<le> hi \<and> hi \<le> length buf then Ok (splice lo (take (hi - lo) src) buf) else Panic)"
| "do_write buf (CopyFrom lo src) =
     (if lo \<le> length buf then Ok (splice lo (take (length buf - lo) src) buf) else Panic)"

fun writes :: "bytes \<Rightarrow> wop list \<Rightarrow> bytes result" where
  "writes buf [] = Ok buf"
| "writes buf (w # ws) = bindR (do_write buf w) (\<lambda>b. writes b ws)"

lemma length_make_buf [simp]: "length (make_buf n) = n"
  by (simp add: make_buf_def)

lemma length_splice [simp]:
  "off + length src \<le> length buf \<Longrightarrow> length (splice off src buf) = length buf"
  by (simp add: splice_def)

lemma do_write_length: "do_write buf w = Ok b \<Longrightarrow> length b = length buf"
  by (cases w) (auto simp: write_at_def splice_def split: if_splits)

lemma writes_length: "writes buf ws = Ok b \<Longrightarrow> length b = length buf"
  by (induction ws arbitrary: buf) (auto simp: bindR_eq_Ok dest: do_write_length)

lemma do_write_not_Fail [simp]: "do_write buf w \<noteq> Fail e"
  by (cases w) (auto simp: write_at_def)

lemma writes_not_Fail [simp]: "writes buf ws \<noteq> Fail e"
  by (induction ws arbitrary: buf) (auto simp: bindR_eq_Fail)

text \<open>Writes succeed exactly when each is within the buffer.\<close>

fun fits :: "nat \<Rightarrow> wop \<Rightarrow> bool" where
  "fits n (SetByte i _) = (i < n)"
| "fits n (PutU16 off _) = (off + 2 \<le> n)"
| "fits n (PutU24 off _) = (off + 3 \<le> n)"
| "fits n (PutU32 off _) = (off + 4 \<le> n)"
| "fits n (PutU64 off _) = (off + 8 \<le> n)"
| "fits n (CopyTo lo hi _) = (lo \<le> hi \<and> hi \<le> n)"
| "fits n (CopyFrom lo _) = (lo \<le> n)"

lemma do_write_fits: "fits (length buf) w \<Longrightarrow> \<exists>b. do_write buf w = Ok b \<and> length b = length buf"
  by (cases w) (auto simp: write_at_def splice_def)

lemma do_write_misfit: "\<not> fits (length buf) w \<Longrightarrow> do_write buf w = Panic"
  by (cases w) (auto simp: write_at_def)

lemma writes_fit:
  "list_all (fits (length buf)) ws \<Longrightarrow> \<exists>b. writes buf ws = Ok b \<and> length b = length buf"
proof (induction ws arbitrary: buf)
  case (Cons w ws)
  then obtain b where b: "do_write buf w = Ok b" "length b = length buf"
    using do_write_fits [of buf w] by auto
  with Cons.IH [of b] Cons.prems show ?case by simp
qed simp

lemma writes_panic_iff: "writes buf ws = Panic \<longleftrightarrow> \<not> list_all (fits (length buf)) ws"
proof (induction ws arbitrary: buf)
  case (Cons w ws)
  show ?case
  proof (cases "fits (length buf) w")
    case True
    then obtain b where "do_write buf w = Ok b" "length b = length buf"
      using do_write_fits by blast
    with True Cons.IH [of b] show ?thesis by simp
  qed (simp add: do_write_misfit)
qed simp

lemma bind_writes_header:
  "list_all (fits n) ws \<Longrightarrow> \<exists>h. length h = n \<and> bindR (writes (make_buf n) ws) f = f h"
  using writes_fit [of "make_buf n" ws] by auto

lemma bind_writes_panic:
  "\<not> list_all (fits (length buf)) ws \<Longrightarrow> bindR (writes buf ws) f = Panic"
  by (simp add: writes_panic_iff [symmetric])

text \<open>
  A buffer written from the left is a prefix followed by zeros. \<open>partial p n\<close> keeps that
  shape through the writes, so a whole header is computed by rewriting.
\<close>

definition partial :: "bytes \<Rightarrow> nat \<Rightarrow> bytes" where
  "partial p n = p @ replicate n 0"

lemma make_buf_partial [buf_simps]: "make_buf n = partial [] n"
  by (simp add: make_buf_def partial_def)

lemma length_partial [buf_simps]: "length (partial p n) = length p + n"
  by (simp add: partial_def)

lemma partial_full [buf_simps]: "partial p 0 = p"
  by (simp add: partial_def)

lemma splice_partial [buf_simps]:
  assumes "length p \<le> off" and "off + length src \<le> length p + n"
  shows "splice off src (partial p n) =
    partial (p @ replicate (off - length p) 0 @ src) (n - (off - length p) - length src)"
proof -
  have "take off (p @ replicate n 0) = p @ replicate (off - length p) (0 :: byte)"
    using assms by (auto simp: min_def)
  moreover have "drop (off + length src) (p @ replicate n (0 :: byte)) =
      replicate (n - (off - length p) - length src) 0"
    using assms by (simp add: add.commute)
  ultimately show ?thesis
    by (simp add: splice_def partial_def)
qed

lemma write_at_partial [buf_simps]:
  assumes "length p \<le> off" and "off + length src \<le> length p + n"
  shows "write_at off src (partial p n) =
    Ok (partial (p @ replicate (off - length p) 0 @ src) (n - (off - length p) - length src))"
  using assms by (simp add: write_at_def splice_partial length_partial)

section \<open>Random bytes\<close>

text \<open>
  \<open>crypto/rand\<close> and \<open>math/rand\<close> are a stream of bytes the operations draw from, threaded
  through them: any stream whatever, so a theorem over all streams holds for every outcome
  of the generator.
\<close>

type_synonym rng = "nat \<Rightarrow> byte"

definition rbytes :: "nat \<Rightarrow> rng \<Rightarrow> bytes" where
  "rbytes n r = map r [0..<n]"

definition rskip :: "nat \<Rightarrow> rng \<Rightarrow> rng" where
  "rskip n r = (\<lambda>i. r (i + n))"

lemma length_rbytes [simp]: "length (rbytes n r) = n"
  by (simp add: rbytes_def)

lemma rbytes_ne [simp]: "rbytes n r \<noteq> [] \<longleftrightarrow> 0 < n"
  by (simp add: rbytes_def)

section \<open>The clock and Go's integer remainder\<close>

text \<open>
  \<open>time.Now\<close> is a stream of readings, threaded like the random bytes. The zero
  \<open>time.Time\<close> is the first instant of year 1.
\<close>

type_synonym clock = "nat \<Rightarrow> instant"

definition now :: "clock \<Rightarrow> instant" where
  "now c = c 0"

definition tick :: "nat \<Rightarrow> clock \<Rightarrow> clock" where
  "tick k c = (\<lambda>i. c (i + k))"

definition zero_time :: instant where
  "zero_time = - 62135596800000000000"

definition clock_ok :: "clock \<Rightarrow> bool" where
  "clock_ok c \<longleftrightarrow> (\<forall>i. 0 \<le> c i)"

lemma clock_ok_now [simp]: "clock_ok c \<Longrightarrow> 0 \<le> now c"
  by (simp add: clock_ok_def now_def)

lemma clock_ok_tick [simp]: "clock_ok c \<Longrightarrow> clock_ok (tick k c)"
  by (simp add: clock_ok_def tick_def)

text \<open>
  What an operation draws on, threaded together: the random bytes, the clock, what each
  \<open>tls.Dial\<close> of the TLS mask brings back (nothing, or the raw certificates of the peer), and
  the local time zone, as seconds east of UTC at an instant.
\<close>

record env =
  rand :: rng
  clk :: clock
  dials :: "nat \<Rightarrow> bytes list option"
  zone :: "instant \<Rightarrow> int"

definition draw :: "nat \<Rightarrow> env \<Rightarrow> bytes \<times> env" where
  "draw n e = (rbytes n (rand e), e\<lparr>rand := rskip n (rand e)\<rparr>)"

definition read_clock :: "env \<Rightarrow> instant \<times> env" where
  "read_clock e = (now (clk e), e\<lparr>clk := tick 1 (clk e)\<rparr>)"

definition read_dial :: "env \<Rightarrow> bytes list option \<times> env" where
  "read_dial e = (dials e 0, e\<lparr>dials := (\<lambda>i. dials e (i + 1))\<rparr>)"

text \<open>\<open>time.Now().Unix()\<close> and \<open>UnixNano()\<close> as the unsigned words the headers hold.\<close>

definition unix32 :: "instant \<Rightarrow> u32" where
  "unix32 t = of_int (t div second)"

definition unix64 :: "instant \<Rightarrow> u64" where
  "unix64 t = of_int (t div second)"

definition unixnano64 :: "instant \<Rightarrow> u64" where
  "unixnano64 t = of_int t"

lemma fst_draw_length [simp]: "length (fst (draw n e)) = n"
  by (simp add: draw_def)

text \<open>\<open>a % b\<close> truncates towards zero and panics on \<open>b = 0\<close>.\<close>

definition go_rem :: "int \<Rightarrow> int \<Rightarrow> int result" where
  "go_rem a b = (if b = 0 then Panic else Ok (sgn a * (\<bar>a\<bar> mod \<bar>b\<bar>)))"

lemma go_rem_pos: "0 \<le> a \<Longrightarrow> 0 < b \<Longrightarrow> go_rem a b = Ok (a mod b)"
  by (auto simp: go_rem_def sgn_if)

section \<open>Lists\<close>

lemma take_append_exact [simp]: "length xs = n \<Longrightarrow> take n (xs @ ys) = xs"
  by simp

lemma drop_append_exact [simp]: "length xs = n \<Longrightarrow> drop n (xs @ ys) = ys"
  by simp

lemma concat_map_singleton: "concat (map (\<lambda>x. [x]) xs) = xs"
  by (induction xs) auto

end
