(* ===== verification/SimpleMasks.thy ===== *)
theory SimpleMasks
  imports Prelude
begin

text \<open>
  The masks of \<open>internal/masks\<close> whose \<open>Wrap\<close> puts a header before the payload, whatever
  was sent before: vk, wildberries, gosuslugi, ozon, sberid, yandex, rutube, zoom, teams,
  winupdate, browser and stun. Each mask is a record of its struct, its \<open>New\<close> draws from
  the environment, its \<open>Wrap\<close> returns the packet and the mask it leaves, its \<open>Unwrap\<close> the
  payload, an error or a panic.
\<close>

section \<open>VK\<close>

record VKMask =
  vk_streamID :: u32
  vk_packetNum :: u32
  vk_magicBytes :: bytes

definition NewVKMask :: "env \<Rightarrow> VKMask \<times> env" where
  "NewVKMask e =
     (let (streamIDBytes, e1) = draw 4 e; (magic, e2) = draw 4 e1 in
      (\<lparr>vk_streamID = de32 streamIDBytes, vk_packetNum = 0, vk_magicBytes = magic\<rparr>, e2))"

definition VK_Wrap :: "VKMask \<Rightarrow> bytes \<Rightarrow> (bytes \<times> VKMask) result" where
  "VK_Wrap v payload =
     bindR (writes (make_buf 16)
         [CopyTo 0 4 (vk_magicBytes v),
          PutU32 4 (vk_streamID v),
          PutU32 8 (vk_packetNum v),
          PutU32 12 (of_nat (length payload))]) (\<lambda>header.
       Ok (header @ payload, v\<lparr>vk_packetNum := vk_packetNum v + 1\<rparr>))"

definition VK_Unwrap :: "bytes \<Rightarrow> bytes result" where
  "VK_Unwrap data = (if length data < 16 then Fail ErrInvalidPacket else slice_from data 16)"

section \<open>Wildberries\<close>

text \<open>
  \<open>rand.Read\<close> fills a temporary slice, so the identifiers stay 0; the ninth character of
  the marker does not fit \<open>header[0:8]\<close>. The markers are the bytes of the source's strings.
\<close>

record WildberriesMask =
  wb_userID :: u64
  wb_sessionID :: u32
  wb_packetNum :: u32

definition NewWildberriesMask :: "env \<Rightarrow> WildberriesMask \<times> env" where
  "NewWildberriesMask e =
     (let (_, e1) = draw 1 e; (_, e2) = draw 1 e1 in
      (\<lparr>wb_userID = 0, wb_sessionID = 0, wb_packetNum = 0\<rparr>, e2))"

definition marker :: "string \<Rightarrow> bytes" where
  "marker s = map of_char s"

definition Wildberries_Wrap :: "WildberriesMask \<Rightarrow> bytes \<Rightarrow> (bytes \<times> WildberriesMask) result" where
  "Wildberries_Wrap w payload =
     (let w1 = w\<lparr>wb_packetNum := wb_packetNum w + 1\<rparr> in
      bindR (writes (make_buf 20)
          [CopyTo 0 8 (marker ''WBAPI2025''),
           PutU64 8 (wb_userID w1),
           PutU32 16 (wb_packetNum w1)]) (\<lambda>header.
        Ok (header @ payload, w1)))"

definition Wildberries_Unwrap :: "bytes \<Rightarrow> bytes result" where
  "Wildberries_Unwrap data =
     (if length data < 20 then Fail ErrInvalidPacket else slice_from data 20)"

section \<open>Gosuslugi\<close>

record GosuslugiMask =
  gos_userID :: u64
  gos_sessionID :: u64
  gos_requestID :: u32
  gos_timestamp :: u32

definition NewGosuslugiMask :: "env \<Rightarrow> GosuslugiMask \<times> env" where
  "NewGosuslugiMask e =
     (let (t, e1) = read_clock e; (_, e2) = draw 1 e1; (_, e3) = draw 1 e2 in
      (\<lparr>gos_userID = 0, gos_sessionID = 0, gos_requestID = 0, gos_timestamp = unix32 t\<rparr>, e3))"

definition Gosuslugi_Wrap ::
  "GosuslugiMask \<Rightarrow> bytes \<Rightarrow> env \<Rightarrow> (bytes \<times> GosuslugiMask \<times> env) result" where
  "Gosuslugi_Wrap g payload e =
     (let (t, e1) = read_clock e;
          g1 = g\<lparr>gos_requestID := gos_requestID g + 1, gos_timestamp := unix32 t\<rparr> in
      bindR (writes (make_buf 32)
          [CopyTo 0 12 (marker ''GOSUSLUGI2''),
           PutU64 12 (gos_userID g1),
           PutU64 20 (gos_sessionID g1),
           PutU32 28 (gos_requestID g1)]) (\<lambda>header.
        Ok (header @ payload, g1, e1)))"

definition Gosuslugi_Unwrap :: "bytes \<Rightarrow> bytes result" where
  "Gosuslugi_Unwrap data =
     (if length data < 32 then Fail ErrInvalidPacket else slice_from data 32)"

section \<open>Ozon\<close>

record OzonMask =
  oz_sessionID :: u64
  oz_requestID :: u32
  oz_sequence :: u32
  oz_timestamp :: u32

definition NewOzonMask :: "env \<Rightarrow> OzonMask \<times> env" where
  "NewOzonMask e =
     (let (t, e1) = read_clock e; (_, e2) = draw 1 e1; (_, e3) = draw 1 e2 in
      (\<lparr>oz_sessionID = 0, oz_requestID = 0, oz_sequence = 0, oz_timestamp = unix32 t\<rparr>, e3))"

definition Ozon_Wrap :: "OzonMask \<Rightarrow> bytes \<Rightarrow> env \<Rightarrow> (bytes \<times> OzonMask \<times> env) result" where
  "Ozon_Wrap z payload e =
     (let (t, e1) = read_clock e;
          z1 = z\<lparr>oz_sequence := oz_sequence z + 1, oz_timestamp := unix32 t\<rparr> in
      bindR (writes (make_buf 24)
          [CopyTo 0 8 (marker ''OZONAPIv2''),
           PutU64 8 (oz_sessionID z1),
           PutU32 16 (oz_requestID z1),
           PutU32 20 (oz_sequence z1)]) (\<lambda>header.
        Ok (header @ payload, z1, e1)))"

definition Ozon_Unwrap :: "bytes \<Rightarrow> bytes result" where
  "Ozon_Unwrap data = (if length data < 24 then Fail ErrInvalidPacket else slice_from data 24)"

section \<open>SberID\<close>

record SberIDMask =
  sb_clientID :: u64
  sb_sessionID :: u64
  sb_requestID :: u32
  sb_timestamp :: u32

definition NewSberIDMask :: "env \<Rightarrow> SberIDMask \<times> env" where
  "NewSberIDMask e =
     (let (t, e1) = read_clock e; (_, e2) = draw 1 e1; (_, e3) = draw 1 e2 in
      (\<lparr>sb_clientID = 0, sb_sessionID = 0, sb_requestID = 0, sb_timestamp = unix32 t\<rparr>, e3))"

definition SberID_Wrap :: "SberIDMask \<Rightarrow> bytes \<Rightarrow> env \<Rightarrow> (bytes \<times> SberIDMask \<times> env) result" where
  "SberID_Wrap s payload e =
     (let (t, e1) = read_clock e;
          s1 = s\<lparr>sb_requestID := sb_requestID s + 1, sb_timestamp := unix32 t\<rparr> in
      bindR (writes (make_buf 32)
          [CopyTo 0 12 (marker ''SBERID/2.0''),
           PutU64 12 (sb_clientID s1),
           PutU64 20 (sb_sessionID s1),
           PutU32 28 (sb_requestID s1)]) (\<lambda>header.
        Ok (header @ payload, s1, e1)))"

definition SberID_Unwrap :: "bytes \<Rightarrow> bytes result" where
  "SberID_Unwrap data = (if length data < 32 then Fail ErrInvalidPacket else slice_from data 32)"

section \<open>Yandex\<close>

record YandexMask =
  ya_requestID :: bytes
  ya_magicBytes :: bytes
  ya_sequence :: u32

definition NewYandexMask :: "env \<Rightarrow> YandexMask \<times> env" where
  "NewYandexMask e =
     (let (rid, e1) = draw 16 e; (magic, e2) = draw 8 e1 in
      (\<lparr>ya_requestID = rid, ya_magicBytes = magic, ya_sequence = 0\<rparr>, e2))"

definition Yandex_Wrap :: "YandexMask \<Rightarrow> bytes \<Rightarrow> env \<Rightarrow> (bytes \<times> YandexMask \<times> env) result" where
  "Yandex_Wrap y payload e =
     (let y1 = y\<lparr>ya_sequence := ya_sequence y + 1\<rparr>;
          (t, e1) = read_clock e in
      bindR (writes (make_buf 38)
          [CopyTo 0 8 (ya_magicBytes y1),
           SetByte 8 1,
           SetByte 9 0,
           PutU32 10 (ya_sequence y1),
           PutU64 14 (unix64 t),
           CopyTo 22 38 (ya_requestID y1)]) (\<lambda>header.
      bindR (writes (make_buf (38 + length payload))
          [CopyFrom 0 header, CopyFrom 38 payload]) (\<lambda>result.
        Ok (result, y1, e1))))"

definition Yandex_Unwrap :: "bytes \<Rightarrow> bytes result" where
  "Yandex_Unwrap data = (if length data < 38 then Fail ErrInvalidPacket else slice_from data 38)"

section \<open>RuTube\<close>

record RuTubeMask =
  rt_chunkID :: u32
  rt_sessionID :: u64
  rt_magicBytes :: bytes
  rt_usePadding :: bool

definition NewRuTubeMask :: "env \<Rightarrow> RuTubeMask \<times> env" where
  "NewRuTubeMask e =
     (let (sid, e1) = draw 8 e; (magic, e2) = draw 2 e1 in
      (\<lparr>rt_chunkID = 0, rt_sessionID = de64 sid, rt_magicBytes = magic, rt_usePadding = True\<rparr>,
       e2))"

definition RuTube_Wrap :: "RuTubeMask \<Rightarrow> bytes \<Rightarrow> env \<Rightarrow> (bytes \<times> RuTubeMask \<times> env) result" where
  "RuTube_Wrap r payload e =
     (let (paddingByte, e1) = (if rt_usePadding r then draw 1 e else ([], e));
          paddingLen = (if rt_usePadding r then unat (hd paddingByte) mod 32 else 0);
          flags = (if 0 < paddingLen then 1 else 0 :: u16);
          (padding, e2) = (if 0 < paddingLen then draw paddingLen e1 else ([], e1)) in
      bindR (index (rt_magicBytes r) 0) (\<lambda>m0.
      bindR (index (rt_magicBytes r) 1) (\<lambda>m1.
      bindR (writes (make_buf (24 + length payload + paddingLen))
          ([SetByte 0 m0, SetByte 1 m1, SetByte 2 0, SetByte 3 1,
            PutU32 4 (rt_chunkID r),
            PutU64 8 (rt_sessionID r),
            PutU32 16 (of_nat (length payload)),
            PutU16 20 flags,
            PutU16 22 (of_nat paddingLen),
            CopyTo 24 (24 + length payload) payload] @
           (if 0 < paddingLen then [CopyFrom (24 + length payload) padding] else [])))
        (\<lambda>header.
        Ok (header, r\<lparr>rt_chunkID := rt_chunkID r + 1\<rparr>, e2)))))"

definition RuTube_Unwrap :: "bytes \<Rightarrow> bytes result" where
  "RuTube_Unwrap data =
     (if length data < 24 then Fail ErrInvalidPacket
      else
        bindR (u32_at data 16) (\<lambda>payloadLen.
        bindR (u16_at data 20) (\<lambda>flags.
        bindR (u16_at data 22) (\<lambda>paddingLen.
          let totalPayloadLen = unat payloadLen + unat paddingLen in
          if length data < 24 + totalPayloadLen then Fail ErrInvalidPacket
          else if flags AND 1 \<noteq> 0 \<and> 0 < paddingLen then slice data 24 (24 + unat payloadLen)
          else slice data 24 (24 + unat payloadLen)))))"

section \<open>Zoom\<close>

record ZoomMask =
  zm_meetingID :: u64
  zm_userID :: u32
  zm_timestamp :: u32
  zm_sequence :: u16
  zm_encrypted :: bool

definition NewZoomMask :: "env \<Rightarrow> ZoomMask \<times> env" where
  "NewZoomMask e =
     (let (t1, e1) = read_clock e; (t2, e2) = read_clock e1; (t3, e3) = read_clock e2 in
      (\<lparr>zm_meetingID = unixnano64 t1, zm_userID = unix32 t2, zm_timestamp = unix32 t3,
        zm_sequence = 0, zm_encrypted = True\<rparr>, e3))"

definition Zoom_Wrap :: "ZoomMask \<Rightarrow> bytes \<Rightarrow> env \<Rightarrow> (bytes \<times> ZoomMask \<times> env) result" where
  "Zoom_Wrap z payload e =
     (let headerLen = (if zm_encrypted z then 22 else 18);
          (encBlock, e1) = (if zm_encrypted z then draw 4 e else ([], e));
          (t, e2) = read_clock e1 in
      bindR (writes (make_buf (headerLen + length payload))
          ([PutU64 0 (zm_meetingID z),
            PutU32 8 (zm_userID z),
            PutU32 12 (zm_timestamp z),
            PutU16 16 (zm_sequence z)] @
           (if zm_encrypted z then [CopyTo 18 22 encBlock] else []) @
           [CopyFrom headerLen payload])) (\<lambda>buf.
        Ok (buf, z\<lparr>zm_sequence := zm_sequence z + 1, zm_timestamp := unix32 t\<rparr>, e2)))"

definition Zoom_Unwrap :: "ZoomMask \<Rightarrow> bytes \<Rightarrow> bytes result" where
  "Zoom_Unwrap z data =
     (let minLen = (if zm_encrypted z then 22 else 18) in
      if length data < minLen then Fail ErrInvalidPacket
      else let headerLen = (if zm_encrypted z then 22 else 18) in slice_from data headerLen)"

section \<open>Teams\<close>

record TeamsMask =
  tm_conferenceID :: u64
  tm_participantID :: u32
  tm_sequence :: u32
  tm_encryptionKey :: bytes

definition NewTeamsMask :: "env \<Rightarrow> TeamsMask \<times> env" where
  "NewTeamsMask e =
     (let (key, e1) = draw 16 e; (t1, e2) = read_clock e1; (t2, e3) = read_clock e2 in
      (\<lparr>tm_conferenceID = unixnano64 t1, tm_participantID = unix32 t2, tm_sequence = 0,
        tm_encryptionKey = key\<rparr>, e3))"

definition Teams_Wrap :: "TeamsMask \<Rightarrow> bytes \<Rightarrow> env \<Rightarrow> (bytes \<times> TeamsMask \<times> env) result" where
  "Teams_Wrap t payload e =
     (let (encryptedHeader, e1) = draw 8 e;
          (paddingByte, e2) = (if length payload < 1400 then draw 1 e1 else ([], e1));
          paddingLen = (if length payload < 1400 then unat (hd paddingByte) mod 64 else 0);
          (padding, e3) = (if length payload < 1400 then draw paddingLen e2 else ([], e2)) in
      bindR (writes (make_buf (28 + length payload))
          [PutU64 0 (tm_conferenceID t),
           PutU32 8 (tm_participantID t),
           PutU32 12 (tm_sequence t),
           PutU32 16 (of_nat (length payload)),
           CopyTo 20 28 encryptedHeader,
           CopyFrom 28 payload]) (\<lambda>buf.
        Ok (buf @ padding, t\<lparr>tm_sequence := tm_sequence t + 1\<rparr>, e3)))"

definition Teams_Unwrap :: "bytes \<Rightarrow> bytes result" where
  "Teams_Unwrap data =
     (if length data < 28 then Fail ErrInvalidPacket
      else
        bindR (u32_at data 16) (\<lambda>payloadLen.
          if length data < 28 + unat payloadLen then Fail ErrInvalidPacket
          else slice data 28 (28 + unat payloadLen)))"

section \<open>WinUpdate\<close>

record WinUpdateMask =
  wu_sessionID :: u64
  wu_updateID :: u32
  wu_packageSize :: u32

definition NewWinUpdateMask :: "env \<Rightarrow> WinUpdateMask \<times> env" where
  "NewWinUpdateMask e =
     (let (sid, e1) = draw 8 e; (uid, e2) = draw 4 e1 in
      (\<lparr>wu_sessionID = de64 sid, wu_updateID = de32 uid, wu_packageSize = 0\<rparr>, e2))"

text \<open>One of the eight shifts of a byte, and a byte, of \<open>calcCRC\<close>.\<close>

definition crc16_shift :: "u16 \<Rightarrow> u16" where
  "crc16_shift crc =
     (if crc AND 0x8000 \<noteq> 0 then push_bit 1 crc XOR 0x1021 else push_bit 1 crc)"

definition crc16_byte :: "u16 \<Rightarrow> byte \<Rightarrow> u16" where
  "crc16_byte crc b = (crc16_shift ^^ 8) (crc XOR push_bit 8 (ucast b))"

definition calcCRC :: "bytes \<Rightarrow> u16" where
  "calcCRC data = foldl crc16_byte 0 data"

definition WinUpdate_Wrap :: "WinUpdateMask \<Rightarrow> bytes \<Rightarrow> (bytes \<times> WinUpdateMask) result" where
  "WinUpdate_Wrap w payload =
     (let crc = calcCRC payload in
      bindR (writes (make_buf (18 + length payload))
          [PutU64 0 (wu_sessionID w),
           PutU32 8 (wu_updateID w),
           PutU32 12 (of_nat (length payload)),
           PutU16 16 crc,
           CopyFrom 18 payload]) (\<lambda>buf. Ok (buf, w)))"

definition WinUpdate_Unwrap :: "bytes \<Rightarrow> bytes result" where
  "WinUpdate_Unwrap data =
     (if length data < 18 then Fail ErrInvalidPacket
      else
        bindR (u32_at data 12) (\<lambda>payloadLen.
          if length data < 18 + unat payloadLen then Fail ErrInvalidPacket
          else
            bindR (slice data 18 (18 + unat payloadLen)) (\<lambda>payload.
            bindR (u16_at data 16) (\<lambda>expectedCRC.
              let actualCRC = calcCRC payload in
              if expectedCRC \<noteq> actualCRC then Fail ErrCorruptedData else Ok payload))))"

section \<open>Browser\<close>

record BrowserMask =
  br_sessionID :: u64
  br_packetNum :: u32

definition NewBrowserMask :: "env \<Rightarrow> BrowserMask \<times> env" where
  "NewBrowserMask e =
     (let (_, e1) = draw 1 e; (sid, e2) = draw 8 e1 in
      (\<lparr>br_sessionID = de64 sid, br_packetNum = 0\<rparr>, e2))"

text \<open>The test for a TLS handshake record that Browser and the mixer share.\<close>

definition looks_like_tls :: "bytes \<Rightarrow> bool" where
  "looks_like_tls p \<longleftrightarrow> 5 \<le> length p \<and> p ! 0 = 0x16 \<and> p ! 1 = 0x03"

definition Browser_Wrap :: "BrowserMask \<Rightarrow> bytes \<Rightarrow> env \<Rightarrow> (bytes \<times> BrowserMask \<times> env) result" where
  "Browser_Wrap b payload e =
     bindR (writes (make_buf 14)
         [PutU64 0 (br_sessionID b),
          PutU32 8 (br_packetNum b),
          PutU16 12 (of_nat (length payload))]) (\<lambda>header.
       let b1 = b\<lparr>br_packetNum := br_packetNum b + 1\<rparr> in
       if looks_like_tls payload then Ok (header @ payload, b1, e)
       else
         let (paddingByte, e1) = (if length payload < 1400 then draw 1 e else ([], e));
             paddingLen = (if length payload < 1400 then unat (hd paddingByte) mod 32 else 0);
             (padding, e2) = (if 0 < paddingLen then draw paddingLen e1 else ([], e1)) in
         bindR (writes (make_buf (length header + length payload + paddingLen))
             ([CopyFrom 0 header, CopyFrom (length header) payload] @
              (if 0 < paddingLen then [CopyFrom (length header + length payload) padding]
               else []))) (\<lambda>result.
           Ok (result, b1, e2)))"

definition Browser_Unwrap :: "bytes \<Rightarrow> bytes result" where
  "Browser_Unwrap data =
     (if length data < 14 then Fail ErrInvalidPacket
      else if looks_like_tls data then Ok data
      else
        bindR (u16_at data 12) (\<lambda>l.
          let payloadLen = unat l in
          if length data < 14 + payloadLen then Fail ErrInvalidPacket
          else slice data 14 (14 + payloadLen)))"

section \<open>STUN\<close>

record STUNMask =
  st_transactionID :: bytes
  st_magicCookie :: u32
  st_useFingerprint :: bool

definition NewSTUNMask :: "env \<Rightarrow> STUNMask \<times> env" where
  "NewSTUNMask e =
     (let (tid, e1) = draw 12 e in
      (\<lparr>st_transactionID = tid, st_magicCookie = 0x2112A442, st_useFingerprint = True\<rparr>, e1))"

definition crc32_shift :: "u32 \<Rightarrow> u32" where
  "crc32_shift crc =
     (if crc AND 0x80000000 \<noteq> 0 then push_bit 1 crc XOR 0x04C11DB7 else push_bit 1 crc)"

definition calcFingerprint :: "bytes \<Rightarrow> u32" where
  "calcFingerprint data =
     foldl (\<lambda>crc b. (crc32_shift ^^ 8) (crc XOR push_bit 24 (ucast b))) 0xFFFFFFFF data
       XOR 0xFFFFFFFF"

text \<open>
  The fingerprint attribute takes 8 bytes, the buffer has 4 bytes for it.
\<close>

definition STUN_Wrap :: "STUNMask \<Rightarrow> bytes \<Rightarrow> bytes result" where
  "STUN_Wrap s payload =
     (let msgLen = (of_nat (length payload) :: u16);
          fingerprintLen = (if st_useFingerprint s then 4 else 0) in
      bindR (writes (make_buf (20 + length payload + fingerprintLen))
          [PutU16 0 1,
           PutU16 2 msgLen,
           PutU32 4 (st_magicCookie s),
           CopyTo 8 20 (st_transactionID s),
           CopyTo 20 (20 + length payload) payload]) (\<lambda>buf.
        if st_useFingerprint s then
          let offset = 20 + length payload in
          bindR (writes buf [PutU16 offset 0x8028, PutU16 (offset + 2) 4]) (\<lambda>buf1.
          bindR (slice buf1 0 (offset + 4)) (\<lambda>covered.
            writes buf1 [PutU32 (offset + 4) (calcFingerprint covered)]))
        else Ok buf))"

text \<open>\<open>payloadLen\<close> is a Go int: it goes negative when a fingerprint is found in a short message.\<close>

definition STUN_Unwrap :: "bytes \<Rightarrow> bytes result" where
  "STUN_Unwrap data =
     (if length data < 20 then Fail ErrInvalidPacket
      else
        bindR (u32_at data 4) (\<lambda>magicCookie.
        bindR (u16_at data 2) (\<lambda>msgLen.
          let offset = 20 + unat msgLen in
          bindR (if offset + 8 \<le> length data
                 then bindR (u16_at data offset) (\<lambda>attrType. Ok (attrType = 0x8028))
                 else Ok False) (\<lambda>hasFingerprint.
            let payloadLen = (if hasFingerprint then int (unat msgLen) - 8 else int (unat msgLen)) in
            if int (length data) < 20 + payloadLen then Fail ErrInvalidPacket
            else slice_int data 20 (20 + payloadLen)))))"

end
