(* ===== verification/MaskLaws.thy ===== *)
theory MaskLaws
  imports SimpleMasks
begin

text \<open>
  What a mask owes to the layers above it: \<open>Wrap\<close> always returns, and \<open>Unwrap\<close> of any
  mask of the same kind gives back the payload. The locale \<open>mask_codec\<close> states it, with the
  payloads a format can carry; eleven masks are interpreted in it on their own definitions.
  The stun mask cannot be: its \<open>Wrap\<close> panics.
\<close>

section \<open>The interface\<close>

fun wrap_all ::
  "('m \<Rightarrow> bytes \<Rightarrow> env \<Rightarrow> (bytes \<times> 'm \<times> env) result) \<Rightarrow> 'm \<Rightarrow> bytes list \<Rightarrow> env \<Rightarrow>
     (bytes list \<times> 'm \<times> env) result" where
  "wrap_all wrap m [] e = Ok ([], m, e)"
| "wrap_all wrap m (p # ps) e =
     bindR (wrap m p e) (\<lambda>(pkt, m1, e1).
     bindR (wrap_all wrap m1 ps e1) (\<lambda>(pkts, m2, e2). Ok (pkt # pkts, m2, e2)))"

locale mask_codec =
  fixes wrap :: "'m \<Rightarrow> bytes \<Rightarrow> env \<Rightarrow> (bytes \<times> 'm \<times> env) result"
    and unwrap :: "'m \<Rightarrow> bytes \<Rightarrow> bytes result"
    and inv :: "'m \<Rightarrow> bool"
    and carries :: "bytes \<Rightarrow> bool"
  assumes wrap_codec: "inv m \<Longrightarrow> \<exists>pkt m1 e1. wrap m p e = Ok (pkt, m1, e1) \<and> inv m1 \<and>
    (carries p \<longrightarrow> (\<forall>m2. inv m2 \<longrightarrow> unwrap m2 pkt = Ok p))"
begin

lemma unwrap_wrap:
  "inv m \<Longrightarrow> inv m2 \<Longrightarrow> carries p \<Longrightarrow> wrap m p e = Ok (pkt, m1, e1) \<Longrightarrow> unwrap m2 pkt = Ok p"
  using wrap_codec [of m p e] by auto

lemma wrap_inv: "inv m \<Longrightarrow> wrap m p e = Ok (pkt, m1, e1) \<Longrightarrow> inv m1"
  using wrap_codec [of m p e] by auto

lemma wrap_all_codec:
  assumes "inv m" and "inv m2" and "list_all carries ps"
  shows "\<exists>pkts m1 e1. wrap_all wrap m ps e = Ok (pkts, m1, e1) \<and> inv m1 \<and>
    map (unwrap m2) pkts = map Ok ps"
  using assms(1,3)
proof (induction ps arbitrary: m e)
  case Nil
  then show ?case by simp
next
  case (Cons p ps)
  from wrap_codec [OF Cons.prems(1), of p e] Cons.prems(2) assms(2)
  obtain pkt m1 e1 where p: "wrap m p e = Ok (pkt, m1, e1)" "inv m1" "unwrap m2 pkt = Ok p"
    by auto
  from Cons.IH [OF this(2), of e1] Cons.prems(2)
  obtain pkts m3 e3 where "wrap_all wrap m1 ps e1 = Ok (pkts, m3, e3)" "inv m3"
      "map (unwrap m2) pkts = map Ok ps"
    by auto
  with p show ?case by simp
qed

end

text \<open>A mask whose \<open>Wrap\<close> draws nothing from the environment, in the shape of the interface.\<close>

definition no_env ::
  "('m \<Rightarrow> bytes \<Rightarrow> (bytes \<times> 'm) result) \<Rightarrow> 'm \<Rightarrow> bytes \<Rightarrow> env \<Rightarrow> (bytes \<times> 'm \<times> env) result"
  where "no_env wrap m p e = bindR (wrap m p) (\<lambda>(pkt, m1). Ok (pkt, m1, e))"

definition any_payload :: "bytes \<Rightarrow> bool" where
  "any_payload p \<longleftrightarrow> True"

definition len32 :: "bytes \<Rightarrow> bool" where
  "len32 p \<longleftrightarrow> length p < 4294967296"

definition len16 :: "bytes \<Rightarrow> bool" where
  "len16 p \<longleftrightarrow> length p < 65536"

lemma unat_of_length:
  "len32 p \<Longrightarrow> unat (of_nat (length p) :: u32) = length p"
  "len16 p \<Longrightarrow> unat (of_nat (length p) :: u16) = length p"
  by (simp_all add: len32_def len16_def unat_of_nat)

section \<open>Headers of fixed length\<close>

lemma VK_Wrap_header:
  "\<exists>h. length h = 16 \<and> VK_Wrap v p = Ok (h @ p, v\<lparr>vk_packetNum := vk_packetNum v + 1\<rparr>)"
  unfolding VK_Wrap_def by (rule bind_writes_header) simp

interpretation vk: mask_codec "no_env VK_Wrap" "\<lambda>_. VK_Unwrap" "\<lambda>_. True" any_payload
proof unfold_locales
  fix m :: VKMask and p e
  obtain h where "length h = 16"
      "VK_Wrap m p = Ok (h @ p, m\<lparr>vk_packetNum := vk_packetNum m + 1\<rparr>)"
    using VK_Wrap_header by blast
  then show "\<exists>pkt m1 e1. no_env VK_Wrap m p e = Ok (pkt, m1, e1) \<and> True \<and>
      (any_payload p \<longrightarrow> (\<forall>m2 :: VKMask. True \<longrightarrow> VK_Unwrap pkt = Ok p))"
    by (simp add: no_env_def VK_Unwrap_def go_simps)
qed

lemma Wildberries_Wrap_header:
  "\<exists>h. length h = 20 \<and> Wildberries_Wrap w p =
     Ok (h @ p, w\<lparr>wb_packetNum := wb_packetNum w + 1\<rparr>)"
  unfolding Wildberries_Wrap_def Let_def by (rule bind_writes_header) simp

interpretation wildberries: mask_codec "no_env Wildberries_Wrap" "\<lambda>_. Wildberries_Unwrap"
  "\<lambda>_. True" any_payload
proof unfold_locales
  fix m :: WildberriesMask and p e
  obtain h where "length h = 20"
      "Wildberries_Wrap m p = Ok (h @ p, m\<lparr>wb_packetNum := wb_packetNum m + 1\<rparr>)"
    using Wildberries_Wrap_header by blast
  then show "\<exists>pkt m1 e1. no_env Wildberries_Wrap m p e = Ok (pkt, m1, e1) \<and> True \<and>
      (any_payload p \<longrightarrow> (\<forall>m2 :: WildberriesMask. True \<longrightarrow> Wildberries_Unwrap pkt = Ok p))"
    by (simp add: no_env_def Wildberries_Unwrap_def go_simps)
qed

text \<open>The three masks that also read the clock keep the header's length and the payload.\<close>

lemma Gosuslugi_Wrap_header:
  "\<exists>h m1 e1. length h = 32 \<and> Gosuslugi_Wrap g p e = Ok (h @ p, m1, e1)"
proof -
  have "\<exists>h. length h = 32 \<and> Gosuslugi_Wrap g p e =
      Ok (h @ p, g\<lparr>gos_requestID := gos_requestID g + 1,
        gos_timestamp := unix32 (fst (read_clock e))\<rparr>, snd (read_clock e))"
    unfolding Gosuslugi_Wrap_def Let_def case_prod_beta by (rule bind_writes_header) simp
  then show ?thesis by blast
qed

lemma Ozon_Wrap_header:
  "\<exists>h m1 e1. length h = 24 \<and> Ozon_Wrap z p e = Ok (h @ p, m1, e1)"
proof -
  have "\<exists>h. length h = 24 \<and> Ozon_Wrap z p e =
      Ok (h @ p, z\<lparr>oz_sequence := oz_sequence z + 1,
        oz_timestamp := unix32 (fst (read_clock e))\<rparr>, snd (read_clock e))"
    unfolding Ozon_Wrap_def Let_def case_prod_beta by (rule bind_writes_header) simp
  then show ?thesis by blast
qed

lemma SberID_Wrap_header:
  "\<exists>h m1 e1. length h = 32 \<and> SberID_Wrap s p e = Ok (h @ p, m1, e1)"
proof -
  have "\<exists>h. length h = 32 \<and> SberID_Wrap s p e =
      Ok (h @ p, s\<lparr>sb_requestID := sb_requestID s + 1,
        sb_timestamp := unix32 (fst (read_clock e))\<rparr>, snd (read_clock e))"
    unfolding SberID_Wrap_def Let_def case_prod_beta by (rule bind_writes_header) simp
  then show ?thesis by blast
qed

interpretation gosuslugi: mask_codec Gosuslugi_Wrap "\<lambda>_. Gosuslugi_Unwrap" "\<lambda>_. True" any_payload
proof unfold_locales
  fix m :: GosuslugiMask and p e
  show "\<exists>pkt m1 e1. Gosuslugi_Wrap m p e = Ok (pkt, m1, e1) \<and> True \<and>
      (any_payload p \<longrightarrow> (\<forall>m2 :: GosuslugiMask. True \<longrightarrow> Gosuslugi_Unwrap pkt = Ok p))"
    using Gosuslugi_Wrap_header [of m p e] by (auto simp: Gosuslugi_Unwrap_def go_simps)
qed

interpretation ozon: mask_codec Ozon_Wrap "\<lambda>_. Ozon_Unwrap" "\<lambda>_. True" any_payload
proof unfold_locales
  fix m :: OzonMask and p e
  show "\<exists>pkt m1 e1. Ozon_Wrap m p e = Ok (pkt, m1, e1) \<and> True \<and>
      (any_payload p \<longrightarrow> (\<forall>m2 :: OzonMask. True \<longrightarrow> Ozon_Unwrap pkt = Ok p))"
    using Ozon_Wrap_header [of m p e] by (auto simp: Ozon_Unwrap_def go_simps)
qed

interpretation sberid: mask_codec SberID_Wrap "\<lambda>_. SberID_Unwrap" "\<lambda>_. True" any_payload
proof unfold_locales
  fix m :: SberIDMask and p e
  show "\<exists>pkt m1 e1. SberID_Wrap m p e = Ok (pkt, m1, e1) \<and> True \<and>
      (any_payload p \<longrightarrow> (\<forall>m2 :: SberIDMask. True \<longrightarrow> SberID_Unwrap pkt = Ok p))"
    using SberID_Wrap_header [of m p e] by (auto simp: SberID_Unwrap_def go_simps)
qed

text \<open>Yandex copies header and payload into one buffer.\<close>

lemma join_buffer:
  "writes (make_buf (n + length p)) [CopyFrom 0 h, CopyFrom n p] = Ok (h @ p)"
  if "length h = n"
  using that by (simp add: buf_simps)

lemma Yandex_Wrap_header:
  "\<exists>h m1 e1. length h = 38 \<and> Yandex_Wrap y p e = Ok (h @ p, m1, e1)"
proof -
  let ?y = "y\<lparr>ya_sequence := ya_sequence y + 1\<rparr>"
  have "\<exists>h. length h = 38 \<and> Yandex_Wrap y p e =
      bindR (writes (make_buf (38 + length p)) [CopyFrom 0 h, CopyFrom 38 p]) (\<lambda>result.
        Ok (result, ?y, snd (read_clock e)))"
    unfolding Yandex_Wrap_def Let_def case_prod_beta by (rule bind_writes_header) simp
  then obtain h where "length h = 38" "Yandex_Wrap y p e =
      bindR (writes (make_buf (38 + length p)) [CopyFrom 0 h, CopyFrom 38 p]) (\<lambda>result.
        Ok (result, ?y, snd (read_clock e)))"
    by blast
  then show ?thesis by (simp only: join_buffer) auto
qed

interpretation yandex: mask_codec Yandex_Wrap "\<lambda>_. Yandex_Unwrap" "\<lambda>_. True" any_payload
proof unfold_locales
  fix m :: YandexMask and p e
  show "\<exists>pkt m1 e1. Yandex_Wrap m p e = Ok (pkt, m1, e1) \<and> True \<and>
      (any_payload p \<longrightarrow> (\<forall>m2 :: YandexMask. True \<longrightarrow> Yandex_Unwrap pkt = Ok p))"
    using Yandex_Wrap_header [of m p e] by (auto simp: Yandex_Unwrap_def go_simps)
qed

section \<open>Headers with lengths and padding\<close>

text \<open>RuTube: the random byte chooses the padding, the header records both lengths.\<close>

definition rutube_inv :: "RuTubeMask \<Rightarrow> bool" where
  "rutube_inv r \<longleftrightarrow> length (rt_magicBytes r) = 2"

lemma RuTube_Wrap_packet:
  assumes "rutube_inv r"
  shows "\<exists>h pad e1. RuTube_Wrap r p e = Ok (h @ be32 (of_nat (length p)) @ be16 (if 0 < length pad then 1 else 0) @
      be16 (of_nat (length pad)) @ p @ pad, r\<lparr>rt_chunkID := rt_chunkID r + 1\<rparr>, e1) \<and>
    length h = 16 \<and> h ! 2 = 0 \<and> length pad < 32"
proof -
  from assms obtain a b where m: "rt_magicBytes r = [a, b]"
    by (auto simp: rutube_inv_def length_Suc_conv numeral_2_eq_2)
  define k where "k = (if rt_usePadding r then unat (hd (fst (draw 1 e))) mod 32 else 0)"
  define e1 where "e1 = (if rt_usePadding r then snd (draw 1 e) else e)"
  define pad where "pad = (if 0 < k then fst (draw k e1) else [])"
  define e2 where "e2 = (if 0 < k then snd (draw k e1) else e1)"
  have pad: "length pad = k" "k < 32" by (simp_all add: pad_def k_def)
  let ?h = "[a, b, 0, 1] @ be32 (rt_chunkID r) @ be64 (rt_sessionID r)"
  have "RuTube_Wrap r p e = Ok (?h @ be32 (of_nat (length p)) @ be16 (if 0 < k then 1 else 0) @
      be16 (of_nat k) @ p @ pad, r\<lparr>rt_chunkID := rt_chunkID r + 1\<rparr>, e2)"
    unfolding RuTube_Wrap_def Let_def case_prod_beta m k_def [symmetric] e1_def [symmetric]
    by (cases "rt_usePadding r")
      (simp_all add: index_def buf_simps pad_def e2_def k_def e1_def)
  with pad show ?thesis
    by (intro exI [of _ ?h] exI [of _ pad] exI [of _ e2]) simp
qed

lemma RuTube_Unwrap_packet:
  assumes "length h = 16" "length pad < 32" "len32 p"
  shows "RuTube_Unwrap (h @ be32 (of_nat (length p)) @ be16 f @ be16 (of_nat (length pad)) @
    p @ pad) = Ok p"
proof -
  have "unat (of_nat (length pad) :: u16) = length pad"
    using assms(2) by (intro unat_of_length) (simp add: len16_def)
  then show ?thesis
    using assms unat_of_length(1) [OF assms(3)]
    by (simp add: RuTube_Unwrap_def go_simps)
qed

interpretation rutube: mask_codec RuTube_Wrap "\<lambda>_. RuTube_Unwrap" rutube_inv len32
proof unfold_locales
  fix m p e assume "rutube_inv m"
  then show "\<exists>pkt m1 e1. RuTube_Wrap m p e = Ok (pkt, m1, e1) \<and> rutube_inv m1 \<and>
      (len32 p \<longrightarrow> (\<forall>m2. rutube_inv m2 \<longrightarrow> RuTube_Unwrap pkt = Ok p))"
    using RuTube_Wrap_packet [of m p e] RuTube_Unwrap_packet
    by (auto simp: rutube_inv_def)
qed

text \<open>Zoom: both ends must agree on the \<open>encrypted\<close> flag, which \<open>NewZoomMask\<close> sets.\<close>

definition zoom_inv :: "ZoomMask \<Rightarrow> bool" where
  "zoom_inv z \<longleftrightarrow> zm_encrypted z"

lemma Zoom_Wrap_packet:
  assumes "zoom_inv z"
  shows "\<exists>h z1 e1. Zoom_Wrap z p e = Ok (h @ p, z1, e1) \<and> length h = 22 \<and> zoom_inv z1"
proof -
  let ?h = "be64 (zm_meetingID z) @ be32 (zm_userID z) @ be32 (zm_timestamp z) @
    be16 (zm_sequence z) @ fst (draw 4 e)"
  have "writes (make_buf (22 + length p))
      ([PutU64 0 (zm_meetingID z), PutU32 8 (zm_userID z), PutU32 12 (zm_timestamp z),
        PutU16 16 (zm_sequence z)] @ [CopyTo 18 22 (fst (draw 4 e))] @ [CopyFrom 22 p]) =
      Ok (?h @ p)"
    by (simp add: buf_simps)
  then show ?thesis
    using assms by (intro exI [of _ ?h]) (simp add: Zoom_Wrap_def zoom_inv_def case_prod_beta Let_def)
qed

interpretation zoom: mask_codec Zoom_Wrap Zoom_Unwrap zoom_inv any_payload
proof unfold_locales
  fix m p e assume "zoom_inv m"
  then show "\<exists>pkt m1 e1. Zoom_Wrap m p e = Ok (pkt, m1, e1) \<and> zoom_inv m1 \<and>
      (any_payload p \<longrightarrow> (\<forall>m2. zoom_inv m2 \<longrightarrow> Zoom_Unwrap m2 pkt = Ok p))"
    using Zoom_Wrap_packet [of m p e]
    by (auto simp: Zoom_Unwrap_def zoom_inv_def go_simps)
qed

text \<open>Teams: padding after the payload, found again by the recorded length.\<close>

lemma Teams_Wrap_packet:
  "\<exists>h k pad e1. Teams_Wrap t p e = Ok (h @ be32 (of_nat (length p)) @ k @ p @ pad,
      t\<lparr>tm_sequence := tm_sequence t + 1\<rparr>, e1) \<and> length h = 16 \<and> length k = 8 \<and>
    length pad < 64"
proof -
  define e1 where "e1 = snd (draw 8 e)"
  define k where "k = (if length p < 1400 then unat (hd (fst (draw 1 e1))) mod 64 else 0)"
  define e2 where "e2 = (if length p < 1400 then snd (draw 1 e1) else e1)"
  define pad where "pad = (if length p < 1400 then fst (draw k e2) else [])"
  define e3 where "e3 = (if length p < 1400 then snd (draw k e2) else e2)"
  have pad: "length pad < 64" by (simp add: pad_def k_def)
  let ?h = "be64 (tm_conferenceID t) @ be32 (tm_participantID t) @ be32 (tm_sequence t)"
  have "writes (make_buf (28 + length p))
      [PutU64 0 (tm_conferenceID t), PutU32 8 (tm_participantID t), PutU32 12 (tm_sequence t),
       PutU32 16 (of_nat (length p)), CopyTo 20 28 (fst (draw 8 e)), CopyFrom 28 p] =
      Ok (?h @ be32 (of_nat (length p)) @ fst (draw 8 e) @ p)"
    by (simp add: buf_simps)
  then have "Teams_Wrap t p e = Ok (?h @ be32 (of_nat (length p)) @ fst (draw 8 e) @ p @ pad,
      t\<lparr>tm_sequence := tm_sequence t + 1\<rparr>, e3)"
    by (simp add: Teams_Wrap_def case_prod_beta Let_def k_def e1_def e2_def e3_def pad_def)
  with pad show ?thesis
    by (intro exI [of _ ?h] exI [of _ "fst (draw 8 e)"] exI [of _ pad] exI [of _ e3]) simp
qed

interpretation teams: mask_codec Teams_Wrap "\<lambda>_. Teams_Unwrap" "\<lambda>_. True" len32
proof unfold_locales
  fix m :: TeamsMask and p e
  show "\<exists>pkt m1 e1. Teams_Wrap m p e = Ok (pkt, m1, e1) \<and> True \<and>
      (len32 p \<longrightarrow> (\<forall>m2 :: TeamsMask. True \<longrightarrow> Teams_Unwrap pkt = Ok p))"
    using Teams_Wrap_packet [of m p e]
    by (auto simp: Teams_Unwrap_def go_simps unat_of_length)
qed

text \<open>WinUpdate: the checksum of the payload is checked.\<close>

lemma WinUpdate_Wrap_packet:
  "WinUpdate_Wrap w p = Ok (be64 (wu_sessionID w) @ be32 (wu_updateID w) @
    be32 (of_nat (length p)) @ be16 (calcCRC p) @ p, w)"
  by (simp add: WinUpdate_Wrap_def buf_simps)

lemma WinUpdate_Unwrap_packet:
  assumes "len32 p"
  shows "WinUpdate_Unwrap (be64 s @ be32 u @ be32 (of_nat (length p)) @ be16 c @ p) =
    (if c = calcCRC p then Ok p else Fail ErrCorruptedData)"
  using assms by (simp add: WinUpdate_Unwrap_def go_simps unat_of_length)

interpretation winupdate: mask_codec "no_env WinUpdate_Wrap" "\<lambda>_. WinUpdate_Unwrap"
  "\<lambda>_. True" len32
  by unfold_locales
    (simp add: no_env_def WinUpdate_Wrap_packet WinUpdate_Unwrap_packet)

section \<open>Browser\<close>

text \<open>
  The session id leads the packet, and \<open>Unwrap\<close> first looks for a TLS record there: an id
  that starts with the bytes 16 03 is taken for one.
\<close>

definition browser_inv :: "BrowserMask \<Rightarrow> bool" where
  "browser_inv b \<longleftrightarrow> \<not> looks_like_tls (be64 (br_sessionID b))"

lemma Browser_Wrap_packet:
  "\<exists>pad e1. Browser_Wrap b p e = Ok (be64 (br_sessionID b) @ be32 (br_packetNum b) @
      be16 (of_nat (length p)) @ p @ pad, b\<lparr>br_packetNum := br_packetNum b + 1\<rparr>, e1)"
proof (cases "looks_like_tls p")
  case True
  then show ?thesis by (simp add: Browser_Wrap_def buf_simps)
next
  case False
  define k where "k = (if length p < 1400 then unat (hd (fst (draw 1 e))) mod 32 else 0)"
  define e1 where "e1 = (if length p < 1400 then snd (draw 1 e) else e)"
  define pad where "pad = (if 0 < k then fst (draw k e1) else [])"
  define e2 where "e2 = (if 0 < k then snd (draw k e1) else e1)"
  have "Browser_Wrap b p e = Ok (be64 (br_sessionID b) @ be32 (br_packetNum b) @
      be16 (of_nat (length p)) @ p @ pad, b\<lparr>br_packetNum := br_packetNum b + 1\<rparr>, e2)"
    using False unfolding Browser_Wrap_def Let_def case_prod_beta
    by (cases "length p < 1400") (simp_all add: buf_simps k_def e1_def pad_def e2_def)
  then show ?thesis by blast
qed

lemma looks_like_tls_prefix:
  "5 \<le> length h \<Longrightarrow> looks_like_tls (h @ r) = looks_like_tls h"
  by (auto simp: looks_like_tls_def nth_append)

lemma Browser_Unwrap_packet:
  assumes "\<not> looks_like_tls (be64 sid)" and "len16 p"
  shows "Browser_Unwrap (be64 sid @ be32 n @ be16 (of_nat (length p)) @ p @ pad) = Ok p"
  using assms
  by (simp add: Browser_Unwrap_def looks_like_tls_prefix go_simps unat_of_length)

lemma Browser_Unwrap_shadowed:
  assumes "looks_like_tls (be64 sid)"
  shows "Browser_Unwrap (be64 sid @ be32 n @ be16 l @ r) = Ok (be64 sid @ be32 n @ be16 l @ r)"
  using assms by (simp add: Browser_Unwrap_def looks_like_tls_prefix)

interpretation browser: mask_codec Browser_Wrap "\<lambda>_. Browser_Unwrap" browser_inv len16
proof unfold_locales
  fix m p e assume inv: "browser_inv m"
  obtain pad e1 where "Browser_Wrap m p e = Ok (be64 (br_sessionID m) @ be32 (br_packetNum m) @
      be16 (of_nat (length p)) @ p @ pad, m\<lparr>br_packetNum := br_packetNum m + 1\<rparr>, e1)"
    using Browser_Wrap_packet by blast
  with inv show "\<exists>pkt m1 e1. Browser_Wrap m p e = Ok (pkt, m1, e1) \<and> browser_inv m1 \<and>
      (len16 p \<longrightarrow> (\<forall>m2. browser_inv m2 \<longrightarrow> Browser_Unwrap pkt = Ok p))"
    by (simp add: browser_inv_def Browser_Unwrap_packet)
qed

section \<open>STUN\<close>

lemma STUN_Wrap_fingerprint_panics:
  assumes "st_useFingerprint s"
  shows "STUN_Wrap s p = Panic"
proof -
  have "\<not> list_all (fits (length buf)) [PutU32 (24 + length p) v]"
    if "length buf = 24 + length p" for buf v
    using that by simp
  then have last: "writes buf [PutU32 (24 + length p) v] = Panic"
    if "length buf = 24 + length p" for buf v
    using that writes_panic_iff by blast
  have all: "list_all (fits (24 + length p))
      [PutU16 0 1, PutU16 2 (of_nat (length p)), PutU32 4 (st_magicCookie s),
       CopyTo 8 20 (st_transactionID s), CopyTo 20 (20 + length p) p]"
    "list_all (fits (24 + length p)) [PutU16 (20 + length p) 0x8028, PutU16 (22 + length p) 4]"
    by simp_all
  obtain b where b: "length b = 24 + length p" "writes (make_buf (24 + length p))
      [PutU16 0 1, PutU16 2 (of_nat (length p)), PutU32 4 (st_magicCookie s),
       CopyTo 8 20 (st_transactionID s), CopyTo 20 (20 + length p) p] = Ok b"
    using writes_fit [of "make_buf (24 + length p)"] all(1) by (metis length_make_buf)
  obtain b1 where b1: "length b1 = 24 + length p"
      "writes b [PutU16 (20 + length p) 0x8028, PutU16 (22 + length p) 4] = Ok b1"
    using writes_fit [of b] all(2) b(1) by metis
  have "20 + length p + 4 = 24 + length p" "20 + length p + 2 = 22 + length p" by simp_all
  with assms b b1 last show ?thesis
    by (simp add: STUN_Wrap_def Let_def slice_ok del: writes.simps)
qed

lemma STUN_plain_round_trip:
  assumes "\<not> st_useFingerprint s" and "length (st_transactionID s) = 12" and "len16 p"
  shows "\<exists>pkt. STUN_Wrap s p = Ok pkt \<and> STUN_Unwrap pkt = Ok p"
proof -
  let ?pkt = "be16 1 @ be16 (of_nat (length p)) @ be32 (st_magicCookie s) @
    st_transactionID s @ p"
  have "STUN_Wrap s p = Ok ?pkt"
    using assms(1,2) by (simp add: STUN_Wrap_def buf_simps)
  moreover have "STUN_Unwrap ?pkt = Ok p"
    using assms(2,3) by (simp add: STUN_Unwrap_def go_simps unat_of_length slice_int_def nat_add_distrib)
  ultimately show ?thesis by blast
qed

text \<open>Exactly which inputs make \<open>Unwrap\<close> panic.\<close>

lemma STUN_Unwrap_panic_iff:
  "STUN_Unwrap data = Panic \<longleftrightarrow>
     (let n = unat (de16 (take 2 (drop 2 data))) in
      n < 8 \<and> 28 + n \<le> length data \<and> de16 (take 2 (drop (20 + n) data)) = 0x8028)"
proof (cases "length data < 20")
  case True
  then show ?thesis by (simp add: STUN_Unwrap_def Let_def)
next
  case False
  define n where "n = unat (de16 (take 2 (drop 2 data)))"
  have "STUN_Unwrap data =
      (let has = (28 + n \<le> length data \<and> de16 (take 2 (drop (20 + n) data)) = 0x8028);
           k = (if has then int n - 8 else int n) in
       if int (length data) < 20 + k then Fail ErrInvalidPacket
       else slice_int data 20 (20 + k))"
    using False by (simp add: STUN_Unwrap_def go_simps Let_def n_def)
  then show ?thesis
    using False unfolding n_def [symmetric]
    by (auto simp: Let_def slice_int_def slice_def split: if_splits)
qed

end
