(* ===== verification/HttpMasks.thy ===== *)
theory HttpMasks
  imports MaskLaws
begin

text \<open>
  The masks that dress the payload as web traffic: \<open>dns_over_https.go\<close>, the HTTP/2 frames
  of \<open>http2.go\<close> and the TLS session of \<open>tls.go\<close>; and \<open>selector.go\<close>, which picks a mask
  for a domain.
\<close>

section \<open>Text of an HTTP request\<close>

fun find_sub :: "'a list \<Rightarrow> 'a list \<Rightarrow> nat option" where
  "find_sub pat [] = (if pat = [] then Some 0 else None)"
| "find_sub pat (x # xs) =
     (if take (length pat) (x # xs) = pat then Some 0 else map_option Suc (find_sub pat xs))"

fun decimal :: "nat \<Rightarrow> string" where
  "decimal n = (if n < 10 then [char_of (48 + n)] else decimal (n div 10) @ [char_of (48 + n mod 10)])"

declare decimal.simps [simp del]

definition zero_pad :: "nat \<Rightarrow> nat \<Rightarrow> string" where
  "zero_pad w n = (let d = decimal n in replicate (w - length d) (CHR ''0'') @ d)"

text \<open>The proleptic Gregorian date of a day counted from 1970-01-01, as package time has it.\<close>

definition civil :: "int \<Rightarrow> nat \<times> nat \<times> nat" where
  "civil days =
     (let z = days + 719468;
          era = z div 146097;
          doe = z mod 146097;
          yoe = (doe - doe div 1460 + doe div 36524 - doe div 146096) div 365;
          doy = doe - (365 * yoe + yoe div 4 - yoe div 100);
          mp = (5 * doy + 2) div 153;
          d = doy - (153 * mp + 2) div 5 + 1;
          m = (if mp < 10 then mp + 3 else mp - 9);
          y = yoe + era * 400 + (if m \<le> 2 then 1 else 0)
      in (nat y, nat m, nat d))"

definition weekday_names :: "string list" where
  "weekday_names = [''Thu'', ''Fri'', ''Sat'', ''Sun'', ''Mon'', ''Tue'', ''Wed'']"

definition month_names :: "string list" where
  "month_names = [''Jan'', ''Feb'', ''Mar'', ''Apr'', ''May'', ''Jun'',
     ''Jul'', ''Aug'', ''Sep'', ''Oct'', ''Nov'', ''Dec'']"

fun nth_name :: "string list \<Rightarrow> nat \<Rightarrow> string" where
  "nth_name [] n = []"
| "nth_name (s # ss) 0 = s"
| "nth_name (s # ss) (Suc n) = nth_name ss n"

definition http_date :: "instant \<Rightarrow> string" where
  "http_date t =
     (let s = t div second;
          days = s div 86400;
          r = nat (s mod 86400);
          (y, m, d) = civil days
      in nth_name weekday_names (nat (days mod 7)) @ '', '' @ zero_pad 2 d @ '' '' @
         nth_name month_names (m - 1) @ '' '' @ zero_pad 4 y @ '' '' @
         zero_pad 2 (r div 3600) @ '':'' @ zero_pad 2 (r div 60 mod 60) @ '':'' @
         zero_pad 2 (r mod 60) @ '' GMT'')"

section \<open>DNS over HTTPS\<close>

record DNSOverHTTPSMask =
  doh_queryID :: u16
  doh_random :: bytes

definition NewDNSOverHTTPSMask :: "env \<Rightarrow> DNSOverHTTPSMask \<times> env" where
  "NewDNSOverHTTPSMask e =
     (let (random, e1) = draw 32 e in (\<lparr>doh_queryID = 0, doh_random = random\<rparr>, e1))"

definition crlf :: bytes where
  "crlf = [13, 10]"

definition doh_lines :: "nat \<Rightarrow> instant \<Rightarrow> bytes list" where
  "doh_lines n t =
     [marker ''POST /dns-query HTTP/2'',
      marker ''Host: dns.google'',
      marker ''Content-Type: application/dns-message'',
      marker (''Content-Length: '' @ decimal n),
      marker (''Date: '' @ http_date t)]"

definition DoH_Wrap ::
  "DNSOverHTTPSMask \<Rightarrow> bytes \<Rightarrow> env \<Rightarrow> (bytes \<times> DNSOverHTTPSMask \<times> env) result" where
  "DoH_Wrap d payload e =
     (let d1 = d\<lparr>doh_queryID := doh_queryID d + 1\<rparr> in
      bindR (writes (make_buf (12 + length payload))
          [PutU16 0 (doh_queryID d1),
           PutU16 2 0x0100,
           PutU16 4 1,
           PutU16 6 0,
           PutU16 8 0,
           PutU16 10 0,
           CopyFrom 12 payload]) (\<lambda>dnsMsg.
        let (t, e1) = read_clock e in
        Ok (concat (map (\<lambda>l. l @ crlf) (doh_lines (length dnsMsg) t)) @ crlf @ dnsMsg, d1, e1)))"

definition DoH_Unwrap :: "bytes \<Rightarrow> bytes result" where
  "DoH_Unwrap data =
     (case find_sub (crlf @ crlf) data of
        None \<Rightarrow> Fail ErrInvalidPacket
      | Some idx \<Rightarrow>
          bindR (slice_from data (idx + 4)) (\<lambda>body.
            if length body < 12 then Fail ErrInvalidPacket else slice_from body 12))"

section \<open>HTTP/2 frames\<close>

definition h2_frame :: "u32 \<Rightarrow> byte \<Rightarrow> byte \<Rightarrow> u32 \<Rightarrow> bytes \<Rightarrow> bytes result" where
  "h2_frame len24 typ flags streamID payload =
     writes (make_buf (9 + length payload))
       [PutU24 0 len24, SetByte 3 typ, SetByte 4 flags, PutU32 5 streamID, CopyFrom 9 payload]"

definition NewHTTP2SettingsFrame :: "bytes result" where
  "NewHTTP2SettingsFrame =
     bindR (writes (make_buf 12) [PutU16 0 4, PutU32 2 65535, PutU16 6 6, PutU32 8 16384])
       (\<lambda>payload. h2_frame (of_nat (length payload)) 4 0 0 payload)"

definition NewHTTP2WindowUpdateFrame :: "u32 \<Rightarrow> u32 \<Rightarrow> bytes result" where
  "NewHTTP2WindowUpdateFrame streamID increment =
     bindR (writes (make_buf 4) [PutU32 0 increment]) (\<lambda>payload. h2_frame 4 8 0 streamID payload)"

definition NewHTTP2PingFrame :: "env \<Rightarrow> (bytes \<times> env) result" where
  "NewHTTP2PingFrame e =
     (let (payload, e1) = draw 8 e in bindR (h2_frame 8 6 0 0 payload) (\<lambda>f. Ok (f, e1)))"

definition NewHTTP2HeadersFrame :: "u32 \<Rightarrow> bytes \<Rightarrow> bool \<Rightarrow> bytes result" where
  "NewHTTP2HeadersFrame streamID headers endStream =
     h2_frame (of_nat (length headers)) 1 (if endStream then 4 OR 1 else 4) streamID headers"

definition NewHTTP2DataFrame :: "u32 \<Rightarrow> bytes \<Rightarrow> bool \<Rightarrow> bytes result" where
  "NewHTTP2DataFrame streamID data endStream =
     h2_frame (of_nat (length data)) 0 (if endStream then 0 OR 1 else 0) streamID data"

definition NewHTTP2GoAwayFrame :: "u32 \<Rightarrow> u32 \<Rightarrow> bytes result" where
  "NewHTTP2GoAwayFrame lastStreamID errorCode =
     bindR (writes (make_buf 8) [PutU32 0 lastStreamID, PutU32 4 errorCode])
       (\<lambda>payload. h2_frame 8 7 0 0 payload)"

definition GenerateHTTP2Preface :: bytes where
  "GenerateHTTP2Preface = marker ''PRI * HTTP/2.0'' @ crlf @ crlf @ marker ''SM'' @ crlf @ crlf"

section \<open>The TLS mask\<close>

text \<open>
  \<open>handshakeStep\<close> counts the handshake records sent; after six of them every \<open>Wrap\<close> sends
  an application data record.
\<close>

record TLSMask =
  tls_sequence :: u16
  tls_sni :: bytes
  tls_cert :: bytes
  tls_handshakeDone :: bool
  tls_handshakeStep :: nat
  tls_sessionID :: bytes
  tls_http2StreamID :: u32
  tls_http2Initialized :: bool

definition generateFakeCert :: "env \<Rightarrow> (bytes \<times> env) result" where
  "generateFakeCert e =
     (let (rnd, e1) = draw 1024 e in
      bindR (writes (make_buf 1024)
          [CopyTo 0 1024 rnd, SetByte 0 0x30, SetByte 1 0x82, PutU16 2 1000]) (\<lambda>cert.
        Ok (cert, e1)))"

definition loadRealCert :: "TLSMask \<Rightarrow> env \<Rightarrow> (TLSMask \<times> env) result" where
  "loadRealCert t e0 =
     (let (peer_certs, e) = read_dial e0 in
      case peer_certs of
        None \<Rightarrow> bindR (generateFakeCert e) (\<lambda>(c, e1). Ok (t\<lparr>tls_cert := c\<rparr>, e1))
      | Some [] \<Rightarrow> bindR (generateFakeCert e) (\<lambda>(c, e1). Ok (t\<lparr>tls_cert := c\<rparr>, e1))
      | Some (raw # _) \<Rightarrow> Ok (t\<lparr>tls_cert := raw\<rparr>, e))"

definition NewTLSMask :: "env \<Rightarrow> (TLSMask \<times> env) result" where
  "NewTLSMask e =
     (let (sid, e1) = draw 32 e in
      loadRealCert
        \<lparr>tls_sequence = 0, tls_sni = marker ''www.google.com'', tls_cert = [],
         tls_handshakeDone = False, tls_handshakeStep = 0, tls_sessionID = sid,
         tls_http2StreamID = 1, tls_http2Initialized = False\<rparr> e1)"

definition tls_count :: "TLSMask \<Rightarrow> TLSMask" where
  "tls_count t = t\<lparr>tls_sequence := tls_sequence t + 1\<rparr>"

definition tls_simulateClientHello :: "TLSMask \<Rightarrow> env \<Rightarrow> (bytes \<times> TLSMask \<times> env) result" where
  "tls_simulateClientHello t e =
     (let (rnd, e1) = draw 32 e; sniLen = 2 + length (tls_sni t) in
      bindR (writes (make_buf 200)
          [SetByte 0 0x16, SetByte 1 3, SetByte 2 3, PutU16 3 195,
           SetByte 5 1, PutU24 6 191, SetByte 9 3, SetByte 10 3,
           CopyTo 11 43 rnd,
           SetByte 43 32, CopyTo 44 76 (tls_sessionID t),
           PutU16 76 2, PutU16 78 0xC02F, SetByte 80 1, SetByte 81 0,
           PutU16 82 2, PutU16 84 0, PutU16 86 (of_nat sniLen),
           PutU16 88 (of_nat (length (tls_sni t))),
           CopyTo 90 (90 + length (tls_sni t)) (tls_sni t)]) (\<lambda>buf.
        bindR (slice buf 0 (90 + length (tls_sni t))) (\<lambda>hello. Ok (hello, tls_count t, e1))))"

definition tls_simulateServerHello :: "TLSMask \<Rightarrow> env \<Rightarrow> (bytes \<times> TLSMask \<times> env) result" where
  "tls_simulateServerHello t e =
     (let (rnd, e1) = draw 32 e in
      bindR (writes (make_buf 79)
          [SetByte 0 0x16, SetByte 1 3, SetByte 2 3, PutU16 3 58,
           SetByte 5 2, PutU24 6 54, SetByte 9 3, SetByte 10 3,
           CopyTo 11 43 rnd, SetByte 43 32, CopyTo 44 76 (tls_sessionID t),
           PutU16 76 0xC02F, SetByte 78 0]) (\<lambda>buf.
        Ok (buf, tls_count t, e1)))"

definition tls_simulateCertificate :: "TLSMask \<Rightarrow> (bytes \<times> TLSMask) result" where
  "tls_simulateCertificate t =
     (let certLen = length (tls_cert t) in
      bindR (writes (make_buf (15 + certLen))
          [SetByte 0 0x16, SetByte 1 3, SetByte 2 3, PutU16 3 (of_nat (9 + certLen)),
           SetByte 5 0x0B, PutU24 6 (of_nat (5 + certLen)),
           PutU24 9 (of_nat certLen), PutU24 12 (of_nat certLen),
           CopyTo 15 (15 + certLen) (tls_cert t)]) (\<lambda>buf.
        Ok (buf, tls_count t)))"

definition tls_simulateServerKeyExchange ::
  "TLSMask \<Rightarrow> env \<Rightarrow> (bytes \<times> TLSMask \<times> env) result" where
  "tls_simulateServerKeyExchange t e =
     (let (rnd, e1) = draw 132 e in
      bindR (writes (make_buf 141)
          [SetByte 0 0x16, SetByte 1 3, SetByte 2 3, PutU16 3 140,
           SetByte 5 0x0C, PutU24 6 136, CopyTo 9 141 rnd]) (\<lambda>buf.
        Ok (buf, tls_count t, e1)))"

definition tls_simulateClientKeyExchange ::
  "TLSMask \<Rightarrow> env \<Rightarrow> (bytes \<times> TLSMask \<times> env) result" where
  "tls_simulateClientKeyExchange t e =
     (let (rnd, e1) = draw 36 e in
      bindR (writes (make_buf 45)
          [SetByte 0 0x16, SetByte 1 3, SetByte 2 3, PutU16 3 40,
           SetByte 5 0x10, PutU24 6 36, CopyTo 9 45 rnd]) (\<lambda>buf.
        Ok (buf, tls_count t, e1)))"

definition tls_simulateChangeCipherSpec :: "TLSMask \<Rightarrow> (bytes \<times> TLSMask) result" where
  "tls_simulateChangeCipherSpec t =
     bindR (writes (make_buf 6)
         [SetByte 0 0x14, SetByte 1 3, SetByte 2 3, PutU16 3 1, SetByte 5 1]) (\<lambda>buf.
       Ok (buf, tls_count t))"

definition tls_simulateHandshake :: "TLSMask \<Rightarrow> env \<Rightarrow> (bytes \<times> TLSMask \<times> env) result" where
  "tls_simulateHandshake t0 e =
     (let t = t0\<lparr>tls_handshakeStep := tls_handshakeStep t0 + 1\<rparr>; step = tls_handshakeStep t in
      if step = 1 then tls_simulateClientHello t e
      else if step = 2 then tls_simulateServerHello t e
      else if step = 3 then bindR (tls_simulateCertificate t) (\<lambda>(p, t1). Ok (p, t1, e))
      else if step = 4 then tls_simulateServerKeyExchange t e
      else if step = 5 then tls_simulateClientKeyExchange t e
      else bindR (tls_simulateChangeCipherSpec t) (\<lambda>(p, t1). Ok (p, t1, e)))"

definition wrapInTLSRecord :: "bytes \<Rightarrow> bytes result" where
  "wrapInTLSRecord data =
     writes (make_buf (5 + length data))
       [SetByte 0 0x17, SetByte 1 3, SetByte 2 3, PutU16 3 (of_nat (length data)), CopyFrom 5 data]"

definition generateHTTP2Headers :: "env \<Rightarrow> (bytes \<times> env) result" where
  "generateHTTP2Headers e =
     (let (rnd, e1) = draw 8 e in
      bindR (writes
          [0x82, 0x84, 0x87, 0x41, 0x8c, 0xf1, 0xe3, 0xc0,
           0x5f, 0x0a, 0x83, 0xce, 0x65, 0x0f, 0x8b, 0x9a,
           0x10, 0x3c, 0x2d, 0x4b, 0x1a, 0x0f, 0x8b, 0x9a]
          [CopyFrom 16 rnd]) (\<lambda>headers. Ok (headers, e1)))"

definition tls_send :: "TLSMask \<Rightarrow> bytes \<Rightarrow> env \<Rightarrow> (bytes \<times> TLSMask \<times> env) result" where
  "tls_send t http2Data e =
     bindR (wrapInTLSRecord http2Data) (\<lambda>rec.
       Ok (rec, t\<lparr>tls_http2StreamID := tls_http2StreamID t + 1\<rparr>, e))"

definition tls_simulateDataPacket ::
  "TLSMask \<Rightarrow> bytes \<Rightarrow> env \<Rightarrow> (bytes \<times> TLSMask \<times> env) result" where
  "tls_simulateDataPacket t payload0 e0 =
     (let (payload, e) = (if payload0 = [] then draw 100 e0 else (payload0, e0)) in
      if \<not> tls_http2Initialized t then
        bindR NewHTTP2SettingsFrame (\<lambda>settings.
        bindR (wrapInTLSRecord (GenerateHTTP2Preface @ settings)) (\<lambda>rec.
          Ok (rec, t\<lparr>tls_http2Initialized := True\<rparr>, e)))
      else
        let sid = tls_http2StreamID t in
        if sid mod 4 = 1 then
          bindR (generateHTTP2Headers e) (\<lambda>(headers, e1).
          bindR (NewHTTP2HeadersFrame sid headers False) (\<lambda>f. tls_send t f e1))
        else if sid mod 4 = 2 then
          bindR (NewHTTP2WindowUpdateFrame 0 65535) (\<lambda>windowUpdate.
          bindR (NewHTTP2PingFrame e) (\<lambda>(ping, e1). tls_send t (windowUpdate @ ping) e1))
        else if sid mod 4 = 3 then
          bindR (NewHTTP2DataFrame sid payload False) (\<lambda>f. tls_send t f e)
        else
          bindR (NewHTTP2DataFrame sid payload True) (\<lambda>f.
            tls_send (t\<lparr>tls_http2StreamID := sid + 2\<rparr>) f e))"

definition TLS_Wrap :: "TLSMask \<Rightarrow> bytes \<Rightarrow> env \<Rightarrow> (bytes \<times> TLSMask \<times> env) result" where
  "TLS_Wrap t payload e =
     (if \<not> tls_handshakeDone t \<and> tls_handshakeStep t < 6 then
        bindR (tls_simulateHandshake t e) (\<lambda>(pkt, t1, e1).
          Ok (pkt, if tls_handshakeStep t1 = 6 then t1\<lparr>tls_handshakeDone := True\<rparr> else t1, e1))
      else tls_simulateDataPacket (t\<lparr>tls_handshakeDone := True\<rparr>) payload e)"

definition TLS_Unwrap :: "bytes \<Rightarrow> bytes result" where
  "TLS_Unwrap data =
     (if length data < 5 then Fail ErrInvalidPacket
      else
        bindR (index data 0) (\<lambda>contentType.
        if contentType = 0x16 \<or> contentType = 0x17 \<or> contentType = 0x14 then
          bindR (u16_at data 3) (\<lambda>recordLen.
          if 5 + unat recordLen \<le> length data then
            bindR (slice data 5 (5 + unat recordLen)) (\<lambda>unwrapped.
              if unwrapped \<noteq> [] then Ok unwrapped else Fail ErrInvalidPacket)
          else Fail ErrInvalidPacket)
        else Fail ErrInvalidPacket))"

section \<open>Choosing a mask for a domain\<close>

text \<open>
  Ranging over a Go map visits its entries in an unspecified order, so \<open>Select\<close> takes the
  order of the visit as an argument. Domain names are ASCII.
\<close>

definition NewMaskSelector :: "(string \<times> string) list" where
  "NewMaskSelector =
     [(''youtube.com'', ''tls''), (''google.com'', ''tls''), (''gmail.com'', ''tls''),
      (''drive.google'', ''tls''), (''whatsapp.com'', ''webrtc''), (''instagram.com'', ''quic''),
      (''facebook.com'', ''quic''), (''twitter.com'', ''quic''), (''discord.com'', ''webrtc''),
      (''spotify.com'', ''quic''), (''netflix.com'', ''webrtc''), (''twitch.tv'', ''webrtc''),
      (''vk.com'', ''vk''), (''rutube.ru'', ''rutube''), (''yandex.ru'', ''yandex''),
      (''ya.ru'', ''yandex''), (''ozon.ru'', ''ozon''), (''wildberries.ru'', ''wildberries''),
      (''sberbank.ru'', ''sberid''), (''sberid.ru'', ''sberid''), (''gosuslugi.ru'', ''gosuslugi''),
      (''telegram.org'', ''vk''), (''t.me'', ''vk''), (''default'', ''webrtc'')]"

definition lower_char :: "char \<Rightarrow> char" where
  "lower_char c =
     (let n = of_char c :: nat in if 65 \<le> n \<and> n \<le> 90 then char_of (n + 32) else c)"

definition to_lower :: "string \<Rightarrow> string" where
  "to_lower s = map lower_char s"

definition contains :: "string \<Rightarrow> string \<Rightarrow> bool" where
  "contains s pat \<longleftrightarrow> find_sub pat s \<noteq> None"

fun first_match :: "string \<Rightarrow> (string \<times> string) list \<Rightarrow> string option" where
  "first_match domain [] = None"
| "first_match domain ((pattern, mname) # rest) =
     (if contains domain pattern then Some mname else first_match domain rest)"

definition default_mask :: "(string \<times> string) list \<Rightarrow> string" where
  "default_mask ms = (case map_of ms ''default'' of Some m \<Rightarrow> m | None \<Rightarrow> [])"

definition Select :: "(string \<times> string) list \<Rightarrow> string \<Rightarrow> string" where
  "Select order domain =
     (case first_match (to_lower domain) order of Some m \<Rightarrow> m | None \<Rightarrow> default_mask order)"

definition SelectByIP :: "(string \<times> string) list \<Rightarrow> string \<Rightarrow> string" where
  "SelectByIP order ip = default_mask order"

end
