(* ===== verification/HttpLaws.thy ===== *)
theory HttpLaws
  imports HttpMasks
begin

text \<open>
  What holds of the web masks. The DNS-over-HTTPS mask is a codec: its header lines hold no
  empty line, so \<open>Unwrap\<close> cuts where \<open>Wrap\<close> ended the header. The TLS mask is not: nine
  packets carry no payload, and every later one comes back with its HTTP/2 frame header.
\<close>

section \<open>DNS over HTTPS\<close>

definition no_cr :: "bytes \<Rightarrow> bool" where
  "no_cr l \<longleftrightarrow> 13 \<notin> set l"

lemma find_sub_line:
  "no_cr l \<Longrightarrow> rest \<noteq> [] \<Longrightarrow> hd rest \<noteq> 13 \<Longrightarrow>
   find_sub (crlf @ crlf) (l @ crlf @ rest) =
     map_option (\<lambda>i. i + length l + 2) (find_sub (crlf @ crlf) rest)"
  by (induction l) (auto simp: no_cr_def crlf_def neq_Nil_conv option.map_comp o_def)

lemma find_sub_last_line:
  "no_cr l \<Longrightarrow> find_sub (crlf @ crlf) (l @ crlf @ crlf @ rest) = Some (length l)"
  by (induction l) (auto simp: no_cr_def crlf_def)

lemma find_sub_header:
  assumes "ls \<noteq> []" and "list_all (\<lambda>l. l \<noteq> [] \<and> no_cr l) ls"
  shows "find_sub (crlf @ crlf) (concat (map (\<lambda>l. l @ crlf) ls) @ crlf @ body) =
    Some (length (concat (map (\<lambda>l. l @ crlf) ls)) - 2)"
  using assms
proof (induction ls)
  case (Cons l ls)
  show ?case
  proof (cases ls)
    case Nil
    with Cons.prems show ?thesis
      using find_sub_last_line [of l body] by (simp add: crlf_def)
  next
    case (Cons k ks)
    let ?rest = "concat (map (\<lambda>l. l @ crlf) ls) @ crlf @ body"
    have "?rest \<noteq> []" "hd ?rest \<noteq> 13"
      using Cons Cons.prems by (auto simp: no_cr_def neq_Nil_conv)
    with Cons.prems have "find_sub (crlf @ crlf) (l @ crlf @ ?rest) =
        map_option (\<lambda>i. i + length l + 2) (find_sub (crlf @ crlf) ?rest)"
      by (intro find_sub_line) auto
    moreover have "find_sub (crlf @ crlf) ?rest =
        Some (length (concat (map (\<lambda>l. l @ crlf) ls)) - 2)"
      using Cons.IH Cons.prems Cons by simp
    moreover have "2 \<le> length (concat (map (\<lambda>l. l @ crlf) ls))"
      using Cons by (simp add: crlf_def)
    ultimately show ?thesis by (simp add: crlf_def)
  qed
qed simp

text \<open>No text the header is made of has a carriage return.\<close>

definition printable :: "string \<Rightarrow> bool" where
  "printable s \<longleftrightarrow> list_all (\<lambda>c. (of_char c :: byte) \<noteq> 13) s"

lemma printable_append [simp]: "printable (a @ b) \<longleftrightarrow> printable a \<and> printable b"
  by (simp add: printable_def)

lemma printable_Nil [simp]: "printable []"
  by (simp add: printable_def)

lemma printable_Cons [simp]: "printable (c # s) \<longleftrightarrow> (of_char c :: byte) \<noteq> 13 \<and> printable s"
  by (simp add: printable_def)

lemma printable_replicate: "(of_char c :: byte) \<noteq> 13 \<Longrightarrow> printable (replicate n c)"
  by (simp add: printable_def list_all_iff)

lemma no_cr_marker: "no_cr (marker s) \<longleftrightarrow> printable s"
  unfolding no_cr_def marker_def printable_def list_all_iff set_map by fastforce

lemma printable_digit: "n < 10 \<Longrightarrow> (of_char (char_of (48 + n :: nat)) :: byte) \<noteq> 13"
proof -
  assume "n < 10"
  then have "n \<in> {0, 1, 2, 3, 4, 5, 6, 7, 8, 9}" by auto
  then show ?thesis by (auto simp: of_char_def char_of_def)
qed

lemma printable_decimal: "printable (decimal n)"
proof (induction n rule: decimal.induct)
  case (1 n)
  then show ?case
    by (subst decimal.simps) (auto simp: printable_digit)
qed

lemma printable_zero_pad: "printable (zero_pad w n)"
  by (simp add: zero_pad_def Let_def printable_decimal printable_replicate)

lemma printable_nth_name: "list_all printable ss \<Longrightarrow> printable (nth_name ss n)"
  by (induction ss n rule: nth_name.induct) auto

lemma printable_weekday: "printable (nth_name weekday_names n)"
  by (rule printable_nth_name) (simp add: weekday_names_def)

lemma printable_month: "printable (nth_name month_names n)"
  by (rule printable_nth_name) (simp add: month_names_def)

lemma printable_http_date: "printable (http_date t)"
  by (simp add: http_date_def Let_def case_prod_beta printable_zero_pad printable_weekday
      printable_month)

lemma doh_lines_ok: "list_all (\<lambda>l. l \<noteq> [] \<and> no_cr l) (doh_lines n t)"
  by (simp add: doh_lines_def no_cr_marker printable_decimal printable_http_date)
    (simp add: marker_def)

definition doh_header :: "nat \<Rightarrow> instant \<Rightarrow> bytes" where
  "doh_header n t = concat (map (\<lambda>l. l @ crlf) (doh_lines n t))"

lemma DoH_Wrap_packet:
  "\<exists>h. length h = 12 \<and> DoH_Wrap d p e =
     Ok (doh_header (12 + length p) (now (clk e)) @ crlf @ h @ p,
       d\<lparr>doh_queryID := doh_queryID d + 1\<rparr>, e\<lparr>clk := tick 1 (clk e)\<rparr>)"
  unfolding DoH_Wrap_def doh_header_def read_clock_def
  by (simp add: Let_def buf_simps) (rule exI [of _ "be16 (doh_queryID d + 1) @ be16 256 @ be16 1 @
    be16 0 @ be16 0 @ be16 0"], simp add: numeral_eq_Suc)

interpretation doh: mask_codec DoH_Wrap "\<lambda>_. DoH_Unwrap" "\<lambda>_. True" any_payload
proof unfold_locales
  fix m :: DNSOverHTTPSMask and p :: bytes and e :: env
  let ?hd = "doh_header (12 + length p) (now (clk e))"
  obtain h where h: "length h = 12" and w: "DoH_Wrap m p e =
      Ok (?hd @ crlf @ h @ p, m\<lparr>doh_queryID := doh_queryID m + 1\<rparr>, e\<lparr>clk := tick 1 (clk e)\<rparr>)"
    using DoH_Wrap_packet by blast
  have "find_sub (crlf @ crlf) (?hd @ crlf @ h @ p) = Some (length ?hd - 2)"
    unfolding doh_header_def
    by (rule find_sub_header [OF _ doh_lines_ok]) (simp add: doh_lines_def)
  moreover have "2 \<le> length ?hd"
    by (simp add: doh_header_def doh_lines_def crlf_def)
  ultimately have "DoH_Unwrap (?hd @ crlf @ h @ p) = Ok p"
    using h by (simp add: DoH_Unwrap_def go_simps crlf_def)
  with w show "\<exists>pkt m1 e1. DoH_Wrap m p e = Ok (pkt, m1, e1) \<and> True \<and>
      (any_payload p \<longrightarrow> (\<forall>m2 :: DNSOverHTTPSMask. True \<longrightarrow> DoH_Unwrap pkt = Ok p))"
    by simp
qed

section \<open>The stages of a TLS mask\<close>

text \<open>
  A mask is at stage 0 to 5 while it plays the handshake, at 6 when it owes the HTTP/2
  preface, at 7 the headers frame, at 8 the window update and the ping, and from 9 on in
  the data phase, which it never leaves: the stream counter alternates between 3 and 0
  modulo 4.
\<close>

definition tls_data :: "TLSMask \<Rightarrow> bool" where
  "tls_data t \<longleftrightarrow> tls_handshakeDone t \<and> tls_http2Initialized t \<and>
     (tls_http2StreamID t mod 4 = 3 \<or> tls_http2StreamID t mod 4 = 0)"

definition tls_at :: "nat \<Rightarrow> TLSMask \<Rightarrow> bool" where
  "tls_at n t \<longleftrightarrow> length (tls_sni t) \<le> 110 \<and>
     (if n < 6 then \<not> tls_handshakeDone t \<and> tls_handshakeStep t = n
        \<and> \<not> tls_http2Initialized t \<and> tls_http2StreamID t = 1
      else if n = 6 then tls_handshakeDone t \<and> \<not> tls_http2Initialized t \<and> tls_http2StreamID t = 1
      else if n < 9 then tls_handshakeDone t \<and> tls_http2Initialized t
        \<and> tls_http2StreamID t = of_nat (n - 6)
      else tls_data t)"

lemma h2_frame_packet: "\<exists>h. length h = 9 \<and> h2_frame l ty fl sid payload = Ok (h @ payload)"
  unfolding h2_frame_def
  by (rule exI [of _ "be24 l @ [ty, fl] @ be32 sid"]) (simp add: buf_simps)

lemma wrapInTLSRecord_packet:
  "wrapInTLSRecord data = Ok ([0x17, 3, 3] @ be16 (of_nat (length data)) @ data)"
  by (simp add: wrapInTLSRecord_def buf_simps)

lemma writes_packet:
  "list_all (fits n) ws \<Longrightarrow> \<exists>h. bindR (writes (make_buf n) ws) (\<lambda>h. Ok (h, x)) = Ok (h, x)"
  using writes_fit [of "make_buf n" ws] by auto

lemma tls_ClientHello_ok:
  assumes "length (tls_sni t) \<le> 110"
  shows "\<exists>pkt e1. tls_simulateClientHello t e = Ok (pkt, tls_count t, e1)"
proof -
  have "\<exists>h. length h = 200 \<and> tls_simulateClientHello t e =
      bindR (slice h 0 (90 + length (tls_sni t))) (\<lambda>hello. Ok (hello, tls_count t, snd (draw 32 e)))"
    unfolding tls_simulateClientHello_def Let_def case_prod_beta
    by (rule bind_writes_header) (use assms in simp)
  then show ?thesis using assms by (auto simp: go_simps)
qed

lemma tls_ServerHello_ok:
  "\<exists>pkt. tls_simulateServerHello t e = Ok (pkt, tls_count t, snd (draw 32 e))"
  unfolding tls_simulateServerHello_def Let_def case_prod_beta by (rule writes_packet) simp

lemma tls_Certificate_ok: "\<exists>pkt. tls_simulateCertificate t = Ok (pkt, tls_count t)"
  unfolding tls_simulateCertificate_def Let_def by (rule writes_packet) simp

lemma tls_ServerKeyExchange_ok:
  "\<exists>pkt. tls_simulateServerKeyExchange t e = Ok (pkt, tls_count t, snd (draw 132 e))"
  unfolding tls_simulateServerKeyExchange_def Let_def case_prod_beta by (rule writes_packet) simp

lemma tls_ClientKeyExchange_ok:
  "\<exists>pkt. tls_simulateClientKeyExchange t e = Ok (pkt, tls_count t, snd (draw 36 e))"
  unfolding tls_simulateClientKeyExchange_def Let_def case_prod_beta by (rule writes_packet) simp

lemma tls_ChangeCipherSpec_ok: "\<exists>pkt. tls_simulateChangeCipherSpec t = Ok (pkt, tls_count t)"
  unfolding tls_simulateChangeCipherSpec_def by (rule writes_packet) simp

lemma tls_handshake_ok:
  assumes "length (tls_sni t) \<le> 110" and "tls_handshakeStep t < 6"
  shows "\<exists>pkt e1. tls_simulateHandshake t e =
    Ok (pkt, tls_count (t\<lparr>tls_handshakeStep := tls_handshakeStep t + 1\<rparr>), e1)"
proof -
  let ?t = "t\<lparr>tls_handshakeStep := tls_handshakeStep t + 1\<rparr>"
  consider "tls_handshakeStep t = 0" | "tls_handshakeStep t = 1" | "tls_handshakeStep t = 2"
    | "tls_handshakeStep t = 3" | "tls_handshakeStep t = 4" | "tls_handshakeStep t = 5"
    using assms(2) by linarith
  then show ?thesis
    using tls_ClientHello_ok [of ?t e] tls_ServerHello_ok [of ?t e] tls_Certificate_ok [of ?t]
      tls_ServerKeyExchange_ok [of ?t e] tls_ClientKeyExchange_ok [of ?t e]
      tls_ChangeCipherSpec_ok [of ?t] assms(1)
    by cases (auto simp: tls_simulateHandshake_def Let_def)
qed

text \<open>Before the data phase the packet does not depend on the payload.\<close>

lemma mod4_numerals: "(1 :: u32) mod 4 = 1" "(2 :: u32) mod 4 = 2"
  by (simp_all add: take_bit_eq_mod [of 2, symmetric, simplified])

lemma mod4_steps:
  "(x :: u32) mod 4 = 3 \<Longrightarrow> (x + 1) mod 4 = 0" "x mod 4 = 0 \<Longrightarrow> (x + 3) mod 4 = 3"
proof -
  have s: "unat ((x + y) mod 4) = (unat (x mod 4) + unat y) mod 4" for y :: u32
    by (simp add: unat_mod unat_word_ariths mod_mod_cancel mod_simps)
  show "x mod 4 = 3 \<Longrightarrow> (x + 1) mod 4 = 0" "x mod 4 = 0 \<Longrightarrow> (x + 3) mod 4 = 3"
    using s [of 1] s [of 3] by (auto simp: word_unat_eq_iff)
qed

lemma tls_at_blind:
  assumes "tls_at n t" and "n < 9" and "p \<noteq> []" and "q \<noteq> []"
  shows "TLS_Wrap t p e = TLS_Wrap t q e"
proof -
  consider "n < 6" | "n = 6" | "n = 7" | "n = 8" using assms(2) by linarith
  then show ?thesis using assms
    by cases (simp_all add: TLS_Wrap_def tls_at_def tls_simulateDataPacket_def mod4_numerals Let_def)
qed

lemma tls_at_settings:
  assumes "tls_at 6 t" and "p \<noteq> []"
  shows "\<exists>pkt. TLS_Wrap t p e =
    Ok (pkt, t\<lparr>tls_handshakeDone := True, tls_http2Initialized := True\<rparr>, e)"
proof -
  obtain fr where fr: "NewHTTP2SettingsFrame = Ok fr"
    using h2_frame_packet by (simp add: NewHTTP2SettingsFrame_def buf_simps) metis
  from assms show ?thesis
    by (simp add: TLS_Wrap_def tls_at_def tls_simulateDataPacket_def wrapInTLSRecord_packet
        fr Let_def)
qed

lemma tls_at_headers:
  assumes "tls_at 7 t" and "p \<noteq> []"
  shows "\<exists>pkt e1. TLS_Wrap t p e = Ok (pkt, t\<lparr>tls_handshakeDone := True, tls_http2StreamID := 2\<rparr>, e1)"
proof -
  obtain hd e1 where hd: "generateHTTP2Headers e = Ok (hd, e1)"
    by (simp add: generateHTTP2Headers_def case_prod_beta Let_def splice_def draw_def)
  obtain fr where fr: "NewHTTP2HeadersFrame 1 hd False = Ok fr"
    using h2_frame_packet unfolding NewHTTP2HeadersFrame_def by metis
  from assms show ?thesis
    by (simp add: TLS_Wrap_def tls_at_def tls_simulateDataPacket_def wrapInTLSRecord_packet
        tls_send_def mod4_numerals hd fr Let_def)
qed

lemma tls_at_ping:
  assumes "tls_at 8 t" and "p \<noteq> []"
  shows "\<exists>pkt e1. TLS_Wrap t p e = Ok (pkt, t\<lparr>tls_handshakeDone := True, tls_http2StreamID := 3\<rparr>, e1)"
proof -
  obtain wu where wu: "NewHTTP2WindowUpdateFrame 0 65535 = Ok wu"
    using h2_frame_packet by (simp add: NewHTTP2WindowUpdateFrame_def buf_simps) metis
  obtain ping where "h2_frame 8 6 0 0 (fst (draw 8 e)) = Ok ping"
    using h2_frame_packet by metis
  then have ping: "NewHTTP2PingFrame e = Ok (ping, snd (draw 8 e))"
    by (simp add: NewHTTP2PingFrame_def case_prod_beta)
  from assms show ?thesis
    by (simp add: TLS_Wrap_def tls_at_def tls_simulateDataPacket_def wrapInTLSRecord_packet
        tls_send_def mod4_numerals wu ping Let_def)
qed

lemma tls_data_wrap:
  assumes "tls_data t" and "p \<noteq> []"
  shows "\<exists>h t1. length h = 9 \<and> tls_data t1 \<and> tls_sni t1 = tls_sni t \<and> TLS_Wrap t p e =
    Ok ([0x17, 3, 3] @ be16 (of_nat (9 + length p)) @ h @ p, t1, e)"
proof -
  let ?sid = "tls_http2StreamID t"
  obtain h0 where h0: "length h0 = 9" "NewHTTP2DataFrame ?sid p False = Ok (h0 @ p)"
    using h2_frame_packet unfolding NewHTTP2DataFrame_def by metis
  obtain h1 where h1: "length h1 = 9" "NewHTTP2DataFrame ?sid p True = Ok (h1 @ p)"
    using h2_frame_packet unfolding NewHTTP2DataFrame_def by metis
  show ?thesis
  proof (cases "?sid mod 4 = 3")
    case True
    with assms h0 show ?thesis
      by (intro exI [of _ h0] exI [of _ "t\<lparr>tls_handshakeDone := True, tls_http2StreamID := ?sid + 1\<rparr>"])
        (simp add: TLS_Wrap_def tls_simulateDataPacket_def tls_data_def tls_send_def
          wrapInTLSRecord_packet mod4_steps Let_def)
  next
    case False
    with assms have "?sid mod 4 = 0" by (auto simp: tls_data_def)
    with assms h1 show ?thesis
      by (intro exI [of _ h1] exI [of _ "t\<lparr>tls_handshakeDone := True, tls_http2StreamID := ?sid + 3\<rparr>"])
        (simp add: TLS_Wrap_def tls_simulateDataPacket_def tls_data_def tls_send_def
          wrapInTLSRecord_packet mod4_steps Let_def)
  qed
qed

lemma tls_at_step:
  assumes "tls_at n t" and "p \<noteq> []"
  shows "\<exists>pkt t1 e1. TLS_Wrap t p e = Ok (pkt, t1, e1) \<and> tls_at (n + 1) t1"
proof -
  consider "n < 6" | "n = 6" | "n = 7" | "n = 8" | "9 \<le> n" by linarith
  then show ?thesis
  proof cases
    case 1
    with assms have "length (tls_sni t) \<le> 110" "tls_handshakeStep t < 6"
      by (auto simp: tls_at_def)
    then obtain pkt e1 where "tls_simulateHandshake t e =
        Ok (pkt, tls_count (t\<lparr>tls_handshakeStep := tls_handshakeStep t + 1\<rparr>), e1)"
      using tls_handshake_ok by blast
    with 1 assms show ?thesis
      by (auto simp: TLS_Wrap_def tls_at_def tls_count_def)
  next
    case 5
    with assms have "tls_data t" by (simp add: tls_at_def)
    with tls_data_wrap [OF this assms(2), of e] 5 assms(1) show ?thesis
      by (auto simp: tls_at_def)
  qed (use assms tls_at_settings [OF _ assms(2), of t e] tls_at_headers [OF _ assms(2), of t e]
      tls_at_ping [OF _ assms(2), of t e] in \<open>auto simp: tls_at_def tls_data_def mod4_numerals\<close>)
qed

lemma generateFakeCert_ok: "\<exists>c. generateFakeCert e = Ok (c, snd (draw 1024 e))"
  unfolding generateFakeCert_def Let_def case_prod_beta by (rule writes_packet) simp

lemma NewTLSMask_at: "\<exists>t e1. NewTLSMask e = Ok (t, e1) \<and> tls_at 0 t"
proof -
  have "\<exists>t1 e1. loadRealCert t e = Ok (t1, e1) \<and> (\<exists>c. t1 = t\<lparr>tls_cert := c\<rparr>)" for t e
  proof -
    obtain c where "generateFakeCert (snd (read_dial e)) = Ok (c, snd (draw 1024 (snd (read_dial e))))"
      using generateFakeCert_ok by blast
    then show ?thesis
      by (auto simp: loadRealCert_def Let_def case_prod_beta split: option.split list.split)
  qed
  then show ?thesis
    unfolding NewTLSMask_def Let_def case_prod_beta
    by (force simp: tls_at_def marker_def)
qed

lemma wrap_all_tls_blind:
  assumes "tls_at n t" and "length ps = length qs" and "n + length ps \<le> 9"
    and "list_all (\<lambda>p. p \<noteq> []) ps" and "list_all (\<lambda>p. p \<noteq> []) qs"
  shows "wrap_all TLS_Wrap t ps e = wrap_all TLS_Wrap t qs e"
  using assms(2,1,3-)
proof (induction ps qs arbitrary: n t e rule: list_induct2)
  case (Cons p ps q qs)
  have "p \<noteq> []" using Cons.prems(3) by simp
  with tls_at_step [OF Cons.prems(1)]
  obtain pkt t1 e1 where p: "TLS_Wrap t p e = Ok (pkt, t1, e1)" and t1: "tls_at (n + 1) t1"
    by meson
  moreover have "TLS_Wrap t q e = TLS_Wrap t p e"
    using tls_at_blind [OF Cons.prems(1)] Cons.prems by simp
  ultimately show ?case
    using Cons.IH [OF t1] Cons.prems by simp
qed simp

lemma wrap_all_tls_at:
  "tls_at n t \<Longrightarrow> list_all (\<lambda>p. p \<noteq> []) ps \<Longrightarrow>
   \<exists>pkts t1 e1. wrap_all TLS_Wrap t ps e = Ok (pkts, t1, e1) \<and> tls_at (n + length ps) t1"
proof (induction ps arbitrary: n t e)
  case (Cons p ps)
  have "p \<noteq> []" using Cons.prems(2) by simp
  with tls_at_step [OF Cons.prems(1)]
  obtain pkt t1 e1 where p: "TLS_Wrap t p e = Ok (pkt, t1, e1)" and t1: "tls_at (n + 1) t1"
    by meson
  from Cons.IH [OF t1, of e1] Cons.prems
  obtain pkts t2 e2 where "wrap_all TLS_Wrap t1 ps e1 = Ok (pkts, t2, e2)"
      "tls_at (n + 1 + length ps) t2"
    by auto
  with p show ?case by simp
qed simp

lemma TLS_Unwrap_record:
  assumes "d \<noteq> []" and "length d < 65536"
  shows "TLS_Unwrap ([0x17, 3, 3] @ be16 (of_nat (length d)) @ d) = Ok d"
proof -
  let ?l = "of_nat (length d) :: u16"
  have "unat ?l = length d"
    using assms(2) by (simp add: unat_of_nat)
  then show ?thesis
    using assms(1) by (simp add: TLS_Unwrap_def u16_at_def index_def slice_def)
qed

section \<open>Choosing a mask\<close>

lemma first_match_Some_iff:
  "first_match d order = Some m \<Longrightarrow> \<exists>pat. (pat, m) \<in> set order \<and> contains d pat"
  by (induction d order rule: first_match.induct) (auto split: if_splits)

lemma first_match_None_iff:
  "first_match d order = None \<longleftrightarrow> (\<forall>(pat, m) \<in> set order. \<not> contains d pat)"
  by (induction d order rule: first_match.induct) auto

text \<open>The choice does not depend on the order when the matching patterns agree.\<close>

lemma Select_agree:
  assumes "set order = set NewMaskSelector" and "(pat, m) \<in> set order"
    and "contains (to_lower d) pat"
    and "\<forall>(pat', m') \<in> set order. contains (to_lower d) pat' \<longrightarrow> m' = m"
  shows "Select order d = m"
proof (cases "first_match (to_lower d) order")
  case None
  with assms(2,3) show ?thesis by (auto simp: first_match_None_iff)
next
  case (Some m')
  with first_match_Some_iff [OF this] assms(4) show ?thesis by (auto simp: Select_def)
qed

end
