(* ===== verification/RtcMask.thy ===== *)
theory RtcMask
  imports MaskLaws
begin

text \<open>
  The WebRTC mask of \<open>internal/masks/webrtc.go\<close>: ten simulated packets (STUN, DTLS, ICE,
  SRTP keying, RTP), then the payload behind an RTP header. The third packet writes one
  byte past its buffer, and \<open>Unwrap\<close> slices past the end of short packets that look like
  its SRTP keying: both panic.
\<close>

section \<open>The mask\<close>

record RTPHeader =
  rtp_Version :: byte
  rtp_Padding :: bool
  rtp_Extension :: bool
  rtp_CSRCCount :: byte
  rtp_Marker :: bool
  rtp_PayloadType :: byte
  rtp_Sequence :: u16
  rtp_Timestamp :: u32
  rtp_SSRC :: u32

record WebRTCMask =
  rtc_ssrc :: u32
  rtc_sequence :: u16
  rtc_timestamp :: u32
  rtc_payloadType :: byte
  rtc_dtlsSeq :: u16
  rtc_iceSeq :: u16
  rtc_stunSeq :: u16
  rtc_handshakeDone :: bool
  rtc_handshakeStep :: nat

definition NewWebRTCMask :: "env \<Rightarrow> WebRTCMask \<times> env" where
  "NewWebRTCMask e =
     (let (ssrcBytes, e1) = draw 4 e; (seqBytes, e2) = draw 2 e1; (t, e3) = read_clock e2 in
      (\<lparr>rtc_ssrc = de32 ssrcBytes, rtc_sequence = de16 seqBytes,
        rtc_timestamp = of_int (t div 1000000), rtc_payloadType = 111,
        rtc_dtlsSeq = 0, rtc_iceSeq = 0, rtc_stunSeq = 0,
        rtc_handshakeDone = False, rtc_handshakeStep = 0\<rparr>, e3))"

definition boolToByte :: "bool \<Rightarrow> byte" where
  "boolToByte b = (if b then 1 else 0)"

definition marshalHeader :: "RTPHeader \<Rightarrow> bytes \<Rightarrow> bytes \<Rightarrow> bytes result" where
  "marshalHeader h extData payload =
     (let extLen = length extData;
          headerLen = 12 + extLen;
          firstByte = push_bit 6 (rtp_Version h) OR push_bit 5 (boolToByte (rtp_Padding h)) OR
            push_bit 4 (boolToByte (rtp_Extension h)) OR rtp_CSRCCount h;
          secondByte = push_bit 7 (boolToByte (rtp_Marker h)) OR rtp_PayloadType h in
      writes (make_buf (headerLen + length payload))
        ([SetByte 0 firstByte, SetByte 1 secondByte, PutU16 2 (rtp_Sequence h),
          PutU32 4 (rtp_Timestamp h), PutU32 8 (rtp_SSRC h)] @
         (if extLen > 0 then [CopyTo 12 (12 + extLen) extData] else []) @
         [CopyFrom headerLen payload]))"

section \<open>The simulated handshake\<close>

definition simulateSTUNBindingRequest :: "env \<Rightarrow> (bytes \<times> env) result" where
  "simulateSTUNBindingRequest e =
     (let (rnd, e1) = draw 12 e in
      bindR (writes (make_buf 20)
        [PutU16 0 1, PutU16 2 0, PutU32 4 0x2112A442, CopyTo 8 20 rnd]) (\<lambda>buf. Ok (buf, e1)))"

definition simulateSTUNBindingResponse :: "env \<Rightarrow> (bytes \<times> env) result" where
  "simulateSTUNBindingResponse e =
     (let (rnd, e1) = draw 12 e in
      bindR (writes (make_buf 28)
        [PutU16 0 0x0101, PutU16 2 8, PutU32 4 0x2112A442, CopyTo 8 20 rnd,
         PutU16 20 0x0020, PutU16 22 4, PutU32 24 1]) (\<lambda>buf. Ok (buf, e1)))"

definition xor_all :: "bytes \<Rightarrow> byte" where
  "xor_all bs = fold (\<lambda>b c. c XOR b) bs 0"

text \<open>\<open>buf\<close> has 77 bytes and \<open>rand.Read\<close> is given \<open>buf[14:78]\<close>.\<close>

definition simulateDTLSHandshake :: "WebRTCMask \<Rightarrow> env \<Rightarrow> (bytes \<times> WebRTCMask \<times> env) result" where
  "simulateDTLSHandshake w0 e =
     (let w = w0\<lparr>rtc_dtlsSeq := rtc_dtlsSeq w0 + 1\<rparr>;
          handshakeType = of_nat (1 + (rtc_handshakeStep w - 3) mod 3);
          (rnd, e1) = draw 64 e in
      bindR (writes (make_buf (13 + 64))
        [SetByte 0 22, SetByte 1 0xFE, SetByte 2 0xFD, PutU16 3 (rtc_dtlsSeq w),
         SetByte 5 0, SetByte 6 0, SetByte 7 0, SetByte 8 0, SetByte 13 handshakeType,
         CopyTo 14 78 rnd]) (\<lambda>buf. Ok (buf @ [xor_all buf], w, e1)))"

definition simulateICEConnectivityCheck ::
  "WebRTCMask \<Rightarrow> env \<Rightarrow> (bytes \<times> WebRTCMask \<times> env) result" where
  "simulateICEConnectivityCheck w0 e =
     (let w = w0\<lparr>rtc_iceSeq := rtc_iceSeq w0 + 1\<rparr>; (rnd, e1) = draw 8 e in
      bindR (writes (make_buf 24)
        [SetByte 0 1, SetByte 1 0, PutU16 2 (rtc_iceSeq w), CopyTo 4 12 rnd,
         PutU32 12 (rtc_ssrc w), PutU32 16 1862270975, CopyTo 20 24 (marker ''ICE'')]) (\<lambda>buf.
        Ok (buf, w, e1)))"

definition simulateSRTPKeying :: "WebRTCMask \<Rightarrow> env \<Rightarrow> (bytes \<times> WebRTCMask \<times> env) result" where
  "simulateSRTPKeying w e =
     (let (rnd1, e1) = draw 32 e; (rnd2, e2) = draw 40 e1 in
      bindR (writes (make_buf 80)
        [SetByte 0 0x14, SetByte 1 0, CopyTo 2 34 rnd1, PutU32 34 (rtc_ssrc w),
         CopyTo 38 78 rnd2]) (\<lambda>buf.
      bindR (writes buf [SetByte 78 (xor_all (take 78 buf)), SetByte 79 0]) (\<lambda>buf.
        Ok (buf, w, e2))))"

text \<open>The one-byte-type extension block: its identifier, its length, random bytes.\<close>

definition rtp_extension :: "nat \<Rightarrow> env \<Rightarrow> (bytes \<times> env) result" where
  "rtp_extension extLen e =
     (let (rnd, e1) = draw (extLen - 4) e in
      bindR (writes (make_buf extLen)
        [PutU16 0 0xBEDE, PutU16 2 (of_nat (extLen - 4)), CopyFrom 4 rnd]) (\<lambda>x. Ok (x, e1)))"

definition rtp_header :: "WebRTCMask \<Rightarrow> bool \<Rightarrow> bool \<Rightarrow> RTPHeader" where
  "rtp_header w hasExt hasMarker =
     \<lparr>rtp_Version = 2, rtp_Padding = False, rtp_Extension = hasExt, rtp_CSRCCount = 0,
      rtp_Marker = hasMarker, rtp_PayloadType = rtc_payloadType w,
      rtp_Sequence = rtc_sequence w, rtp_Timestamp = rtc_timestamp w, rtp_SSRC = rtc_ssrc w\<rparr>"

definition simulateRTPPacket ::
  "WebRTCMask \<Rightarrow> bytes option \<Rightarrow> env \<Rightarrow> (bytes \<times> WebRTCMask \<times> env) result" where
  "simulateRTPPacket w payload0 e =
     (let (rb, e1) = draw 1 e; randByte = hd rb; hasExt = (randByte AND 1 = 1);
          header = rtp_header w hasExt True in
      bindR (if hasExt then rtp_extension (4 + unat (randByte mod 16)) e1 else Ok ([], e1))
        (\<lambda>(extData, e2).
        let w1 = w\<lparr>rtc_sequence := rtc_sequence w + 1, rtc_timestamp := rtc_timestamp w + 30\<rparr>;
            (payload, e3) =
              (case payload0 of
                 None \<Rightarrow> draw (10 + unat (randByte mod 50)) e2
               | Some p \<Rightarrow> (p, e2)) in
        bindR (marshalHeader header extData payload) (\<lambda>pkt. Ok (pkt, w1, e3))))"

definition rtc_simulateHandshake :: "WebRTCMask \<Rightarrow> env \<Rightarrow> (bytes \<times> WebRTCMask \<times> env) result" where
  "rtc_simulateHandshake w0 e =
     (let w = w0\<lparr>rtc_handshakeStep := rtc_handshakeStep w0 + 1\<rparr>; step = rtc_handshakeStep w in
      if step = 1 then bindR (simulateSTUNBindingRequest e) (\<lambda>(p, e1). Ok (p, w, e1))
      else if step = 2 then bindR (simulateSTUNBindingResponse e) (\<lambda>(p, e1). Ok (p, w, e1))
      else if step = 3 \<or> step = 4 \<or> step = 5 then simulateDTLSHandshake w e
      else if step = 6 then simulateICEConnectivityCheck w e
      else if step = 7 \<or> step = 8 then simulateSRTPKeying w e
      else simulateRTPPacket w None e)"

section \<open>Wrap and Unwrap\<close>

definition WebRTC_Wrap :: "WebRTCMask \<Rightarrow> bytes \<Rightarrow> env \<Rightarrow> (bytes \<times> WebRTCMask \<times> env) result" where
  "WebRTC_Wrap w0 payload e =
     (if \<not> rtc_handshakeDone w0 \<and> rtc_handshakeStep w0 < 10 then rtc_simulateHandshake w0 e
      else
        let w = w0\<lparr>rtc_handshakeDone := True\<rparr>;
            (rb, e1) = draw 1 e; randByte = hd rb;
            hasExt = (randByte AND 1 = 1); hasMarker = (randByte AND 2 = 2);
            header = rtp_header w hasExt hasMarker in
        bindR (if hasExt then rtp_extension (4 + unat (randByte mod 32)) e1 else Ok ([], e1))
          (\<lambda>(extData, e2).
          let w1 = w\<lparr>rtc_sequence := rtc_sequence w + 1,
                rtc_timestamp := rtc_timestamp w + of_nat (length payload) div 2\<rparr> in
          bindR (marshalHeader header extData payload) (\<lambda>pkt. Ok (pkt, w1, e2))))"

definition WebRTC_Unwrap :: "bytes \<Rightarrow> bytes result" where
  "WebRTC_Unwrap data =
     (if length data < 12 then Fail ErrInvalidPacket
      else if data ! 1 AND 0x7F = 111 then
        if drop_bit 4 (data ! 0) AND 1 = 1 then
          if length data < 14 then Fail ErrInvalidPacket
          else bindR (u16_at data 12) (\<lambda>x.
            let headerLen = 12 + 4 + unat x in
            if length data < headerLen then Fail ErrInvalidPacket else slice_from data headerLen)
        else slice_from data 12
      else
        let n = length data;
            stun_len = (if 20 \<le> n then
                bindR (u32_at data 4) (\<lambda>magicCookie.
                  if magicCookie = 0x2112A442 then
                    bindR (u16_at data 2) (\<lambda>msgLen.
                      Ok (if 20 + unat msgLen \<le> n then Some (20 + unat msgLen) else None))
                  else Ok None)
              else Ok None) in
        bindR stun_len (\<lambda>cut. case cut of
          Some c \<Rightarrow> slice_from data c
        | None \<Rightarrow>
            if 13 < n \<and> data ! 0 = 22 \<and> 13 + 64 \<le> n then slice_from data (13 + 64)
            else if 24 < n \<and> data ! 20 = of_char (CHR ''I'') \<and> data ! 21 = of_char (CHR ''C'')
              \<and> data ! 22 = of_char (CHR ''E'') then slice_from data 24
            else if 34 < n \<and> data ! 0 = 0x14 then slice_from data 80
            else slice_from data 12))"

definition ResetHandshake :: "WebRTCMask \<Rightarrow> WebRTCMask" where
  "ResetHandshake w = w\<lparr>rtc_handshakeDone := False, rtc_handshakeStep := 0, rtc_dtlsSeq := 0,
     rtc_iceSeq := 0, rtc_stunSeq := 0\<rparr>"

definition IsHandshakeComplete :: "WebRTCMask \<Rightarrow> bool" where
  "IsHandshakeComplete w = rtc_handshakeDone w"

section \<open>What holds of it\<close>

lemma simulateDTLSHandshake_panics: "simulateDTLSHandshake w e = Panic"
  unfolding simulateDTLSHandshake_def Let_def case_prod_beta
  by (rule bind_writes_panic) simp

lemma WebRTC_Wrap_step3: "\<not> rtc_handshakeDone w \<Longrightarrow> rtc_handshakeStep w \<in> {2, 3, 4} \<Longrightarrow>
    WebRTC_Wrap w p e = Panic"
  by (auto simp: WebRTC_Wrap_def rtc_simulateHandshake_def simulateDTLSHandshake_panics Let_def)

lemma WebRTC_Wrap_first:
  "\<not> rtc_handshakeDone w \<Longrightarrow> rtc_handshakeStep w = 0 \<Longrightarrow>
   \<exists>pkt. \<forall>p. WebRTC_Wrap w p e = Ok (pkt, w\<lparr>rtc_handshakeStep := 1\<rparr>, snd (draw 12 e))"
proof -
  assume w: "\<not> rtc_handshakeDone w" "rtc_handshakeStep w = 0"
  obtain h where "simulateSTUNBindingRequest e = Ok (h, snd (draw 12 e))"
    unfolding simulateSTUNBindingRequest_def Let_def case_prod_beta
    using writes_fit [of "make_buf 20" "[PutU16 0 1, PutU16 2 0, PutU32 4 0x2112A442,
      CopyTo 8 20 (fst (draw 12 e))]"] by auto
  with w show ?thesis
    by (simp add: WebRTC_Wrap_def rtc_simulateHandshake_def)
qed

lemma marshalHeader_packet:
  "marshalHeader h ext p = Ok (
     [push_bit 6 (rtp_Version h) OR push_bit 5 (boolToByte (rtp_Padding h)) OR
        push_bit 4 (boolToByte (rtp_Extension h)) OR rtp_CSRCCount h,
      push_bit 7 (boolToByte (rtp_Marker h)) OR rtp_PayloadType h] @
     be16 (rtp_Sequence h) @ be32 (rtp_Timestamp h) @ be32 (rtp_SSRC h) @ ext @ p)"
proof (cases "ext = []")
  case True
  then show ?thesis by (simp add: marshalHeader_def buf_simps Let_def)
next
  case False
  then show ?thesis by (simp add: marshalHeader_def buf_simps Let_def)
qed

text \<open>The data phase: every packet is an RTP header, the extension if drawn, the payload.\<close>

definition rtc_data :: "WebRTCMask \<Rightarrow> bool" where
  "rtc_data w \<longleftrightarrow> (rtc_handshakeDone w \<or> 10 \<le> rtc_handshakeStep w) \<and> rtc_payloadType w = 111"

lemma rtp_extension_packet:
  "4 \<le> n \<Longrightarrow> rtp_extension n e =
     Ok (be16 0xBEDE @ be16 (of_nat (n - 4)) @ fst (draw (n - 4) e), snd (draw (n - 4) e))"
  by (simp add: rtp_extension_def case_prod_beta buf_simps Let_def)

lemma WebRTC_Wrap_data:
  assumes "rtc_data w"
  shows "\<exists>b ext h w1 e1. b = hd (fst (draw 1 e)) \<and> length h = 10 \<and>
    (b AND 1 = 1 \<longrightarrow> (\<exists>r. ext = be16 0xBEDE @ r)) \<and> (b AND 1 \<noteq> 1 \<longrightarrow> ext = []) \<and>
    length ext \<le> 35 \<and> rtc_data w1 \<and> rtc_sequence w1 = rtc_sequence w + 1 \<and>
    WebRTC_Wrap w p e = Ok (
      [0x80 OR push_bit 4 (boolToByte (b AND 1 = 1)), push_bit 7 (boolToByte (b AND 2 = 2)) OR 111]
        @ h @ ext @ p, w1, e1)"
proof -
  let ?b = "hd (fst (draw 1 e))"
  let ?e1 = "snd (draw 1 e)"
  let ?n = "4 + unat (?b mod 32)"
  let ?h = "be16 (rtc_sequence w) @ be32 (rtc_timestamp w) @ be32 (rtc_ssrc w)"
  let ?w1 = "w\<lparr>rtc_handshakeDone := True, rtc_sequence := rtc_sequence w + 1,
    rtc_timestamp := rtc_timestamp w + of_nat (length p) div 2\<rparr>"
  have g: "\<not> (\<not> rtc_handshakeDone w \<and> rtc_handshakeStep w < 10)" "rtc_payloadType w = 111"
    using assms by (auto simp: rtc_data_def)
  have n: "?n \<le> 35"
    using unat_mod [of ?b 32] by simp
  show ?thesis
  proof (cases "?b AND 1 = 1")
    case True
    let ?ext = "be16 0xBEDE @ be16 (of_nat (?n - 4)) @ fst (draw (?n - 4) ?e1)"
    have "WebRTC_Wrap w p e = Ok (
      [0x80 OR push_bit 4 1, push_bit 7 (boolToByte (?b AND 2 = 2)) OR 111]
        @ ?h @ ?ext @ p, ?w1, snd (draw (?n - 4) ?e1))"
      unfolding WebRTC_Wrap_def if_not_P [OF g(1)] using True g(2)
      by (simp add: rtp_extension_packet marshalHeader_packet
          rtp_header_def case_prod_beta Let_def boolToByte_def)
    with True assms n show ?thesis
      by (intro exI [of _ ?b] exI [of _ ?ext] exI [of _ ?h] exI [of _ ?w1]
          exI [of _ "snd (draw (?n - 4) ?e1)"]) (simp add: rtc_data_def boolToByte_def)
  next
    case False
    have "WebRTC_Wrap w p e = Ok (
      [0x80, push_bit 7 (boolToByte (?b AND 2 = 2)) OR 111] @ ?h @ p, ?w1, ?e1)"
      unfolding WebRTC_Wrap_def if_not_P [OF g(1)] using False g(2)
      by (simp add: marshalHeader_packet
          rtp_header_def case_prod_beta Let_def boolToByte_def)
    with False assms show ?thesis
      by (intro exI [of _ ?b] exI [of _ "[]"] exI [of _ ?h] exI [of _ ?w1]
          exI [of _ ?e1]) (simp add: rtc_data_def boolToByte_def)
  qed
qed

lemma rtp_second_byte: "(push_bit 7 (boolToByte m) OR 111) AND 127 = (111 :: byte)"
  by (cases m) (simp_all add: boolToByte_def)

lemma WebRTC_Unwrap_plain:
  "length h = 10 \<Longrightarrow>
   WebRTC_Unwrap ([0x80, push_bit 7 (boolToByte m) OR 111] @ h @ p) = Ok p"
  by (simp add: WebRTC_Unwrap_def rtp_second_byte slice_from_def slice_def)

text \<open>\<open>0xBEDE\<close> is read as the length of the extension: 48862 bytes.\<close>

lemma WebRTC_Unwrap_extension:
  assumes "length h = 10" and "length r + length p < 48864"
  shows "WebRTC_Unwrap ([0x90, push_bit 7 (boolToByte m) OR 111] @ h @ (be16 0xBEDE @ r) @ p) =
    Fail ErrInvalidPacket"
proof -
  have "u16_at ([0x90, push_bit 7 (boolToByte m) OR 111] @ h @ (be16 0xBEDE @ r) @ p) 12 = Ok 0xBEDE"
    using assms(1) by (simp add: u16_at_def slice_def)
  with assms show ?thesis
    by (simp add: WebRTC_Unwrap_def rtp_second_byte)
qed

lemma WebRTC_Unwrap_panic_iff:
  "WebRTC_Unwrap data = Panic \<longleftrightarrow>
     34 < length data \<and> length data < 80 \<and> data ! 0 = 0x14 \<and> data ! 1 AND 0x7F \<noteq> 111 \<and>
     \<not> (de32 (take 4 (drop 4 data)) = 0x2112A442 \<and>
        20 + unat (de16 (take 2 (drop 2 data))) \<le> length data) \<and>
     \<not> (data ! 20 = of_char (CHR ''I'') \<and> data ! 21 = of_char (CHR ''C'')
        \<and> data ! 22 = of_char (CHR ''E''))"
  by (auto simp: WebRTC_Unwrap_def Let_def u16_at_def u32_at_def slice_from_def slice_def)

end
