(* ===== verification/GoCrypto.thy ===== *)
theory GoCrypto
  imports Prelude
begin

text \<open>
  The hash and the MAC of Go's standard library that the program calls: SHA-256
  (\<open>crypto/sha256\<close>) and HMAC over it (\<open>crypto/hmac\<close>), computed on byte lists. They have
  no source under src/; they are written from their standards (FIPS 180-4, RFC 2104), so that
  nothing about them is assumed: digests have 32 bytes by a lemma, not by a hypothesis.
\<close>

section \<open>SHA-256\<close>

text \<open>
  The constants are, as the standard says, the first 32 bits of the fractional parts of the
  roots of the first primes: cube roots of 64 primes for the rounds, square roots of the
  first eight for the initial state. A root is found bit by bit, from the top.
\<close>

fun root_bits :: "nat \<Rightarrow> nat \<Rightarrow> nat \<Rightarrow> nat \<Rightarrow> nat" where
  "root_bits e n 0 r = r"
| "root_bits e n (Suc k) r = root_bits e n k (if (r + 2 ^ k) ^ e \<le> n then r + 2 ^ k else r)"

definition root_fraction :: "nat \<Rightarrow> nat \<Rightarrow> u32" where
  "root_fraction e p = of_nat (root_bits e (p * 2 ^ (32 * e)) 38 0)"

definition sha256_primes :: "nat list" where
  "sha256_primes = filter (\<lambda>p. \<forall>d \<in> set [2..<p]. p mod d \<noteq> 0) [2..<312]"

definition sha256_k :: "u32 list" where
  "sha256_k = map (root_fraction 3) sha256_primes"

datatype hash_state = HS u32 u32 u32 u32 u32 u32 u32 u32

definition sha256_iv :: hash_state where
  "sha256_iv =
     (let r = (\<lambda>i. root_fraction 2 (sha256_primes ! i))
      in HS (r 0) (r 1) (r 2) (r 3) (r 4) (r 5) (r 6) (r 7))"

definition rotr32 :: "nat \<Rightarrow> u32 \<Rightarrow> u32" where
  "rotr32 n x = drop_bit n x OR push_bit (32 - n) x"

definition small_sigma0 :: "u32 \<Rightarrow> u32" where
  "small_sigma0 x = rotr32 7 x XOR rotr32 18 x XOR drop_bit 3 x"

definition small_sigma1 :: "u32 \<Rightarrow> u32" where
  "small_sigma1 x = rotr32 17 x XOR rotr32 19 x XOR drop_bit 10 x"

definition big_sigma0 :: "u32 \<Rightarrow> u32" where
  "big_sigma0 x = rotr32 2 x XOR rotr32 13 x XOR rotr32 22 x"

definition big_sigma1 :: "u32 \<Rightarrow> u32" where
  "big_sigma1 x = rotr32 6 x XOR rotr32 11 x XOR rotr32 25 x"

text \<open>The message schedule, newest word first: word \<open>t\<close> from words \<open>t-2\<close>, \<open>t-7\<close>, \<open>t-15\<close>, \<open>t-16\<close>.\<close>

primrec sha256_extend :: "nat \<Rightarrow> u32 list \<Rightarrow> u32 list" where
  "sha256_extend 0 ws = ws"
| "sha256_extend (Suc k) ws =
     sha256_extend k
       ((small_sigma1 (ws ! 1) + ws ! 6 + small_sigma0 (ws ! 14) + ws ! 15) # ws)"

fun words32 :: "bytes \<Rightarrow> u32 list" where
  "words32 (a # b # c # d # r) = de32 [a, b, c, d] # words32 r"
| "words32 _ = []"

definition sha256_schedule :: "bytes \<Rightarrow> u32 list" where
  "sha256_schedule block = rev (sha256_extend 48 (rev (words32 block)))"

fun sha256_round :: "u32 \<times> u32 \<Rightarrow> hash_state \<Rightarrow> hash_state" where
  "sha256_round (k, w) (HS a b c d e f g h) =
     (let t1 = h + big_sigma1 e + ((e AND f) XOR ((NOT e) AND g)) + k + w;
          t2 = big_sigma0 a + ((a AND b) XOR (a AND c) XOR (b AND c))
      in HS (t1 + t2) a b c (d + t1) e f g)"

fun hash_add :: "hash_state \<Rightarrow> hash_state \<Rightarrow> hash_state" where
  "hash_add (HS a b c d e f g h) (HS a' b' c' d' e' f' g' h') =
     HS (a + a') (b + b') (c + c') (d + d') (e + e') (f + f') (g + g') (h + h')"

definition sha256_block :: "hash_state \<Rightarrow> bytes \<Rightarrow> hash_state" where
  "sha256_block s block =
     hash_add s (fold sha256_round (zip sha256_k (sha256_schedule block)) s)"

fun sha256_blocks :: "hash_state \<Rightarrow> bytes \<Rightarrow> hash_state" where
  "sha256_blocks s xs =
     (if length xs < 64 then s else sha256_blocks (sha256_block s (take 64 xs)) (drop 64 xs))"

declare sha256_blocks.simps [simp del]

definition sha256_pad :: "bytes \<Rightarrow> bytes" where
  "sha256_pad m =
     m @ [0x80] @ replicate ((119 - length m mod 64) mod 64) 0 @ be64 (of_nat (8 * length m))"

fun hash_bytes :: "hash_state \<Rightarrow> bytes" where
  "hash_bytes (HS a b c d e f g h) =
     be32 a @ be32 b @ be32 c @ be32 d @ be32 e @ be32 f @ be32 g @ be32 h"

definition sha256 :: "bytes \<Rightarrow> bytes" where
  "sha256 m = hash_bytes (sha256_blocks sha256_iv (sha256_pad m))"

lemma length_hash_bytes [simp]: "length (hash_bytes s) = 32"
  by (cases s) simp

lemma length_sha256 [simp]: "length (sha256 m) = 32"
  by (simp add: sha256_def)

lemma sha256_pad_blocks: "length (sha256_pad m) mod 64 = 0"
proof -
  define q r where "q = length m div 64" and "r = length m mod 64"
  then have len: "length m = 64 * q + r" and r: "r < 64"
    by simp_all
  have fill: "(119 - r) mod 64 = (if r \<le> 55 then 55 - r else 119 - r)"
  proof (cases "r \<le> 55")
    case True
    then have "119 - r = 64 + (55 - r)" by simp
    then show ?thesis using True by (metis mod_add_self1 mod_less less_imp_diff_less
      numeral_less_iff semiring_norm(76) semiring_norm(78) semiring_norm(80) semiring_norm(81))
  qed (use r in simp)
  have "length (sha256_pad m) = 64 * q + (r + 9 + (119 - r) mod 64)"
    unfolding sha256_pad_def r_def [symmetric] by (simp add: len)
  also have "r + 9 + (119 - r) mod 64 = (if r \<le> 55 then 64 else 128)"
    using r unfolding fill by auto
  finally show ?thesis by simp
qed

section \<open>HMAC-SHA256\<close>

definition hmac_key :: "bytes \<Rightarrow> bytes" where
  "hmac_key key =
     (let k = (if 64 < length key then sha256 key else key) in k @ replicate (64 - length k) 0)"

definition hmac_sha256 :: "bytes \<Rightarrow> bytes \<Rightarrow> bytes" where
  "hmac_sha256 key msg =
     sha256 (map (\<lambda>b. b XOR 0x5c) (hmac_key key) @
       sha256 (map (\<lambda>b. b XOR 0x36) (hmac_key key) @ msg))"

text \<open>\<open>hmac.Equal\<close> is the constant-time comparison: equal length and equal bytes.\<close>

definition hmac_equal :: "bytes \<Rightarrow> bytes \<Rightarrow> bool" where
  "hmac_equal a b \<longleftrightarrow> a = b"

lemma length_hmac_sha256 [simp]: "length (hmac_sha256 key msg) = 32"
  by (simp add: hmac_sha256_def)

lemma length_hmac_key [simp]: "length (hmac_key key) = 64"
  by (simp add: hmac_key_def Let_def)

end
