(* ===== verification/GoAead.thy ===== *)
theory GoAead
  imports GoCrypto
begin

text \<open>
  AES and its Galois/counter mode, the \<open>cipher.AEAD\<close> that \<open>aes.NewCipher\<close> and
  \<open>cipher.NewGCM\<close> of the standard library give (FIPS 197, SP 800-38D), with the nonce of
  12 bytes and the tag of 16 bytes the program uses. \<open>Open\<close> gives back what \<open>Seal\<close> was given.
\<close>

section \<open>The AES block cipher\<close>

definition xtime :: "byte \<Rightarrow> byte" where
  "xtime b = (if bit b 7 then push_bit 1 b XOR 0x1b else push_bit 1 b)"

fun gmul_n :: "nat \<Rightarrow> byte \<Rightarrow> byte \<Rightarrow> byte" where
  "gmul_n 0 a b = 0"
| "gmul_n (Suc n) a b = (if bit b 0 then a else 0) XOR gmul_n n (xtime a) (drop_bit 1 b)"

definition gmul :: "byte \<Rightarrow> byte \<Rightarrow> byte" where
  "gmul a b = gmul_n 8 a b"

fun gpow :: "byte \<Rightarrow> nat \<Rightarrow> byte" where
  "gpow b 0 = 1"
| "gpow b (Suc n) = gmul b (gpow b n)"

definition rotl8 :: "nat \<Rightarrow> byte \<Rightarrow> byte" where
  "rotl8 n b = push_bit n b OR drop_bit (8 - n) b"

definition sbox :: "byte \<Rightarrow> byte" where
  "sbox b = (let i = gpow b 254 in
     i XOR rotl8 1 i XOR rotl8 2 i XOR rotl8 3 i XOR rotl8 4 i XOR 0x63)"

definition xor_bytes :: "bytes \<Rightarrow> bytes \<Rightarrow> bytes" where
  "xor_bytes a b = map2 (\<lambda>x y. x XOR y) a b"

fun rcon :: "nat \<Rightarrow> byte" where
  "rcon 0 = 1"
| "rcon (Suc n) = xtime (rcon n)"

text \<open>The key schedule: the words so far, the newest first.\<close>

fun expand_key :: "nat \<Rightarrow> nat \<Rightarrow> nat \<Rightarrow> bytes list \<Rightarrow> bytes list" where
  "expand_key nk 0 i ws = ws"
| "expand_key nk (Suc n) i ws =
     (let prev = hd ws;
          t = (if i mod nk = 0 then xor_bytes (map sbox (rotate1 prev)) [rcon (i div nk - 1), 0, 0, 0]
               else if 6 < nk \<and> i mod nk = 4 then map sbox prev
               else prev)
      in expand_key nk n (i + 1) (xor_bytes (ws ! (nk - 1)) t # ws))"

fun words4 :: "nat \<Rightarrow> bytes \<Rightarrow> bytes list" where
  "words4 0 k = []"
| "words4 (Suc n) k = take 4 k # words4 n (drop 4 k)"

definition key_schedule :: "bytes \<Rightarrow> bytes list" where
  "key_schedule key =
     (let nk = length key div 4 in
      rev (expand_key nk (4 * (nk + 7) - nk) nk (rev (words4 nk key))))"

definition round_key :: "bytes list \<Rightarrow> nat \<Rightarrow> bytes" where
  "round_key ks r = concat (take 4 (drop (4 * r) ks))"

definition shift_rows :: "bytes \<Rightarrow> bytes" where
  "shift_rows s = map (\<lambda>i. s ! ((i + 4 * (i mod 4)) mod 16)) [0..<16]"

fun mix_columns :: "bytes \<Rightarrow> bytes" where
  "mix_columns (a # b # c # d # r) =
     [gmul 2 a XOR gmul 3 b XOR c XOR d,
      a XOR gmul 2 b XOR gmul 3 c XOR d,
      a XOR b XOR gmul 2 c XOR gmul 3 d,
      gmul 3 a XOR b XOR c XOR gmul 2 d] @ mix_columns r"
| "mix_columns _ = []"

fun aes_rounds :: "bytes list \<Rightarrow> nat \<Rightarrow> nat \<Rightarrow> bytes \<Rightarrow> bytes" where
  "aes_rounds ks r 0 s = xor_bytes (shift_rows (map sbox s)) (round_key ks r)"
| "aes_rounds ks r (Suc n) s =
     aes_rounds ks (r + 1) n (xor_bytes (mix_columns (shift_rows (map sbox s))) (round_key ks r))"

definition aes_block :: "bytes \<Rightarrow> bytes \<Rightarrow> bytes" where
  "aes_block key blk =
     (let ks = key_schedule key in
      aes_rounds ks 1 (length key div 4 + 5) (xor_bytes blk (round_key ks 0)))"

definition aes_key_ok :: "bytes \<Rightarrow> bool" where
  "aes_key_ok key \<longleftrightarrow> length key = 16 \<or> length key = 24 \<or> length key = 32"

section \<open>Counter mode\<close>

fun ctr_stream :: "(bytes \<Rightarrow> bytes) \<Rightarrow> bytes \<Rightarrow> u32 \<Rightarrow> nat \<Rightarrow> bytes" where
  "ctr_stream f nonce c 0 = []"
| "ctr_stream f nonce c (Suc n) = f (nonce @ be32 c) @ ctr_stream f nonce (c + 1) n"

text \<open>The key stream is padded with zeros to the text it covers, which it always reaches.\<close>

definition ctr_xor :: "(bytes \<Rightarrow> bytes) \<Rightarrow> bytes \<Rightarrow> bytes \<Rightarrow> bytes" where
  "ctr_xor f nonce pt =
     xor_bytes pt (take (length pt)
       (ctr_stream f nonce 2 ((length pt + 15) div 16) @ replicate (length pt) 0))"

section \<open>The authentication tag\<close>

type_synonym gf = "128 word"

definition gf_of :: "bytes \<Rightarrow> gf" where
  "gf_of bs = foldl (\<lambda>acc b. push_bit 8 acc OR ucast b) 0 bs"

definition gf_bytes :: "gf \<Rightarrow> bytes" where
  "gf_bytes v = map (\<lambda>i. ucast (drop_bit (8 * (15 - i)) v)) [0..<16]"

fun gf_mul_n :: "nat \<Rightarrow> gf \<Rightarrow> gf \<Rightarrow> gf \<Rightarrow> gf" where
  "gf_mul_n 0 x v z = z"
| "gf_mul_n (Suc n) x v z =
     gf_mul_n n x (if bit v 0 then drop_bit 1 v XOR push_bit 120 0xe1 else drop_bit 1 v)
       (if bit x n then z XOR v else z)"

definition gf_mul :: "gf \<Rightarrow> gf \<Rightarrow> gf" where
  "gf_mul x y = gf_mul_n 128 x y 0"

fun blocks16 :: "nat \<Rightarrow> bytes \<Rightarrow> bytes list" where
  "blocks16 0 bs = []"
| "blocks16 (Suc n) bs =
     (take 16 bs @ replicate (16 - length (take 16 bs)) 0) # blocks16 n (drop 16 bs)"

definition gf_blocks :: "bytes \<Rightarrow> gf list" where
  "gf_blocks bs = map gf_of (blocks16 ((length bs + 15) div 16) bs)"

definition ghash :: "gf \<Rightarrow> bytes \<Rightarrow> bytes \<Rightarrow> gf" where
  "ghash h aad ct =
     foldl (\<lambda>y x. gf_mul (y XOR x) h) 0
       (gf_blocks aad @ gf_blocks ct @
        [gf_of (be64 (of_nat (8 * length aad)) @ be64 (of_nat (8 * length ct)))])"

definition gcm_tag :: "(bytes \<Rightarrow> bytes) \<Rightarrow> bytes \<Rightarrow> bytes \<Rightarrow> bytes \<Rightarrow> bytes" where
  "gcm_tag f nonce aad ct =
     gf_bytes (ghash (gf_of (f (replicate 16 0))) aad ct XOR gf_of (f (nonce @ be32 1)))"

section \<open>Seal and Open\<close>

definition gcm_max :: int where
  "gcm_max = (2 ^ 32 - 2) * 16"

definition gcm_seal :: "bytes \<Rightarrow> bytes \<Rightarrow> bytes \<Rightarrow> bytes \<Rightarrow> bytes result" where
  "gcm_seal key nonce plaintext aad =
     (if length nonce \<noteq> 12 \<or> gcm_max < int (length plaintext) then Panic
      else
        let ct = ctr_xor (aes_block key) nonce plaintext in
        Ok (ct @ gcm_tag (aes_block key) nonce aad ct))"

definition gcm_open :: "bytes \<Rightarrow> bytes \<Rightarrow> bytes \<Rightarrow> bytes \<Rightarrow> bytes result" where
  "gcm_open key nonce ciphertext aad =
     (if length nonce \<noteq> 12 then Panic
      else if length ciphertext < 16 \<or> gcm_max + 16 < int (length ciphertext) then Fail OtherError
      else
        let n = length ciphertext - 16; ct = take n ciphertext in
        if drop n ciphertext = gcm_tag (aes_block key) nonce aad ct
        then Ok (ctr_xor (aes_block key) nonce ct) else Fail OtherError)"

lemma length_xor_bytes [simp]: "length (xor_bytes a b) = min (length a) (length b)"
  by (simp add: xor_bytes_def)

lemma length_ctr_xor [simp]: "length (ctr_xor f nonce pt) = length pt"
  by (simp add: ctr_xor_def)

lemma length_gcm_tag [simp]: "length (gcm_tag f nonce aad ct) = 16"
  by (simp add: gcm_tag_def gf_bytes_def)

lemma xor_bytes_involution: "length a \<le> length b \<Longrightarrow> xor_bytes (xor_bytes a b) b = a"
proof (induction a arbitrary: b)
  case (Cons x xs)
  then show ?case by (cases b) (simp_all add: xor_bytes_def xor.assoc)
qed (simp add: xor_bytes_def)

lemma ctr_xor_involution: "ctr_xor f nonce (ctr_xor f nonce pt) = pt"
  unfolding ctr_xor_def [of f nonce "ctr_xor f nonce pt"]
  by (simp add: ctr_xor_def [of f nonce pt] xor_bytes_involution)

lemma gcm_seal_length: "gcm_seal key nonce p aad = Ok c \<Longrightarrow> length c = length p + 16"
  by (auto simp: gcm_seal_def Let_def split: if_splits)

lemma gcm_open_seal: "gcm_seal key nonce p aad = Ok c \<Longrightarrow> gcm_open key nonce c aad = Ok p"
  by (auto simp: gcm_seal_def gcm_open_def Let_def ctr_xor_involution split: if_splits)

lemma gcm_seal_ok:
  "length nonce = 12 \<Longrightarrow> int (length p) \<le> gcm_max \<Longrightarrow> \<exists>c. gcm_seal key nonce p aad = Ok c"
  by (simp add: gcm_seal_def Let_def)

end
