(* ===== verification/QuicMask.thy ===== *)
theory QuicMask
  imports MaskLaws GoAead "HOL-Library.AList"
begin

text \<open>
  The QUIC mask of \<open>internal/masks/quic.go\<close>: congestion control, the transport that numbers
  packets and consumes acknowledgements, the simulated handshake, and \<open>Wrap\<close> and
  \<open>Unwrap\<close>. The map of sent packets is an association list with distinct keys. The loop of
  \<open>ProcessAck\<close> runs over a number the peer chose and may never end, so it is a partial
  function: \<open>None\<close> is the call that does not return.
\<close>

section \<open>Congestion control\<close>

record CongestionControl =
  cc_cwnd :: u32
  cc_ssthresh :: u32
  cc_rtt :: duration
  cc_rttVar :: duration
  cc_packetLoss :: bool

definition NewCongestionControl :: CongestionControl where
  "NewCongestionControl =
     \<lparr>cc_cwnd = 10, cc_ssthresh = 65535, cc_rtt = 30 * millisecond, cc_rttVar = 0,
      cc_packetLoss = False\<rparr>"

text \<open>Integer division truncates towards zero; on \<open>uint32\<close> it panics for a zero divisor.\<close>

definition go_quot :: "int \<Rightarrow> int \<Rightarrow> int" where
  "go_quot a b = sgn a * sgn b * (\<bar>a\<bar> div \<bar>b\<bar>)"

definition OnAckReceived :: "CongestionControl \<Rightarrow> duration \<Rightarrow> CongestionControl result" where
  "OnAckReceived cc ackTime =
     (let cc1 = cc\<lparr>cc_rtt := go_quot (cc_rtt cc * 7 + ackTime) 8\<rparr> in
      bindR (if cc_cwnd cc1 < cc_ssthresh cc1 then Ok (cc_cwnd cc1 + 1)
             else if cc_cwnd cc1 = 0 then Panic
             else Ok (cc_cwnd cc1 + 1 div cc_cwnd cc1)) (\<lambda>w.
        Ok (cc1\<lparr>cc_cwnd := (if 1000 < w then 1000 else w)\<rparr>)))"

definition OnPacketLoss :: "CongestionControl \<Rightarrow> CongestionControl" where
  "OnPacketLoss cc =
     (let t = cc_cwnd cc div 2 in
      cc\<lparr>cc_ssthresh := (if t < 2 then 2 else t), cc_cwnd := 1, cc_packetLoss := True\<rparr>)"

definition GetWindow :: "CongestionControl \<Rightarrow> u32" where
  "GetWindow cc = cc_cwnd cc"

definition GetRTT :: "CongestionControl \<Rightarrow> duration" where
  "GetRTT cc = cc_rtt cc"

section \<open>The transport\<close>

record QUICTransport =
  qt_cc :: CongestionControl
  qt_packetNum :: u64
  qt_lastAck :: u64
  qt_sentPackets :: "(u64 \<times> instant) list"
  qt_packetLosses :: nat

definition NewQUICTransport :: QUICTransport where
  "NewQUICTransport = \<lparr>qt_cc = NewCongestionControl, qt_packetNum = 0, qt_lastAck = 0,
     qt_sentPackets = [], qt_packetLosses = 0\<rparr>"

definition SendPacket :: "QUICTransport \<Rightarrow> bytes \<Rightarrow> env \<Rightarrow> (bytes \<times> QUICTransport \<times> env) result" where
  "SendPacket q data e =
     (let packetNum = qt_packetNum q + 1;
          (t, e1) = read_clock e;
          q1 = q\<lparr>qt_packetNum := packetNum,
            qt_sentPackets := AList.update packetNum t (qt_sentPackets q)\<rparr> in
      bindR (writes (make_buf 17)
        [SetByte 0 0xC0, PutU32 1 1, PutU64 5 packetNum, PutU32 13 (GetWindow (qt_cc q1))])
        (\<lambda>header.
      bindR (writes (make_buf (length data + 4))
        [PutU32 0 (of_nat (length data)), CopyFrom 4 data]) (\<lambda>payload.
        Ok (header @ payload, q1, e1))))"

text \<open>One round of the loop of \<open>ProcessAck\<close>: the entry, if sent, is timed and deleted.\<close>

definition ack_one :: "u64 \<Rightarrow> QUICTransport \<Rightarrow> env \<Rightarrow> (QUICTransport \<times> env) result" where
  "ack_one i q e =
     (case map_of (qt_sentPackets q) i of
        None \<Rightarrow> Ok (q, e)
      | Some sendTime \<Rightarrow>
          (let (t, e1) = read_clock e in
           bindR (OnAckReceived (qt_cc q) (t - sendTime)) (\<lambda>cc.
             Ok (q\<lparr>qt_cc := cc, qt_sentPackets := AList.delete i (qt_sentPackets q)\<rparr>, e1))))"

partial_function (option) ack_loop ::
  "u64 \<Rightarrow> u64 \<Rightarrow> QUICTransport \<Rightarrow> env \<Rightarrow> (QUICTransport \<times> env) result option" where
  "ack_loop i ackNum q e =
     (if i \<le> ackNum then
        (case ack_one i q e of
           Ok (q1, e1) \<Rightarrow> ack_loop (i + 1) ackNum q1 e1
         | Fail err \<Rightarrow> Some (Fail err)
         | Panic \<Rightarrow> Some Panic)
      else Some (Ok (q, e)))"

definition ProcessAck ::
  "QUICTransport \<Rightarrow> u64 \<Rightarrow> env \<Rightarrow> (QUICTransport \<times> env) result option" where
  "ProcessAck q ackNum e =
     (if ackNum \<le> qt_lastAck q then Some (Ok (q, e))
      else map_option (\<lambda>r. bindR r (\<lambda>(q1, e1). Ok (q1\<lparr>qt_lastAck := ackNum\<rparr>, e1)))
        (ack_loop (qt_lastAck q + 1) ackNum q e))"

definition loss_one :: "instant \<Rightarrow> QUICTransport \<Rightarrow> u64 \<times> instant \<Rightarrow> QUICTransport" where
  "loss_one t q p =
     (if GetRTT (qt_cc q) * 3 < t - snd p then
        q\<lparr>qt_cc := OnPacketLoss (qt_cc q),
          qt_sentPackets := AList.delete (fst p) (qt_sentPackets q),
          qt_packetLosses := qt_packetLosses q + 1\<rparr>
      else q)"

definition DetectLoss :: "QUICTransport \<Rightarrow> env \<Rightarrow> QUICTransport \<times> env" where
  "DetectLoss q e =
     (let (t, e1) = read_clock e in (foldl (loss_one t) q (qt_sentPackets q), e1))"

record QUICStats =
  qs_cwnd :: u32
  qs_rtt_ms :: int
  qs_packet_num :: u64
  qs_packet_losses :: nat
  qs_sent_pending :: nat

definition Quic_GetStats :: "QUICTransport \<Rightarrow> QUICStats" where
  "Quic_GetStats q = \<lparr>qs_cwnd = GetWindow (qt_cc q),
     qs_rtt_ms = go_quot (GetRTT (qt_cc q)) millisecond, qs_packet_num = qt_packetNum q,
     qs_packet_losses = qt_packetLosses q, qs_sent_pending = length (qt_sentPackets q)\<rparr>"

section \<open>The mask\<close>

record QUICMask =
  qm_destConnID :: bytes
  qm_srcConnID :: bytes
  qm_packetNum :: u64
  qm_version :: u32
  qm_secret :: bytes
  qm_handshakeDone :: bool
  qm_handshakeStep :: nat
  qm_initialSecret :: bytes
  qm_handshakeSecret :: bytes
  qm_oneRTTSecret :: bytes
  qm_transportParams :: bytes
  qm_connectionID :: bytes
  qm_scid :: bytes
  qm_dcid :: bytes
  qm_transport :: QUICTransport
  qm_congestionCtrl :: CongestionControl
  qm_lastAckTime :: instant

text \<open>\<open>packetNumCipher\<close> is AES-GCM under \<open>secret\<close>.\<close>

definition NewQUICMask :: "env \<Rightarrow> (QUICMask \<times> env) result" where
  "NewQUICMask e =
     (let (destID, e) = draw 8 e; (srcID, e) = draw 8 e; (scid, e) = draw 8 e;
          (dcid, e) = draw 8 e; (initialSecret, e) = draw 32 e;
          (handshakeSecret, e) = draw 32 e; (oneRTTSecret, e) = draw 32 e;
          (secret, e) = draw 32 e; (params, e) = draw 64 e; (connID, e) = draw 20 e;
          (t, e) = read_clock e in
      bindR (writes (make_buf 64)
        [CopyTo 0 64 params, PutU32 0 1, PutU32 4 0x1000, PutU32 8 0x2000])
        (\<lambda>transportParams.
        Ok (\<lparr>qm_destConnID = destID, qm_srcConnID = srcID, qm_packetNum = 0, qm_version = 1,
             qm_secret = secret, qm_handshakeDone = False, qm_handshakeStep = 0,
             qm_initialSecret = initialSecret, qm_handshakeSecret = handshakeSecret,
             qm_oneRTTSecret = oneRTTSecret, qm_transportParams = transportParams,
             qm_connectionID = connID, qm_scid = scid, qm_dcid = dcid,
             qm_transport = NewQUICTransport, qm_congestionCtrl = NewCongestionControl,
             qm_lastAckTime = t\<rparr>, e)))"

definition quic_sent :: "QUICMask \<Rightarrow> QUICMask" where
  "quic_sent q = q\<lparr>qm_packetNum := qm_packetNum q + 1\<rparr>"

text \<open>The sealed packet number has 24 bytes; the buffer has 45.\<close>

definition simulateInitialPacket :: "QUICMask \<Rightarrow> env \<Rightarrow> (bytes \<times> QUICMask \<times> env) result" where
  "simulateInitialPacket q e =
     (let (nonce, e1) = draw 12 e in
      bindR (gcm_seal (qm_secret q) nonce (be64 (qm_packetNum q)) []) (\<lambda>encryptedPN.
        let n = 23 + length encryptedPN; (t, e2) = read_clock e1; (rnd, e3) = draw 91 e2 in
        bindR (writes (make_buf (1 + 4 + 8 + 8 + 8 + 16))
          [SetByte 0 0xC0, PutU32 1 (qm_version q),
           CopyTo 5 13 (qm_destConnID q), CopyTo 13 21 (qm_srcConnID q),
           SetByte 21 0, SetByte 22 4,
           CopyTo 23 n encryptedPN,
           CopyTo n (n + 12) nonce,
           CopyTo (n + 12) (n + 112) ([6] @ be64 (unixnano64 t) @ rnd)]) (\<lambda>buf.
          Ok (buf, quic_sent q, e3))))"

definition simulateRetryPacket :: "QUICMask \<Rightarrow> env \<Rightarrow> (bytes \<times> QUICMask \<times> env) result" where
  "simulateRetryPacket q e =
     (let (retryToken, e1) = draw 16 e in
      bindR (writes (make_buf (1 + 4 + 8 + 8 + 8 + 16))
        [SetByte 0 (0xC0 OR 1), PutU32 1 (qm_version q),
         CopyTo 5 13 (qm_destConnID q), CopyTo 13 21 (qm_srcConnID q),
         CopyTo 21 37 retryToken]) (\<lambda>buf.
        Ok (buf, quic_sent q, e1)))"

definition simulateHandshakePacket :: "QUICMask \<Rightarrow> env \<Rightarrow> (bytes \<times> QUICMask \<times> env) result" where
  "simulateHandshakePacket q e =
     (let (nonce, e1) = draw 12 e; n = length (qm_transportParams q);
          (rnd, e2) = draw (150 - (5 + n)) e1 in
      bindR (writes (make_buf (1 + 4 + 8 + 8 + 4 + 16))
        [SetByte 0 (0xC0 OR 2), PutU32 1 (qm_version q),
         CopyTo 5 13 (qm_destConnID q), CopyTo 13 21 (qm_srcConnID q),
         PutU32 21 (ucast (qm_packetNum q)), CopyTo 25 37 nonce]) (\<lambda>buf.
      bindR (writes (make_buf 150)
        [SetByte 0 6, SetByte 1 0, SetByte 2 0, PutU16 3 (of_nat n),
         CopyTo 5 (5 + n) (qm_transportParams q), CopyFrom (5 + n) rnd]) (\<lambda>cryptoFrame.
        Ok (buf @ cryptoFrame, quic_sent q, e2))))"

definition simulateZeroRTTPacket :: "QUICMask \<Rightarrow> env \<Rightarrow> (bytes \<times> QUICMask \<times> env) result" where
  "simulateZeroRTTPacket q e =
     (let (nonce, e1) = draw 12 e; (rnd, e2) = draw 61 e1 in
      bindR (writes (make_buf (1 + 8 + 4 + 16))
        [SetByte 0 (0xC0 OR 3), CopyTo 1 9 (qm_srcConnID q),
         PutU32 9 (ucast (qm_packetNum q)), CopyTo 13 25 nonce]) (\<lambda>buf.
      bindR (writes (make_buf 64)
        [SetByte 0 8, SetByte 1 0, SetByte 2 0, CopyFrom 3 rnd]) (\<lambda>streamFrame.
        Ok (buf @ streamFrame, quic_sent q, e2))))"

definition simulateOneRTTPacket ::
  "QUICMask \<Rightarrow> bytes option \<Rightarrow> env \<Rightarrow> (bytes \<times> QUICMask \<times> env) result" where
  "simulateOneRTTPacket q payload0 e =
     (let (payload, e1) =
            (case payload0 of
               None \<Rightarrow> draw (32 + unat (qm_packetNum q mod 100)) e
             | Some p \<Rightarrow> (p, e));
          encryptedPayload =
            map (\<lambda>i. (payload ! i) XOR (qm_oneRTTSecret q ! (i mod 32))) [0..<length payload] in
      bindR (SendPacket (qm_transport q) encryptedPayload e1) (\<lambda>(pkt, tr, e2).
        Ok (pkt, q\<lparr>qm_transport := tr\<rparr>, e2)))"

text \<open>The reason does not fit the 29 bytes of the buffer. Nothing calls it.\<close>

definition simulateConnectionClose :: "QUICMask \<Rightarrow> bytes result" where
  "simulateConnectionClose q =
     (let reason = marker ''connection closed'' in
      writes (make_buf (1 + 4 + 8 + 8 + 8))
        [SetByte 0 (0xC0 OR 2), PutU32 1 (qm_version q),
         CopyTo 5 13 (qm_destConnID q), CopyTo 13 21 (qm_srcConnID q),
         PutU64 21 0, CopyTo 29 (29 + length reason) reason])"

definition quic_simulateHandshake :: "QUICMask \<Rightarrow> env \<Rightarrow> (bytes \<times> QUICMask \<times> env) result" where
  "quic_simulateHandshake q0 e =
     (let q = q0\<lparr>qm_handshakeStep := qm_handshakeStep q0 + 1\<rparr>; step = qm_handshakeStep q in
      if step = 1 then simulateInitialPacket q e
      else if step = 2 then simulateRetryPacket q e
      else if step = 3 \<or> step = 4 then simulateHandshakePacket q e
      else if step = 5 \<or> step = 6 then simulateZeroRTTPacket q e
      else simulateOneRTTPacket q None e)"

definition QUIC_Wrap :: "QUICMask \<Rightarrow> bytes \<Rightarrow> env \<Rightarrow> (bytes \<times> QUICMask \<times> env) result" where
  "QUIC_Wrap q0 payload e =
     (let (tr, e1) = DetectLoss (qm_transport q0) e; q = q0\<lparr>qm_transport := tr\<rparr> in
      if \<not> qm_handshakeDone q \<and> qm_handshakeStep q < 8 then quic_simulateHandshake q e1
      else
        bindR (SendPacket (qm_transport q) payload e1) (\<lambda>(pkt, tr1, e2).
          Ok (pkt, q\<lparr>qm_handshakeDone := True, qm_transport := tr1\<rparr>, e2)))"

section \<open>Unwrap\<close>

text \<open>A nil slice with a nil error is the empty payload.\<close>

definition rest_from :: "bytes \<Rightarrow> nat \<Rightarrow> bytes result" where
  "rest_from data offset = (if offset < length data then slice_from data offset else Ok [])"

text \<open>Skipping a frame of one of the given types: its type, a 16-bit length, its body.\<close>

definition skip_frame :: "byte list \<Rightarrow> bytes \<Rightarrow> nat \<Rightarrow> bytes result" where
  "skip_frame types data offset =
     bindR (index data offset) (\<lambda>frameType.
       if frameType \<in> set types then
         if length data < offset + 1 + 2 then Fail ErrInvalidPacket
         else bindR (u16_at data (offset + 1)) (\<lambda>frameLen.
           rest_from data (offset + 1 + 2 + unat frameLen))
       else rest_from data offset)"

text \<open>The switch never reaches \<open>processInitialPacket\<close>: packet type 0 has returned before it.\<close>

definition processInitialPacket :: "bytes \<Rightarrow> bytes result" where
  "processInitialPacket data =
     bindR (index data 21) (\<lambda>tokenLen.
     bindR (index data (22 + unat tokenLen)) (\<lambda>packetNumLen.
       let offset = 22 + unat tokenLen + 1 + unat packetNumLen + 12 in
       if length data \<le> offset then Fail ErrInvalidPacket else skip_frame [6] data offset))"

definition processRetryPacket :: "bytes \<Rightarrow> bytes result" where
  "processRetryPacket data = rest_from data 37"

definition processHandshakePacket :: "bytes \<Rightarrow> bytes result" where
  "processHandshakePacket data =
     (if length data < 25 + 12 then Fail ErrInvalidPacket
      else if length data \<le> 37 then Ok [] else skip_frame [6] data 37)"

definition processZeroRTTPacket :: "bytes \<Rightarrow> bytes result" where
  "processZeroRTTPacket data =
     (if length data < 25 + 12 then Fail ErrInvalidPacket
      else if length data \<le> 37 then Ok [] else skip_frame [8, 9] data 37)"

definition processShortPacket :: "bytes \<Rightarrow> bytes result" where
  "processShortPacket data =
     (if length data < 5 then Fail ErrInvalidPacket
      else
        bindR (index data 0) (\<lambda>b0.
          let offset = 1 + (unat (b0 AND 3) + 1) + 12 in
          if length data \<le> offset then Fail ErrInvalidPacket
          else if offset + 16 < length data then slice data offset (length data - 16)
          else slice_from data offset))"

definition quic_payload :: "bytes \<Rightarrow> bytes result" where
  "quic_payload data =
     (if 17 < length data then
        bindR (u32_at data 17) (\<lambda>payloadLen.
          if 21 + unat payloadLen \<le> length data
          then slice data 21 (21 + unat payloadLen) else Ok [])
      else Ok [])"

definition quic_other :: "bytes \<Rightarrow> byte \<Rightarrow> bytes result" where
  "quic_other data packetType =
     (if packetType = 0 \<and> 23 < length data then processInitialPacket data
      else if packetType = 1 \<and> 37 < length data then processRetryPacket data
      else if packetType = 2 \<and> 25 < length data then processHandshakePacket data
      else if packetType = 3 \<and> 25 < length data then processZeroRTTPacket data
      else if 49 < length data then slice_from data 49
      else slice_from data 21)"

definition QUIC_Unwrap ::
  "QUICMask \<Rightarrow> bytes \<Rightarrow> env \<Rightarrow> (bytes \<times> QUICMask \<times> env) result option" where
  "QUIC_Unwrap q data e =
     (let pure = (\<lambda>r. Some (bindR r (\<lambda>p. Ok (p, q, e)))) in
      if length data < 5 then Some (Fail ErrInvalidPacket)
      else if drop_bit 7 (data ! 0 AND 0x80) = 1 then
        if length data < 21 then Some (Fail ErrInvalidPacket)
        else
          let packetType = data ! 0 AND 0x3F in
          if packetType = 0 then
            if length data < 17 then Some (Fail ErrInvalidPacket)
            else
              case bindR (u64_at data 5) (\<lambda>n. bindR (u32_at data 13) (\<lambda>w. Ok (n, w))) of
                Fail err \<Rightarrow> Some (Fail err)
              | Panic \<Rightarrow> Some Panic
              | Ok (packetNum, ackWindow) \<Rightarrow>
                  (let (_, e1) = read_clock e in
                   case ProcessAck (qm_transport q) packetNum e1 of
                     None \<Rightarrow> None
                   | Some r \<Rightarrow> Some (bindR r (\<lambda>(tr, e2).
                       let (t, e3) = read_clock e2 in
                       bindR (quic_payload data) (\<lambda>p.
                         Ok (p, q\<lparr>qm_transport := tr, qm_lastAckTime := t\<rparr>, e3)))))
          else pure (quic_other data packetType)
      else if 17 < length data then pure (processShortPacket data)
      else Some (Fail ErrInvalidPacket))"

definition Quic_ResetHandshake :: "QUICMask \<Rightarrow> QUICMask" where
  "Quic_ResetHandshake q = q\<lparr>qm_handshakeDone := False, qm_handshakeStep := 0, qm_packetNum := 0\<rparr>"

definition Quic_IsHandshakeComplete :: "QUICMask \<Rightarrow> bool" where
  "Quic_IsHandshakeComplete q = qm_handshakeDone q"

definition GetConnectionID :: "QUICMask \<Rightarrow> bytes" where
  "GetConnectionID q = qm_connectionID q"

definition GetCongestionStats :: "QUICMask \<Rightarrow> QUICStats" where
  "GetCongestionStats q = Quic_GetStats (qm_transport q)"

end
