(* ===== verification/QuicLaws.thy ===== *)
theory QuicLaws
  imports QuicMask
begin

text \<open>
  What holds of the QUIC mask: the congestion window stays between 1 and 1000 and no
  acknowledgement panics; the loop over acknowledged numbers returns for every number but
  the greatest, for which it never does; a packet of the transport carries its payload; and
  the first \<open>Wrap\<close> of a new mask panics.
\<close>

section \<open>Congestion control\<close>

definition cc_inv :: "CongestionControl \<Rightarrow> bool" where
  "cc_inv cc \<longleftrightarrow> 1 \<le> cc_cwnd cc \<and> cc_cwnd cc \<le> 1000 \<and> 2 \<le> cc_ssthresh cc"

lemma cc_inv_New: "cc_inv NewCongestionControl"
  by (simp add: cc_inv_def NewCongestionControl_def)

lemma cc_inv_OnPacketLoss: "cc_inv cc \<Longrightarrow> cc_inv (OnPacketLoss cc)"
  by (auto simp: cc_inv_def OnPacketLoss_def Let_def)

lemma cc_inv_OnAck:
  assumes "cc_inv cc"
  shows "\<exists>cc1. OnAckReceived cc d = Ok cc1 \<and> cc_inv cc1 \<and> cc_ssthresh cc1 = cc_ssthresh cc \<and>
    cc_cwnd cc1 = (if cc_cwnd cc < cc_ssthresh cc \<and> cc_cwnd cc < 1000 then cc_cwnd cc + 1
                   else cc_cwnd cc)"
proof -
  let ?w = "cc_cwnd cc"
  have w: "1 \<le> unat ?w" "unat ?w \<le> 1000" and s: "2 \<le> unat (cc_ssthresh cc)"
    using assms by (simp_all add: cc_inv_def word_le_nat_alt)
  have w1: "unat (?w + 1) = unat ?w + 1"
    using w by (simp add: unat_word_ariths)
  have d: "?w \<noteq> 1 \<Longrightarrow> 1 div ?w = 0"
    using w by (simp add: word_unat_eq_iff unat_div)
  show ?thesis
    using w s w1 d assms
    by (auto simp: OnAckReceived_def Let_def cc_inv_def word_le_nat_alt word_less_nat_alt
        word_unat_eq_iff)
qed

section \<open>The loop over acknowledged numbers\<close>

abbreviation max_u64 :: u64 where
  "max_u64 \<equiv> - 1"

lemma unat_max_u64: "unat max_u64 = 18446744073709551615"
  by (simp add: unsigned_minus_1_eq_mask mask_eq_exp_minus_1)

definition qt_inv :: "QUICTransport \<Rightarrow> bool" where
  "qt_inv q \<longleftrightarrow> cc_inv (qt_cc q) \<and> distinct (map fst (qt_sentPackets q))"

definition pending :: "QUICTransport \<Rightarrow> u64 set" where
  "pending q = fst ` set (qt_sentPackets q)"

lemma qt_inv_New: "qt_inv NewQUICTransport"
  by (simp add: qt_inv_def NewQUICTransport_def cc_inv_New)

lemma ack_one_ok:
  assumes "qt_inv q"
  shows "\<exists>q1 e1. ack_one i q e = Ok (q1, e1) \<and> qt_inv q1 \<and> pending q1 = pending q - {i} \<and>
    qt_packetNum q1 = qt_packetNum q \<and> qt_lastAck q1 = qt_lastAck q \<and>
    qt_packetLosses q1 = qt_packetLosses q"
proof (cases "map_of (qt_sentPackets q) i")
  case None
  then have "i \<notin> pending q" by (simp add: map_of_eq_None_iff pending_def)
  with None assms show ?thesis by (simp add: ack_one_def)
next
  case (Some t)
  obtain cc1 where "OnAckReceived (qt_cc q) (fst (read_clock e) - t) = Ok cc1" "cc_inv cc1"
    using assms cc_inv_OnAck by (meson qt_inv_def)
  moreover have "distinct (map fst (AList.delete i (qt_sentPackets q)))"
    using assms by (simp add: qt_inv_def distinct_delete)
  moreover have "fst ` set (AList.delete i (qt_sentPackets q)) = pending q - {i}"
    by (simp add: pending_def delete_keys [unfolded o_def] set_map [symmetric] del: set_map)
  ultimately show ?thesis
    using Some by (simp add: ack_one_def case_prod_beta Let_def qt_inv_def pending_def)
qed

lemma ack_loop_returns:
  assumes "qt_inv q" and "ackNum < max_u64"
  shows "\<exists>q1 e1. ack_loop i ackNum q e = Some (Ok (q1, e1)) \<and> qt_inv q1 \<and>
    pending q1 = {n \<in> pending q. n < i \<or> ackNum < n} \<and>
    qt_packetNum q1 = qt_packetNum q \<and> qt_lastAck q1 = qt_lastAck q \<and>
    qt_packetLosses q1 = qt_packetLosses q"
  using assms
proof (induction "unat ackNum + 1 - unat i" arbitrary: i q e rule: less_induct)
  case less
  show ?case
  proof (cases "i \<le> ackNum")
    case False
    then have "{n \<in> pending q. n < i \<or> ackNum < n} = pending q" by auto
    with False less.prems show ?thesis by (subst ack_loop.simps) auto
  next
    case True
    from ack_one_ok [OF less.prems(1)] obtain q1 e1 where q1: "ack_one i q e = Ok (q1, e1)"
      "qt_inv q1" "pending q1 = pending q - {i}" "qt_packetNum q1 = qt_packetNum q"
      "qt_lastAck q1 = qt_lastAck q" "qt_packetLosses q1 = qt_packetLosses q"
      by blast
    have i1: "unat (i + 1) = unat i + 1"
    proof -
      have "unat i < 18446744073709551615"
        using True less.prems(2)
        by (simp add: word_le_nat_alt word_less_nat_alt unat_max_u64 del: word_order.not_eq_extremum)
      then show ?thesis by (simp add: unat_word_ariths)
    qed
    have "unat ackNum + 1 - unat (i + 1) < unat ackNum + 1 - unat i"
      using True i1 by (simp add: word_le_nat_alt)
    from less.hyps [OF this q1(2) less.prems(2)] obtain q2 e2 where
      q2: "ack_loop (i + 1) ackNum q1 e1 = Some (Ok (q2, e2))" "qt_inv q2"
      "pending q2 = {n \<in> pending q1. n < i + 1 \<or> ackNum < n}"
      "qt_packetNum q2 = qt_packetNum q1" "qt_lastAck q2 = qt_lastAck q1"
      "qt_packetLosses q2 = qt_packetLosses q1" by blast
    have lt: "n < i + 1 \<and> n \<noteq> i \<longleftrightarrow> n < i" for n
      by (auto simp: word_less_nat_alt i1 word_unat_eq_iff)
    have "pending q2 = {n \<in> pending q. n < i \<or> ackNum < n}"
    proof (intro set_eqI)
      fix n
      show "n \<in> pending q2 \<longleftrightarrow> n \<in> {n \<in> pending q. n < i \<or> ackNum < n}"
        unfolding q2(3) q1(3) using lt [of n] True by (cases "n = i") (simp_all add: not_less)
    qed
    with q2 q1 True show ?thesis
      by (subst ack_loop.simps) simp
  qed
qed

text \<open>For the greatest 64-bit number the guard \<open>i <= ackNum\<close> never fails.\<close>

lemma ack_loop_max:
  assumes "qt_inv q"
  shows "ack_loop i max_u64 q e = None"
proof (rule ccontr)
  assume "ack_loop i max_u64 q e \<noteq> None"
  then obtain r where r: "ack_loop i max_u64 q e = Some r" by blast
  have "(max_u64 :: u64) = max_u64 \<longrightarrow> \<not> qt_inv q"
  proof (rule ack_loop.raw_induct [where P = "\<lambda>i m q e _. m = max_u64 \<longrightarrow> \<not> qt_inv q", OF _ r])
    fix f and i m :: u64 and q :: QUICTransport and e y
    assume IH: "\<And>i m q e y. f i m q e = Some y \<Longrightarrow> m = max_u64 \<longrightarrow> \<not> qt_inv q"
      and eq: "(if i \<le> m then
        (case ack_one i q e of
           Ok (q1, e1) \<Rightarrow> f (i + 1) m q1 e1
         | Fail err \<Rightarrow> Some (Fail err)
         | Panic \<Rightarrow> Some Panic)
      else Some (Ok (q, e))) = Some y"
    show "m = max_u64 \<longrightarrow> \<not> qt_inv q"
    proof (intro impI notI)
      assume "m = max_u64" "qt_inv q"
      obtain q1 e1 where q1: "ack_one i q e = Ok (q1, e1)" "qt_inv q1"
        using ack_one_ok [OF \<open>qt_inv q\<close>] by blast
      with eq \<open>m = max_u64\<close> have "f (i + 1) m q1 e1 = Some y" by simp
      from IH [OF this] \<open>m = max_u64\<close> q1(2) show False by simp
    qed
  qed
  with assms show False by simp
qed

lemma ProcessAck_returns:
  assumes "qt_inv q" and "ackNum < max_u64" and "qt_lastAck q < ackNum"
  shows "\<exists>q1 e1. ProcessAck q ackNum e = Some (Ok (q1, e1)) \<and> qt_inv q1 \<and> qt_lastAck q1 = ackNum \<and>
    pending q1 = {n \<in> pending q. n \<le> qt_lastAck q \<or> ackNum < n} \<and>
    qt_packetNum q1 = qt_packetNum q \<and> qt_packetLosses q1 = qt_packetLosses q"
proof -
  from ack_loop_returns [OF assms(1,2), of "qt_lastAck q + 1" e] obtain q1 e1 where q1:
    "ack_loop (qt_lastAck q + 1) ackNum q e = Some (Ok (q1, e1))" "qt_inv q1"
    "pending q1 = {n \<in> pending q. n < qt_lastAck q + 1 \<or> ackNum < n}"
    "qt_packetNum q1 = qt_packetNum q" "qt_packetLosses q1 = qt_packetLosses q"
    by blast
  have "unat (qt_lastAck q + 1) = unat (qt_lastAck q) + 1"
    using assms(2,3) by (simp add: word_less_nat_alt unat_word_ariths unat_max_u64)
  then have "n < qt_lastAck q + 1 \<longleftrightarrow> n \<le> qt_lastAck q" for n
    by (auto simp: word_less_nat_alt word_le_nat_alt)
  with q1 have p: "pending q1 = {n \<in> pending q. n \<le> qt_lastAck q \<or> ackNum < n}" by simp
  have "ProcessAck q ackNum e = Some (Ok (q1\<lparr>qt_lastAck := ackNum\<rparr>, e1))"
    using q1(1) assms(3) by (simp add: ProcessAck_def not_le [symmetric])
  with q1 p show ?thesis
    by (simp add: qt_inv_def pending_def)
qed

lemma ProcessAck_max:
  "qt_inv q \<Longrightarrow> qt_lastAck q \<noteq> max_u64 \<Longrightarrow> ProcessAck q max_u64 e = None"
  using ack_loop_max [of q "qt_lastAck q + 1" e] word_order.extremum_uniqueI [of "qt_lastAck q"]
  by (auto simp: ProcessAck_def)

lemma qt_inv_SendPacket:
  "qt_inv q \<Longrightarrow> SendPacket q d e = Ok (pkt, q1, e1) \<Longrightarrow> qt_inv q1"
  by (auto simp: SendPacket_def case_prod_beta Let_def bindR_eq_Ok qt_inv_def distinct_update)

lemma qt_inv_loss_one: "qt_inv q \<Longrightarrow> qt_inv (loss_one t q p)"
  by (simp add: loss_one_def qt_inv_def cc_inv_OnPacketLoss distinct_delete)

lemma qt_inv_DetectLoss: "qt_inv q \<Longrightarrow> qt_inv (fst (DetectLoss q e))"
proof -
  have "qt_inv q \<Longrightarrow> qt_inv (foldl (loss_one t) q ps)" for t ps q
    by (induction ps arbitrary: q) (simp_all add: qt_inv_loss_one)
  then show "qt_inv q \<Longrightarrow> qt_inv (fst (DetectLoss q e))"
    by (simp add: DetectLoss_def case_prod_beta)
qed

section \<open>Packets\<close>

lemma SendPacket_packet:
  "\<exists>q1 e1. SendPacket q d e = Ok ([0xC0] @ be32 1 @ be64 (qt_packetNum q + 1) @
     be32 (cc_cwnd (qt_cc q)) @ be32 (of_nat (length d)) @ d, q1, e1) \<and>
     qt_packetNum q1 = qt_packetNum q + 1"
  by (simp add: SendPacket_def case_prod_beta Let_def buf_simps GetWindow_def)

lemma quic_payload_packet:
  assumes "len32 d" and "length h = 17"
  shows "quic_payload (h @ be32 (of_nat (length d)) @ d) = Ok d"
  using assms unat_of_length(1) [OF assms(1)]
  by (simp add: quic_payload_def u32_at_def slice_def)

lemma QUIC_Unwrap_packet:
  assumes "len32 d" and "length w = 4"
  shows "QUIC_Unwrap m ([0xC0] @ be32 1 @ be64 n @ w @ be32 (of_nat (length d)) @ d) e =
    map_option (\<lambda>r. bindR r (\<lambda>(tr, e2). let (t, e3) = read_clock e2 in
      Ok (d, m\<lparr>qm_transport := tr, qm_lastAckTime := t\<rparr>, e3)))
      (ProcessAck (qm_transport m) n (snd (read_clock e)))"
proof -
  let ?h = "[0xC0] @ be32 1 @ be64 n @ w"
  let ?data = "?h @ be32 (of_nat (length d)) @ d"
  have q: "quic_payload ?data = Ok d"
    using quic_payload_packet [OF assms(1), of ?h] assms(2) by simp
  have u: "u64_at ?data 5 = Ok n" "u32_at ?data 13 = Ok (de32 w)"
    using assms(2) by (simp_all add: u64_at_def u32_at_def slice_def be32_def)
  have "QUIC_Unwrap m ?data e = map_option (\<lambda>r. bindR r (\<lambda>(tr, e2). let (t, e3) = read_clock e2 in
      Ok (d, m\<lparr>qm_transport := tr, qm_lastAckTime := t\<rparr>, e3)))
      (ProcessAck (qm_transport m) n (snd (read_clock e)))"
    using q u assms(2)
    by (simp add: QUIC_Unwrap_def case_prod_beta Let_def split: option.split)
  then show ?thesis by simp
qed

lemma QUIC_Wrap_first_panics:
  assumes "\<not> qm_handshakeDone q" and "qm_handshakeStep q = 0"
  shows "QUIC_Wrap q p e = Panic"
proof -
  have "simulateInitialPacket q' e' = Panic" for q' e'
  proof -
    obtain c where c: "gcm_seal (qm_secret q') (fst (draw 12 e')) (be64 (qm_packetNum q')) [] = Ok c"
      using gcm_seal_ok [of "fst (draw 12 e')" "be64 (qm_packetNum q')"] by (auto simp: gcm_max_def)
    then have "length c = 24" using gcm_seal_length by fastforce
    then show ?thesis
      unfolding simulateInitialPacket_def Let_def case_prod_beta c bindR.simps
      by (intro bind_writes_panic) simp
  qed
  with assms show ?thesis
    by (simp add: QUIC_Wrap_def quic_simulateHandshake_def case_prod_beta Let_def)
qed

lemma simulateConnectionClose_panics: "simulateConnectionClose q = Panic"
  unfolding simulateConnectionClose_def Let_def
  by (simp only: writes_panic_iff) (simp add: marker_def)

end
