(* ===== verification/Masker.thy ===== *)
theory Masker
  imports HttpLaws RtcMask QuicLaws
begin

text \<open>
  The interface \<open>masks.Masker\<close> and the factory of \<open>internal/shred/mask_mixer.go\<close>: a value
  of the interface is one of the sixteen masks, and its methods are those of the mask it
  holds. A mode is a Go int; the factory makes a vk mask of a mode it does not know.
\<close>

section \<open>Modes\<close>

type_synonym ProtocolMode = int

abbreviation ModeWebRTC :: ProtocolMode where "ModeWebRTC \<equiv> 0"
abbreviation ModeQUIC :: ProtocolMode where "ModeQUIC \<equiv> 1"
abbreviation ModeTeams :: ProtocolMode where "ModeTeams \<equiv> 2"
abbreviation ModeWinUpdate :: ProtocolMode where "ModeWinUpdate \<equiv> 3"
abbreviation ModeDNSOverHTTPS :: ProtocolMode where "ModeDNSOverHTTPS \<equiv> 4"
abbreviation ModeRuTube :: ProtocolMode where "ModeRuTube \<equiv> 5"
abbreviation ModeYandex :: ProtocolMode where "ModeYandex \<equiv> 6"
abbreviation ModeVK :: ProtocolMode where "ModeVK \<equiv> 7"
abbreviation ModeSTUN :: ProtocolMode where "ModeSTUN \<equiv> 8"
abbreviation ModeZoom :: ProtocolMode where "ModeZoom \<equiv> 9"
abbreviation ModeOzon :: ProtocolMode where "ModeOzon \<equiv> 10"
abbreviation ModeWildberries :: ProtocolMode where "ModeWildberries \<equiv> 11"
abbreviation ModeSberID :: ProtocolMode where "ModeSberID \<equiv> 12"
abbreviation ModeGosuslugi :: ProtocolMode where "ModeGosuslugi \<equiv> 13"
abbreviation ModeTLS :: ProtocolMode where "ModeTLS \<equiv> 14"
abbreviation ModeBrowser :: ProtocolMode where "ModeBrowser \<equiv> 15"

definition mode_String :: "ProtocolMode \<Rightarrow> string" where
  "mode_String m =
     (if m = ModeWebRTC then ''webrtc'' else if m = ModeQUIC then ''quic''
      else if m = ModeTeams then ''teams'' else if m = ModeWinUpdate then ''winupdate''
      else if m = ModeDNSOverHTTPS then ''doh'' else if m = ModeRuTube then ''rutube''
      else if m = ModeYandex then ''yandex'' else if m = ModeVK then ''vk''
      else if m = ModeSTUN then ''stun'' else if m = ModeZoom then ''zoom''
      else if m = ModeOzon then ''ozon'' else if m = ModeWildberries then ''wildberries''
      else if m = ModeSberID then ''sberid'' else if m = ModeGosuslugi then ''gosuslugi''
      else if m = ModeTLS then ''tls'' else if m = ModeBrowser then ''browser''
      else ''unknown'')"

section \<open>Masks\<close>

datatype Masker =
    MWebRTC WebRTCMask | MQUIC QUICMask | MTeams TeamsMask | MWinUpdate WinUpdateMask
  | MDoH DNSOverHTTPSMask | MRuTube RuTubeMask | MYandex YandexMask | MVK VKMask
  | MSTUN STUNMask | MZoom ZoomMask | MOzon OzonMask | MWildberries WildberriesMask
  | MSberID SberIDMask | MGosuslugi GosuslugiMask | MTLS TLSMask | MBrowser BrowserMask

text \<open>The mask a method leaves behind, back in the interface.\<close>

definition rewrap ::
  "('m \<Rightarrow> Masker) \<Rightarrow> (bytes \<times> 'm \<times> env) result \<Rightarrow> (bytes \<times> Masker \<times> env) result" where
  "rewrap C r = bindR r (\<lambda>(b, m, e). Ok (b, C m, e))"

fun Masker_Wrap :: "Masker \<Rightarrow> bytes \<Rightarrow> env \<Rightarrow> (bytes \<times> Masker \<times> env) result" where
  "Masker_Wrap (MWebRTC m) p e = rewrap MWebRTC (WebRTC_Wrap m p e)"
| "Masker_Wrap (MQUIC m) p e = rewrap MQUIC (QUIC_Wrap m p e)"
| "Masker_Wrap (MTeams m) p e = rewrap MTeams (Teams_Wrap m p e)"
| "Masker_Wrap (MWinUpdate m) p e = rewrap MWinUpdate (no_env WinUpdate_Wrap m p e)"
| "Masker_Wrap (MDoH m) p e = rewrap MDoH (DoH_Wrap m p e)"
| "Masker_Wrap (MRuTube m) p e = rewrap MRuTube (RuTube_Wrap m p e)"
| "Masker_Wrap (MYandex m) p e = rewrap MYandex (Yandex_Wrap m p e)"
| "Masker_Wrap (MVK m) p e = rewrap MVK (no_env VK_Wrap m p e)"
| "Masker_Wrap (MSTUN m) p e = bindR (STUN_Wrap m p) (\<lambda>b. Ok (b, MSTUN m, e))"
| "Masker_Wrap (MZoom m) p e = rewrap MZoom (Zoom_Wrap m p e)"
| "Masker_Wrap (MOzon m) p e = rewrap MOzon (Ozon_Wrap m p e)"
| "Masker_Wrap (MWildberries m) p e = rewrap MWildberries (no_env Wildberries_Wrap m p e)"
| "Masker_Wrap (MSberID m) p e = rewrap MSberID (SberID_Wrap m p e)"
| "Masker_Wrap (MGosuslugi m) p e = rewrap MGosuslugi (Gosuslugi_Wrap m p e)"
| "Masker_Wrap (MTLS m) p e = rewrap MTLS (TLS_Wrap m p e)"
| "Masker_Wrap (MBrowser m) p e = rewrap MBrowser (Browser_Wrap m p e)"

definition stateless :: "Masker \<Rightarrow> env \<Rightarrow> bytes result \<Rightarrow> (bytes \<times> Masker \<times> env) result option"
  where "stateless m e r = Some (bindR r (\<lambda>p. Ok (p, m, e)))"

fun Masker_Unwrap :: "Masker \<Rightarrow> bytes \<Rightarrow> env \<Rightarrow> (bytes \<times> Masker \<times> env) result option" where
  "Masker_Unwrap (MWebRTC m) d e = stateless (MWebRTC m) e (WebRTC_Unwrap d)"
| "Masker_Unwrap (MQUIC m) d e = map_option (rewrap MQUIC) (QUIC_Unwrap m d e)"
| "Masker_Unwrap (MTeams m) d e = stateless (MTeams m) e (Teams_Unwrap d)"
| "Masker_Unwrap (MWinUpdate m) d e = stateless (MWinUpdate m) e (WinUpdate_Unwrap d)"
| "Masker_Unwrap (MDoH m) d e = stateless (MDoH m) e (DoH_Unwrap d)"
| "Masker_Unwrap (MRuTube m) d e = stateless (MRuTube m) e (RuTube_Unwrap d)"
| "Masker_Unwrap (MYandex m) d e = stateless (MYandex m) e (Yandex_Unwrap d)"
| "Masker_Unwrap (MVK m) d e = stateless (MVK m) e (VK_Unwrap d)"
| "Masker_Unwrap (MSTUN m) d e = stateless (MSTUN m) e (STUN_Unwrap d)"
| "Masker_Unwrap (MZoom m) d e = stateless (MZoom m) e (Zoom_Unwrap m d)"
| "Masker_Unwrap (MOzon m) d e = stateless (MOzon m) e (Ozon_Unwrap d)"
| "Masker_Unwrap (MWildberries m) d e = stateless (MWildberries m) e (Wildberries_Unwrap d)"
| "Masker_Unwrap (MSberID m) d e = stateless (MSberID m) e (SberID_Unwrap d)"
| "Masker_Unwrap (MGosuslugi m) d e = stateless (MGosuslugi m) e (Gosuslugi_Unwrap d)"
| "Masker_Unwrap (MTLS m) d e = stateless (MTLS m) e (TLS_Unwrap d)"
| "Masker_Unwrap (MBrowser m) d e = stateless (MBrowser m) e (Browser_Unwrap d)"

text \<open>The mode whose mask a value is; its identifier, as the methods \<open>ID\<close> return it.\<close>

fun mask_mode :: "Masker \<Rightarrow> ProtocolMode" where
  "mask_mode (MWebRTC _) = ModeWebRTC" | "mask_mode (MQUIC _) = ModeQUIC"
| "mask_mode (MTeams _) = ModeTeams" | "mask_mode (MWinUpdate _) = ModeWinUpdate"
| "mask_mode (MDoH _) = ModeDNSOverHTTPS" | "mask_mode (MRuTube _) = ModeRuTube"
| "mask_mode (MYandex _) = ModeYandex" | "mask_mode (MVK _) = ModeVK"
| "mask_mode (MSTUN _) = ModeSTUN" | "mask_mode (MZoom _) = ModeZoom"
| "mask_mode (MOzon _) = ModeOzon" | "mask_mode (MWildberries _) = ModeWildberries"
| "mask_mode (MSberID _) = ModeSberID" | "mask_mode (MGosuslugi _) = ModeGosuslugi"
| "mask_mode (MTLS _) = ModeTLS" | "mask_mode (MBrowser _) = ModeBrowser"

fun Masker_ID :: "Masker \<Rightarrow> string" where
  "Masker_ID (MWebRTC _) = ''webrtc''" | "Masker_ID (MQUIC _) = ''quic''"
| "Masker_ID (MTeams _) = ''teams''" | "Masker_ID (MWinUpdate _) = ''winupdate''"
| "Masker_ID (MDoH _) = ''doh''" | "Masker_ID (MRuTube _) = ''rutube''"
| "Masker_ID (MYandex _) = ''yandex''" | "Masker_ID (MVK _) = ''vk''"
| "Masker_ID (MSTUN _) = ''stun''" | "Masker_ID (MZoom _) = ''zoom''"
| "Masker_ID (MOzon _) = ''ozon''" | "Masker_ID (MWildberries _) = ''wildberries''"
| "Masker_ID (MSberID _) = ''sberid''" | "Masker_ID (MGosuslugi _) = ''gosuslugi''"
| "Masker_ID (MTLS _) = ''tls''" | "Masker_ID (MBrowser _) = ''browser''"

definition made :: "('m \<Rightarrow> Masker) \<Rightarrow> 'm \<times> env \<Rightarrow> (Masker \<times> env) result" where
  "made C r = Ok (C (fst r), snd r)"

definition CreateMask :: "ProtocolMode \<Rightarrow> env \<Rightarrow> (Masker \<times> env) result" where
  "CreateMask mode e =
     (if mode = ModeWebRTC then made MWebRTC (NewWebRTCMask e)
      else if mode = ModeQUIC then bindR (NewQUICMask e) (made MQUIC)
      else if mode = ModeTeams then made MTeams (NewTeamsMask e)
      else if mode = ModeWinUpdate then made MWinUpdate (NewWinUpdateMask e)
      else if mode = ModeDNSOverHTTPS then made MDoH (NewDNSOverHTTPSMask e)
      else if mode = ModeRuTube then made MRuTube (NewRuTubeMask e)
      else if mode = ModeYandex then made MYandex (NewYandexMask e)
      else if mode = ModeVK then made MVK (NewVKMask e)
      else if mode = ModeSTUN then made MSTUN (NewSTUNMask e)
      else if mode = ModeZoom then made MZoom (NewZoomMask e)
      else if mode = ModeOzon then made MOzon (NewOzonMask e)
      else if mode = ModeWildberries then made MWildberries (NewWildberriesMask e)
      else if mode = ModeSberID then made MSberID (NewSberIDMask e)
      else if mode = ModeGosuslugi then made MGosuslugi (NewGosuslugiMask e)
      else if mode = ModeTLS then bindR (NewTLSMask e) (made MTLS)
      else if mode = ModeBrowser then made MBrowser (NewBrowserMask e)
      else made MVK (NewVKMask e))"

end
