(* ===== verification/Replay.thy ===== *)
theory Replay
  imports Prelude
begin

text \<open>
  The sliding window against replays, written twice in the program: \<open>ReplayProtection\<close> of
  \<open>internal/shred/handshake.go\<close> and \<open>Session.CheckReplay\<close> of \<open>internal/shred/session.go\<close>.
  The locale states what both promise, a window of the last accepted numbers, and proves
  once what a sequence of checks does; each is interpreted in it.
\<close>

section \<open>The interface\<close>

definition slide :: "nat \<Rightarrow> u64 list \<Rightarrow> u64 \<Rightarrow> u64 list" where
  "slide cap w x = (if cap < length w + 1 then tl (w @ [x]) else w @ [x])"

fun check_all :: "('s \<Rightarrow> u64 \<Rightarrow> bool \<times> 's) \<Rightarrow> 's \<Rightarrow> u64 list \<Rightarrow> bool list \<times> 's" where
  "check_all check s [] = ([], s)"
| "check_all check s (x # xs) =
     (let (b, s1) = check s x; (bs, s2) = check_all check s1 xs in (b # bs, s2))"

locale replay_window =
  fixes check :: "'s \<Rightarrow> u64 \<Rightarrow> bool \<times> 's"
    and window :: "'s \<Rightarrow> u64 list"
    and cap :: "'s \<Rightarrow> nat"
    and ok :: "'s \<Rightarrow> bool"
  assumes check_flag: "ok s \<Longrightarrow> fst (check s x) \<longleftrightarrow> x \<in> set (window s)"
    and check_window: "ok s \<Longrightarrow>
      window (snd (check s x)) = (if x \<in> set (window s) then window s else slide (cap s) (window s) x)"
    and check_cap: "ok s \<Longrightarrow> cap (snd (check s x)) = cap s"
    and check_ok: "ok s \<Longrightarrow> ok (snd (check s x))"
    and ok_size: "ok s \<Longrightarrow> length (window s) \<le> cap s"
begin

lemma check_all_ok: "ok s \<Longrightarrow> ok (snd (check_all check s xs)) \<and> cap (snd (check_all check s xs)) = cap s"
  by (induction xs arbitrary: s) (auto simp: case_prod_beta Let_def check_ok check_cap)

lemma window_bounded: "ok s \<Longrightarrow> length (window (snd (check_all check s xs))) \<le> cap s"
  using check_all_ok ok_size by metis

text \<open>An accepted number is in the window at once, if the window holds anything.\<close>

lemma accepted_in_window:
  "ok s \<Longrightarrow> 0 < cap s \<Longrightarrow> x \<in> set (window (snd (check s x)))"
  by (cases "window s") (auto simp: check_window slide_def)

text \<open>
  A number stays in the window while fewer others were accepted than there are places
  behind it: at depth \<open>i\<close> it survives \<open>i\<close> further acceptances.
\<close>

definition accepted :: "'s \<Rightarrow> u64 list \<Rightarrow> nat" where
  "accepted s xs = length (filter Not (fst (check_all check s xs)))"

lemma survives:
  "ok s \<Longrightarrow> window s = a @ x # b \<Longrightarrow> accepted s xs \<le> cap s - length (window s) + length a \<Longrightarrow>
   x \<in> set (window (snd (check_all check s xs)))"
proof (induction xs arbitrary: s a b)
  case (Cons y ys)
  let ?s1 = "snd (check s y)"
  have ok1: "ok ?s1" and cap1: "cap ?s1 = cap s"
    using check_ok check_cap Cons.prems(1) by auto
  have acc: "accepted s (y # ys) = (if fst (check s y) then 0 else 1) + accepted ?s1 ys"
    by (simp add: accepted_def case_prod_beta Let_def)
  show ?case
  proof (cases "y \<in> set (window s)")
    case True
    with Cons.prems check_window have "window ?s1 = a @ x # b" by simp
    with Cons.IH [OF ok1 this] Cons.prems acc cap1 True check_flag show ?thesis
      by (simp add: case_prod_beta Let_def)
  next
    case False
    with Cons.prems check_flag acc
    have le: "accepted ?s1 ys + 1 \<le> cap s - length (window s) + length a" by simp
    have size: "length (window s) \<le> cap s" using ok_size Cons.prems(1) .
    have w: "window ?s1 = slide (cap s) (window s) y"
      using False check_window Cons.prems(1) by simp
    show ?thesis
    proof (cases "length (window s) = cap s")
      case True
      with le obtain z a' where a: "a = z # a'" by (cases a) auto
      with w True Cons.prems(2) have "window ?s1 = a' @ x # (b @ [y])" by (simp add: slide_def)
      moreover have "length (window ?s1) = cap s"
        using \<open>window ?s1 = a' @ x # (b @ [y])\<close> a True Cons.prems(2) by simp
      ultimately show ?thesis
        using Cons.IH [OF ok1, of a' "b @ [y]"] le a cap1 True by (simp add: case_prod_beta Let_def)
    next
      case False
      with size w Cons.prems(2) have w': "window ?s1 = a @ x # (b @ [y])" by (simp add: slide_def)
      with le size False Cons.prems(2) have
        "accepted ?s1 ys \<le> cap ?s1 - length (window ?s1) + length a" by (simp add: cap1)
      with Cons.IH [OF ok1 w'] show ?thesis by (simp add: case_prod_beta Let_def)
    qed
  qed
qed simp

text \<open>
  A number just accepted is refused again after any run of checks in which fewer numbers
  were accepted than the window holds.
\<close>

lemma replay_refused:
  assumes "ok s" and "\<not> fst (check s x)" and "accepted (snd (check s x)) xs < cap s"
  shows "fst (check (snd (check_all check (snd (check s x)) xs)) x)"
proof -
  let ?s1 = "snd (check s x)"
  have ok1: "ok ?s1" and cap1: "cap ?s1 = cap s" using assms(1) check_ok check_cap by auto
  have "x \<notin> set (window s)" using assms(1,2) check_flag by simp
  then have w: "window ?s1 = slide (cap s) (window s) x"
    using check_window assms(1) by simp
  obtain a where a: "window ?s1 = a @ [x]"
  proof (cases "window s")
    case Nil
    with w assms(3) that [of "[]"] show ?thesis by (simp add: slide_def split: if_splits)
  next
    case (Cons y ys)
    with w that [of ys] that [of "y # ys"] show ?thesis by (simp add: slide_def split: if_splits)
  qed
  have "length (window ?s1) \<le> cap s" using ok_size [OF ok1] cap1 by simp
  then have "accepted ?s1 xs \<le> cap ?s1 - length (window ?s1) + length a"
    using a assms(3) cap1 by simp
  from survives [OF ok1 _ this, of x "[]"] a
  have "x \<in> set (window (snd (check_all check ?s1 xs)))" by simp
  then show ?thesis using check_flag check_all_ok [OF ok1] by blast
qed

end

section \<open>ReplayProtection\<close>

record ReplayProtection =
  rp_seen :: "u64 set"
  rp_window :: "u64 list"
  rp_maxSize :: int

definition NewReplayProtection :: "int \<Rightarrow> ReplayProtection" where
  "NewReplayProtection maxSize = \<lparr>rp_seen = {}, rp_window = [], rp_maxSize = maxSize\<rparr>"

definition CheckAndAdd :: "ReplayProtection \<Rightarrow> u64 \<Rightarrow> bool \<times> ReplayProtection" where
  "CheckAndAdd rp sequence =
     (if sequence \<in> rp_seen rp then (True, rp)
      else
        let seen = insert sequence (rp_seen rp); w = rp_window rp @ [sequence] in
        if rp_maxSize rp < int (length w)
        then (False, rp\<lparr>rp_seen := seen - {hd w}, rp_window := tl w\<rparr>)
        else (False, rp\<lparr>rp_seen := seen, rp_window := w\<rparr>))"

definition ReplayProtection_Reset :: "ReplayProtection \<Rightarrow> ReplayProtection" where
  "ReplayProtection_Reset rp = rp\<lparr>rp_seen := {}, rp_window := []\<rparr>"

text \<open>The map holds the numbers of the window, each once.\<close>

definition window_inv :: "u64 set \<Rightarrow> u64 list \<Rightarrow> int \<Rightarrow> bool" where
  "window_inv seen w n \<longleftrightarrow> seen = set w \<and> distinct w \<and> length w \<le> nat n"

definition rp_inv :: "ReplayProtection \<Rightarrow> bool" where
  "rp_inv rp \<longleftrightarrow> window_inv (rp_seen rp) (rp_window rp) (rp_maxSize rp)"

lemma window_inv_slide:
  assumes "window_inv seen w n" and "x \<notin> seen"
  shows "window_inv (insert x seen - (if n < int (length w) + 1 then {hd (w @ [x])} else {}))
    (slide (nat n) w x) n"
proof (cases w)
  case Nil
  with assms show ?thesis by (auto simp: window_inv_def slide_def)
next
  case (Cons y ys)
  with assms show ?thesis by (auto simp: window_inv_def slide_def)
qed

lemma NewReplayProtection_inv: "rp_inv (NewReplayProtection n)"
  by (simp add: rp_inv_def NewReplayProtection_def window_inv_def)

lemma CheckAndAdd_step:
  assumes "rp_inv rp"
  shows "fst (CheckAndAdd rp x) \<longleftrightarrow> x \<in> set (rp_window rp)"
    and "rp_window (snd (CheckAndAdd rp x)) =
      (if x \<in> set (rp_window rp) then rp_window rp
       else slide (nat (rp_maxSize rp)) (rp_window rp) x)"
    and "rp_maxSize (snd (CheckAndAdd rp x)) = rp_maxSize rp"
    and "rp_inv (snd (CheckAndAdd rp x))"
proof -
  have seen: "rp_seen rp = set (rp_window rp)" using assms by (simp add: rp_inv_def window_inv_def)
  have c: "nat (rp_maxSize rp) < length (rp_window rp) + 1 \<longleftrightarrow>
      rp_maxSize rp < int (length (rp_window rp)) + 1" by linarith
  show "fst (CheckAndAdd rp x) \<longleftrightarrow> x \<in> set (rp_window rp)"
    "rp_maxSize (snd (CheckAndAdd rp x)) = rp_maxSize rp"
    "rp_window (snd (CheckAndAdd rp x)) =
      (if x \<in> set (rp_window rp) then rp_window rp
       else slide (nat (rp_maxSize rp)) (rp_window rp) x)"
    using c by (auto simp: CheckAndAdd_def Let_def seen slide_def)
  show "rp_inv (snd (CheckAndAdd rp x))"
  proof (cases "x \<in> rp_seen rp")
    case True
    with assms show ?thesis by (simp add: CheckAndAdd_def)
  next
    case False
    from window_inv_slide [OF assms [unfolded rp_inv_def] this] False c show ?thesis
      by (auto simp: CheckAndAdd_def Let_def rp_inv_def slide_def split: if_splits)
  qed
qed

interpretation rp: replay_window CheckAndAdd rp_window "\<lambda>rp. nat (rp_maxSize rp)" rp_inv
  by unfold_locales (auto simp: CheckAndAdd_step, simp add: rp_inv_def window_inv_def)

end
