(* ===== verification/Handshake.thy ===== *)
theory Handshake
  imports Masker Replay
begin

text \<open>
  The handshake of \<open>internal/shred/handshake.go\<close>: its wire format and checksum, the memory
  of sequence numbers, and the two roles. A connection is the read deadline and the write
  deadline that may fail, and what its one \<open>Read\<close> gives; the packets written are returned in
  order. \<open>ProtocolMode\<close> is a Go int, so the casts to \<open>byte\<close> and \<open>uint32\<close> are modelled as
  wrapping.
\<close>

section \<open>The message\<close>

record Handshake =
  h_Magic :: bytes
  h_Type :: byte
  h_Version :: byte
  h_SwitchInterval :: u32
  h_ModesCount :: byte
  h_Modes :: "ProtocolMode list"
  h_CurrentMode :: u32
  h_Timestamp :: u64
  h_Nonce :: bytes
  h_Sequence :: u64
  h_Checksum :: byte

abbreviation HandshakeSyn :: byte where "HandshakeSyn \<equiv> 1"
abbreviation HandshakeAck :: byte where "HandshakeAck \<equiv> 2"
abbreviation HandshakeFin :: byte where "HandshakeFin \<equiv> 3"

definition xor_bytes_all :: "bytes \<Rightarrow> byte" where
  "xor_bytes_all bs = foldr (\<lambda>a b. a XOR b) bs 0"

definition calcChecksum :: "Handshake \<Rightarrow> byte" where
  "calcChecksum h = xor_bytes_all
     (h_Magic h @ [h_Type h, h_Version h] @ be32 (h_SwitchInterval h) @ [h_ModesCount h] @
      map of_int (h_Modes h) @ be32 (h_CurrentMode h) @ h_Nonce h @
      be64 (h_Sequence h) @ be64 (h_Timestamp h))"

text \<open>\<open>interval.Seconds()\<close> cut to a \<open>uint32\<close>.\<close>

definition seconds32 :: "duration \<Rightarrow> u32" where
  "seconds32 d = of_int (d div second)"

definition NewHandshake ::
  "byte \<Rightarrow> duration \<Rightarrow> ProtocolMode list \<Rightarrow> ProtocolMode \<Rightarrow> u64 \<Rightarrow> env \<Rightarrow> Handshake \<times> env" where
  "NewHandshake typ interval modes currentMode sequence e =
     (let (t, e1) = read_clock e; (nonce, e2) = draw 16 e1;
          hs = \<lparr>h_Magic = [0xDE, 0xAD, 0xBE, 0xEF], h_Type = typ, h_Version = 1,
                h_SwitchInterval = seconds32 interval, h_ModesCount = of_nat (length modes),
                h_Modes = modes, h_CurrentMode = of_int currentMode,
                h_Timestamp = unixnano64 t, h_Nonce = nonce, h_Sequence = sequence,
                h_Checksum = 0\<rparr>
      in (hs\<lparr>h_Checksum := calcChecksum hs\<rparr>, e2))"

definition Verify :: "Handshake \<Rightarrow> bool" where
  "Verify h \<longleftrightarrow> h_Magic h = [0xDE, 0xAD, 0xBE, 0xEF] \<and> h_Version h = 1 \<and>
     h_Checksum h = calcChecksum h"

section \<open>The wire format\<close>

definition encode_head :: "Handshake \<Rightarrow> bytes" where
  "encode_head h =
     take 4 (h_Magic h @ replicate 4 0) @ [h_Type h, h_Version h] @ be32 (h_SwitchInterval h) @
     [h_ModesCount h]"

definition encode_modes :: "ProtocolMode list \<Rightarrow> bytes" where
  "encode_modes modes = concat (map (\<lambda>m. be32 (of_int m)) modes)"

definition encode_tail :: "Handshake \<Rightarrow> bytes" where
  "encode_tail h = be32 (h_CurrentMode h) @ be64 (h_Timestamp h) @
     take 16 (h_Nonce h @ replicate 16 0) @ be64 (h_Sequence h) @ [h_Checksum h]"

text \<open>The tail is written only for a current mode other than 0.\<close>

definition Encode :: "Handshake \<Rightarrow> bytes" where
  "Encode h = encode_head h @ encode_modes (h_Modes h) @
     (if h_CurrentMode h \<noteq> 0 then encode_tail h else [])"

fun decode_modes :: "nat \<Rightarrow> bytes \<Rightarrow> nat \<Rightarrow> ProtocolMode list result" where
  "decode_modes 0 data off = Ok []"
| "decode_modes (Suc n) data off =
     bindR (u32_at data off) (\<lambda>mode.
     bindR (decode_modes n data (off + 4)) (\<lambda>modes. Ok (uint mode # modes)))"

text \<open>A field of the tail: read if it fits, else left zero and the offset kept.\<close>

definition opt_u64 :: "bytes \<Rightarrow> nat \<Rightarrow> (u64 \<times> nat) result" where
  "opt_u64 data off =
     (if off + 8 \<le> length data then bindR (u64_at data off) (\<lambda>v. Ok (v, off + 8)) else Ok (0, off))"

definition opt_nonce :: "bytes \<Rightarrow> nat \<Rightarrow> (bytes \<times> nat) result" where
  "opt_nonce data off =
     (if off + 16 \<le> length data then bindR (slice data off (off + 16)) (\<lambda>b. Ok (b, off + 16))
      else Ok (replicate 16 0, off))"

definition DecodeHandshake :: "bytes \<Rightarrow> Handshake result" where
  "DecodeHandshake data =
     (if length data < 4 + 1 + 1 + 4 + 1 then Fail ErrInvalidHandshakeMagic
      else
        bindR (slice data 0 4) (\<lambda>magic.
        bindR (index data 4) (\<lambda>typ.
        bindR (index data 5) (\<lambda>version.
        bindR (u32_at data 6) (\<lambda>interval.
        bindR (index data 10) (\<lambda>count.
        let n = unat count; off = 11 + n * 4 in
        if length data < 11 + n * 4 then Fail ErrInvalidHandshakeMagic
        else
          bindR (decode_modes n data 11) (\<lambda>modes.
          bindR (if off + 4 \<le> length data then bindR (u32_at data off) (\<lambda>c. Ok (c, off + 4))
                 else bindR (index modes 0) (\<lambda>m. Ok (of_int m, off))) (\<lambda>(current, off).
          bindR (opt_u64 data off) (\<lambda>(timestamp, off).
          bindR (opt_nonce data off) (\<lambda>(nonce, off).
          bindR (opt_u64 data off) (\<lambda>(sequence, off).
          bindR (if off < length data then index data off else Ok 0) (\<lambda>checksum.
          let h = \<lparr>h_Magic = magic, h_Type = typ, h_Version = version,
                   h_SwitchInterval = interval, h_ModesCount = count, h_Modes = modes,
                   h_CurrentMode = current, h_Timestamp = timestamp, h_Nonce = nonce,
                   h_Sequence = sequence, h_Checksum = checksum\<rparr>
          in if Verify h then Ok h else Fail ErrHandshakeChecksumMismatch))))))))))))"

section \<open>The memory of sequence numbers\<close>

record HandshakeState =
  s_Sequence :: u64
  s_LastSeen :: "(u64 \<times> instant) list"

definition NewHandshakeState :: HandshakeState where
  "NewHandshakeState = \<lparr>s_Sequence = 0, s_LastSeen = []\<rparr>"

definition NextSequence :: "HandshakeState \<Rightarrow> u64 \<times> HandshakeState" where
  "NextSequence hs = (s_Sequence hs + 1, hs\<lparr>s_Sequence := s_Sequence hs + 1\<rparr>)"

definition IsReplay :: "HandshakeState \<Rightarrow> u64 \<Rightarrow> duration \<Rightarrow> env \<Rightarrow> bool \<times> env" where
  "IsReplay hs sequence windowSize e =
     (case map_of (s_LastSeen hs) sequence of
        None \<Rightarrow> (False, e)
      | Some lastTime \<Rightarrow> (let (t, e1) = read_clock e in (t - lastTime < windowSize, e1)))"

text \<open>Each entry is aged by a reading of the clock of its own.\<close>

fun sweep_seen :: "duration \<Rightarrow> (u64 \<times> instant) list \<Rightarrow> env \<Rightarrow> (u64 \<times> instant) list \<times> env" where
  "sweep_seen maxAge [] e = ([], e)"
| "sweep_seen maxAge (p # ps) e =
     (let (t, e1) = read_clock e; (qs, e2) = sweep_seen maxAge ps e1 in
      (if maxAge < t - snd p then qs else p # qs, e2))"

definition MarkSeen :: "u64 \<Rightarrow> HandshakeState \<Rightarrow> env \<Rightarrow> HandshakeState \<times> env" where
  "MarkSeen sequence hs e =
     (let (t, e1) = read_clock e;
          (seen, e2) = sweep_seen minute (AList.update sequence t (s_LastSeen hs)) e1 in
      (hs\<lparr>s_LastSeen := seen\<rparr>, e2))"

definition HandshakeState_Reset :: "HandshakeState \<Rightarrow> HandshakeState" where
  "HandshakeState_Reset hs = hs\<lparr>s_LastSeen := [], s_Sequence := 0\<rparr>"

section \<open>The two roles\<close>

record HandshakeManager =
  hm_state :: HandshakeState
  hm_authKey :: bytes
  hm_timeout :: duration

text \<open>
  The constructor logs the first five bytes of a key that is not empty. A slice can be resliced up
  to its capacity, and the runtime gives a slice made of a string, as every short key is, at
  least eight bytes, those behind the key zero.
\<close>

definition key_room :: "bytes \<Rightarrow> bytes" where
  "key_room authKey = authKey @ replicate (8 - length authKey) 0"

definition NewHandshakeManager :: "bytes \<Rightarrow> duration \<Rightarrow> HandshakeManager result" where
  "NewHandshakeManager authKey timeout =
     bindR (if 0 < length authKey then slice (key_room authKey) 0 5 else Ok []) (\<lambda>_.
       Ok \<lparr>hm_state = NewHandshakeState, hm_authKey = authKey, hm_timeout = timeout\<rparr>)"

lemma NewHandshakeManager_total:
  "NewHandshakeManager authKey timeout =
     Ok \<lparr>hm_state = NewHandshakeState, hm_authKey = authKey, hm_timeout = timeout\<rparr>"
proof -
  have "5 \<le> length authKey + (8 - length authKey)" by simp
  then show ?thesis by (simp add: NewHandshakeManager_def key_room_def Prelude.slice_def del: le_diff_conv)
qed

definition ResetReplayState :: "HandshakeManager \<Rightarrow> HandshakeManager" where
  "ResetReplayState hm = hm\<lparr>hm_state := HandshakeState_Reset (hm_state hm)\<rparr>"

definition Sign :: "HandshakeManager \<Rightarrow> bytes \<Rightarrow> bytes" where
  "Sign hm data = hmac_sha256 (hm_authKey hm) data"

definition verify_sig :: "HandshakeManager \<Rightarrow> bytes \<Rightarrow> bytes \<Rightarrow> bool" where
  "verify_sig hm data signature = hmac_equal (Sign hm data) signature"

record hs_conn =
  hc_read_deadline :: "go_error option"
  hc_write_deadline :: "go_error option"
  hc_read :: "bytes result"

text \<open>The read buffer has 4096 bytes; what a read leaves over stays in the connection.\<close>

definition conn_Read :: "hs_conn \<Rightarrow> bytes result" where
  "conn_Read c = bindR (hc_read c) (\<lambda>b. Ok (take 4096 b))"

text \<open>What is common to the roles: a packet is split into message and signature, then decoded.\<close>

definition open_signed :: "HandshakeManager \<Rightarrow> byte \<Rightarrow> bytes \<Rightarrow> Handshake result" where
  "open_signed hm typ packet =
     (let n = length packet in
      if n < 32 then Fail ErrAuthFailed
      else if \<not> verify_sig hm (take (n - 32) packet) (drop (n - 32) packet) then Fail ErrAuthFailed
      else
        bindR (DecodeHandshake (take (n - 32) packet)) (\<lambda>h.
          if h_Type h \<noteq> typ then Fail ErrAuthFailed else Ok h))"

text \<open>
  The test and the mark hold the lock of the memory one after the other: they are two operations,
  between which a handshake of another connection can run.
\<close>

definition accept_sequence ::
  "HandshakeManager \<Rightarrow> u64 \<Rightarrow> env \<Rightarrow> unit result \<times> HandshakeManager \<times> env" where
  "accept_sequence hm sequence e =
     (let (replay, e1) = IsReplay (hm_state hm) sequence (30 * second) e in
      if replay then (Fail ErrHandshakeReplay, hm, e1)
      else
        let (st, e2) = MarkSeen sequence (hm_state hm) e1 in
        (Ok (), hm\<lparr>hm_state := st\<rparr>, e2))"

definition PerformClientHandshake ::
  "HandshakeManager \<Rightarrow> hs_conn \<Rightarrow> duration \<Rightarrow> ProtocolMode list \<Rightarrow> ProtocolMode \<Rightarrow> u64 \<Rightarrow> env \<Rightarrow>
     unit result \<times> bytes list \<times> HandshakeManager \<times> env" where
  "PerformClientHandshake hm conn interval modes currentMode sequence e =
     (let (syn, e1) = NewHandshake HandshakeSyn interval modes currentMode sequence e;
          synData = Encode syn;
          packet = synData @ Sign hm synData;
          sent = replicate 3 packet;
          (_, e2) = read_clock e1 in
      case hc_read_deadline conn of
        Some err \<Rightarrow> (Fail err, sent, hm, e2)
      | None \<Rightarrow>
          (case bindR (conn_Read conn) (open_signed hm HandshakeAck) of
             Fail err \<Rightarrow> (Fail err, sent, hm, e2)
           | Panic \<Rightarrow> (Panic, sent, hm, e2)
           | Ok ack \<Rightarrow>
               (let (r, hm1, e3) = accept_sequence hm (h_Sequence ack) e2 in (r, sent, hm1, e3))))"

record SessionConfig =
  SwitchInterval :: duration
  Modes :: "ProtocolMode list"
  CurrentMode :: ProtocolMode
  EnableReplayProtection :: bool
  ReplayWindowSize :: int

definition PerformServerHandshake ::
  "HandshakeManager \<Rightarrow> hs_conn \<Rightarrow> env \<Rightarrow>
     SessionConfig result \<times> bytes list \<times> HandshakeManager \<times> env" where
  "PerformServerHandshake hm conn e =
     (let (_, e1) = read_clock e in
      case hc_read_deadline conn of
        Some err \<Rightarrow> (Fail err, [], hm, e1)
      | None \<Rightarrow>
          (case bindR (conn_Read conn) (open_signed hm HandshakeSyn) of
             Fail err \<Rightarrow> (Fail err, [], hm, e1)
           | Panic \<Rightarrow> (Panic, [], hm, e1)
           | Ok syn \<Rightarrow>
               (case accept_sequence hm (h_Sequence syn) e1 of
                  (Fail err, hm1, e2) \<Rightarrow> (Fail err, [], hm1, e2)
                | (Panic, hm1, e2) \<Rightarrow> (Panic, [], hm1, e2)
                | (Ok _, hm1, e2) \<Rightarrow>
                    (let config = \<lparr>SwitchInterval = uint (h_SwitchInterval syn) * second,
                           Modes = h_Modes syn, CurrentMode = uint (h_CurrentMode syn),
                           EnableReplayProtection = True, ReplayWindowSize = 64\<rparr>;
                         (seq, st) = NextSequence (hm_state hm1);
                         hm2 = hm1\<lparr>hm_state := st\<rparr>;
                         (ack, e3) = NewHandshake HandshakeAck (SwitchInterval config)
                           (Modes config) (CurrentMode config) seq e2;
                         ackData = Encode ack;
                         (_, e4) = read_clock e3 in
                     case hc_write_deadline conn of
                       Some err \<Rightarrow> (Fail err, [], hm2, e4)
                     | None \<Rightarrow>
                         (Ok config, replicate 3 (ackData @ Sign hm2 ackData), hm2, e4)))))"

end
