(* ===== verification/HandshakeLaws.thy ===== *)
theory HandshakeLaws
  imports Handshake
begin

text \<open>
  What the handshake promises: decoding inverts encoding for a current mode other than 0,
  and drops the tail for mode 0; only packets signed with the key are accepted; a client and
  a server with one key agree on the session; a sequence number is refused for thirty
  seconds.
\<close>

section \<open>Reading at an offset\<close>

lemma slice_mid: "length a = off \<Longrightarrow> hi = off + length b \<Longrightarrow> slice (a @ b @ c) off hi = Ok b"
  by (simp add: slice_def)

lemma u32_at_mid: "length a = off \<Longrightarrow> u32_at (a @ be32 v @ c) off = Ok v"
  by (simp add: u32_at_def slice_mid)

lemma u64_at_mid: "length a = off \<Longrightarrow> u64_at (a @ be64 v @ c) off = Ok v"
  by (simp add: u64_at_def slice_mid)

lemma index_mid: "length a = off \<Longrightarrow> index (a @ [b] @ c) off = Ok b"
  by (simp add: index_def nth_append)

section \<open>Round trip\<close>

definition hs_wf :: "Handshake \<Rightarrow> bool" where
  "hs_wf h \<longleftrightarrow> length (h_Magic h) = 4 \<and> length (h_Nonce h) = 16 \<and>
     length (h_Modes h) < 256 \<and> h_ModesCount h = of_nat (length (h_Modes h)) \<and>
     list_all (\<lambda>m. 0 \<le> m \<and> m < 4294967296) (h_Modes h)"

lemma length_encode_modes [simp]: "length (encode_modes modes) = 4 * length modes"
  by (induction modes) (simp_all add: encode_modes_def)

lemma encode_modes_Cons: "encode_modes (m # ms) = be32 (of_int m) @ encode_modes ms"
  by (simp add: encode_modes_def)

lemma uint_of_int_u32: "0 \<le> m \<Longrightarrow> m < 4294967296 \<Longrightarrow> uint (of_int m :: u32) = m"
  by (simp add: uint_word_of_int)

lemma decode_modes_encode:
  "list_all (\<lambda>m. 0 \<le> m \<and> m < 4294967296) modes \<Longrightarrow> length a = off \<Longrightarrow>
   decode_modes (length modes) (a @ encode_modes modes @ c) off = Ok modes"
proof (induction modes arbitrary: a off)
  case (Cons m ms)
  have "decode_modes (length ms) ((a @ be32 (of_int m)) @ encode_modes ms @ c) (off + 4) = Ok ms"
    using Cons.prems by (intro Cons.IH) simp_all
  moreover have "u32_at (a @ be32 (of_int m) @ encode_modes ms @ c) off = Ok (of_int m)"
    using Cons.prems(2) by (rule u32_at_mid)
  ultimately show ?case
    using Cons.prems(1) by (simp add: encode_modes_Cons uint_of_int_u32)
qed simp

lemma decode_head:
  assumes "hs_wf h"
  shows "DecodeHandshake (encode_head h @ encode_modes (h_Modes h) @ r) =
    (let off = 11 + 4 * length (h_Modes h);
         data = encode_head h @ encode_modes (h_Modes h) @ r in
     bindR (if 4 \<le> length r then bindR (u32_at data off) (\<lambda>c. Ok (c, off + 4))
            else bindR (index (h_Modes h) 0) (\<lambda>m. Ok (of_int m, off))) (\<lambda>(current, off).
     bindR (opt_u64 data off) (\<lambda>(timestamp, off).
     bindR (opt_nonce data off) (\<lambda>(nonce, off).
     bindR (opt_u64 data off) (\<lambda>(sequence, off).
     bindR (if off < length data then index data off else Ok 0) (\<lambda>checksum.
       let h' = h\<lparr>h_CurrentMode := current, h_Timestamp := timestamp, h_Nonce := nonce,
                  h_Sequence := sequence, h_Checksum := checksum\<rparr>
       in if Verify h' then Ok h' else Fail ErrHandshakeChecksumMismatch))))))"
proof -
  let ?m = "encode_modes (h_Modes h)"
  let ?d = "encode_head h @ ?m @ r"
  have mg: "length (h_Magic h) = 4" using assms by (simp add: hs_wf_def)
  then have hd: "encode_head h = h_Magic h @ [h_Type h] @ [h_Version h] @
      be32 (h_SwitchInterval h) @ [h_ModesCount h]" by (simp add: encode_head_def)
  have d: "?d = h_Magic h @ [h_Type h] @ [h_Version h] @ be32 (h_SwitchInterval h) @
      [h_ModesCount h] @ ?m @ r" by (simp add: hd)
  have e1: "slice ?d 0 4 = Ok (h_Magic h)"
    using slice_mid [of "[]" 0 4 "h_Magic h"] mg by (simp add: d)
  have e2: "index ?d 4 = Ok (h_Type h)" unfolding d using mg by (rule index_mid)
  have e3: "index ?d 5 = Ok (h_Version h)"
    using index_mid [of "h_Magic h @ [h_Type h]" 5] mg by (simp add: d)
  have e4: "u32_at ?d 6 = Ok (h_SwitchInterval h)"
    using u32_at_mid [of "h_Magic h @ [h_Type h, h_Version h]" 6] mg by (simp add: d)
  have e5: "index ?d 10 = Ok (h_ModesCount h)"
    using index_mid [of "h_Magic h @ [h_Type h, h_Version h] @ be32 (h_SwitchInterval h)" 10] mg
    by (simp add: d)
  have n: "unat (h_ModesCount h) = length (h_Modes h)"
    using assms by (simp add: hs_wf_def unat_of_nat)
  have lh: "length (encode_head h) = 11" using mg by (simp add: hd)
  have e6: "decode_modes (length (h_Modes h)) ?d 11 = Ok (h_Modes h)"
    using assms lh by (intro decode_modes_encode) (simp_all add: hs_wf_def)
  have l: "\<not> length ?d < 4 + 1 + 1 + 4 + 1" "\<not> length ?d < 11 + length (h_Modes h) * 4"
    "11 + length (h_Modes h) * 4 + 4 \<le> length ?d \<longleftrightarrow> 4 \<le> length r"
    using lh by simp_all
  have upd: "\<lparr>h_Magic = h_Magic h, h_Type = h_Type h, h_Version = h_Version h,
      h_SwitchInterval = h_SwitchInterval h, h_ModesCount = h_ModesCount h, h_Modes = h_Modes h,
      h_CurrentMode = current, h_Timestamp = timestamp, h_Nonce = nonce, h_Sequence = sequence,
      h_Checksum = checksum\<rparr> =
    h\<lparr>h_CurrentMode := current, h_Timestamp := timestamp, h_Nonce := nonce,
      h_Sequence := sequence, h_Checksum := checksum\<rparr>" for current timestamp nonce sequence checksum
    by (cases h) simp
  show ?thesis
    unfolding DecodeHandshake_def upd Let_def if_not_P [OF l(1)] e1 e2 e3 e4 e5 bindR.simps n
      if_not_P [OF l(2)] e6 l(3)
    by (simp add: mult.commute cong: if_cong)
qed

lemma decode_encode:
  assumes "hs_wf h" and "h_CurrentMode h \<noteq> 0" and "Verify h"
  shows "DecodeHandshake (Encode h) = Ok h"
proof -
  let ?p = "encode_head h @ encode_modes (h_Modes h)"
  let ?off = "11 + 4 * length (h_Modes h)"
  have wf: "length (h_Magic h) = 4" "length (h_Nonce h) = 16" using assms(1) by (simp_all add: hs_wf_def)
  then have lp: "length ?p = ?off" by (simp add: encode_head_def)
  have t: "encode_tail h = be32 (h_CurrentMode h) @ be64 (h_Timestamp h) @ h_Nonce h @
      be64 (h_Sequence h) @ [h_Checksum h]" using wf by (simp add: encode_tail_def)
  let ?d = "encode_head h @ encode_modes (h_Modes h) @ encode_tail h"
  have d: "?d = ?p @ be32 (h_CurrentMode h) @ be64 (h_Timestamp h) @ h_Nonce h @
      be64 (h_Sequence h) @ [h_Checksum h] @ []" by (simp add: t)
  have ld: "length ?d = ?off + 37" using lp wf unfolding d by simp
  have e1: "u32_at ?d ?off = Ok (h_CurrentMode h)" unfolding d using lp by (rule u32_at_mid)
  have e2: "opt_u64 ?d (?off + 4) = Ok (h_Timestamp h, ?off + 12)"
    using u64_at_mid [of "?p @ be32 (h_CurrentMode h)" "?off + 4"] lp ld
    by (simp add: opt_u64_def d)
  have e3: "opt_nonce ?d (?off + 12) = Ok (h_Nonce h, ?off + 28)"
    using slice_mid [of "?p @ be32 (h_CurrentMode h) @ be64 (h_Timestamp h)" "?off + 12"
        "?off + 28" "h_Nonce h"] lp ld wf
    by (simp add: opt_nonce_def d)
  have e4: "opt_u64 ?d (?off + 28) = Ok (h_Sequence h, ?off + 36)"
    using u64_at_mid [of "?p @ be32 (h_CurrentMode h) @ be64 (h_Timestamp h) @ h_Nonce h"
        "?off + 28"] lp ld wf
    by (simp add: opt_u64_def d)
  have e5: "index ?d (?off + 36) = Ok (h_Checksum h)"
    using index_mid [of "?p @ be32 (h_CurrentMode h) @ be64 (h_Timestamp h) @ h_Nonce h @
        be64 (h_Sequence h)" "?off + 36" "h_Checksum h" "[]"] lp wf
    by (simp add: d)
  have lt: "4 \<le> length (encode_tail h)" by (simp add: t)
  have "DecodeHandshake ?d = (if Verify h then Ok h else Fail ErrHandshakeChecksumMismatch)"
    unfolding decode_head [OF assms(1)] Let_def if_P [OF lt] e1 bindR.simps prod.case e2 e3 e4
    using ld e5 by (simp add: ac_simps)
  then show ?thesis using assms(2,3) by (simp add: Encode_def)
qed

text \<open>Without the tail the decoder supplies the first mode and zeros.\<close>

definition without_tail :: "Handshake \<Rightarrow> Handshake" where
  "without_tail h = h\<lparr>h_CurrentMode := of_int (hd (h_Modes h)), h_Timestamp := 0,
     h_Nonce := replicate 16 0, h_Sequence := 0, h_Checksum := 0\<rparr>"

lemma decode_encode_mode0:
  assumes "hs_wf h" and "h_CurrentMode h = 0"
  shows "DecodeHandshake (Encode h) =
    (if h_Modes h = [] then Panic
     else if Verify (without_tail h) then Ok (without_tail h)
     else Fail ErrHandshakeChecksumMismatch)"
proof -
  let ?d = "encode_head h @ encode_modes (h_Modes h) @ []"
  have ld: "length ?d = 11 + 4 * length (h_Modes h)"
    using assms(1) by (simp add: hs_wf_def encode_head_def)
  have "DecodeHandshake ?d =
    bindR (index (h_Modes h) 0) (\<lambda>m.
      let h' = h\<lparr>h_CurrentMode := of_int m, h_Timestamp := 0, h_Nonce := replicate 16 0,
        h_Sequence := 0, h_Checksum := 0\<rparr>
      in if Verify h' then Ok h' else Fail ErrHandshakeChecksumMismatch)"
    unfolding decode_head [OF assms(1)] Let_def
    using ld by (simp add: opt_u64_def opt_nonce_def bindR_assoc)
  then show ?thesis
    using assms(2) by (cases "h_Modes h") (simp_all add: Encode_def index_def without_tail_def)
qed

text \<open>The decoder panics on a packet that ends before the current mode and lists no mode.\<close>

lemma decode_modes_ok: "off + n * 4 \<le> length data \<Longrightarrow> \<exists>ms. decode_modes n data off = Ok ms \<and> length ms = n"
proof (induction n arbitrary: off)
  case (Suc n)
  then obtain ms where "decode_modes n data (off + 4) = Ok ms" "length ms = n"
    by (metis add.assoc mult_Suc)
  with Suc.prems show ?case by (simp add: u32_at_ok)
qed simp

lemma opt_ok:
  "\<exists>v off1. opt_u64 data off = Ok (v, off1)" "\<exists>b off1. opt_nonce data off = Ok (b, off1)"
  by (simp_all add: opt_u64_def opt_nonce_def u64_at_ok slice_ok)

lemma decode_tail_not_panic:
  "bindR (opt_u64 data off) (\<lambda>(timestamp, off).
   bindR (opt_nonce data off) (\<lambda>(nonce, off).
   bindR (opt_u64 data off) (\<lambda>(sequence, off).
   bindR (if off < length data then index data off else Ok 0) (\<lambda>checksum.
     if P timestamp nonce sequence checksum then Ok (f timestamp nonce sequence checksum)
     else Fail err)))) \<noteq> Panic"
proof -
  obtain t o1 where 1: "opt_u64 data off = Ok (t, o1)" using opt_ok(1) by blast
  obtain n o2 where 2: "opt_nonce data o1 = Ok (n, o2)" using opt_ok(2) by blast
  obtain s o3 where 3: "opt_u64 data o2 = Ok (s, o3)" using opt_ok(1) by blast
  show ?thesis by (simp add: 1 2 3 index_def)
qed

lemma DecodeHandshake_panic_iff:
  "DecodeHandshake data = Panic \<longleftrightarrow> 11 \<le> length data \<and> length data < 15 \<and> data ! 10 = 0"
proof (cases "length data < 11")
  case True
  then show ?thesis by (simp add: DecodeHandshake_def)
next
  case False
  let ?n = "unat (data ! 10)"
  have hd: "slice data 0 4 = Ok (take 4 data)" "index data 4 = Ok (data ! 4)"
    "index data 5 = Ok (data ! 5)" "u32_at data 6 = Ok (de32 (take 4 (drop 6 data)))"
    "index data 10 = Ok (data ! 10)"
    using False by (simp_all add: slice_def index_def u32_at_def)
  show ?thesis
  proof (cases "length data < 11 + ?n * 4")
    case True
    then have "?n \<noteq> 0" using False by (cases "?n = 0") simp_all
    then have "data ! 10 \<noteq> 0" by (metis unat_0)
    with True False show ?thesis by (simp add: DecodeHandshake_def hd Let_def)
  next
    case fits: False
    obtain ms where ms: "decode_modes ?n data 11 = Ok ms" "length ms = ?n"
      using decode_modes_ok [of 11 ?n data] fits by auto
    have z: "?n = 0 \<longleftrightarrow> data ! 10 = 0" by (metis unat_0 unat_eq_zero)
    show ?thesis
    proof (cases "11 + ?n * 4 + 4 \<le> length data")
      case True
      then have "DecodeHandshake data \<noteq> Panic"
        using False fits ms(1) decode_tail_not_panic
        by (simp add: DecodeHandshake_def hd Let_def u32_at_ok)
      moreover have "\<not> (length data < 15)" using True by linarith
      ultimately show ?thesis by simp
    next
      case short: False
      show ?thesis
      proof (cases ms)
        case Nil
        with ms(2) z short False fits ms(1) show ?thesis
          by (simp add: DecodeHandshake_def hd Let_def index_def)
      next
        case (Cons m ms')
        with ms(2) z have "data ! 10 \<noteq> 0" by auto
        moreover have "DecodeHandshake data \<noteq> Panic"
          using False fits ms(1) Cons short decode_tail_not_panic
          by (simp add: DecodeHandshake_def hd Let_def index_def)
        ultimately show ?thesis by simp
      qed
    qed
  qed
qed

section \<open>Messages the roles make\<close>

definition params_ok :: "duration \<Rightarrow> ProtocolMode list \<Rightarrow> ProtocolMode \<Rightarrow> bool" where
  "params_ok interval modes cur \<longleftrightarrow>
     (\<exists>k. 0 \<le> k \<and> k < 4294967296 \<and> interval = k * second) \<and> length modes < 256 \<and>
     list_all (\<lambda>m. 0 \<le> m \<and> m < 4294967296) modes \<and> 0 < cur \<and> cur < 4294967296"

lemma NewHandshake_props:
  assumes "params_ok interval modes cur" and "NewHandshake typ interval modes cur seq e = (h, e1)"
  shows "hs_wf h" and "Verify h" and "h_CurrentMode h \<noteq> 0" and "h_Type h = typ"
    and "h_Sequence h = seq" and "h_Modes h = modes" and "uint (h_SwitchInterval h) * second = interval"
    and "uint (h_CurrentMode h) = cur"
proof -
  have cur: "uint (of_int cur :: u32) = cur" using assms(1) by (simp add: params_ok_def uint_of_int_u32)
  moreover have "(of_int cur :: u32) \<noteq> 0"
  proof
    assume "(of_int cur :: u32) = 0"
    with cur have "cur = 0" by simp
    with assms(1) show False by (simp add: params_ok_def)
  qed
  moreover show "Verify h"
    using assms(2)
    by (auto simp: NewHandshake_def case_prod_beta Let_def Verify_def calcChecksum_def)
  ultimately show "hs_wf h" "h_CurrentMode h \<noteq> 0" "h_Type h = typ"
    "h_Sequence h = seq" "h_Modes h = modes" "uint (h_SwitchInterval h) * second = interval"
    "uint (h_CurrentMode h) = cur"
    using assms by (auto simp: NewHandshake_def case_prod_beta Let_def hs_wf_def
        params_ok_def seconds32_def uint_of_int_u32)
qed

lemma length_Encode: "hs_wf h \<Longrightarrow> length (Encode h) \<le> 11 + 4 * length (h_Modes h) + 37"
  by (simp add: Encode_def encode_head_def encode_tail_def hs_wf_def)

lemma open_signed_packet:
  assumes "DecodeHandshake d = Ok h" and "h_Type h = typ" and "Sign hm d = Sign hm' d"
  shows "open_signed hm typ (d @ Sign hm' d) = Ok h"
  using assms by (simp add: open_signed_def Let_def verify_sig_def hmac_equal_def Sign_def)

lemma open_signed_made:
  assumes "params_ok interval modes cur" and "NewHandshake typ interval modes cur seq e = (h, e1)"
    and "hm_authKey hm = hm_authKey hm'"
  shows "open_signed hm typ (Encode h @ Sign hm' (Encode h)) = Ok h"
  using assms NewHandshake_props [OF assms(1,2)]
  by (intro open_signed_packet decode_encode) (simp_all add: Sign_def)

lemma packet_fits:
  assumes "params_ok interval modes cur" and "NewHandshake typ interval modes cur seq e = (h, e1)"
  shows "length (Encode h @ Sign hm d) \<le> 4096"
  using length_Encode [OF NewHandshake_props(1) [OF assms]] NewHandshake_props(6) [OF assms] assms(1)
  by (simp add: Sign_def params_ok_def)

section \<open>What is accepted\<close>

text \<open>Only a message followed by its HMAC under the shared key.\<close>

lemma open_signed_authentic:
  assumes "open_signed hm typ packet = Ok h"
  shows "\<exists>d. packet = d @ hmac_sha256 (hm_authKey hm) d \<and> DecodeHandshake d = Ok h \<and> h_Type h = typ"
proof -
  let ?d = "take (length packet - 32) packet"
  from assms have "verify_sig hm ?d (drop (length packet - 32) packet)"
    "DecodeHandshake ?d = Ok h" "h_Type h = typ"
    by (auto simp: open_signed_def Let_def bindR_eq_Ok split: if_splits)
  then have "packet = ?d @ hmac_sha256 (hm_authKey hm) ?d"
    by (simp add: verify_sig_def hmac_equal_def Sign_def)
  with \<open>DecodeHandshake ?d = Ok h\<close> \<open>h_Type h = typ\<close> show ?thesis by blast
qed

lemma accept_sequence_fresh:
  "map_of (s_LastSeen (hm_state hm)) seq = None \<Longrightarrow>
   \<exists>hm1 e1. accept_sequence hm seq e = (Ok (), hm1, e1) \<and> hm_authKey hm1 = hm_authKey hm \<and>
     s_Sequence (hm_state hm1) = s_Sequence (hm_state hm)"
  by (auto simp: accept_sequence_def IsReplay_def MarkSeen_def case_prod_beta Let_def)

section \<open>Agreement\<close>

definition direct :: "bytes \<Rightarrow> hs_conn" where
  "direct packet = \<lparr>hc_read_deadline = None, hc_write_deadline = None, hc_read = Ok packet\<rparr>"

lemma server_accepts:
  assumes "params_ok interval modes cur" and "hm_authKey srv = hm_authKey cli"
    and syn: "NewHandshake HandshakeSyn interval modes cur seq e0 = (syn, e1)"
    and "map_of (s_LastSeen (hm_state srv)) seq = None"
  shows "\<exists>ack srv1 e2 e3 e4. PerformServerHandshake srv (direct (Encode syn @ Sign cli (Encode syn))) e =
      (Ok \<lparr>SwitchInterval = interval, Modes = modes, CurrentMode = cur,
           EnableReplayProtection = True, ReplayWindowSize = 64\<rparr>,
       replicate 3 (Encode ack @ Sign srv (Encode ack)), srv1, e2) \<and>
     NewHandshake HandshakeAck interval modes cur (s_Sequence (hm_state srv) + 1) e3 = (ack, e4)"
proof -
  note props = NewHandshake_props [OF assms(1) syn]
  let ?p = "Encode syn @ Sign cli (Encode syn)"
  have rd: "bindR (conn_Read (direct ?p)) (open_signed srv HandshakeSyn) = Ok syn"
    using packet_fits [OF assms(1) syn, of cli "Encode syn"]
      open_signed_made [OF assms(1) syn, of srv cli] assms(2)
    by (simp add: conn_Read_def direct_def)
  obtain hm1 e2 where acc: "accept_sequence srv seq (snd (read_clock e)) = (Ok (), hm1, e2)"
    "hm_authKey hm1 = hm_authKey srv" "s_Sequence (hm_state hm1) = s_Sequence (hm_state srv)"
    using accept_sequence_fresh [OF assms(4)] by blast
  obtain ack e4 where ack: "NewHandshake HandshakeAck interval modes cur
      (s_Sequence (hm_state srv) + 1) e2 = (ack, e4)" by fastforce
  have c: "hc_read_deadline (direct ?p) = None" "hc_write_deadline (direct ?p) = None"
    by (simp_all add: direct_def)
  have "PerformServerHandshake srv (direct ?p) e =
      (Ok \<lparr>SwitchInterval = interval, Modes = modes, CurrentMode = cur,
           EnableReplayProtection = True, ReplayWindowSize = 64\<rparr>,
       replicate 3 (Encode ack @ Sign srv (Encode ack)),
       hm1\<lparr>hm_state := snd (NextSequence (hm_state hm1))\<rparr>, snd (read_clock e4))"
    unfolding PerformServerHandshake_def rd c
    by (simp add: acc ack props NextSequence_def case_prod_beta Let_def Sign_def)
  with ack show ?thesis by blast
qed

lemma client_accepts:
  assumes "params_ok interval modes cur" and "hm_authKey srv = hm_authKey cli"
    and ack: "NewHandshake HandshakeAck interval modes cur seq' e3 = (ack, e4)"
    and "map_of (s_LastSeen (hm_state cli)) seq' = None"
  shows "\<exists>cli1 e2. PerformClientHandshake cli (direct (Encode ack @ Sign srv (Encode ack)))
      interval modes cur seq e =
    (Ok (), replicate 3 (let d = Encode (fst (NewHandshake HandshakeSyn interval modes cur seq e))
       in d @ Sign cli d), cli1, e2)"
proof -
  note props = NewHandshake_props [OF assms(1) ack]
  let ?p = "Encode ack @ Sign srv (Encode ack)"
  have rd: "bindR (conn_Read (direct ?p)) (open_signed cli HandshakeAck) = Ok ack"
    using packet_fits [OF assms(1) ack, of srv "Encode ack"]
      open_signed_made [OF assms(1) ack, of cli srv] assms(2)
    by (simp add: conn_Read_def direct_def)
  let ?e2 = "snd (read_clock (snd (NewHandshake HandshakeSyn interval modes cur seq e)))"
  obtain hm1 e5 where acc: "accept_sequence cli seq' ?e2 = (Ok (), hm1, e5)"
    using accept_sequence_fresh [OF assms(4)] by blast
  have c: "hc_read_deadline (direct ?p) = None" by (simp add: direct_def)
  show ?thesis
    unfolding PerformClientHandshake_def rd c
    using acc by (simp add: props case_prod_beta Let_def)
qed

section \<open>Replays\<close>

lemma sweep_seen_head:
  "maxAge \<ge> now (clk e) - snd p \<Longrightarrow> \<exists>qs e1. sweep_seen maxAge (p # ps) e = (p # qs, e1)"
  by (simp add: read_clock_def case_prod_beta Let_def)

lemma sweep_seen_sub: "set (fst (sweep_seen maxAge ps e)) \<subseteq> set ps"
proof (induction ps arbitrary: e)
  case (Cons p ps)
  then show ?case by (auto simp: case_prod_beta Let_def)
qed simp

text \<open>A clock that never runs back, and by how much it moves over the first readings.\<close>

definition within :: "duration \<Rightarrow> instant \<Rightarrow> clock \<Rightarrow> bool" where
  "within d t c \<longleftrightarrow> (\<forall>i. t \<le> c i \<and> c i \<le> t + d)"

lemma within_tick: "within d t c \<Longrightarrow> within d t (tick k c)"
  by (simp add: within_def tick_def)

lemma sweep_seen_keeps:
  "within d t (clk e) \<Longrightarrow> d \<le> maxAge \<Longrightarrow> (x, t') \<in> set ps \<Longrightarrow> t \<le> t' \<Longrightarrow>
   (x, t') \<in> set (fst (sweep_seen maxAge ps e))"
proof (induction ps arbitrary: e)
  case (Cons p ps)
  have w: "within d t (clk (snd (read_clock e)))"
    using Cons.prems(1) by (simp add: read_clock_def within_tick)
  have n: "now (clk e) \<le> t + d" using Cons.prems(1) by (simp add: within_def now_def)
  show ?case
  proof (cases "p = (x, t')")
    case True
    with n Cons.prems(2,4) show ?thesis
      by (simp add: case_prod_beta Let_def read_clock_def)
  next
    case False
    with Cons.IH [OF w Cons.prems(2)] Cons.prems(3,4) show ?thesis
      by (auto simp: case_prod_beta Let_def)
  qed
qed simp

lemma distinct_sweep: "distinct (map fst ps) \<Longrightarrow> distinct (map fst (fst (sweep_seen maxAge ps e)))"
proof (induction ps arbitrary: e)
  case (Cons p ps)
  have "fst ` set (fst (sweep_seen maxAge ps e1)) \<subseteq> fst ` set ps" for e1
    using sweep_seen_sub by (intro image_mono)
  with Cons show ?case by (auto simp: case_prod_beta Let_def)
qed simp

lemma sweep_seen_clk:
  "\<exists>k. clk (snd (sweep_seen maxAge ps e)) = tick k (clk e) \<and> k = length ps"
proof (induction ps arbitrary: e)
  case (Cons p ps)
  obtain k where "clk (snd (sweep_seen maxAge ps (snd (read_clock e)))) =
      tick k (clk (snd (read_clock e)))" "k = length ps"
    using Cons by blast
  then show ?case by (simp add: case_prod_beta Let_def read_clock_def tick_def add.commute)
qed (simp add: tick_def)

text \<open>
  A sequence number accepted by a manager is refused while less than thirty seconds pass.
\<close>

lemma accept_then_refuse:
  assumes "distinct (map fst (s_LastSeen (hm_state hm)))"
    and "accept_sequence hm seq e = (Ok (), hm1, e1)"
    and "within d t (clk e)" and "within d t (clk e2)" and "d < 30 * second"
  shows "fst (accept_sequence hm1 seq e2) = Fail ErrHandshakeReplay"
proof -
  obtain eb where eb: "within d t (clk eb)" "hm1 = hm\<lparr>hm_state := fst (MarkSeen seq (hm_state hm) eb)\<rparr>"
  proof (cases "map_of (s_LastSeen (hm_state hm)) seq")
    case None
    with assms(2,3) that [of e] show ?thesis
      by (auto simp: accept_sequence_def IsReplay_def case_prod_beta Let_def)
  next
    case (Some t0)
    with assms(2,3) that [of "snd (read_clock e)"] within_tick [OF assms(3)] show ?thesis
      by (auto simp: accept_sequence_def IsReplay_def case_prod_beta Let_def read_clock_def
          split: if_splits)
  qed
  let ?t1 = "now (clk eb)"
  let ?ps = "AList.update seq ?t1 (s_LastSeen (hm_state hm))"
  let ?qs = "fst (sweep_seen minute ?ps (snd (read_clock eb)))"
  have t1: "t \<le> ?t1" using eb(1) by (simp add: within_def now_def)
  have dist: "distinct (map fst ?ps)" using assms(1) by (rule distinct_update)
  have "map_of ?ps seq = Some ?t1" by (simp add: update_conv')
  then have "(seq, ?t1) \<in> set ?ps" by (rule map_of_SomeD)
  then have "(seq, ?t1) \<in> set ?qs"
    using sweep_seen_keeps [of d t "snd (read_clock eb)" minute seq ?t1 ?ps] eb(1) assms(5) t1
    by (simp add: read_clock_def within_tick)
  then have "map_of ?qs seq = Some ?t1"
    using distinct_sweep [OF dist] by simp
  moreover have "s_LastSeen (hm_state hm1) = ?qs"
    using eb(2) by (simp add: MarkSeen_def case_prod_beta Let_def read_clock_def)
  moreover have "now (clk e2) - ?t1 < 30 * second"
    using assms(4,5) t1 by (auto simp: within_def now_def dest: spec [of _ 0])
  ultimately show ?thesis
    by (simp add: accept_sequence_def IsReplay_def case_prod_beta Let_def read_clock_def)
qed

end
