(* ===== verification/MaskerLaws.thy ===== *)
theory MaskerLaws
  imports Masker
begin

text \<open>
  Which modes carry traffic. Twelve of the sixteen masks are codecs behind the interface:
  \<open>Wrap\<close> returns and every mask of the mode gives the payload back. Of a mask fresh from the
  factory, WebRTC and TLS send a handshake packet in the payload's place, QUIC and STUN panic.
\<close>

section \<open>The codecs behind the interface\<close>

definition codec_modes :: "ProtocolMode set" where
  "codec_modes = {ModeTeams, ModeWinUpdate, ModeDNSOverHTTPS, ModeRuTube, ModeYandex, ModeVK,
     ModeZoom, ModeOzon, ModeWildberries, ModeSberID, ModeGosuslugi, ModeBrowser}"

fun mask_ok :: "Masker \<Rightarrow> bool" where
  "mask_ok (MRuTube m) = rutube_inv m"
| "mask_ok (MZoom m) = zoom_inv m"
| "mask_ok (MBrowser m) = browser_inv m"
| "mask_ok _ = True"

definition mode_carries :: "ProtocolMode \<Rightarrow> bytes \<Rightarrow> bool" where
  "mode_carries md p =
     (if md = ModeBrowser then len16 p
      else if md = ModeRuTube \<or> md = ModeTeams \<or> md = ModeWinUpdate then len32 p
      else True)"

lemma codec_behind_interface:
  assumes c: "mask_codec wrap unwrap ok carr" and "ok m"
    and w: "\<And>x. Masker_Wrap (C x) p e = rewrap C (wrap x p e)"
    and u: "\<And>x d e. Masker_Unwrap (C x) d e = stateless (C x) e (unwrap x d)"
  shows "\<exists>pkt m1 e1. Masker_Wrap (C m) p e = Ok (pkt, C m1, e1) \<and> ok m1 \<and>
    (carr p \<longrightarrow> (\<forall>m2 e2. ok m2 \<longrightarrow> Masker_Unwrap (C m2) pkt e2 = Some (Ok (p, C m2, e2))))"
proof -
  obtain pkt m1 e1 where "wrap m p e = Ok (pkt, m1, e1)" "ok m1"
      "carr p \<longrightarrow> (\<forall>m2. ok m2 \<longrightarrow> unwrap m2 pkt = Ok p)"
    using mask_codec.wrap_codec [OF c assms(2)] by blast
  then show ?thesis by (auto simp: w u rewrap_def stateless_def)
qed

lemma mask_mode_cases:
  "mask_mode m = ModeTeams \<longleftrightarrow> (\<exists>x. m = MTeams x)"
  "mask_mode m = ModeWinUpdate \<longleftrightarrow> (\<exists>x. m = MWinUpdate x)"
  "mask_mode m = ModeDNSOverHTTPS \<longleftrightarrow> (\<exists>x. m = MDoH x)"
  "mask_mode m = ModeRuTube \<longleftrightarrow> (\<exists>x. m = MRuTube x)"
  "mask_mode m = ModeYandex \<longleftrightarrow> (\<exists>x. m = MYandex x)"
  "mask_mode m = ModeVK \<longleftrightarrow> (\<exists>x. m = MVK x)"
  "mask_mode m = ModeZoom \<longleftrightarrow> (\<exists>x. m = MZoom x)"
  "mask_mode m = ModeOzon \<longleftrightarrow> (\<exists>x. m = MOzon x)"
  "mask_mode m = ModeWildberries \<longleftrightarrow> (\<exists>x. m = MWildberries x)"
  "mask_mode m = ModeSberID \<longleftrightarrow> (\<exists>x. m = MSberID x)"
  "mask_mode m = ModeGosuslugi \<longleftrightarrow> (\<exists>x. m = MGosuslugi x)"
  "mask_mode m = ModeBrowser \<longleftrightarrow> (\<exists>x. m = MBrowser x)"
  "mask_mode m = ModeWebRTC \<longleftrightarrow> (\<exists>x. m = MWebRTC x)"
  "mask_mode m = ModeQUIC \<longleftrightarrow> (\<exists>x. m = MQUIC x)"
  "mask_mode m = ModeSTUN \<longleftrightarrow> (\<exists>x. m = MSTUN x)"
  "mask_mode m = ModeTLS \<longleftrightarrow> (\<exists>x. m = MTLS x)"
  by (cases m; simp)+

lemma masker_codec:
  assumes "mask_ok m" and "mask_mode m \<in> codec_modes"
  shows "\<exists>pkt m1 e1. Masker_Wrap m p e = Ok (pkt, m1, e1) \<and> mask_ok m1 \<and>
    mask_mode m1 = mask_mode m \<and>
    (mode_carries (mask_mode m) p \<longrightarrow>
      (\<forall>m2 e2. mask_ok m2 \<and> mask_mode m2 = mask_mode m \<longrightarrow>
         Masker_Unwrap m2 pkt e2 = Some (Ok (p, m2, e2))))"
proof (cases m)
  case (MTeams x)
  show ?thesis
    using codec_behind_interface [OF teams.mask_codec_axioms, where m = x and C = MTeams and p = p and e = e] MTeams
    by (fastforce simp: mode_carries_def mask_mode_cases)
next
  case (MWinUpdate x)
  show ?thesis
    using codec_behind_interface [OF winupdate.mask_codec_axioms, where m = x and C = MWinUpdate and p = p and e = e] MWinUpdate
    by (fastforce simp: mode_carries_def mask_mode_cases)
next
  case (MDoH x)
  show ?thesis
    using codec_behind_interface [OF doh.mask_codec_axioms, where m = x and C = MDoH and p = p and e = e] MDoH
    by (fastforce simp: mode_carries_def mask_mode_cases any_payload_def)
next
  case (MRuTube x)
  show ?thesis
    using codec_behind_interface [OF rutube.mask_codec_axioms, where m = x and C = MRuTube and p = p and e = e] MRuTube assms(1)
    by (fastforce simp: mode_carries_def mask_mode_cases)
next
  case (MYandex x)
  show ?thesis
    using codec_behind_interface [OF yandex.mask_codec_axioms, where m = x and C = MYandex and p = p and e = e] MYandex
    by (fastforce simp: mode_carries_def mask_mode_cases any_payload_def)
next
  case (MVK x)
  show ?thesis
    using codec_behind_interface [OF vk.mask_codec_axioms, where m = x and C = MVK and p = p and e = e] MVK
    by (fastforce simp: mode_carries_def mask_mode_cases any_payload_def)
next
  case (MZoom x)
  show ?thesis
    using codec_behind_interface [OF zoom.mask_codec_axioms, where m = x and C = MZoom and p = p and e = e] MZoom assms(1)
    by (fastforce simp: mode_carries_def mask_mode_cases any_payload_def)
next
  case (MOzon x)
  show ?thesis
    using codec_behind_interface [OF ozon.mask_codec_axioms, where m = x and C = MOzon and p = p and e = e] MOzon
    by (fastforce simp: mode_carries_def mask_mode_cases any_payload_def)
next
  case (MWildberries x)
  show ?thesis
    using codec_behind_interface [OF wildberries.mask_codec_axioms, where m = x and C = MWildberries and p = p and e = e]
      MWildberries
    by (fastforce simp: mode_carries_def mask_mode_cases any_payload_def)
next
  case (MSberID x)
  show ?thesis
    using codec_behind_interface [OF sberid.mask_codec_axioms, where m = x and C = MSberID and p = p and e = e] MSberID
    by (fastforce simp: mode_carries_def mask_mode_cases any_payload_def)
next
  case (MGosuslugi x)
  show ?thesis
    using codec_behind_interface [OF gosuslugi.mask_codec_axioms, where m = x and C = MGosuslugi and p = p and e = e] MGosuslugi
    by (fastforce simp: mode_carries_def mask_mode_cases any_payload_def)
next
  case (MBrowser x)
  show ?thesis
    using codec_behind_interface [OF browser.mask_codec_axioms, where m = x and C = MBrowser and p = p and e = e] MBrowser assms(1)
    by (fastforce simp: mode_carries_def mask_mode_cases)
qed (use assms(2) in \<open>simp_all add: codec_modes_def\<close>)

lemma masker_id: "Masker_ID m = mode_String (mask_mode m)"
  by (cases m) (simp_all add: mode_String_def)

section \<open>The factory\<close>

text \<open>The mode the factory serves: an unknown one is served by vk.\<close>

definition served :: "ProtocolMode \<Rightarrow> ProtocolMode" where
  "served md = (if 0 \<le> md \<and> md \<le> 15 then md else ModeVK)"

lemma bind_writes_all:
  assumes "list_all (fits n) ws" and "\<And>h. P (f h)"
  shows "P (bindR (writes (make_buf n) ws) f)"
  using writes_fit [of "make_buf n" ws] assms by auto

lemma NewQUICMask_ok:
  "\<exists>q e1. NewQUICMask e = Ok (q, e1) \<and> \<not> qm_handshakeDone q \<and> qm_handshakeStep q = 0 \<and>
     qt_inv (qm_transport q)"
  unfolding NewQUICMask_def Let_def case_prod_beta
  by (rule bind_writes_all [where P = "\<lambda>r. \<exists>q e1. r = Ok (q, e1) \<and> \<not> qm_handshakeDone q \<and>
      qm_handshakeStep q = 0 \<and> qt_inv (qm_transport q)"]) (simp_all add: qt_inv_New)

text \<open>
  A mask fresh from the factory: its handshake, if it plays one, has not begun. A quic mask
  keeps the invariant of its transport for good.
\<close>

fun mask_fresh :: "Masker \<Rightarrow> bool" where
  "mask_fresh (MWebRTC w) \<longleftrightarrow> \<not> rtc_handshakeDone w \<and> rtc_handshakeStep w = 0"
| "mask_fresh (MQUIC q) \<longleftrightarrow> \<not> qm_handshakeDone q \<and> qm_handshakeStep q = 0"
| "mask_fresh (MTLS t) \<longleftrightarrow> tls_at 0 t"
| "mask_fresh (MSTUN s) \<longleftrightarrow> st_useFingerprint s"
| "mask_fresh _ \<longleftrightarrow> True"

fun mask_good :: "Masker \<Rightarrow> bool" where
  "mask_good (MQUIC q) \<longleftrightarrow> qt_inv (qm_transport q)"
| "mask_good _ \<longleftrightarrow> True"

lemma CreateMask_ok:
  "\<exists>m e1. CreateMask md e = Ok (m, e1) \<and> mask_mode m = served md \<and> mask_fresh m \<and>
     mask_good m \<and> (md \<noteq> ModeBrowser \<longrightarrow> mask_ok m)"
proof -
  obtain q e1 where q: "NewQUICMask e = Ok (q, e1)" "\<not> qm_handshakeDone q"
      "qm_handshakeStep q = 0" "qt_inv (qm_transport q)"
    using NewQUICMask_ok by blast
  obtain t e2 where t: "NewTLSMask e = Ok (t, e2)" "tls_at 0 t" using NewTLSMask_at by blast
  have new: "\<not> rtc_handshakeDone (fst (NewWebRTCMask e))" "rtc_handshakeStep (fst (NewWebRTCMask e)) = 0"
    "st_useFingerprint (fst (NewSTUNMask e))" "rutube_inv (fst (NewRuTubeMask e))"
    "zoom_inv (fst (NewZoomMask e))"
    by (simp_all add: NewWebRTCMask_def NewSTUNMask_def NewRuTubeMask_def NewZoomMask_def
        case_prod_beta Let_def rutube_inv_def zoom_inv_def)
  consider "md \<in> {0 .. 15}" | "md \<notin> {0 .. 15}" by blast
  then show ?thesis
  proof cases
    case 1
    then have "md \<in> {0, 1, 2, 3, 4, 5, 6, 7, 8, 9, 10, 11, 12, 13, 14, 15}"
      by (simp, presburger)
    then show ?thesis
      by (elim insertE emptyE) (simp_all add: CreateMask_def made_def served_def q t new)
  next
    case 2
    then show ?thesis by (auto simp: CreateMask_def made_def served_def)
  qed
qed

section \<open>The first packet of a fresh mask\<close>

lemma fresh_webrtc_blind:
  "mask_mode m = ModeWebRTC \<Longrightarrow> mask_fresh m \<Longrightarrow>
   \<exists>pkt m1 e1. \<forall>p. Masker_Wrap m p e = Ok (pkt, m1, e1)"
proof -
  assume "mask_mode m = ModeWebRTC" "mask_fresh m"
  then obtain w where w: "m = MWebRTC w" "\<not> rtc_handshakeDone w" "rtc_handshakeStep w = 0"
    by (auto simp: mask_mode_cases)
  from WebRTC_Wrap_first [OF w(2,3)] obtain pkt where
    "\<forall>p. WebRTC_Wrap w p e = Ok (pkt, w\<lparr>rtc_handshakeStep := 1\<rparr>, snd (draw 12 e))" by blast
  with w(1) show ?thesis by (simp add: rewrap_def)
qed

lemma fresh_tls_blind:
  assumes "mask_mode m = ModeTLS" and "mask_fresh m"
  shows "\<exists>pkt m1 e1. \<forall>p. p \<noteq> [] \<longrightarrow> Masker_Wrap m p e = Ok (pkt, m1, e1)"
proof -
  from assms obtain t where t: "m = MTLS t" "tls_at 0 t" by (auto simp: mask_mode_cases)
  obtain pkt t1 e1 where "TLS_Wrap t [0] e = Ok (pkt, t1, e1)"
    using tls_at_step [OF t(2) list.simps(3)] by meson
  moreover have "TLS_Wrap t p e = TLS_Wrap t [0] e" if "p \<noteq> []" for p
    by (rule tls_at_blind [OF t(2) _ that]) simp_all
  ultimately have "\<forall>p. p \<noteq> [] \<longrightarrow> TLS_Wrap t p e = Ok (pkt, t1, e1)" by metis
  with t(1) show ?thesis by (simp add: rewrap_def)
qed

lemma fresh_quic_stun_panic:
  "mask_mode m = ModeQUIC \<or> mask_mode m = ModeSTUN \<Longrightarrow> mask_fresh m \<Longrightarrow> Masker_Wrap m p e = Panic"
  by (auto simp: mask_mode_cases rewrap_def QUIC_Wrap_first_panics STUN_Wrap_fingerprint_panics)

end
