(* ===== verification/Mixer.thy ===== *)
theory Mixer
  imports MaskerLaws
begin

text \<open>
  The mask mixer of \<open>internal/shred/mask_mixer.go\<close>: the modes in rotation, the current mode
  and its mask, the switches by time, by day and night, and by domain. The channel \<open>mu\<close> is a
  lock held by each operation, so each is one step here. An operation that returns an error
  still leaves a state, so \<open>Unwrap\<close> returns the payload or the error beside the mixer.
\<close>

section \<open>State\<close>

record MaskMixer =
  mx_currentMode :: ProtocolMode
  mx_currentMask :: Masker
  mx_modes :: "ProtocolMode list"
  mx_lastSwitch :: instant
  mx_switchInterval :: duration
  mx_stats :: "(ProtocolMode \<times> int) list"
  mx_packetsWrapped :: int
  mx_packetsUnwrapped :: int
  mx_errorsCount :: int
  mx_selector :: "(string \<times> string) list"
  mx_timeBasedEnabled :: bool
  mx_isDayModeActive :: bool
  mx_dayModes :: "ProtocolMode list"
  mx_nightModes :: "ProtocolMode list"

text \<open>\<open>time.Now().Hour()\<close> is the hour in the local zone.\<close>

definition getHourOfDay :: "env \<Rightarrow> int \<times> env" where
  "getHourOfDay e =
     (let (t, e1) = read_clock e in ((t div second + zone e t) div 3600 mod 24, e1))"

definition isDayTime :: "env \<Rightarrow> bool \<times> env" where
  "isDayTime e = (let (hour, e1) = getHourOfDay e in (8 \<le> hour \<and> hour < 23, e1))"

definition day_modes :: "ProtocolMode list" where
  "day_modes = [ModeVK, ModeYandex, ModeOzon, ModeWildberries, ModeSberID, ModeGosuslugi,
     ModeWebRTC, ModeQUIC, ModeTLS]"

definition night_modes :: "ProtocolMode list" where
  "night_modes = [ModeRuTube, ModeTLS, ModeQUIC, ModeWebRTC, ModeVK]"

definition NewMaskMixer :: "duration \<Rightarrow> env \<Rightarrow> (MaskMixer \<times> env) result" where
  "NewMaskMixer switchInterval e =
     (let (day, e1) = isDayTime e;
          modes = (if day then day_modes else night_modes);
          (t, e2) = read_clock e1 in
      bindR (CreateMask (hd modes) e2) (\<lambda>(mask, e3).
        Ok (\<lparr>mx_currentMode = hd modes, mx_currentMask = mask, mx_modes = modes,
             mx_lastSwitch = t, mx_switchInterval = switchInterval, mx_stats = [],
             mx_packetsWrapped = 0, mx_packetsUnwrapped = 0, mx_errorsCount = 0,
             mx_selector = NewMaskSelector, mx_timeBasedEnabled = True,
             mx_isDayModeActive = day, mx_dayModes = day_modes, mx_nightModes = night_modes\<rparr>, e3)))"

section \<open>Switching\<close>

text \<open>A new current mode: its mask is made, the time of the switch taken.\<close>

definition switch_to :: "ProtocolMode \<Rightarrow> MaskMixer \<Rightarrow> env \<Rightarrow> (MaskMixer \<times> env) result" where
  "switch_to mode m e =
     bindR (CreateMask mode e) (\<lambda>(mask, e1).
       let (t, e2) = read_clock e1 in
       Ok (m\<lparr>mx_currentMode := mode, mx_currentMask := mask, mx_lastSwitch := t\<rparr>, e2))"

definition checkTimeBasedRotation :: "MaskMixer \<Rightarrow> env \<Rightarrow> (MaskMixer \<times> env) result" where
  "checkTimeBasedRotation m e =
     (if \<not> mx_timeBasedEnabled m then Ok (m, e)
      else
        let (currentIsDay, e1) = isDayTime e in
        if currentIsDay \<and> \<not> mx_isDayModeActive m then
          bindR (index (mx_dayModes m) 0) (\<lambda>mode.
            switch_to mode (m\<lparr>mx_modes := mx_dayModes m, mx_isDayModeActive := True\<rparr>) e1)
        else if \<not> currentIsDay \<and> mx_isDayModeActive m then
          bindR (index (mx_nightModes m) 0) (\<lambda>mode.
            switch_to mode (m\<lparr>mx_modes := mx_nightModes m, mx_isDayModeActive := False\<rparr>) e1)
        else Ok (m, e1))"

fun index_of :: "ProtocolMode \<Rightarrow> ProtocolMode list \<Rightarrow> int" where
  "index_of x [] = -1"
| "index_of x (y # ys) =
     (if y = x then 0 else let i = index_of x ys in if i = -1 then -1 else i + 1)"

definition rotate_mode :: "MaskMixer \<Rightarrow> env \<Rightarrow> (MaskMixer \<times> env) result" where
  "rotate_mode m e =
     (if mx_modes m = [] then Ok (m, e)
      else
        let nextIndex = (index_of (mx_currentMode m) (mx_modes m) + 1) mod int (length (mx_modes m)) in
        switch_to (mx_modes m ! nat nextIndex) m e)"

definition SetModes :: "ProtocolMode list \<Rightarrow> MaskMixer \<Rightarrow> env \<Rightarrow> (MaskMixer \<times> env) result" where
  "SetModes modes m e =
     (if modes = [] then Ok (m, e)
      else
        bindR (switch_to (hd modes) (m\<lparr>mx_modes := modes\<rparr>) e) (\<lambda>(m1, e1).
          Ok (m1\<lparr>mx_stats := [], mx_packetsWrapped := 0, mx_packetsUnwrapped := 0,
                 mx_errorsCount := 0, mx_timeBasedEnabled := False\<rparr>, e1)))"

definition AddMode :: "ProtocolMode \<Rightarrow> MaskMixer \<Rightarrow> MaskMixer" where
  "AddMode mode m =
     (if mode \<in> set (mx_modes m) then m else m\<lparr>mx_modes := mx_modes m @ [mode]\<rparr>)"

definition RemoveMode :: "ProtocolMode \<Rightarrow> MaskMixer \<Rightarrow> env \<Rightarrow> (MaskMixer \<times> env) result" where
  "RemoveMode mode m e =
     (let newModes = filter (\<lambda>existing. existing \<noteq> mode) (mx_modes m) in
      if newModes = [] then Ok (m, e)
      else
        let m1 = m\<lparr>mx_modes := newModes\<rparr> in
        if mx_currentMode m1 \<in> set newModes then Ok (m1, e)
        else switch_to (hd newModes) m1 e)"

definition GetCurrentMode :: "MaskMixer \<Rightarrow> ProtocolMode" where
  "GetCurrentMode m = mx_currentMode m"

definition GetModes :: "MaskMixer \<Rightarrow> ProtocolMode list" where
  "GetModes m = mx_modes m"

definition GetCurrentMask :: "MaskMixer \<Rightarrow> env \<Rightarrow> (Masker \<times> MaskMixer \<times> env) result" where
  "GetCurrentMask m e =
     bindR (checkTimeBasedRotation m e) (\<lambda>(m1, e1).
     bindR (if 0 < mx_switchInterval m1 then
              let (t, e2) = read_clock e1 in
              if mx_switchInterval m1 < t - mx_lastSwitch m1 then rotate_mode m1 e2 else Ok (m1, e2)
            else Ok (m1, e1)) (\<lambda>(m2, e3).
       Ok (mx_currentMask m2, m2, e3)))"

definition ForceRotate :: "MaskMixer \<Rightarrow> env \<Rightarrow> (MaskMixer \<times> env) result" where
  "ForceRotate m e = rotate_mode m e"

definition SetSwitchInterval :: "duration \<Rightarrow> MaskMixer \<Rightarrow> MaskMixer" where
  "SetSwitchInterval interval m = m\<lparr>mx_switchInterval := interval\<rparr>"

definition GetSwitchInterval :: "MaskMixer \<Rightarrow> duration" where
  "GetSwitchInterval m = mx_switchInterval m"

definition SetCurrentMode :: "ProtocolMode \<Rightarrow> MaskMixer \<Rightarrow> env \<Rightarrow> (MaskMixer \<times> env) result" where
  "SetCurrentMode mode m e =
     bindR (CreateMask mode e) (\<lambda>(mask, e1).
       Ok (m\<lparr>mx_currentMode := mode, mx_currentMask := mask\<rparr>, e1))"

text \<open>The order in which the selector's map is visited is an argument of the choice.\<close>

definition mode_of_mask_name :: "string \<Rightarrow> ProtocolMode" where
  "mode_of_mask_name n =
     (if n = ''vk'' then ModeVK else if n = ''rutube'' then ModeRuTube
      else if n = ''yandex'' then ModeYandex else if n = ''ozon'' then ModeOzon
      else if n = ''wildberries'' then ModeWildberries else if n = ''sberid'' then ModeSberID
      else if n = ''gosuslugi'' then ModeGosuslugi else if n = ''tls'' then ModeTLS
      else if n = ''quic'' then ModeQUIC else ModeWebRTC)"

definition SwitchToDomain ::
  "(string \<times> string) list \<Rightarrow> string \<Rightarrow> MaskMixer \<Rightarrow> env \<Rightarrow> (MaskMixer \<times> env) result" where
  "SwitchToDomain order domain m e =
     (let newMode = mode_of_mask_name (Select order domain) in
      if mx_currentMode m = newMode then Ok (m, e) else SetCurrentMode newMode m e)"

section \<open>Wrap and Unwrap\<close>

definition SelectMask :: "MaskMixer \<Rightarrow> bytes \<Rightarrow> ProtocolMode" where
  "SelectMask m payload =
     (if 5 \<le> length payload \<and> payload ! 0 = 0x16 \<and> payload ! 1 = 0x03 then ModeBrowser
      else GetCurrentMode m)"

definition count_mode :: "ProtocolMode \<Rightarrow> (ProtocolMode \<times> int) list \<Rightarrow> (ProtocolMode \<times> int) list"
  where "count_mode mode st =
     AList.update mode (case map_of st mode of None \<Rightarrow> 1 | Some n \<Rightarrow> n + 1) st"

text \<open>Every packet is wrapped by a mask made for it; the current mask is not used.\<close>

definition Mixer_Wrap :: "MaskMixer \<Rightarrow> bytes \<Rightarrow> env \<Rightarrow> (bytes \<times> MaskMixer \<times> env) result" where
  "Mixer_Wrap m payload e =
     (let mode = SelectMask m payload in
      bindR (CreateMask mode e) (\<lambda>(mask, e1).
        let m1 = m\<lparr>mx_packetsWrapped := mx_packetsWrapped m + 1,
                   mx_stats := count_mode mode (mx_stats m)\<rparr> in
        bindR (Masker_Wrap mask payload e1) (\<lambda>(pkt, _, e2). Ok (pkt, m1, e2))))"

fun try_modes ::
  "ProtocolMode list \<Rightarrow> bytes \<Rightarrow> env \<Rightarrow>
     ((bytes \<times> ProtocolMode \<times> Masker) option \<times> env) result option" where
  "try_modes [] data e = Some (Ok (None, e))"
| "try_modes (mode # modes) data e =
     bindO (Some (CreateMask mode e)) (\<lambda>(testMask, e1).
       case Masker_Unwrap testMask data e1 of
         None \<Rightarrow> None
       | Some Panic \<Rightarrow> Some Panic
       | Some (Ok (result, testMask1, e2)) \<Rightarrow> Some (Ok (Some (result, mode, testMask1), e2))
       | Some (Fail err) \<Rightarrow> try_modes modes data e1)"

definition Mixer_Unwrap ::
  "MaskMixer \<Rightarrow> bytes \<Rightarrow> env \<Rightarrow> (bytes result \<times> MaskMixer \<times> env) result option" where
  "Mixer_Unwrap m data e =
     (case Masker_Unwrap (mx_currentMask m) data e of
        None \<Rightarrow> None
      | Some Panic \<Rightarrow> Some Panic
      | Some (Ok (result, mask1, e1)) \<Rightarrow>
          Some (Ok (Ok result, m\<lparr>mx_currentMask := mask1,
            mx_packetsUnwrapped := mx_packetsUnwrapped m + 1\<rparr>, e1))
      | Some (Fail err) \<Rightarrow>
          bindO (try_modes (mx_modes m) data e) (\<lambda>(found, e1).
            case found of
              Some (result, mode, mk) \<Rightarrow>
                Some (Ok (Ok result, m\<lparr>mx_currentMode := mode, mx_currentMask := mk,
                  mx_packetsUnwrapped := mx_packetsUnwrapped m + 1\<rparr>, e1))
            | None \<Rightarrow>
                Some (Ok (Fail ErrUnwrapFailed,
                  m\<lparr>mx_errorsCount := mx_errorsCount m + 1\<rparr>, e1))))"

end
