(* ===== verification/MixerLaws.thy ===== *)
theory MixerLaws
  imports Mixer
begin

text \<open>
  The mixer keeps its current mask the one of its current mode, and never runs out of modes;
  a packet it wraps in a codec mode is unwrapped by a mixer in that mode; in the other modes
  its packets lose the payload or panic; rotation walks round the list of modes.
\<close>

section \<open>The invariant\<close>

definition mixer_inv :: "MaskMixer \<Rightarrow> bool" where
  "mixer_inv m \<longleftrightarrow> mx_modes m \<noteq> [] \<and> mx_dayModes m \<noteq> [] \<and> mx_nightModes m \<noteq> [] \<and>
     mask_mode (mx_currentMask m) = served (mx_currentMode m) \<and> mask_good (mx_currentMask m)"

lemma NewMaskMixer_inv: "\<exists>m e1. NewMaskMixer d e = Ok (m, e1) \<and> mixer_inv m"
proof -
  obtain day e1 where day: "isDayTime e = (day, e1)" by (cases "isDayTime e")
  obtain t e2 where t: "read_clock e1 = (t, e2)" by (cases "read_clock e1")
  obtain mask e3 where "CreateMask (hd (if day then day_modes else night_modes)) e2 = Ok (mask, e3)"
    "mask_mode mask = served (hd (if day then day_modes else night_modes))" "mask_good mask"
    using CreateMask_ok by blast
  with day t show ?thesis
    by (simp add: NewMaskMixer_def Let_def mixer_inv_def) (simp add: day_modes_def night_modes_def)
qed

lemma switch_to_ok:
  "\<exists>mk t e1. switch_to md m e =
      Ok (m\<lparr>mx_currentMode := md, mx_currentMask := mk, mx_lastSwitch := t\<rparr>, e1) \<and>
    mask_mode mk = served md \<and> mask_good mk"
proof -
  obtain mk e1 where "CreateMask md e = Ok (mk, e1)" "mask_mode mk = served md" "mask_good mk"
    using CreateMask_ok by blast
  then show ?thesis by (auto simp: switch_to_def case_prod_beta Let_def)
qed

lemma SetCurrentMode_ok:
  "\<exists>mk e1. SetCurrentMode md m e = Ok (m\<lparr>mx_currentMode := md, mx_currentMask := mk\<rparr>, e1) \<and>
    mask_mode mk = served md \<and> mask_good mk \<and> (md \<noteq> ModeBrowser \<longrightarrow> mask_ok mk)"
proof -
  obtain mk e1 where "CreateMask md e = Ok (mk, e1)" "mask_mode mk = served md" "mask_good mk"
    "md \<noteq> ModeBrowser \<longrightarrow> mask_ok mk"
    using CreateMask_ok by blast
  then show ?thesis by (auto simp: SetCurrentMode_def)
qed

text \<open>What a switching operation owes: it returns and keeps the invariant.\<close>

definition keeps_inv :: "(MaskMixer \<Rightarrow> env \<Rightarrow> (MaskMixer \<times> env) result) \<Rightarrow> bool" where
  "keeps_inv f \<longleftrightarrow> (\<forall>m e. mixer_inv m \<longrightarrow> (\<exists>m1 e1. f m e = Ok (m1, e1) \<and> mixer_inv m1))"

lemma keeps_invI:
  "(\<And>m e. mixer_inv m \<Longrightarrow> \<exists>m1 e1. f m e = Ok (m1, e1) \<and> mixer_inv m1) \<Longrightarrow> keeps_inv f"
  by (simp add: keeps_inv_def)

lemma keeps_invD:
  "keeps_inv f \<Longrightarrow> mixer_inv m \<Longrightarrow> \<exists>m1 e1. f m e = Ok (m1, e1) \<and> mixer_inv m1"
  by (simp add: keeps_inv_def)

lemma SetCurrentMode_inv: "keeps_inv (SetCurrentMode md)"
proof (rule keeps_invI)
  fix m e assume "mixer_inv m"
  then show "\<exists>m1 e1. SetCurrentMode md m e = Ok (m1, e1) \<and> mixer_inv m1"
    using SetCurrentMode_ok [of md m e] by (auto simp: mixer_inv_def)
qed

lemma SwitchToDomain_inv: "keeps_inv (SwitchToDomain order domain)"
  using SetCurrentMode_inv by (auto simp: keeps_inv_def SwitchToDomain_def Let_def)

lemma rotate_mode_inv: "keeps_inv rotate_mode"
proof (rule keeps_invI)
  fix m e assume "mixer_inv m"
  then show "\<exists>m1 e1. rotate_mode m e = Ok (m1, e1) \<and> mixer_inv m1"
    using switch_to_ok [of "mx_modes m ! nat ((index_of (mx_currentMode m) (mx_modes m) + 1) mod
      int (length (mx_modes m)))" m e]
    by (auto simp: rotate_mode_def mixer_inv_def Let_def)
qed

lemma ForceRotate_inv: "keeps_inv ForceRotate"
  using rotate_mode_inv by (simp add: keeps_inv_def ForceRotate_def)

lemma SetModes_inv: "keeps_inv (SetModes modes)"
proof (rule keeps_invI)
  fix m e assume "mixer_inv m"
  then show "\<exists>m1 e1. SetModes modes m e = Ok (m1, e1) \<and> mixer_inv m1"
    using switch_to_ok [of "hd modes" "m\<lparr>mx_modes := modes\<rparr>" e]
    by (auto simp: SetModes_def mixer_inv_def)
qed

lemma RemoveMode_inv: "keeps_inv (RemoveMode md)"
proof (rule keeps_invI)
  fix m e assume "mixer_inv m"
  then show "\<exists>m1 e1. RemoveMode md m e = Ok (m1, e1) \<and> mixer_inv m1"
    using switch_to_ok [of "hd (filter (\<lambda>x. x \<noteq> md) (mx_modes m))"
      "m\<lparr>mx_modes := filter (\<lambda>x. x \<noteq> md) (mx_modes m)\<rparr>" e]
    by (auto simp: RemoveMode_def mixer_inv_def Let_def)
qed

lemma AddMode_inv: "mixer_inv m \<Longrightarrow> mixer_inv (AddMode md m)"
  by (simp add: AddMode_def mixer_inv_def)

lemma checkTimeBasedRotation_inv: "keeps_inv checkTimeBasedRotation"
proof (rule keeps_invI)
  fix m e assume inv: "mixer_inv m"
  then obtain d ds n ns where "mx_dayModes m = d # ds" "mx_nightModes m = n # ns"
    by (auto simp: mixer_inv_def neq_Nil_conv)
  with inv show "\<exists>m1 e1. checkTimeBasedRotation m e = Ok (m1, e1) \<and> mixer_inv m1"
    using switch_to_ok [of d "m\<lparr>mx_modes := d # ds, mx_isDayModeActive := True\<rparr>"
        "snd (isDayTime e)"]
      switch_to_ok [of n "m\<lparr>mx_modes := n # ns, mx_isDayModeActive := False\<rparr>"
        "snd (isDayTime e)"]
    by (auto simp: checkTimeBasedRotation_def case_prod_beta Let_def index_def mixer_inv_def)
qed

lemma GetCurrentMask_inv:
  assumes "mixer_inv m"
  shows "\<exists>m1 e1. GetCurrentMask m e = Ok (mx_currentMask m1, m1, e1) \<and> mixer_inv m1"
proof -
  obtain m1 e1 where m1: "checkTimeBasedRotation m e = Ok (m1, e1)" "mixer_inv m1"
    using keeps_invD [OF checkTimeBasedRotation_inv assms] by blast
  obtain m2 e2 where m2: "rotate_mode m1 (snd (read_clock e1)) = Ok (m2, e2)" "mixer_inv m2"
    using keeps_invD [OF rotate_mode_inv m1(2)] by blast
  show ?thesis
    using m1 m2 by (simp add: GetCurrentMask_def case_prod_beta Let_def)
qed

section \<open>Unwrap keeps the invariant\<close>

lemma Masker_Unwrap_mode:
  assumes "Masker_Unwrap mk d e = Some (Ok (p, mk1, e1))" and "mask_good mk"
  shows "mask_mode mk1 = mask_mode mk \<and> mask_good mk1"
proof (cases "\<exists>q. mk = MQUIC q")
  case True
  then obtain q where q: "mk = MQUIC q" by blast
  have "qt_inv (qm_transport q1)" if "QUIC_Unwrap q d e = Some (Ok (p, q1, e1))" for q1
  proof -
    have "qt_inv tr" if "ProcessAck (qm_transport q) n e' = Some (Ok (tr, e2))" for n e' tr e2
    proof (cases "n \<le> qt_lastAck (qm_transport q)")
      case True
      with that assms(2) q show ?thesis by (simp add: ProcessAck_def)
    next
      case False
      moreover have "n < max_u64"
      proof (rule ccontr)
        assume "\<not> n < max_u64"
        then have "n = max_u64" using word_order.not_eq_extremum [of n] by blast
        with False have "qt_lastAck (qm_transport q) \<noteq> max_u64" by auto
        with that assms(2) q \<open>n = max_u64\<close> show False
          using ProcessAck_max [of "qm_transport q" e'] by simp
      qed
      ultimately show ?thesis
        using ProcessAck_returns [of "qm_transport q" n e'] that assms(2) q by auto
    qed
    with that assms(2) q show ?thesis
      by (auto simp: QUIC_Unwrap_def Let_def case_prod_beta bindR_eq_Ok
          split: if_splits result.splits option.splits)
  qed
  with assms(1) q show ?thesis
    by (auto simp: rewrap_def bindR_eq_Ok)
next
  case False
  with assms show ?thesis
    by (cases mk) (auto simp: stateless_def bindR_eq_Ok)
qed

lemma try_modes_found:
  "try_modes modes d e = Some (Ok (Some (p, md, mk), e1)) \<Longrightarrow>
   md \<in> set modes \<and> mask_mode mk = served md \<and> mask_good mk"
proof (induction modes arbitrary: e)
  case (Cons x xs)
  obtain k e2 where k: "CreateMask x e = Ok (k, e2)" "mask_mode k = served x" "mask_good k"
    using CreateMask_ok by blast
  show ?case
  proof (cases "\<exists>err. Masker_Unwrap k d e2 = Some (Fail err)")
    case True
    with Cons.prems k(1) have "try_modes xs d e2 = Some (Ok (Some (p, md, mk), e1))" by auto
    from Cons.IH [OF this] show ?thesis by simp
  next
    case False
    with Cons.prems k(1) obtain e3 where "Masker_Unwrap k d e2 = Some (Ok (p, mk, e3))" "md = x"
      by (auto split: option.splits result.splits)
    with Masker_Unwrap_mode [OF this(1) k(3)] k(2) show ?thesis by simp
  qed
qed simp

lemma Mixer_Unwrap_inv:
  assumes "mixer_inv m" and "Mixer_Unwrap m d e = Some (Ok (r, m1, e1))"
  shows "mixer_inv m1"
proof (cases "\<exists>err. Masker_Unwrap (mx_currentMask m) d e = Some (Fail err)")
  case False
  with assms(2) obtain p mk e2 where "Masker_Unwrap (mx_currentMask m) d e = Some (Ok (p, mk, e2))"
    "m1 = m\<lparr>mx_currentMask := mk, mx_packetsUnwrapped := mx_packetsUnwrapped m + 1\<rparr>"
    by (auto simp: Mixer_Unwrap_def split: option.splits result.splits)
  with Masker_Unwrap_mode [OF this(1)] assms(1) show ?thesis by (simp add: mixer_inv_def)
next
  case True
  with assms(2) have "bindO (try_modes (mx_modes m) d e) (\<lambda>(found, e1).
      case found of
        Some (result, mode, mk) \<Rightarrow>
          Some (Ok (Ok result, m\<lparr>mx_currentMode := mode, mx_currentMask := mk,
            mx_packetsUnwrapped := mx_packetsUnwrapped m + 1\<rparr>, e1))
      | None \<Rightarrow> Some (Ok (Fail ErrUnwrapFailed, m\<lparr>mx_errorsCount := mx_errorsCount m + 1\<rparr>, e1)))
    = Some (Ok (r, m1, e1))"
    by (auto simp: Mixer_Unwrap_def)
  then obtain found e2 where f: "try_modes (mx_modes m) d e = Some (Ok (found, e2))"
    and m1: "(case found of
        Some (result, mode, mk) \<Rightarrow>
          Some (Ok (Ok result, m\<lparr>mx_currentMode := mode, mx_currentMask := mk,
            mx_packetsUnwrapped := mx_packetsUnwrapped m + 1\<rparr>, e2))
      | None \<Rightarrow> Some (Ok (Fail ErrUnwrapFailed, m\<lparr>mx_errorsCount := mx_errorsCount m + 1\<rparr>, e2)))
    = Some (Ok (r, m1, e1))"
    by (auto simp: bindO_eq_Ok)
  show ?thesis
  proof (cases found)
    case None
    with m1 assms(1) show ?thesis by (auto simp: mixer_inv_def)
  next
    case (Some x)
    obtain p md mk where x: "x = (p, md, mk)" by (cases x)
    from try_modes_found f Some x have "mask_mode mk = served md \<and> mask_good mk" by blast
    with m1 Some x assms(1) show ?thesis by (auto simp: mixer_inv_def)
  qed
qed

section \<open>Rotation\<close>

lemma index_of_nth:
  "distinct xs \<Longrightarrow> i < length xs \<Longrightarrow> index_of (xs ! i) xs = int i"
proof (induction xs arbitrary: i)
  case (Cons y ys)
  then show ?case by (cases i) (auto simp: nth_mem)
qed simp

lemma index_of_absent: "index_of x xs = -1 \<longleftrightarrow> x \<notin> set xs"
proof -
  have "-1 \<le> index_of x xs" for xs by (induction xs) (auto simp: Let_def)
  then have "index_of x xs + 1 \<noteq> -1" for xs by (metis add_le_same_cancel2 le_minus_one_simps(3)
    linorder_not_less zless_add1_eq less_irrefl order_le_less)
  then show ?thesis by (induction xs) (auto simp: Let_def)
qed

lemma rotate_mode_next:
  assumes "distinct (mx_modes m)" and "i < length (mx_modes m)" and "mx_currentMode m = mx_modes m ! i"
  shows "\<exists>m1 e1. rotate_mode m e = Ok (m1, e1) \<and> mx_modes m1 = mx_modes m \<and>
    mx_currentMode m1 = mx_modes m ! ((i + 1) mod length (mx_modes m))"
proof -
  have "nat ((int i + 1) mod int (length (mx_modes m))) = (i + 1) mod length (mx_modes m)"
    by (metis nat_int of_nat_Suc of_nat_mod Suc_eq_plus1 add.commute)
  then show ?thesis
    using assms switch_to_ok [of "mx_modes m ! ((i + 1) mod length (mx_modes m))" m e]
    by (auto simp: rotate_mode_def index_of_nth)
qed

fun rotate_n :: "nat \<Rightarrow> MaskMixer \<Rightarrow> env \<Rightarrow> (MaskMixer \<times> env) result" where
  "rotate_n 0 m e = Ok (m, e)"
| "rotate_n (Suc k) m e = bindR (rotate_mode m e) (\<lambda>(m1, e1). rotate_n k m1 e1)"

lemma rotate_n_at:
  assumes "distinct (mx_modes m)" and "i < length (mx_modes m)" and "mx_currentMode m = mx_modes m ! i"
  shows "\<exists>m1 e1. rotate_n k m e = Ok (m1, e1) \<and> mx_modes m1 = mx_modes m \<and>
    mx_currentMode m1 = mx_modes m ! ((i + k) mod length (mx_modes m))"
  using assms
proof (induction k arbitrary: m e i)
  case (Suc k)
  from rotate_mode_next [OF Suc.prems] obtain m1 e1 where m1: "rotate_mode m e = Ok (m1, e1)"
    "mx_modes m1 = mx_modes m" "mx_currentMode m1 = mx_modes m ! ((i + 1) mod length (mx_modes m))"
    by blast
  have "(i + 1) mod length (mx_modes m) < length (mx_modes m)"
    by (rule mod_less_divisor) (use Suc.prems(2) in linarith)
  with Suc.IH [of m1 "(i + 1) mod length (mx_modes m)" e1] m1 Suc.prems(1)
  show ?case by (simp add: mod_simps)
qed simp

section \<open>Traffic\<close>

lemma codec_served: "md \<in> codec_modes \<Longrightarrow> served md = md"
  by (auto simp: codec_modes_def served_def)

text \<open>The packet of a mixer in a codec mode, at a mixer whose current mask is of that mode.\<close>

lemma mixer_round_trip:
  assumes "SelectMask s p \<in> codec_modes" and "SelectMask s p \<noteq> ModeBrowser"
    and "mode_carries (SelectMask s p) p"
    and "mask_mode (mx_currentMask r) = SelectMask s p" and "mask_ok (mx_currentMask r)"
  shows "\<exists>pkt s1 e1. Mixer_Wrap s p e = Ok (pkt, s1, e1) \<and>
    Mixer_Unwrap r pkt e2 =
      Some (Ok (Ok p, r\<lparr>mx_packetsUnwrapped := mx_packetsUnwrapped r + 1\<rparr>, e2))"
proof -
  let ?md = "SelectMask s p"
  obtain mk e1 where mk: "CreateMask ?md e = Ok (mk, e1)" "mask_mode mk = ?md" "mask_ok mk"
    using CreateMask_ok [of ?md e] assms(1,2) codec_served by auto
  from masker_codec [OF mk(3)] mk(2) assms(1) obtain pkt mk1 e3 where
    w: "Masker_Wrap mk p e1 = Ok (pkt, mk1, e3)" and
    u: "mode_carries ?md p \<longrightarrow> (\<forall>m2 e2. mask_ok m2 \<and> mask_mode m2 = ?md \<longrightarrow>
         Masker_Unwrap m2 pkt e2 = Some (Ok (p, m2, e2)))"
    by metis
  have "Masker_Unwrap (mx_currentMask r) pkt e2 = Some (Ok (p, mx_currentMask r, e2))"
    using u assms(3,4,5) by blast
  then show ?thesis
    using mk w by (simp add: Mixer_Wrap_def Mixer_Unwrap_def Let_def)
qed

lemma Mixer_Wrap_blind:
  assumes "SelectMask m p = md" and "SelectMask m q = md" and "md = ModeWebRTC \<or> md = ModeTLS"
    and "p \<noteq> []" and "q \<noteq> []"
  shows "is_ok (Mixer_Wrap m p e) \<and> Mixer_Wrap m p e = Mixer_Wrap m q e"
proof -
  obtain mk e1 where mk: "CreateMask md e = Ok (mk, e1)" "mask_mode mk = md" "mask_fresh mk"
    using CreateMask_ok [of md e] assms(3) by (auto simp: served_def)
  obtain pkt m1 e2 where "\<forall>p. p \<noteq> [] \<longrightarrow> Masker_Wrap mk p e1 = Ok (pkt, m1, e2)"
  proof (cases "md = ModeWebRTC")
    case True
    with mk fresh_webrtc_blind [of mk e1] that show ?thesis by blast
  next
    case False
    with assms(3) mk fresh_tls_blind [of mk e1] that show ?thesis by blast
  qed
  with mk assms show ?thesis
    by (simp add: Mixer_Wrap_def)
qed

lemma Mixer_Wrap_panics:
  assumes "SelectMask m p = ModeQUIC \<or> SelectMask m p = ModeSTUN"
  shows "Mixer_Wrap m p e = Panic"
proof -
  obtain mk e1 where mk: "CreateMask (SelectMask m p) e = Ok (mk, e1)"
    "mask_mode mk = SelectMask m p" "mask_fresh mk"
    using CreateMask_ok [of "SelectMask m p" e] assms by (auto simp: served_def)
  then show ?thesis
    using fresh_quic_stun_panic [of mk p e1] assms by (simp add: Mixer_Wrap_def Let_def)
qed

text \<open>A vk mask accepts any packet of 16 bytes, whatever mode it was wrapped in.\<close>

lemma vk_accepts_anything:
  assumes "mask_mode (mx_currentMask r) = ModeVK" and "16 \<le> length d"
  shows "Mixer_Unwrap r d e = Some (Ok (Ok (drop 16 d),
    r\<lparr>mx_packetsUnwrapped := mx_packetsUnwrapped r + 1\<rparr>, e))"
proof -
  from assms(1) obtain v where "mx_currentMask r = MVK v" by (auto simp: mask_mode_cases)
  with assms(2) show ?thesis
    by (simp add: Mixer_Unwrap_def stateless_def VK_Unwrap_def go_simps)
qed

end
