(* ===== verification/Session.thy ===== *)
theory Session
  imports HandshakeLaws MixerLaws
begin

text \<open>
  Sessions of \<open>internal/shred/session.go\<close>: a mixer for each direction, counters, a replay
  window, and the manager's map of sessions, an association list with distinct keys. The
  replay window is the one of \<open>Replay\<close>, which it is interpreted in.
\<close>

section \<open>State\<close>

datatype SessionState =
    SessionStateInit | SessionStateHandshakeSent | SessionStateHandshakeReceived
  | SessionStateEstablished | SessionStateClosed

fun SessionState_String :: "SessionState \<Rightarrow> string" where
  "SessionState_String SessionStateInit = ''init''"
| "SessionState_String SessionStateHandshakeSent = ''handshake_sent''"
| "SessionState_String SessionStateHandshakeReceived = ''handshake_received''"
| "SessionState_String SessionStateEstablished = ''established''"
| "SessionState_String SessionStateClosed = ''closed''"

record Session =
  ss_ID :: u64
  ss_CreatedAt :: instant
  ss_LastSeen :: instant
  ss_BytesIn :: u64
  ss_BytesOut :: u64
  ss_State :: SessionState
  ss_MaskConfig :: SessionConfig
  ss_LocalMixer :: MaskMixer
  ss_RemoteMixer :: MaskMixer
  ss_ReplaySeen :: "u64 set"
  ss_ReplayWindow :: "u64 list"

type_synonym SessionManager = "(u64 \<times> Session) list"

definition NewSessionManager :: SessionManager where
  "NewSessionManager = []"

section \<open>Making sessions\<close>

text \<open>A mixer as both constructors set one up: \<open>SetModes\<close> ignores an empty list of modes.\<close>

definition session_mixer :: "SessionConfig \<Rightarrow> env \<Rightarrow> (MaskMixer \<times> env) result" where
  "session_mixer config e =
     bindR (NewMaskMixer (SwitchInterval config) e) (\<lambda>(m, e1).
     bindR (SetModes (Modes config) m e1) (\<lambda>(m, e2).
       SetCurrentMode (CurrentMode config) m e2))"

definition create_with :: "SessionConfig \<Rightarrow> SessionManager \<Rightarrow> env \<Rightarrow>
    (Session \<times> SessionManager \<times> env) result" where
  "create_with config sm e =
     (let (idBytes, e1) = draw 8 e; sid = de64 idBytes;
          (created, e2) = read_clock e1; (seen, e3) = read_clock e2 in
      bindR (session_mixer config e3) (\<lambda>(local, e4).
      bindR (session_mixer config e4) (\<lambda>(remote, e5).
        let s = \<lparr>ss_ID = sid, ss_CreatedAt = created, ss_LastSeen = seen, ss_BytesIn = 0,
                 ss_BytesOut = 0, ss_State = SessionStateInit, ss_MaskConfig = config,
                 ss_LocalMixer = local, ss_RemoteMixer = remote, ss_ReplaySeen = {},
                 ss_ReplayWindow = []\<rparr>
        in Ok (s, AList.update sid s sm, e5))))"

definition default_config :: SessionConfig where
  "default_config =
     \<lparr>SwitchInterval = 5 * minute,
      Modes = [ModeVK, ModeRuTube, ModeYandex, ModeOzon, ModeWildberries, ModeSberID,
        ModeGosuslugi, ModeWebRTC, ModeQUIC, ModeTLS],
      CurrentMode = ModeVK, EnableReplayProtection = True, ReplayWindowSize = 64\<rparr>"

definition CreateSession :: "SessionManager \<Rightarrow> env \<Rightarrow> (Session \<times> SessionManager \<times> env) result" where
  "CreateSession sm e = create_with default_config sm e"

text \<open>Mode 0, which is WebRTC, is taken for a mode left unset. The caller's config is changed.\<close>

definition CreateSessionWithConfig ::
  "SessionConfig \<Rightarrow> SessionManager \<Rightarrow> env \<Rightarrow> (Session \<times> SessionManager \<times> env) result" where
  "CreateSessionWithConfig config sm e =
     create_with (if CurrentMode config = 0 then config\<lparr>CurrentMode := ModeVK\<rparr> else config) sm e"

section \<open>The manager\<close>

definition GetSession :: "SessionManager \<Rightarrow> u64 \<Rightarrow> Session option" where
  "GetSession sm sid = map_of sm sid"

definition UpdateActivity :: "u64 \<Rightarrow> SessionManager \<Rightarrow> env \<Rightarrow> SessionManager \<times> env" where
  "UpdateActivity sid sm e =
     (case map_of sm sid of
        None \<Rightarrow> (sm, e)
      | Some s \<Rightarrow> (let (t, e1) = read_clock e in (AList.update sid (s\<lparr>ss_LastSeen := t\<rparr>) sm, e1)))"

definition UpdateState :: "u64 \<Rightarrow> SessionState \<Rightarrow> SessionManager \<Rightarrow> SessionManager" where
  "UpdateState sid st sm =
     (case map_of sm sid of
        None \<Rightarrow> sm
      | Some s \<Rightarrow> AList.update sid (s\<lparr>ss_State := st\<rparr>) sm)"

fun Session_Cleanup :: "duration \<Rightarrow> SessionManager \<Rightarrow> env \<Rightarrow> SessionManager \<times> env" where
  "Session_Cleanup maxAge [] e = ([], e)"
| "Session_Cleanup maxAge (p # ps) e =
     (let (t, e1) = read_clock e; (qs, e2) = Session_Cleanup maxAge ps e1 in
      (if maxAge < t - ss_LastSeen (snd p) then qs else p # qs, e2))"

section \<open>Traffic\<close>

definition Session_Wrap :: "Session \<Rightarrow> bytes \<Rightarrow> env \<Rightarrow> (bytes \<times> Session \<times> env) result" where
  "Session_Wrap s payload e =
     (let s1 = s\<lparr>ss_BytesOut := ss_BytesOut s + of_nat (length payload)\<rparr> in
      bindR (Mixer_Wrap (ss_LocalMixer s1) payload e) (\<lambda>(pkt, m, e1).
        Ok (pkt, s1\<lparr>ss_LocalMixer := m\<rparr>, e1)))"

definition Session_Unwrap ::
  "Session \<Rightarrow> bytes \<Rightarrow> env \<Rightarrow> (bytes result \<times> Session \<times> env) result option" where
  "Session_Unwrap s data e =
     (let s1 = s\<lparr>ss_BytesIn := ss_BytesIn s + of_nat (length data)\<rparr> in
      bindO (Mixer_Unwrap (ss_RemoteMixer s1) data e) (\<lambda>(r, m, e1).
        Some (Ok (r, s1\<lparr>ss_RemoteMixer := m\<rparr>, e1))))"

definition CheckReplay :: "Session \<Rightarrow> u64 \<Rightarrow> bool \<times> Session" where
  "CheckReplay s sequence =
     (if \<not> EnableReplayProtection (ss_MaskConfig s) then (False, s)
      else if sequence \<in> ss_ReplaySeen s then (True, s)
      else
        let seen = insert sequence (ss_ReplaySeen s); w = ss_ReplayWindow s @ [sequence] in
        if ReplayWindowSize (ss_MaskConfig s) < int (length w)
        then (False, s\<lparr>ss_ReplaySeen := seen - {hd w}, ss_ReplayWindow := tl w\<rparr>)
        else (False, s\<lparr>ss_ReplaySeen := seen, ss_ReplayWindow := w\<rparr>))"

definition RotateLocalMask :: "Session \<Rightarrow> env \<Rightarrow> (Session \<times> env) result" where
  "RotateLocalMask s e =
     bindR (ForceRotate (ss_LocalMixer s) e) (\<lambda>(m, e1). Ok (s\<lparr>ss_LocalMixer := m\<rparr>, e1))"

definition RotateRemoteMask :: "Session \<Rightarrow> env \<Rightarrow> (Session \<times> env) result" where
  "RotateRemoteMask s e =
     bindR (ForceRotate (ss_RemoteMixer s) e) (\<lambda>(m, e1). Ok (s\<lparr>ss_RemoteMixer := m\<rparr>, e1))"

definition SyncModes :: "Session \<Rightarrow> env \<Rightarrow> (Session \<times> env) result" where
  "SyncModes s e =
     (let modes = Modes (ss_MaskConfig s); interval = SwitchInterval (ss_MaskConfig s) in
      bindR (Mixer.SetModes modes (ss_LocalMixer s) e) (\<lambda>(l, e1).
      bindR (Mixer.SetModes modes (ss_RemoteMixer s) e1) (\<lambda>(r, e2).
        Ok (s\<lparr>ss_LocalMixer := SetSwitchInterval interval l,
              ss_RemoteMixer := SetSwitchInterval interval r\<rparr>, e2))))"

section \<open>What holds of it\<close>

definition session_inv :: "Session \<Rightarrow> bool" where
  "session_inv s \<longleftrightarrow> mixer_inv (ss_LocalMixer s) \<and> mixer_inv (ss_RemoteMixer s) \<and>
     window_inv (ss_ReplaySeen s) (ss_ReplayWindow s) (ReplayWindowSize (ss_MaskConfig s))"

lemma session_mixer_ok:
  "\<exists>m e1. session_mixer config e = Ok (m, e1) \<and> mixer_inv m \<and>
     mx_currentMode m = CurrentMode config \<and>
     mask_mode (mx_currentMask m) = served (CurrentMode config) \<and>
     (CurrentMode config \<noteq> ModeBrowser \<longrightarrow> mask_ok (mx_currentMask m)) \<and>
     (Modes config \<noteq> [] \<longrightarrow> mx_modes m = Modes config \<and> \<not> mx_timeBasedEnabled m)"
proof -
  obtain m e1 where m: "NewMaskMixer (SwitchInterval config) e = Ok (m, e1)" "mixer_inv m"
    using NewMaskMixer_inv by blast
  obtain m1 e2 where m1: "Mixer.SetModes (Modes config) m e1 = Ok (m1, e2)" "mixer_inv m1"
    using keeps_invD [OF SetModes_inv m(2)] by blast
  have modes: "Modes config \<noteq> [] \<longrightarrow> mx_modes m1 = Modes config \<and> \<not> mx_timeBasedEnabled m1"
    using m1(1) switch_to_ok [of "hd (Modes config)" "m\<lparr>mx_modes := Modes config\<rparr>" e1]
    by (auto simp: SetModes_def)
  obtain mk e3 where "SetCurrentMode (CurrentMode config) m1 e2 =
      Ok (m1\<lparr>mx_currentMode := CurrentMode config, mx_currentMask := mk\<rparr>, e3)"
    "mask_mode mk = served (CurrentMode config)" "mask_good mk"
    "CurrentMode config \<noteq> ModeBrowser \<longrightarrow> mask_ok mk"
    using SetCurrentMode_ok by blast
  with m m1 modes show ?thesis by (simp add: session_mixer_def mixer_inv_def)
qed

lemma create_with_ok:
  "\<exists>s sm1 e1. create_with config sm e = Ok (s, sm1, e1) \<and> session_inv s \<and>
     ss_MaskConfig s = config \<and> ss_State s = SessionStateInit \<and>
     mx_currentMode (ss_LocalMixer s) = CurrentMode config \<and>
     mx_currentMode (ss_RemoteMixer s) = CurrentMode config \<and>
     mask_mode (mx_currentMask (ss_RemoteMixer s)) = served (CurrentMode config) \<and>
     (CurrentMode config \<noteq> ModeBrowser \<longrightarrow> mask_ok (mx_currentMask (ss_RemoteMixer s))) \<and>
     GetSession sm1 (ss_ID s) = Some s \<and>
     (\<forall>sid. sid \<noteq> ss_ID s \<longrightarrow> GetSession sm1 sid = GetSession sm sid)"
proof -
  let ?e3 = "snd (read_clock (snd (read_clock (snd (draw 8 e)))))"
  obtain l e4 where l: "session_mixer config ?e3 = Ok (l, e4)" "mixer_inv l"
    "mx_currentMode l = CurrentMode config" using session_mixer_ok by blast
  obtain r e5 where r: "session_mixer config e4 = Ok (r, e5)" "mixer_inv r"
    "mx_currentMode r = CurrentMode config"
    "mask_mode (mx_currentMask r) = served (CurrentMode config)"
    "CurrentMode config \<noteq> ModeBrowser \<longrightarrow> mask_ok (mx_currentMask r)"
    using session_mixer_ok by blast
  show ?thesis
    using l r by (simp add: create_with_def case_prod_beta Let_def session_inv_def
        window_inv_def GetSession_def update_conv')
qed

lemma Session_Wrap_inv:
  "session_inv s \<Longrightarrow> Session_Wrap s p e = Ok (pkt, s1, e1) \<Longrightarrow>
   session_inv s1 \<and> ss_BytesOut s1 = ss_BytesOut s + of_nat (length p)"
  by (auto simp: Session_Wrap_def Mixer_Wrap_def Let_def bindR_eq_Ok session_inv_def mixer_inv_def)

lemma Session_Unwrap_inv:
  assumes "session_inv s" and "Session_Unwrap s d e = Some (Ok (r, s1, e1))"
  shows "session_inv s1 \<and> ss_BytesIn s1 = ss_BytesIn s + of_nat (length d)"
proof -
  from assms(2) obtain m where "Mixer_Unwrap (ss_RemoteMixer s) d e = Some (Ok (r, m, e1))"
    "s1 = s\<lparr>ss_BytesIn := ss_BytesIn s + of_nat (length d), ss_RemoteMixer := m\<rparr>"
    by (auto simp: Session_Unwrap_def Let_def bindO_eq_Ok)
  with assms(1) Mixer_Unwrap_inv show ?thesis by (auto simp: session_inv_def)
qed

text \<open>The replay window of a session with protection on.\<close>

definition replay_on :: "Session \<Rightarrow> bool" where
  "replay_on s \<longleftrightarrow> EnableReplayProtection (ss_MaskConfig s) \<and>
     window_inv (ss_ReplaySeen s) (ss_ReplayWindow s) (ReplayWindowSize (ss_MaskConfig s))"

text \<open>A session's window steps as a \<open>ReplayProtection\<close> does.\<close>

definition as_rp :: "Session \<Rightarrow> ReplayProtection" where
  "as_rp s = \<lparr>rp_seen = ss_ReplaySeen s, rp_window = ss_ReplayWindow s,
     rp_maxSize = ReplayWindowSize (ss_MaskConfig s)\<rparr>"

lemma CheckReplay_as_rp:
  assumes "EnableReplayProtection (ss_MaskConfig s)"
  shows "fst (CheckReplay s x) = fst (CheckAndAdd (as_rp s) x)"
    and "as_rp (snd (CheckReplay s x)) = snd (CheckAndAdd (as_rp s) x)"
    and "ss_MaskConfig (snd (CheckReplay s x)) = ss_MaskConfig s"
  using assms by (auto simp: CheckReplay_def CheckAndAdd_def as_rp_def Let_def)

lemma as_rp_sel:
  "rp_window (as_rp s) = ss_ReplayWindow s"
  "rp_maxSize (as_rp s) = ReplayWindowSize (ss_MaskConfig s)"
  "replay_on s \<longleftrightarrow> EnableReplayProtection (ss_MaskConfig s) \<and> rp_inv (as_rp s)"
  by (simp_all add: as_rp_def replay_on_def rp_inv_def)

interpretation sr: replay_window CheckReplay ss_ReplayWindow
  "\<lambda>s. nat (ReplayWindowSize (ss_MaskConfig s))" replay_on
proof unfold_locales
  fix s x assume "replay_on s"
  then have on: "EnableReplayProtection (ss_MaskConfig s)" and inv: "rp_inv (as_rp s)"
    by (simp_all add: as_rp_sel)
  note step = CheckAndAdd_step [OF inv, of x, unfolded as_rp_sel]
  show "fst (CheckReplay s x) \<longleftrightarrow> x \<in> set (ss_ReplayWindow s)"
    using step(1) CheckReplay_as_rp(1) [OF on] by simp
  show "ss_ReplayWindow (snd (CheckReplay s x)) =
      (if x \<in> set (ss_ReplayWindow s) then ss_ReplayWindow s
       else slide (nat (ReplayWindowSize (ss_MaskConfig s))) (ss_ReplayWindow s) x)"
    using step(2) CheckReplay_as_rp(2) [OF on, of x] as_rp_sel(1) by metis
  show "nat (ReplayWindowSize (ss_MaskConfig (snd (CheckReplay s x)))) =
      nat (ReplayWindowSize (ss_MaskConfig s))"
    using CheckReplay_as_rp(3) [OF on] by simp
  show "replay_on (snd (CheckReplay s x))"
    using step(4) CheckReplay_as_rp(2,3) [OF on, of x] on by (simp add: as_rp_sel)
next
  fix s assume "replay_on s"
  then show "length (ss_ReplayWindow s) \<le> nat (ReplayWindowSize (ss_MaskConfig s))"
    by (simp add: replay_on_def window_inv_def)
qed

lemma CheckReplay_inv:
  assumes "session_inv s" and "CheckReplay s x = (b, s1)"
  shows "session_inv s1"
proof (cases "EnableReplayProtection (ss_MaskConfig s)")
  case True
  with assms(1) have "replay_on s" by (simp add: replay_on_def session_inv_def)
  then have "replay_on s1" using sr.check_ok [of s x] assms(2) by simp
  moreover have "ss_LocalMixer s1 = ss_LocalMixer s" "ss_RemoteMixer s1 = ss_RemoteMixer s"
    using assms(2) by (auto simp: CheckReplay_def Let_def split: if_splits)
  ultimately show ?thesis using assms(1) by (simp add: replay_on_def session_inv_def)
next
  case False
  with assms show ?thesis by (simp add: CheckReplay_def)
qed

lemma rotations_inv:
  assumes "session_inv s"
  shows "RotateLocalMask s e = Ok (s1, e1) \<Longrightarrow> session_inv s1"
    and "RotateRemoteMask s e = Ok (s1, e1) \<Longrightarrow> session_inv s1"
    and "SyncModes s e = Ok (s1, e1) \<Longrightarrow> session_inv s1"
proof -
  have l: "mixer_inv (ss_LocalMixer s)" and r: "mixer_inv (ss_RemoteMixer s)"
    using assms by (simp_all add: session_inv_def)
  show "session_inv s1" if "RotateLocalMask s e = Ok (s1, e1)"
    using that keeps_invD [OF ForceRotate_inv l, of e] assms
    by (auto simp: RotateLocalMask_def bindR_eq_Ok session_inv_def)
  show "session_inv s1" if "RotateRemoteMask s e = Ok (s1, e1)"
    using that keeps_invD [OF ForceRotate_inv r, of e] assms
    by (auto simp: RotateRemoteMask_def bindR_eq_Ok session_inv_def)
  show "session_inv s1" if sync: "SyncModes s e = Ok (s1, e1)"
  proof -
    let ?ms = "Modes (ss_MaskConfig s)"
    obtain l1 e2 where l1: "Mixer.SetModes ?ms (ss_LocalMixer s) e = Ok (l1, e2)" "mixer_inv l1"
      using keeps_invD [OF SetModes_inv l] by blast
    obtain r1 e3 where r1: "Mixer.SetModes ?ms (ss_RemoteMixer s) e2 = Ok (r1, e3)" "mixer_inv r1"
      using keeps_invD [OF SetModes_inv r] by blast
    have "mixer_inv (SetSwitchInterval i m) = mixer_inv m" for i m
      by (simp add: SetSwitchInterval_def mixer_inv_def)
    with sync l1 r1 assms show ?thesis by (auto simp: SyncModes_def Let_def session_inv_def)
  qed
qed

text \<open>No operation on a session changes its id or its state.\<close>

lemma session_ops_keep:
  "Session_Wrap s p e = Ok (pkt, s1, e1) \<Longrightarrow> ss_ID s1 = ss_ID s \<and> ss_State s1 = ss_State s"
  "Session_Unwrap s p e = Some (Ok (r, s1, e1)) \<Longrightarrow> ss_ID s1 = ss_ID s \<and> ss_State s1 = ss_State s"
  "RotateLocalMask s e = Ok (s1, e1) \<Longrightarrow> ss_ID s1 = ss_ID s \<and> ss_State s1 = ss_State s"
  "SyncModes s e = Ok (s1, e1) \<Longrightarrow> ss_ID s1 = ss_ID s \<and> ss_State s1 = ss_State s"
  by (auto simp: Session_Wrap_def Session_Unwrap_def RotateLocalMask_def SyncModes_def Let_def
      bindR_eq_Ok bindO_eq_Ok)

section \<open>From one session to another\<close>

text \<open>
  A payload wrapped by a session comes out of the other end's \<open>Unwrap\<close>, when the sender's
  current mode is a codec mode and the receiver's mask is of that mode.
\<close>

lemma session_round_trip:
  assumes "SelectMask (ss_LocalMixer s) p \<in> codec_modes - {ModeBrowser}"
    and "mode_carries (SelectMask (ss_LocalMixer s) p) p"
    and "mask_mode (mx_currentMask (ss_RemoteMixer r)) = SelectMask (ss_LocalMixer s) p"
    and "mask_ok (mx_currentMask (ss_RemoteMixer r))"
  shows "\<exists>pkt s1 e1 r1. Session_Wrap s p e = Ok (pkt, s1, e1) \<and>
    Session_Unwrap r pkt e2 = Some (Ok (Ok p, r1, e2)) \<and>
    ss_BytesIn r1 = ss_BytesIn r + of_nat (length pkt) \<and>
    mx_currentMask (ss_RemoteMixer r1) = mx_currentMask (ss_RemoteMixer r)"
proof -
  from assms mixer_round_trip [of "ss_LocalMixer s" p "ss_RemoteMixer r" e e2]
  obtain pkt m e1 where "Mixer_Wrap (ss_LocalMixer s) p e = Ok (pkt, m, e1)"
    "Mixer_Unwrap (ss_RemoteMixer r) pkt e2 = Some (Ok (Ok p, (ss_RemoteMixer r)\<lparr>mx_packetsUnwrapped :=
       mx_packetsUnwrapped (ss_RemoteMixer r) + 1\<rparr>, e2))"
    by auto
  then show ?thesis by (simp add: Session_Wrap_def Session_Unwrap_def Let_def)
qed

end
