(* ===== verification/Shaping.thy ===== *)
theory Shaping
  imports Prelude
begin

text \<open>
  Cutting a byte string into pieces: the Fragmentor of \<open>internal/shred/fragmentor.go\<close> and
  the TrafficShaper of \<open>internal/shred/shaper.go\<close>. Their loops are partial functions: a
  piece size of 0 never ends, a negative one panics in \<open>make\<close>. The locale \<open>splitter\<close>
  states what the rest of the program relies on, and both are interpreted in it.
\<close>

section \<open>Fragmentor\<close>

record fragmentor =
  minSize :: int
  maxSize :: int
  currentSize :: int
  lastRotation :: instant

definition NewFragmentor :: "int \<Rightarrow> int \<Rightarrow> fragmentor" where
  "NewFragmentor mn mx =
     \<lparr>minSize = mn, maxSize = mx, currentSize = mn, lastRotation = zero_time\<rparr>"

definition rotateIfNeeded :: "fragmentor \<times> clock \<Rightarrow> (fragmentor \<times> clock) result" where
  "rotateIfNeeded = (\<lambda>(f, c).
     if 30 * second < now c - lastRotation f then
       bindR (go_rem (now (tick 1 c)) (maxSize f - minSize f)) (\<lambda>r.
         Ok (f\<lparr>currentSize := minSize f + r, lastRotation := now (tick 2 c)\<rparr>, tick 3 c))
     else Ok (f, tick 1 c))"

partial_function (option) fragment_loop :: "int \<Rightarrow> bytes \<Rightarrow> bytes list result option" where
  "fragment_loop currentSz remaining =
     (if remaining = [] then Some (Ok [])
      else let size = (if int (length remaining) < currentSz then int (length remaining)
                       else currentSz) in
        if size < 0 then Some Panic
        else Option.bind (fragment_loop currentSz (drop (nat size) remaining)) (\<lambda>rest.
          Some (bindR rest (\<lambda>fs. Ok (take (nat size) remaining # fs)))))"

definition Fragment ::
  "fragmentor \<times> clock \<Rightarrow> bytes \<Rightarrow> (bytes list \<times> (fragmentor \<times> clock)) result option" where
  "Fragment s data =
     (case rotateIfNeeded s of
        Ok s1 \<Rightarrow> Option.bind (fragment_loop (currentSize (fst s1)) data) (\<lambda>r.
          Some (bindR r (\<lambda>fs. Ok (fs, s1))))
      | Fail e \<Rightarrow> Some (Fail e)
      | Panic \<Rightarrow> Some Panic)"

section \<open>Traffic shaper\<close>

record shaper =
  minBurst :: int
  maxBurst :: int
  interBurst :: duration
  active :: bool

definition NewTrafficShaper :: "int \<Rightarrow> int \<Rightarrow> duration \<Rightarrow> shaper" where
  "NewTrafficShaper mn mx ib =
     \<lparr>minBurst = mn, maxBurst = mx, interBurst = ib, active = True\<rparr>"

definition shaper_stop :: "shaper \<Rightarrow> shaper" where
  "shaper_stop ts = ts\<lparr>active := False\<rparr>"

text \<open>The burst size of one iteration, which reads the clock when there is a range.\<close>

definition burst_size :: "shaper \<Rightarrow> clock \<Rightarrow> int \<times> clock" where
  "burst_size ts c =
     (if minBurst ts < maxBurst ts
      then (minBurst ts + sgn (now c) * (\<bar>now c\<bar> mod (maxBurst ts - minBurst ts)), tick 1 c)
      else (minBurst ts, c))"

partial_function (option) Process_loop ::
  "shaper \<Rightarrow> clock \<Rightarrow> bytes \<Rightarrow> (bytes list \<times> clock) result option" where
  "Process_loop ts c remaining =
     (if remaining = [] then Some (Ok ([], c))
      else let b = fst (burst_size ts c); c1 = snd (burst_size ts c);
               burstSize = (if int (length remaining) < b then int (length remaining) else b) in
        if burstSize < 0 then Some Panic
        else Option.bind (Process_loop ts c1 (drop (nat burstSize) remaining)) (\<lambda>rest.
          Some (bindR rest (\<lambda>(bs, c2). Ok (take (nat burstSize) remaining # bs, c2)))))"

definition Process :: "shaper \<times> clock \<Rightarrow> bytes \<Rightarrow> (bytes list \<times> (shaper \<times> clock)) result option"
  where "Process s data =
     Option.bind (Process_loop (fst s) (snd s) data) (\<lambda>r.
       Some (bindR r (\<lambda>(bs, c). Ok (bs, (fst s, c)))))"

section \<open>Reference: cutting into equal pieces\<close>

function chunks :: "nat \<Rightarrow> 'a list \<Rightarrow> 'a list list" where
  "chunks n xs = (if xs = [] \<or> n = 0 then [] else take n xs # chunks n (drop n xs))"
  by pat_completeness auto
termination
  by (relation "measure (\<lambda>(n, xs). length xs)") auto

declare chunks.simps [simp del]

lemma chunks_Nil [simp]: "chunks n [] = []"
  by (simp add: chunks.simps)

lemma chunks_step: "xs \<noteq> [] \<Longrightarrow> 0 < n \<Longrightarrow> chunks n xs = take n xs # chunks n (drop n xs)"
  by (simp add: chunks.simps [of n xs])

lemma concat_chunks: "0 < n \<Longrightarrow> concat (chunks n xs) = xs"
proof (induction n xs rule: chunks.induct)
  case (1 n xs)
  then show ?case
    by (cases "xs = []") (simp_all add: chunks_step)
qed

lemma chunks_sizes: "c \<in> set (chunks n xs) \<Longrightarrow> 0 < length c \<and> length c \<le> n"
proof (induction n xs rule: chunks.induct)
  case (1 n xs)
  show ?case
  proof (cases "xs = [] \<or> n = 0")
    case True
    with "1.prems" show ?thesis by (simp add: chunks.simps)
  next
    case False
    with "1.prems" consider "c = take n xs" | "c \<in> set (chunks n (drop n xs))"
      by (auto simp: chunks.simps [of n xs])
    then show ?thesis
      using "1.IH" False by cases auto
  qed
qed

lemma chunks_count: "0 < n \<Longrightarrow> length (chunks n xs) = (length xs + n - 1) div n"
proof (induction n xs rule: chunks.induct)
  case (1 n xs)
  show ?case
  proof (cases "xs = []")
    case False
    with "1" have IH: "length (chunks n (drop n xs)) = (length xs - n + n - 1) div n"
      by simp
    show ?thesis
    proof (cases "length xs \<le> n")
      case True
      have "0 < length xs" using False by simp
      then have "(length xs + n - 1) div n = 1"
        using True "1.prems" by (intro div_nat_eqI) (auto simp del: length_greater_0_conv)
      with True False "1.prems" show ?thesis by (simp add: chunks_step)
    next
      case longer: False
      have "length xs + n - 1 = (length xs - 1) + n"
        using False by (cases xs) auto
      then have "(length xs + n - 1) div n = Suc ((length xs - 1) div n)"
        using "1.prems" by (metis Suc_eq_plus1 div_add_self2 not_gr_zero)
      with IH longer False "1.prems" show ?thesis by (simp add: chunks_step)
    qed
  qed (use "1.prems" in simp)
qed

section \<open>The loops, decided for every piece size\<close>

lemma fragment_loop_chunks:
  "0 < sz \<Longrightarrow> fragment_loop sz data = Some (Ok (chunks (nat sz) data))"
proof (induction "nat sz" data rule: chunks.induct)
  case (1 data)
  show ?case
  proof (cases "data = []")
    case False
    define k where "k = (if int (length data) < sz then int (length data) else sz)"
    have k: "0 < k" "take (nat k) data = take (nat sz) data"
        "drop (nat k) data = drop (nat sz) data"
      using False "1.prems" by (auto simp: k_def)
    have "fragment_loop sz (drop (nat sz) data) =
        Some (Ok (chunks (nat sz) (drop (nat sz) data)))"
      using "1.hyps" "1.prems" False by simp
    then show ?thesis
      using False "1.prems" k
      by (simp add: fragment_loop.simps [of sz data] k_def [symmetric] chunks_step Let_def)
  qed (simp add: fragment_loop.simps)
qed

lemma fragment_loop_zero:
  assumes "data \<noteq> []"
  shows "fragment_loop 0 data = None"
proof (rule ccontr)
  assume "fragment_loop 0 data \<noteq> None"
  then obtain r where r: "fragment_loop 0 data = Some r" by blast
  have "(0 :: int) = 0 \<longrightarrow> data = []"
  proof (rule fragment_loop.raw_induct [where P = "\<lambda>z d _. z = 0 \<longrightarrow> d = []", OF _ r])
    fix f z and d :: bytes and y
    assume IH: "\<And>z d y. f z d = Some y \<Longrightarrow> z = 0 \<longrightarrow> d = []"
      and eq: "(if d = [] then Some (Ok [])
        else let size = (if int (length d) < z then int (length d) else z) in
          if size < 0 then Some Panic
          else Option.bind (f z (drop (nat size) d)) (\<lambda>rest.
            Some (bindR rest (\<lambda>fs. Ok (take (nat size) d # fs))))) = Some y"
    show "z = 0 \<longrightarrow> d = []"
      using eq IH by (auto simp: Let_def bind_eq_Some_conv split: if_splits)
  qed
  with assms show False by simp
qed

lemma fragment_loop_negative:
  assumes "data \<noteq> []" and "sz < 0"
  shows "fragment_loop sz data = Some Panic"
  using assms by (simp add: fragment_loop.simps [of sz data] Let_def)

text \<open>The fragmentor's invariant: a proper range, and a current size inside it.\<close>

definition frag_inv :: "fragmentor \<times> clock \<Rightarrow> bool" where
  "frag_inv s \<longleftrightarrow> clock_ok (snd s) \<and> 0 < minSize (fst s) \<and> minSize (fst s) < maxSize (fst s) \<and>
     minSize (fst s) \<le> currentSize (fst s) \<and> currentSize (fst s) < maxSize (fst s)"

lemma frag_inv_New: "0 < mn \<Longrightarrow> mn < mx \<Longrightarrow> clock_ok c \<Longrightarrow> frag_inv (NewFragmentor mn mx, c)"
  by (simp add: frag_inv_def NewFragmentor_def)

lemma rotateIfNeeded_inv:
  assumes "frag_inv s"
  shows "\<exists>s1. rotateIfNeeded s = Ok s1 \<and> frag_inv s1 \<and>
    minSize (fst s1) = minSize (fst s) \<and> maxSize (fst s1) = maxSize (fst s)"
proof -
  obtain f c where s: "s = (f, c)" by (cases s)
  have m: "0 \<le> t mod (maxSize f - minSize f) \<and> t mod (maxSize f - minSize f) < maxSize f - minSize f"
    for t using assms by (simp add: s frag_inv_def)
  have "minSize f \<le> minSize f + t mod (maxSize f - minSize f) \<and>
      minSize f + t mod (maxSize f - minSize f) < maxSize f" for t
    using m [of t] by linarith
  then show ?thesis
    using assms by (auto simp: s rotateIfNeeded_def frag_inv_def go_rem_pos)
qed

lemma Fragment_inv:
  assumes "frag_inv s"
  shows "\<exists>s1. Fragment s data = Some (Ok (chunks (nat (currentSize (fst s1))) data, s1)) \<and>
    frag_inv s1 \<and> minSize (fst s1) = minSize (fst s) \<and> maxSize (fst s1) = maxSize (fst s)"
proof -
  from rotateIfNeeded_inv [OF assms] obtain s1 where s1: "rotateIfNeeded s = Ok s1" "frag_inv s1"
      "minSize (fst s1) = minSize (fst s)" "maxSize (fst s1) = maxSize (fst s)"
    by blast
  then have "0 < currentSize (fst s1)" by (simp add: frag_inv_def)
  with s1 show ?thesis by (intro exI [of _ s1]) (simp add: Fragment_def fragment_loop_chunks)
qed

text \<open>The shaper: every burst within the configured range, the last one cut to what is left.\<close>

definition shaper_inv :: "shaper \<times> clock \<Rightarrow> bool" where
  "shaper_inv s \<longleftrightarrow> clock_ok (snd s) \<and> 0 < minBurst (fst s)"

lemma burst_size_range:
  assumes "clock_ok c" and "0 < minBurst ts"
  shows "minBurst ts \<le> fst (burst_size ts c) \<and>
    fst (burst_size ts c) \<le> max (minBurst ts) (maxBurst ts - 1) \<and>
    clock_ok (snd (burst_size ts c))"
proof (cases "minBurst ts < maxBurst ts")
  case True
  then have m: "0 \<le> now c mod (maxBurst ts - minBurst ts)"
      "now c mod (maxBurst ts - minBurst ts) < maxBurst ts - minBurst ts"
    by simp_all
  have "sgn (now c) * (\<bar>now c\<bar> mod (maxBurst ts - minBurst ts)) =
      now c mod (maxBurst ts - minBurst ts)"
    using clock_ok_now [OF assms(1)] by (auto simp: sgn_if)
  then have "burst_size ts c = (minBurst ts + now c mod (maxBurst ts - minBurst ts), tick 1 c)"
    using True by (simp add: burst_size_def)
  moreover have "minBurst ts + now c mod (maxBurst ts - minBurst ts) \<le> maxBurst ts - 1"
    using m by linarith
  ultimately show ?thesis using m(1) True assms by (simp add: max_def)
qed (use assms in \<open>simp add: burst_size_def\<close>)

lemma Process_loop_total:
  assumes "clock_ok c" and "0 < minBurst ts"
  shows "\<exists>bs c1. Process_loop ts c data = Some (Ok (bs, c1)) \<and> clock_ok c1 \<and>
    concat bs = data \<and>
    (\<forall>b \<in> set bs. 0 < length b \<and> int (length b) \<le> max (minBurst ts) (maxBurst ts - 1))"
  using assms(1)
proof (induction data arbitrary: c rule: length_induct)
  case (1 data)
  show ?case
  proof (cases "data = []")
    case True
    then show ?thesis using "1.prems" by (simp add: Process_loop.simps)
  next
    case False
    define b c1 where "b = fst (burst_size ts c)" and "c1 = snd (burst_size ts c)"
    define k where "k = (if int (length data) < b then int (length data) else b)"
    have b: "0 < b" "b \<le> max (minBurst ts) (maxBurst ts - 1)" "clock_ok c1"
      using burst_size_range [OF "1.prems" assms(2)] assms(2) by (auto simp: b_def c1_def)
    then have k: "0 < k" "k \<le> b" "k \<le> int (length data)"
      using False by (auto simp: k_def)
    then have "length (drop (nat k) data) < length data"
      using False by auto
    then obtain bs c2 where rec: "Process_loop ts c1 (drop (nat k) data) = Some (Ok (bs, c2))"
        "clock_ok c2" "concat bs = drop (nat k) data"
        "\<forall>b \<in> set bs. 0 < length b \<and> int (length b) \<le> max (minBurst ts) (maxBurst ts - 1)"
      using "1.IH" b(3) by metis
    have "Process_loop ts c data = Some (Ok (take (nat k) data # bs, c2))"
      using False k rec
      by (simp add: Process_loop.simps [of ts c data] Let_def b_def [symmetric]
          c1_def [symmetric] k_def [symmetric])
    moreover have "0 < length (take (nat k) data)"
        "int (length (take (nat k) data)) \<le> max (minBurst ts) (maxBurst ts - 1)"
      using k b(2) False by auto
    ultimately show ?thesis using rec by auto
  qed
qed

section \<open>The interface: a splitter\<close>

text \<open>
  A splitter in a good state returns, keeps its state good, and returns non-empty pieces
  whose concatenation is the input.
\<close>

locale splitter =
  fixes split :: "'s \<Rightarrow> bytes \<Rightarrow> (bytes list \<times> 's) result option"
    and good :: "'s \<Rightarrow> bool"
  assumes split_total: "good s \<Longrightarrow> \<exists>cs s1. split s d = Some (Ok (cs, s1)) \<and> good s1 \<and>
    concat cs = d \<and> [] \<notin> set cs"
begin

lemma split_concat: "good s \<Longrightarrow> split s d = Some (Ok (cs, s1)) \<Longrightarrow> concat cs = d \<and> good s1"
  using split_total [of s d] by auto

lemma split_empty: "good s \<Longrightarrow> split s [] = Some (Ok (cs, s1)) \<Longrightarrow> cs = []"
  using split_total [of s "[]"] by (auto simp: concat_eq_Nil_conv) (metis list.set_intros(1) neq_Nil_conv)

end

interpretation fragmentor: splitter Fragment frag_inv
proof unfold_locales
  fix s d assume inv: "frag_inv s"
  then obtain s1 where s1: "Fragment s d = Some (Ok (chunks (nat (currentSize (fst s1))) d, s1))"
      "frag_inv s1"
    using Fragment_inv by blast
  then have "0 < nat (currentSize (fst s1))" by (simp add: frag_inv_def)
  then have "concat (chunks (nat (currentSize (fst s1))) d) = d"
      "[] \<notin> set (chunks (nat (currentSize (fst s1))) d)"
    by (auto simp: concat_chunks dest: chunks_sizes)
  with s1 show "\<exists>cs s1. Fragment s d = Some (Ok (cs, s1)) \<and> frag_inv s1 \<and> concat cs = d \<and>
      [] \<notin> set cs"
    by blast
qed

interpretation shaper: splitter Process shaper_inv
proof unfold_locales
  fix s d assume "shaper_inv s"
  then show "\<exists>cs s1. Process s d = Some (Ok (cs, s1)) \<and> shaper_inv s1 \<and> concat cs = d \<and>
      [] \<notin> set cs"
    using Process_loop_total [of "snd s" "fst s" d]
    by (auto simp: shaper_inv_def Process_def)
qed

end
