(* ===== verification/ShredEngine.thy ===== *)
theory ShredEngine
  imports Session Shaping
begin

text \<open>
  The pipeline of \<open>internal/shred/engine.go\<close>: mask, shape into bursts, cut into fragments,
  write each fragment. The reader is the list of what its reads give, then its error; the
  writer keeps the packets written, and may fail after some. The temporal jitter only
  sleeps between writes, \<open>ShouldDrop\<close> included, so it does not touch the data.
\<close>

record ShredEngineConfig =
  MinFragmentSize :: int
  MaxFragmentSize :: int
  ShaperMinBurst :: int
  ShaperMaxBurst :: int
  ShaperInterval :: duration
  MaskSwitchInterval :: duration
  ec_EnableMasking :: bool
  ec_Modes :: "ProtocolMode list"

definition DefaultShredEngineConfig :: ShredEngineConfig where
  "DefaultShredEngineConfig =
     \<lparr>MinFragmentSize = 32, MaxFragmentSize = 288, ShaperMinBurst = 500, ShaperMaxBurst = 1500,
      ShaperInterval = 10 * millisecond, MaskSwitchInterval = 5 * minute, ec_EnableMasking = True,
      ec_Modes = [ModeVK, ModeRuTube, ModeYandex, ModeOzon, ModeWildberries, ModeSberID,
        ModeGosuslugi, ModeWebRTC, ModeQUIC, ModeTLS]\<rparr>"

record ShredEngine =
  se_fragmentor :: fragmentor
  se_shaper :: shaper
  se_mixer :: "MaskMixer option"
  se_config :: ShredEngineConfig

definition NewShredEngine :: "ShredEngineConfig option \<Rightarrow> env \<Rightarrow> (ShredEngine \<times> env) result" where
  "NewShredEngine config0 e =
     (let config = (case config0 of None \<Rightarrow> DefaultShredEngineConfig | Some c \<Rightarrow> c);
          s = \<lparr>se_fragmentor = NewFragmentor (MinFragmentSize config) (MaxFragmentSize config),
               se_shaper = NewTrafficShaper (ShaperMinBurst config) (ShaperMaxBurst config)
                 (ShaperInterval config),
               se_mixer = None, se_config = config\<rparr> in
      if ec_EnableMasking config then
        bindR (NewMaskMixer (MaskSwitchInterval config) e) (\<lambda>(m, e1).
        bindR (if ec_Modes config \<noteq> [] then Mixer.SetModes (ec_Modes config) m e1 else Ok (m, e1))
          (\<lambda>(m1, e2). Ok (s\<lparr>se_mixer := Some m1\<rparr>, e2)))
      else Ok (s, e))"

section \<open>Sending\<close>

record sink =
  k_out :: "bytes list"
  k_budget :: "nat option"

definition sink_write :: "bytes \<Rightarrow> sink \<Rightarrow> unit result \<times> sink" where
  "sink_write b k =
     (case k_budget k of
        None \<Rightarrow> (Ok (), k\<lparr>k_out := k_out k @ [b]\<rparr>)
      | Some 0 \<Rightarrow> (Fail OtherError, k)
      | Some (Suc n) \<Rightarrow> (Ok (), k\<lparr>k_out := k_out k @ [b], k_budget := Some n\<rparr>))"

text \<open>An error of the writer ends \<open>Process\<close>; it is the value beside the state here.\<close>

fun write_fragments :: "bytes list \<Rightarrow> sink \<Rightarrow> unit result \<times> sink" where
  "write_fragments [] k = (Ok (), k)"
| "write_fragments (f # fs) k =
     (case sink_write f k of
        (Ok _, k1) \<Rightarrow> write_fragments fs k1
      | (r, k1) \<Rightarrow> (r, k1))"

fun write_bursts ::
  "bytes list \<Rightarrow> fragmentor \<times> clock \<Rightarrow> sink \<Rightarrow> (unit result \<times> (fragmentor \<times> clock) \<times> sink) result option"
  where
  "write_bursts [] f k = Some (Ok (Ok (), f, k))"
| "write_bursts (b # bs) f k =
     bindO (Fragment f b) (\<lambda>(frags, f1).
       case write_fragments frags k of
         (Ok _, k1) \<Rightarrow> write_bursts bs f1 k1
       | (r, k1) \<Rightarrow> Some (Ok (r, f1, k1)))"

definition mask_out :: "ShredEngine \<Rightarrow> bytes \<Rightarrow> env \<Rightarrow> (bytes \<times> ShredEngine \<times> env) result" where
  "mask_out s data e =
     (case (ec_EnableMasking (se_config s), se_mixer s) of
        (True, Some m) \<Rightarrow>
          bindR (Mixer_Wrap m data e) (\<lambda>(pkt, m1, e1). Ok (pkt, s\<lparr>se_mixer := Some m1\<rparr>, e1))
      | _ \<Rightarrow> Ok (data, s, e))"

definition engine_send ::
  "ShredEngine \<Rightarrow> bytes \<Rightarrow> env \<Rightarrow> sink \<Rightarrow> (unit result \<times> ShredEngine \<times> env \<times> sink) result option"
  where "engine_send s data e k =
     bindO (Some (mask_out s data e)) (\<lambda>(pkt, s1, e1).
     bindO (Process (se_shaper s1, clk e1) pkt) (\<lambda>(bursts, (sh, c)).
     bindO (write_bursts bursts (se_fragmentor s1, c) k) (\<lambda>(r, (f, c1), k1).
       Some (Ok (r, s1\<lparr>se_fragmentor := f, se_shaper := sh\<rparr>, e1\<lparr>clk := c1\<rparr>, k1)))))"

fun engine_Process ::
  "bytes list \<Rightarrow> go_error \<Rightarrow> ShredEngine \<Rightarrow> env \<Rightarrow> sink \<Rightarrow>
     (go_error \<times> ShredEngine \<times> env \<times> sink) result option" where
  "engine_Process [] err s e k = Some (Ok (err, s, e, k))"
| "engine_Process (d # ds) err s e k =
     bindO (engine_send s (take 65536 d) e k) (\<lambda>(r, s1, e1, k1).
       case r of
         Fail werr \<Rightarrow> Some (Ok (werr, s1, e1, k1))
       | Panic \<Rightarrow> Some Panic
       | Ok _ \<Rightarrow> engine_Process ds err s1 e1 k1)"

section \<open>Receiving\<close>

fun ProcessWithUnwrap ::
  "bytes list \<Rightarrow> go_error \<Rightarrow> ShredEngine \<Rightarrow> env \<Rightarrow> sink \<Rightarrow>
     (go_error \<times> ShredEngine \<times> env \<times> sink) result option" where
  "ProcessWithUnwrap [] err s e k = Some (Ok (err, s, e, k))"
| "ProcessWithUnwrap (d # ds) err s e k =
     (let data = take 65536 d;
          pass = (\<lambda>x s e. case sink_write x k of
            (Ok _, k1) \<Rightarrow> ProcessWithUnwrap ds err s e k1
          | (Fail werr, k1) \<Rightarrow> Some (Ok (werr, s, e, k1))
          | (Panic, k1) \<Rightarrow> Some Panic) in
      case (ec_EnableMasking (se_config s), se_mixer s) of
        (True, Some m) \<Rightarrow>
          bindO (Mixer_Unwrap m data e) (\<lambda>(r, m1, e1).
            let s1 = s\<lparr>se_mixer := Some m1\<rparr> in
            case r of
              Ok x \<Rightarrow> pass x s1 e1
            | _ \<Rightarrow> ProcessWithUnwrap ds err s1 e1 k)
      | _ \<Rightarrow> pass data s e)"

section \<open>Modes and switches\<close>

definition on_mixer ::
  "(MaskMixer \<Rightarrow> env \<Rightarrow> (MaskMixer \<times> env) result) \<Rightarrow> ShredEngine \<Rightarrow> env \<Rightarrow> (ShredEngine \<times> env) result"
  where "on_mixer f s e =
     (case se_mixer s of
        None \<Rightarrow> Ok (s, e)
      | Some m \<Rightarrow> bindR (f m e) (\<lambda>(m1, e1). Ok (s\<lparr>se_mixer := Some m1\<rparr>, e1)))"

definition Engine_ForceRotate :: "ShredEngine \<Rightarrow> env \<Rightarrow> (ShredEngine \<times> env) result" where
  "Engine_ForceRotate s e = on_mixer ForceRotate s e"

definition Engine_SetModes :: "ProtocolMode list \<Rightarrow> ShredEngine \<Rightarrow> env \<Rightarrow> (ShredEngine \<times> env) result" where
  "Engine_SetModes modes s e =
     on_mixer (Mixer.SetModes modes) (s\<lparr>se_config := (se_config s)\<lparr>ec_Modes := modes\<rparr>\<rparr>) e"

definition Engine_AddMode :: "ProtocolMode \<Rightarrow> ShredEngine \<Rightarrow> ShredEngine" where
  "Engine_AddMode mode s =
     (let s1 = s\<lparr>se_mixer := map_option (AddMode mode) (se_mixer s)\<rparr>;
          modes = ec_Modes (se_config s1) in
      if mode \<in> set modes then s1
      else s1\<lparr>se_config := (se_config s1)\<lparr>ec_Modes := modes @ [mode]\<rparr>\<rparr>)"

definition Engine_RemoveMode :: "ProtocolMode \<Rightarrow> ShredEngine \<Rightarrow> env \<Rightarrow> (ShredEngine \<times> env) result" where
  "Engine_RemoveMode mode s e =
     bindR (on_mixer (RemoveMode mode) s e) (\<lambda>(s1, e1).
       Ok (s1\<lparr>se_config := (se_config s1)\<lparr>ec_Modes :=
         filter (\<lambda>existing. existing \<noteq> mode) (ec_Modes (se_config s1))\<rparr>\<rparr>, e1))"

definition Engine_GetModes :: "ShredEngine \<Rightarrow> ProtocolMode list" where
  "Engine_GetModes s =
     (case se_mixer s of Some m \<Rightarrow> GetModes m | None \<Rightarrow> ec_Modes (se_config s))"

definition Engine_EnableMasking :: "bool \<Rightarrow> ShredEngine \<Rightarrow> ShredEngine" where
  "Engine_EnableMasking enable s = s\<lparr>se_config := (se_config s)\<lparr>ec_EnableMasking := enable\<rparr>\<rparr>"

definition Engine_SetSwitchInterval :: "duration \<Rightarrow> ShredEngine \<Rightarrow> ShredEngine" where
  "Engine_SetSwitchInterval interval s =
     s\<lparr>se_config := (se_config s)\<lparr>MaskSwitchInterval := interval\<rparr>,
       se_mixer := map_option (SetSwitchInterval interval) (se_mixer s)\<rparr>"

section \<open>What holds of it\<close>

definition engine_inv :: "ShredEngine \<Rightarrow> clock \<Rightarrow> bool" where
  "engine_inv s c \<longleftrightarrow> frag_inv (se_fragmentor s, c) \<and> shaper_inv (se_shaper s, c)"

lemma write_fragments_all:
  "k_budget k = None \<Longrightarrow> write_fragments fs k = (Ok (), k\<lparr>k_out := k_out k @ fs\<rparr>)"
  by (induction fs arbitrary: k) (simp_all add: sink_write_def)

text \<open>Whatever is masked reaches a writer that does not fail whole and in order.\<close>

lemma write_bursts_all:
  "frag_inv f \<Longrightarrow> k_budget k = None \<Longrightarrow>
   \<exists>f1 fs. write_bursts bs f k = Some (Ok (Ok (), f1, k\<lparr>k_out := k_out k @ fs\<rparr>)) \<and>
     frag_inv f1 \<and> concat fs = concat bs \<and> [] \<notin> set fs"
proof (induction bs arbitrary: f k)
  case Nil
  then show ?case by (auto intro: exI [of _ "[]"])
next
  case (Cons b bs)
  from fragmentor.split_total [OF Cons.prems(1), of b] obtain frags f1 where
    f: "Fragment f b = Some (Ok (frags, f1))" "frag_inv f1" "concat frags = b" "[] \<notin> set frags"
    by blast
  let ?k = "k\<lparr>k_out := k_out k @ frags\<rparr>"
  have w: "write_fragments frags k = (Ok (), ?k)"
    using Cons.prems(2) by (rule write_fragments_all)
  from Cons.IH [OF f(2), of ?k] Cons.prems(2) obtain f2 fs where
    "write_bursts bs f1 ?k = Some (Ok (Ok (), f2, ?k\<lparr>k_out := k_out ?k @ fs\<rparr>))" "frag_inv f2"
    "concat fs = concat bs" "[] \<notin> set fs" by auto
  with f w show ?case by (intro exI [of _ f2] exI [of _ "frags @ fs"]) simp
qed

lemma mask_out_keeps:
  "mask_out s d e = Ok (pkt, s1, e1) \<Longrightarrow>
   se_fragmentor s1 = se_fragmentor s \<and> se_shaper s1 = se_shaper s \<and> se_config s1 = se_config s"
  by (auto simp: mask_out_def bindR_eq_Ok split: option.splits bool.splits)

lemma engine_send_all:
  assumes "mask_out s d e = Ok (pkt, s1, e1)" and "engine_inv s (clk e1)" and "k_budget k = None"
  shows "\<exists>s2 e2 fs. engine_send s d e k = Some (Ok (Ok (), s2, e2, k\<lparr>k_out := k_out k @ fs\<rparr>)) \<and>
    engine_inv s2 (clk e2) \<and> concat fs = pkt \<and> [] \<notin> set fs \<and> se_config s2 = se_config s"
proof -
  note keep = mask_out_keeps [OF assms(1)]
  from assms(2) keep have sh: "shaper_inv (se_shaper s1, clk e1)" and fr: "frag_inv (se_fragmentor s1, clk e1)"
    by (simp_all add: engine_inv_def)
  from shaper.split_total [OF sh, of pkt] obtain bursts sh1 c where
    b: "Process (se_shaper s1, clk e1) pkt = Some (Ok (bursts, (sh1, c)))" "shaper_inv (sh1, c)"
    "concat bursts = pkt" by auto
  have fr1: "frag_inv (se_fragmentor s1, c)"
    using fr b(2) by (simp add: frag_inv_def shaper_inv_def)
  from write_bursts_all [OF fr1 assms(3), of bursts] obtain f c1 fs where
    w: "write_bursts bursts (se_fragmentor s1, c) k = Some (Ok (Ok (), (f, c1), k\<lparr>k_out := k_out k @ fs\<rparr>))"
    "frag_inv (f, c1)" "concat fs = concat bursts" "[] \<notin> set fs" by auto
  have "shaper_inv (sh1, c1)" using b(2) w(2) by (simp add: frag_inv_def shaper_inv_def)
  then show ?thesis
    using assms(1) b w keep by (auto simp: engine_send_def engine_inv_def)
qed

text \<open>With masking off, the stream is passed on whole, cut and reordered nowhere.\<close>

lemma engine_Process_plain:
  assumes "\<not> ec_EnableMasking (se_config s)" and "engine_inv s (clk e)" and "k_budget k = None"
    and "list_all (\<lambda>d. length d \<le> 65536) ds"
  shows "\<exists>s1 e1 fs. engine_Process ds err s e k = Some (Ok (err, s1, e1, k\<lparr>k_out := k_out k @ fs\<rparr>)) \<and>
    concat fs = concat ds \<and> [] \<notin> set fs"
  using assms
proof (induction ds arbitrary: s e k)
  case Nil
  then show ?case by (auto intro: exI [of _ "[]"])
next
  case (Cons d ds)
  have "mask_out s d e = Ok (d, s, e)" using Cons.prems(1) by (simp add: mask_out_def)
  from engine_send_all [OF this Cons.prems(2,3)] obtain s2 e2 fs where
    s2: "engine_send s d e k = Some (Ok (Ok (), s2, e2, k\<lparr>k_out := k_out k @ fs\<rparr>))"
    "engine_inv s2 (clk e2)" "concat fs = d" "[] \<notin> set fs" "se_config s2 = se_config s"
    by blast
  let ?k = "k\<lparr>k_out := k_out k @ fs\<rparr>"
  from Cons.IH [of s2 e2 ?k] Cons.prems s2 obtain s3 e3 gs where
    "engine_Process ds err s2 e2 ?k = Some (Ok (err, s3, e3, ?k\<lparr>k_out := k_out ?k @ gs\<rparr>))"
    "concat gs = concat ds" "[] \<notin> set gs" by auto
  with s2 Cons.prems(4) show ?case
    by (intro exI [of _ s3] exI [of _ e3] exI [of _ "fs @ gs"]) simp
qed

text \<open>
  With masking on, the receiver unwraps what each of its reads gives. In vk mode a read of
  one fragment loses its first 16 bytes, whichever fragment it is.
\<close>

lemma ProcessWithUnwrap_vk_fragment:
  assumes "ec_EnableMasking (se_config s)" and "se_mixer s = Some m"
    and "mask_mode (mx_currentMask m) = ModeVK" and "16 \<le> length f" and "length f \<le> 65536"
    and "k_budget k = None"
  shows "ProcessWithUnwrap [f] err s e k =
    Some (Ok (err, s\<lparr>se_mixer := Some (m\<lparr>mx_packetsUnwrapped := mx_packetsUnwrapped m + 1\<rparr>)\<rparr>, e,
      k\<lparr>k_out := k_out k @ [drop 16 f]\<rparr>))"
  using assms vk_accepts_anything [OF assms(3,4)] by (simp add: sink_write_def)

end
