(* ===== verification/Frames.thy ===== *)
theory Frames
  imports Prelude
begin

text \<open>
  The two frame formats of the program. \<open>internal/shred/frame.go\<close> writes a token, a
  16-bit length, the payload and padding; \<open>internal/engine/framing.go\<close> puts a 32-bit
  length before each packet of a TCP connection. Readers are the bytes still to be read,
  writers the bytes written so far with the number of calls that will still succeed. The
  locale \<open>stream_codec\<close> states what a stream of frames owes to one frame; both formats
  are interpreted in it.
\<close>

section \<open>Readers and writers\<close>

text \<open>
  \<open>io.ReadFull\<close>: all \<open>n\<close> bytes, or EOF at the very end of the stream, or
  ErrUnexpectedEOF in the middle. The second component is what is left unread.
\<close>

definition read_full :: "nat \<Rightarrow> bytes \<Rightarrow> bytes result \<times> bytes" where
  "read_full n s =
     (if n \<le> length s then (Ok (take n s), drop n s)
      else if s = [] then (Fail IoEOF, [])
      else (Fail IoUnexpectedEOF, []))"

record writer =
  w_out :: bytes
  w_budget :: "nat option"

text \<open>One call of \<open>Write\<close>; \<open>w_budget\<close> is \<open>None\<close> for a writer that never fails.\<close>

definition w_write :: "bytes \<Rightarrow> writer \<Rightarrow> unit result \<times> writer" where
  "w_write b w =
     (case w_budget w of
        None \<Rightarrow> (Ok (), w\<lparr>w_out := w_out w @ b\<rparr>)
      | Some 0 \<Rightarrow> (Fail OtherError, w)
      | Some (Suc k) \<Rightarrow> (Ok (), w\<lparr>w_out := w_out w @ b, w_budget := Some k\<rparr>))"

lemma read_full_append [simp]: "length b = n \<Longrightarrow> read_full n (b @ s) = (Ok b, s)"
  by (simp add: read_full_def)

lemma read_full_not_Panic: "fst (read_full n s) \<noteq> Panic"
  by (simp add: read_full_def)

section \<open>The frame of shred\<close>

record frame =
  AuthToken :: bytes
  EncLen :: u16
  Payload :: bytes
  Padding :: bytes

definition WriteFrame :: "writer \<Rightarrow> bytes \<Rightarrow> bytes \<Rightarrow> bytes \<Rightarrow> unit result \<times> writer" where
  "WriteFrame w data padding authToken =
     (let encLen = (of_nat (length data) :: u16) in
      case w_write authToken w of (Ok _, w1) \<Rightarrow>
        (case w_write (be16 encLen) w1 of (Ok _, w2) \<Rightarrow>
           (case w_write data w2 of (Ok _, w3) \<Rightarrow> w_write padding w3
            | (Fail e, w3) \<Rightarrow> (Fail e, w3) | (Panic, w3) \<Rightarrow> (Panic, w3))
         | (Fail e, w2) \<Rightarrow> (Fail e, w2) | (Panic, w2) \<Rightarrow> (Panic, w2))
      | (Fail e, w1) \<Rightarrow> (Fail e, w1) | (Panic, w1) \<Rightarrow> (Panic, w1))"

text \<open>
  \<open>remaining\<close> is the constant 0 of the source, so the padding branch is never taken.
\<close>

definition ReadFrame :: "bytes \<Rightarrow> frame result \<times> bytes" where
  "ReadFrame s =
     (case read_full 32 s of (Ok tok, s1) \<Rightarrow>
        (case read_full 2 s1 of (Ok l, s2) \<Rightarrow>
           (let encLen = de16 l in
            case read_full (unat encLen) s2 of (Ok payload, s3) \<Rightarrow>
              (let remaining = (0 :: nat) in
               if 0 < remaining then
                 (case read_full remaining s3 of (Ok pad, s4) \<Rightarrow>
                    (Ok \<lparr>AuthToken = tok, EncLen = encLen, Payload = payload, Padding = pad\<rparr>, s4)
                  | (Fail e, s4) \<Rightarrow> (Fail e, s4) | (Panic, s4) \<Rightarrow> (Panic, s4))
               else
                 (Ok \<lparr>AuthToken = tok, EncLen = encLen, Payload = payload, Padding = []\<rparr>, s3))
            | (Fail e, s3) \<Rightarrow> (Fail e, s3) | (Panic, s3) \<Rightarrow> (Panic, s3))
         | (Fail e, s2) \<Rightarrow> (Fail e, s2) | (Panic, s2) \<Rightarrow> (Panic, s2))
      | (Fail e, s1) \<Rightarrow> (Fail e, s1) | (Panic, s1) \<Rightarrow> (Panic, s1))"

text \<open>What \<open>WriteFrame\<close> leaves on a writer that does not fail.\<close>

definition frame_bytes :: "bytes \<Rightarrow> bytes \<Rightarrow> bytes \<Rightarrow> bytes" where
  "frame_bytes data padding authToken =
     authToken @ be16 (of_nat (length data)) @ data @ padding"

lemma WriteFrame_out:
  "w_budget w = None \<Longrightarrow>
     WriteFrame w data padding tok = (Ok (), w\<lparr>w_out := w_out w @ frame_bytes data padding tok\<rparr>)"
  by (simp add: WriteFrame_def w_write_def frame_bytes_def)

text \<open>A writer that fails at some call has received a prefix of the frame.\<close>

lemma WriteFrame_prefix:
  "\<exists>b rest. w_out (snd (WriteFrame w data padding tok)) = w_out w @ b \<and>
     b @ rest = frame_bytes data padding tok"
  by (auto simp: WriteFrame_def w_write_def frame_bytes_def split: option.split nat.split)

lemma unat_len16: "n < 65536 \<Longrightarrow> unat (of_nat n :: u16) = n"
  by (simp add: unat_of_nat)

lemma unat_len32: "n < 4294967296 \<Longrightarrow> unat (of_nat n :: u32) = n"
  by (simp add: unat_of_nat)

text \<open>Reading back: the padding stays in the stream.\<close>

lemma ReadFrame_frame_bytes:
  assumes "length tok = 32" and "length data < 65536"
  shows "ReadFrame (frame_bytes data padding tok @ s) =
    (Ok \<lparr>AuthToken = tok, EncLen = of_nat (length data), Payload = data, Padding = []\<rparr>,
     padding @ s)"
  using assms by (simp add: ReadFrame_def frame_bytes_def unat_len16)

section \<open>Packets on a TCP connection\<close>

definition maxFrameSize :: nat where
  "maxFrameSize = 65535"

text \<open>
  \<open>writeFrame\<close>: on a stream connection a length prefix, on a packet connection the data
  alone. \<open>readFrame\<close> on a packet connection gets one packet, cut to the scratch buffer.
\<close>

definition writeFrame :: "bool \<Rightarrow> writer \<Rightarrow> bytes \<Rightarrow> unit result \<times> writer" where
  "writeFrame isStream w data =
     (if isStream then
        if maxFrameSize < length data then (Fail ErrFrameTooLarge, w)
        else (case writes (make_buf (4 + length data))
                     [PutU32 0 (of_nat (length data)), CopyFrom 4 data] of
                Ok buf \<Rightarrow> w_write buf w
              | Fail e \<Rightarrow> (Fail e, w)
              | Panic \<Rightarrow> (Panic, w))
      else w_write data w)"

definition readFrame_stream :: "bytes \<Rightarrow> bytes result \<times> bytes" where
  "readFrame_stream s =
     (case read_full 4 s of (Ok hdr, s1) \<Rightarrow>
        (let len = de32 hdr in
         if len = 0 \<or> of_nat maxFrameSize < len then (Fail ErrFrameTooLarge, s1)
         else read_full (unat len) s1)
      | (Fail e, s1) \<Rightarrow> (Fail e, s1) | (Panic, s1) \<Rightarrow> (Panic, s1))"

definition readFrame_packet :: "nat \<Rightarrow> bytes \<Rightarrow> bytes result" where
  "readFrame_packet scratch packet = Ok (take scratch packet)"

definition stream_frame :: "bytes \<Rightarrow> bytes" where
  "stream_frame data = be32 (of_nat (length data)) @ data"

lemma writeFrame_stream:
  assumes "length data \<le> maxFrameSize" and "w_budget w = None"
  shows "writeFrame True w data = (Ok (), w\<lparr>w_out := w_out w @ stream_frame data\<rparr>)"
  using assms
  by (simp add: writeFrame_def stream_frame_def w_write_def buf_simps)

lemma readFrame_stream_frame:
  assumes "data \<noteq> []" and "length data \<le> maxFrameSize"
  shows "readFrame_stream (stream_frame data @ s) = (Ok data, s)"
proof -
  have n: "0 < length data" "length data < 4294967296"
    using assms by (auto simp: maxFrameSize_def)
  then have u: "unat (of_nat (length data) :: u32) = length data"
    by (simp add: unat_len32)
  have "(of_nat (length data) :: u32) \<noteq> 0"
    using u n(1) by (metis less_numeral_extra(3) unat_0)
  moreover have "\<not> of_nat maxFrameSize < (of_nat (length data) :: u32)"
    using assms(2) u by (simp add: word_less_nat_alt maxFrameSize_def)
  ultimately show ?thesis
    by (simp add: readFrame_stream_def stream_frame_def u)
qed

section \<open>Streams of frames\<close>

text \<open>
  A format: an encoder, a decoder that gives back the value and the unread rest, and the
  values it can carry. Its one law is that a frame followed by anything is read back and
  leaves exactly what followed.
\<close>

fun read_many :: "(bytes \<Rightarrow> 'a result \<times> bytes) \<Rightarrow> nat \<Rightarrow> bytes \<Rightarrow> 'a list result \<times> bytes" where
  "read_many dec 0 s = (Ok [], s)"
| "read_many dec (Suc n) s =
     (case dec s of
        (Ok x, s1) \<Rightarrow> (case read_many dec n s1 of
           (Ok xs, s2) \<Rightarrow> (Ok (x # xs), s2)
         | (Fail e, s2) \<Rightarrow> (Fail e, s2) | (Panic, s2) \<Rightarrow> (Panic, s2))
      | (Fail e, s1) \<Rightarrow> (Fail e, s1) | (Panic, s1) \<Rightarrow> (Panic, s1))"

locale stream_codec =
  fixes enc :: "'a \<Rightarrow> bytes"
    and dec :: "bytes \<Rightarrow> 'a result \<times> bytes"
    and valid :: "'a \<Rightarrow> bool"
  assumes dec_enc: "valid x \<Longrightarrow> dec (enc x @ s) = (Ok x, s)"
begin

lemma read_many_enc:
  "list_all valid xs \<Longrightarrow> read_many dec (length xs) (concat (map enc xs) @ s) = (Ok xs, s)"
  by (induction xs) (simp_all add: dec_enc)

lemma enc_prefix_free:
  assumes "valid x" "valid y" "enc x @ s = enc y @ t"
  shows "x = y \<and> s = t"
  using dec_enc [OF assms(1), of s] dec_enc [OF assms(2), of t]
  unfolding assms(3) by (metis Pair_inject result.inject(1))

end

definition frame_ok :: "frame \<Rightarrow> bool" where
  "frame_ok f \<longleftrightarrow> length (AuthToken f) = 32 \<and> length (Payload f) < 65536 \<and>
     EncLen f = of_nat (length (Payload f)) \<and> Padding f = []"

definition enc_frame :: "frame \<Rightarrow> bytes" where
  "enc_frame f = frame_bytes (Payload f) (Padding f) (AuthToken f)"

definition packet_ok :: "bytes \<Rightarrow> bool" where
  "packet_ok p \<longleftrightarrow> p \<noteq> [] \<and> length p \<le> maxFrameSize"

interpretation shred_frames: stream_codec enc_frame ReadFrame frame_ok
  by unfold_locales
    (auto simp: enc_frame_def frame_ok_def ReadFrame_frame_bytes)

interpretation tcp_frames: stream_codec stream_frame readFrame_stream packet_ok
  by unfold_locales (auto simp: packet_ok_def readFrame_stream_frame)

end
