(* ===== verification/Samples.thy ===== *)
theory Samples
  imports ShredEngine Frames
begin

text \<open>
  Concrete values the witnesses of the properties use: an environment whose random bytes
  are all zero and whose clock stands at one instant, masks, mixers, a session, an engine.
\<close>

definition env0 :: env where
  "env0 = \<lparr>rand = (\<lambda>_. 0), clk = (\<lambda>_. 1700000000000000000), dials = (\<lambda>_. None), zone = (\<lambda>_. 0)\<rparr>"

definition vk0 :: VKMask where
  "vk0 = \<lparr>vk_streamID = 7, vk_packetNum = 0, vk_magicBytes = [1, 2, 3, 4]\<rparr>"

definition ozon0 :: OzonMask where
  "ozon0 = \<lparr>oz_sessionID = 0, oz_requestID = 0, oz_sequence = 0, oz_timestamp = 0\<rparr>"

definition mixer_in :: "ProtocolMode \<Rightarrow> Masker \<Rightarrow> MaskMixer" where
  "mixer_in md mk =
     \<lparr>mx_currentMode = md, mx_currentMask = mk, mx_modes = [ModeVK, ModeOzon, ModeRuTube],
      mx_lastSwitch = 0, mx_switchInterval = 0, mx_stats = [], mx_packetsWrapped = 0,
      mx_packetsUnwrapped = 0, mx_errorsCount = 0, mx_selector = NewMaskSelector,
      mx_timeBasedEnabled = False, mx_isDayModeActive = False, mx_dayModes = day_modes,
      mx_nightModes = night_modes\<rparr>"

definition vk_mixer :: MaskMixer where
  "vk_mixer = mixer_in ModeVK (MVK vk0)"

lemma vk_mixer_simps [simp]:
  "mx_currentMode vk_mixer = ModeVK" "mx_currentMask vk_mixer = MVK vk0"
  "mx_modes vk_mixer = [ModeVK, ModeOzon, ModeRuTube]"
  by (simp_all add: vk_mixer_def mixer_in_def)

lemma vk_mixer_selects: "SelectMask vk_mixer [1, 2, 3] = ModeVK"
  by (simp add: SelectMask_def GetCurrentMode_def)

definition key0 :: bytes where
  "key0 = [1, 2, 3, 4, 5, 6, 7, 8]"

definition manager0 :: HandshakeManager where
  "manager0 = \<lparr>hm_state = NewHandshakeState, hm_authKey = key0, hm_timeout = 10 * second\<rparr>"

lemma manager0_simps [simp]:
  "s_LastSeen (hm_state manager0) = []" "s_Sequence (hm_state manager0) = 0"
  "hm_authKey manager0 = key0"
  by (simp_all add: manager0_def NewHandshakeState_def)

definition config0 :: SessionConfig where
  "config0 = \<lparr>SwitchInterval = 300 * second, Modes = [ModeVK, ModeOzon], CurrentMode = ModeVK,
     EnableReplayProtection = True, ReplayWindowSize = 2\<rparr>"

definition session0 :: Session where
  "session0 =
     \<lparr>ss_ID = 1, ss_CreatedAt = 0, ss_LastSeen = 0, ss_BytesIn = 0, ss_BytesOut = 0,
      ss_State = SessionStateInit, ss_MaskConfig = config0, ss_LocalMixer = vk_mixer,
      ss_RemoteMixer = vk_mixer, ss_ReplaySeen = {}, ss_ReplayWindow = []\<rparr>"

definition engine0 :: ShredEngine where
  "engine0 =
     \<lparr>se_fragmentor = NewFragmentor 2 4, se_shaper = NewTrafficShaper 3 5 0, se_mixer = None,
      se_config = DefaultShredEngineConfig\<lparr>ec_EnableMasking := False\<rparr>\<rparr>"

definition sink0 :: sink where
  "sink0 = \<lparr>k_out = [], k_budget = None\<rparr>"

lemma engine0_inv: "engine_inv engine0 (clk env0)"
  by (simp add: engine_inv_def engine0_def frag_inv_def shaper_inv_def NewFragmentor_def
      NewTrafficShaper_def env0_def clock_ok_def)

lemma params0: "params_ok (300 * second) [ModeVK, ModeOzon] ModeVK"
  unfolding params_ok_def by (intro conjI exI [of _ 300]) simp_all

text \<open>A handshake that \<open>manager0\<close> completes.\<close>

lemma handshake0:
  obtains p config out hm1 e1 where
    "PerformServerHandshake manager0 (direct p) env0 = (Ok config, out, hm1, e1)"
proof -
  let ?n = "NewHandshake HandshakeSyn (300 * second) [ModeVK, ModeOzon] ModeVK 5 env0"
  have n: "?n = (fst ?n, snd ?n)" by simp
  from server_accepts [OF params0 _ n, of manager0 manager0 env0] that show ?thesis by auto
qed

lemma env0_within: "within 0 (clk env0 0) (clk env0)"
  by (simp add: env0_def within_def)

end
