(* ===== verification/MaskProperties.thy ===== *)
theory MaskProperties
  imports Samples
begin

text \<open>
  The properties of the masks and of the mixer.
\<close>

section \<open>Masks\<close>

text \<open>C17: In the twelve modes whose mask is a codec, \<open>Wrap\<close> returns a packet from which any
  mask of the same mode, whatever its own counters and identifiers, unwraps the payload.\<close>

theorem masks_carry_the_payload:
  assumes "mask_ok m" and "mask_mode m \<in> codec_modes" and "mode_carries (mask_mode m) p"
    and "mask_ok m2" and "mask_mode m2 = mask_mode m"
  shows "\<exists>pkt m1 e1. Masker_Wrap m p e = Ok (pkt, m1, e1) \<and>
    Masker_Unwrap m2 pkt e2 = Some (Ok (p, m2, e2))"
  using masker_codec [OF assms(1,2), of p e] assms(3,4,5) by metis

theorem masks_carry_the_payload_witness:
  "\<exists>pkt m1 e1. Masker_Wrap (MVK vk0) [1, 2, 3] env0 = Ok (pkt, m1, e1) \<and>
    Masker_Unwrap (MVK vk0) pkt env0 = Some (Ok ([1, 2, 3], MVK vk0, env0))"
  using masks_carry_the_payload [of "MVK vk0" "[1, 2, 3]" "MVK vk0" env0 env0]
  by (simp add: codec_modes_def mode_carries_def)

text \<open>The first nine packets of a TLS mask, its handshake and the opening of its HTTP/2
  stream, do not depend on what is being sent: whatever the nine payloads, the packets are
  the same, so the payloads are lost.\<close>

theorem tls_opening_hides_the_payload:
  assumes "NewTLSMask e = Ok (t, e1)" and "length ps = 9" and "length qs = 9"
    and "list_all (\<lambda>p. p \<noteq> []) ps" and "list_all (\<lambda>p. p \<noteq> []) qs"
  shows "is_ok (wrap_all TLS_Wrap t ps e1) \<and>
    wrap_all TLS_Wrap t ps e1 = wrap_all TLS_Wrap t qs e1"
proof -
  have at: "tls_at 0 t" using NewTLSMask_at [of e] assms(1) by auto
  then have "wrap_all TLS_Wrap t ps e1 = wrap_all TLS_Wrap t qs e1"
    using wrap_all_tls_blind [OF at, of ps qs e1] assms by simp
  moreover have "is_ok (wrap_all TLS_Wrap t ps e1)"
    using wrap_all_tls_at [OF at assms(4), of e1] by auto
  ultimately show ?thesis by simp
qed

theorem tls_opening_hides_the_payload_witness:
  "\<exists>t e1. NewTLSMask env0 = Ok (t, e1) \<and>
    wrap_all TLS_Wrap t (replicate 9 [1]) e1 = wrap_all TLS_Wrap t (replicate 9 [2]) e1"
proof -
  obtain t e1 where t: "NewTLSMask env0 = Ok (t, e1)" using NewTLSMask_at by blast
  from tls_opening_hides_the_payload [OF t, of "replicate 9 [1]" "replicate 9 [2]"] t
  show ?thesis by (simp add: list_all_iff)
qed

text \<open>From the tenth packet on a TLS mask carries the payload, and stays in that phase, but
  \<open>Unwrap\<close> gives back the nine bytes of the HTTP/2 frame header before it: the mask is not
  the inverse of its own \<open>Wrap\<close>.\<close>

theorem tls_unwrap_keeps_the_frame_header:
  assumes "tls_data t" and "p \<noteq> []" and "length p < 65527"
  shows "\<exists>h pkt t1. length h = 9 \<and> TLS_Wrap t p e = Ok (pkt, t1, e) \<and> tls_data t1 \<and>
    TLS_Unwrap pkt = Ok (h @ p) \<and> TLS_Unwrap pkt \<noteq> Ok p"
proof -
  obtain h t1 where h: "length h = 9" "tls_data t1"
    "TLS_Wrap t p e = Ok ([0x17, 3, 3] @ be16 (of_nat (9 + length p)) @ h @ p, t1, e)"
    using tls_data_wrap [OF assms(1,2)] by blast
  have "TLS_Unwrap ([0x17, 3, 3] @ be16 (of_nat (length (h @ p))) @ (h @ p)) = Ok (h @ p)"
    by (rule TLS_Unwrap_record) (use assms h(1) in auto)
  then have u: "TLS_Unwrap ([0x17, 3, 3] @ be16 (of_nat (9 + length p)) @ h @ p) = Ok (h @ p)"
    using h(1) by simp
  have "h @ p \<noteq> p" using h(1) by auto
  with h u show ?thesis
    by (intro exI [of _ h] exI [of _ "[0x17, 3, 3] @ be16 (of_nat (9 + length p)) @ h @ p"]
        exI [of _ t1]) simp
qed

theorem tls_unwrap_keeps_the_frame_header_witness:
  "\<exists>t h pkt t1. length h = 9 \<and> TLS_Wrap t [5] env0 = Ok (pkt, t1, env0) \<and>
    TLS_Unwrap pkt = Ok (h @ [5])"
proof -
  let ?t = "\<lparr>tls_sequence = 6, tls_sni = [], tls_cert = [], tls_handshakeDone = True,
    tls_handshakeStep = 6, tls_sessionID = [], tls_http2StreamID = 3, tls_http2Initialized = True\<rparr>"
  have "tls_data ?t" by (simp add: tls_data_def take_bit_eq_mod [of 2, symmetric, simplified])
  from tls_unwrap_keeps_the_frame_header [OF this, of "[5]" env0] show ?thesis by auto
qed

text \<open>The WebRTC mask's \<open>Unwrap\<close> panics on exactly the packets of 35 to 79 bytes that begin
  with \<open>0x14\<close> and match no earlier format: the remote peer chooses them.\<close>

theorem webrtc_unwrap_panics_iff:
  "WebRTC_Unwrap data = Panic \<longleftrightarrow>
     34 < length data \<and> length data < 80 \<and> data ! 0 = 0x14 \<and> data ! 1 AND 0x7F \<noteq> 111 \<and>
     \<not> (de32 (take 4 (drop 4 data)) = 0x2112A442 \<and>
        20 + unat (de16 (take 2 (drop 2 data))) \<le> length data) \<and>
     \<not> (data ! 20 = of_char (CHR ''I'') \<and> data ! 21 = of_char (CHR ''C'')
        \<and> data ! 22 = of_char (CHR ''E''))"
  by (rule WebRTC_Unwrap_panic_iff)

text \<open>In its data phase the WebRTC mask draws a random byte for each packet. If it is even the
  packet unwraps to the payload; if it is odd an extension goes in whose identifier
  \<open>Unwrap\<close> reads as its length, and a payload below 48829 bytes is refused.\<close>

theorem webrtc_round_trip_is_a_coin_toss:
  assumes "rtc_data w" and "length p < 48829"
  shows "\<exists>pkt w1 e1. WebRTC_Wrap w p e = Ok (pkt, w1, e1) \<and> rtc_data w1 \<and>
    WebRTC_Unwrap pkt =
      (if hd (fst (draw 1 e)) AND 1 = 1 then Fail ErrInvalidPacket else Ok p)"
proof -
  from WebRTC_Wrap_data [OF assms(1), where p = p and e = e]
  obtain b ext h w1 e1 where b: "b = hd (fst (draw 1 e))" "length h = 10"
    "b AND 1 = 1 \<longrightarrow> (\<exists>r. ext = be16 0xBEDE @ r)" "b AND 1 \<noteq> 1 \<longrightarrow> ext = []"
    "length ext \<le> 35" "rtc_data w1" and
    w: "WebRTC_Wrap w p e = Ok ([0x80 OR push_bit 4 (boolToByte (b AND 1 = 1)),
      push_bit 7 (boolToByte (b AND 2 = 2)) OR 111] @ h @ ext @ p, w1, e1)"
    by (elim exE conjE) (rule that)
  show ?thesis
  proof (cases "b AND 1 = 1")
    case True
    with b(3) obtain r where r: "ext = be16 0xBEDE @ r" by blast
    have "length r + length p < 48864" using b(5) r assms(2) by simp
    from WebRTC_Unwrap_extension [OF b(2) this] True w b r show ?thesis
      by (simp add: boolToByte_def)
  next
    case False
    with WebRTC_Unwrap_plain [OF b(2)] w b show ?thesis
      by (simp add: boolToByte_def)
  qed
qed

theorem webrtc_round_trip_is_a_coin_toss_witness:
  "\<exists>w pkt w1 e1. WebRTC_Wrap w [1, 2] env0 = Ok (pkt, w1, e1) \<and> WebRTC_Unwrap pkt = Ok [1, 2]"
proof -
  let ?w = "(fst (NewWebRTCMask env0))\<lparr>rtc_handshakeDone := True\<rparr>"
  have "rtc_data ?w"
    by (simp add: rtc_data_def NewWebRTCMask_def case_prod_beta Let_def)
  from webrtc_round_trip_is_a_coin_toss [OF this, of "[1, 2]" env0] show ?thesis
    by (auto simp: draw_def rbytes_def env0_def)
qed

text \<open>C30: \<open>ProcessAck\<close> of the QUIC transport, given a new acknowledgement number, returns for
  every number but the greatest of 64 bits, dropping the pending packets it covers; for the
  greatest, which any peer can send, its loop never ends.\<close>

theorem process_ack_returns_unless_greatest:
  assumes "qt_inv q" and "qt_lastAck q < n"
  shows "if n = max_u64 then ProcessAck q n e = None
    else \<exists>q1 e1. ProcessAck q n e = Some (Ok (q1, e1)) \<and> qt_inv q1 \<and> qt_lastAck q1 = n \<and>
      pending q1 = {i \<in> pending q. i \<le> qt_lastAck q \<or> n < i}"
proof (cases "n = max_u64")
  case True
  with assms ProcessAck_max [of q e] show ?thesis by auto
next
  case False
  then have "n < max_u64" using word_order.not_eq_extremum by blast
  from ProcessAck_returns [OF assms(1) this assms(2), of e] False show ?thesis by auto
qed

theorem process_ack_returns_unless_greatest_witness:
  "ProcessAck NewQUICTransport max_u64 env0 = None \<and>
   (\<exists>q1 e1. ProcessAck NewQUICTransport 5 env0 = Some (Ok (q1, e1)) \<and> qt_lastAck q1 = 5)"
proof -
  have z: "qt_lastAck NewQUICTransport < max_u64" "qt_lastAck NewQUICTransport < 5"
    by (simp_all add: NewQUICTransport_def word_gt_0)
  show ?thesis
    using process_ack_returns_unless_greatest [OF qt_inv_New z(1), of env0]
      process_ack_returns_unless_greatest [OF qt_inv_New z(2), of env0] by auto
qed

text \<open>The congestion window stays between 1 and 1000 and no acknowledgement divides by zero;
  but from \<open>ssthresh\<close> on it does not grow: the increment is the integer quotient of 1 by
  the window.\<close>

theorem congestion_window_bounds:
  assumes "cc_inv cc"
  shows "cc_inv (OnPacketLoss cc) \<and>
    (\<exists>cc1. OnAckReceived cc d = Ok cc1 \<and> cc_inv cc1 \<and>
      cc_cwnd cc1 = (if cc_cwnd cc < cc_ssthresh cc \<and> cc_cwnd cc < 1000 then cc_cwnd cc + 1
                     else cc_cwnd cc))"
  using cc_inv_OnAck [OF assms, of d] cc_inv_OnPacketLoss [OF assms] by auto

theorem congestion_window_bounds_witness:
  "cc_inv (OnPacketLoss NewCongestionControl) \<and>
   (\<exists>cc1. OnAckReceived NewCongestionControl 7 = Ok cc1 \<and> cc_cwnd cc1 = 11)"
  using congestion_window_bounds [OF cc_inv_New, of 7] by (auto simp: NewCongestionControl_def)

text \<open>A packet of the QUIC transport carries its payload: \<open>Unwrap\<close> of the peer gives it back
  whenever its own processing of the packet's number as an acknowledgement returns.\<close>

theorem quic_packet_carries_the_payload:
  assumes "len32 d" and "qt_inv (qm_transport m)" and "qt_packetNum q + 1 \<noteq> max_u64"
  shows "\<exists>pkt q1 e1 m1 e2. SendPacket q d e = Ok (pkt, q1, e1) \<and>
    QUIC_Unwrap m pkt e' = Some (Ok (d, m1, e2)) \<and> qt_inv (qm_transport m1)"
proof -
  let ?n = "qt_packetNum q + 1"
  obtain q1 e1 where s: "SendPacket q d e = Ok ([0xC0] @ be32 1 @ be64 ?n @
     be32 (cc_cwnd (qt_cc q)) @ be32 (of_nat (length d)) @ d, q1, e1)"
    using SendPacket_packet by blast
  have "\<exists>tr e2. ProcessAck (qm_transport m) ?n (snd (read_clock e')) = Some (Ok (tr, e2)) \<and> qt_inv tr"
  proof (cases "?n \<le> qt_lastAck (qm_transport m)")
    case True
    with assms(2) show ?thesis by (simp add: ProcessAck_def)
  next
    case False
    have "?n < max_u64" using assms(3) word_order.not_eq_extremum by blast
    from ProcessAck_returns [OF assms(2) this, of "snd (read_clock e')"] False show ?thesis
      unfolding not_le by blast
  qed
  then show ?thesis
    using s QUIC_Unwrap_packet [OF assms(1), of "be32 (cc_cwnd (qt_cc q))" m ?n e']
    by (auto simp: case_prod_beta Let_def)
qed

theorem quic_packet_carries_the_payload_witness:
  "\<exists>m pkt q1 e1 m1 e2. SendPacket NewQUICTransport [1, 2, 3] env0 = Ok (pkt, q1, e1) \<and>
    QUIC_Unwrap m pkt env0 = Some (Ok ([1, 2, 3], m1, e2))"
proof -
  obtain m e1 where "NewQUICMask env0 = Ok (m, e1)" "qt_inv (qm_transport m)"
    using NewQUICMask_ok by blast
  from quic_packet_carries_the_payload [OF _ this(2), of "[1, 2, 3]" NewQUICTransport env0 env0]
  show ?thesis by (auto simp: len32_def NewQUICTransport_def)
qed

text \<open>\<open>Select\<close> does not depend on the order in which Go visits the selector's map, when every
  pattern the domain contains stands for the same mask.\<close>

theorem select_is_order_independent:
  assumes "set order1 = set NewMaskSelector" and "set order2 = set NewMaskSelector"
    and "(pat, m) \<in> set NewMaskSelector" and "contains (to_lower d) pat"
    and "\<forall>(pat', m') \<in> set NewMaskSelector. contains (to_lower d) pat' \<longrightarrow> m' = m"
  shows "Select order1 d = m \<and> Select order2 d = m"
  using Select_agree [OF assms(1), of pat m d] Select_agree [OF assms(2), of pat m d] assms by simp

theorem select_is_order_independent_witness:
  "Select NewMaskSelector ''M.VK.com'' = ''vk'' \<and> Select (rev NewMaskSelector) ''M.VK.com'' = ''vk''"
proof (rule select_is_order_independent [of NewMaskSelector "rev NewMaskSelector" "''vk.com''"])
  show "contains (to_lower ''M.VK.com'') ''vk.com''" by code_simp
  show "\<forall>(pat', m') \<in> set NewMaskSelector. contains (to_lower ''M.VK.com'') pat' \<longrightarrow> m' = ''vk''"
    by code_simp
  show "(''vk.com'', ''vk'') \<in> set NewMaskSelector" by (simp add: NewMaskSelector_def)
qed simp_all

section \<open>The mixer\<close>

text \<open>A packet a mixer wraps in a codec mode (Browser aside, whose identifier is drawn) is
  unwrapped to its payload by any mixer whose current mask is of that mode, which counts it.\<close>

theorem mixer_delivers:
  assumes "SelectMask s p \<in> codec_modes - {ModeBrowser}" and "mode_carries (SelectMask s p) p"
    and "mask_mode (mx_currentMask r) = SelectMask s p" and "mask_ok (mx_currentMask r)"
  shows "\<exists>pkt s1 e1. Mixer_Wrap s p e = Ok (pkt, s1, e1) \<and>
    Mixer_Unwrap r pkt e2 =
      Some (Ok (Ok p, r\<lparr>mx_packetsUnwrapped := mx_packetsUnwrapped r + 1\<rparr>, e2))"
  using mixer_round_trip [of s p r e e2] assms by auto

theorem mixer_delivers_witness:
  "\<exists>pkt s1 e1 r1. Mixer_Wrap vk_mixer [1, 2, 3] env0 = Ok (pkt, s1, e1) \<and>
    Mixer_Unwrap vk_mixer pkt env0 = Some (Ok (Ok [1, 2, 3], r1, env0))"
  using mixer_delivers [of vk_mixer "[1, 2, 3]" vk_mixer env0 env0]
  by (auto simp: vk_mixer_selects codec_modes_def mode_carries_def)

text \<open>
  The mixers a program can come to: what the constructor makes, then any of its operations.
\<close>

inductive mixer_reach :: "MaskMixer \<Rightarrow> bool" where
  reach_New: "NewMaskMixer d e = Ok (m, e1) \<Longrightarrow> mixer_reach m"
| reach_SetModes: "mixer_reach m \<Longrightarrow> SetModes ms m e = Ok (m1, e1) \<Longrightarrow> mixer_reach m1"
| reach_AddMode: "mixer_reach m \<Longrightarrow> mixer_reach (AddMode md m)"
| reach_RemoveMode: "mixer_reach m \<Longrightarrow> RemoveMode md m e = Ok (m1, e1) \<Longrightarrow> mixer_reach m1"
| reach_GetCurrentMask: "mixer_reach m \<Longrightarrow> GetCurrentMask m e = Ok (mk, m1, e1) \<Longrightarrow> mixer_reach m1"
| reach_ForceRotate: "mixer_reach m \<Longrightarrow> ForceRotate m e = Ok (m1, e1) \<Longrightarrow> mixer_reach m1"
| reach_SetCurrentMode: "mixer_reach m \<Longrightarrow> SetCurrentMode md m e = Ok (m1, e1) \<Longrightarrow> mixer_reach m1"
| reach_SwitchToDomain: "mixer_reach m \<Longrightarrow> SwitchToDomain order domain m e = Ok (m1, e1) \<Longrightarrow> mixer_reach m1"
| reach_SetSwitchInterval: "mixer_reach m \<Longrightarrow> mixer_reach (SetSwitchInterval d m)"
| reach_Wrap: "mixer_reach m \<Longrightarrow> Mixer_Wrap m p e = Ok (pkt, m1, e1) \<Longrightarrow> mixer_reach m1"
| reach_Unwrap: "mixer_reach m \<Longrightarrow> Mixer_Unwrap m d e = Some (Ok (r, m1, e1)) \<Longrightarrow> mixer_reach m1"

lemma keeps_inv_step:
  "keeps_inv f \<Longrightarrow> mixer_inv m \<Longrightarrow> f m e = Ok (m1, e1) \<Longrightarrow> mixer_inv m1"
  using keeps_invD [of f m e] by auto

lemma mixer_reach_inv: "mixer_reach m \<Longrightarrow> mixer_inv m"
proof (induction rule: mixer_reach.induct)
  case (reach_New d e m e1)
  then show ?case using NewMaskMixer_inv [of d e] by auto
next
  case (reach_SetModes m ms e m1 e1)
  then show ?case using keeps_inv_step [OF SetModes_inv] by blast
next
  case (reach_RemoveMode m md e m1 e1)
  then show ?case using keeps_inv_step [OF RemoveMode_inv] by blast
next
  case (reach_GetCurrentMask m e mk m1 e1)
  then show ?case using GetCurrentMask_inv [of m e] by auto
next
  case (reach_ForceRotate m e m1 e1)
  then show ?case using keeps_inv_step [OF rotate_mode_inv] by (simp add: ForceRotate_def)
next
  case (reach_SetCurrentMode m md e m1 e1)
  then show ?case using keeps_inv_step [OF SetCurrentMode_inv] by blast
next
  case (reach_SwitchToDomain m order domain e m1 e1)
  then show ?case using keeps_inv_step [OF SwitchToDomain_inv] by blast
next
  case (reach_Wrap m p e pkt m1 e1)
  then show ?case
    by (auto simp: Mixer_Wrap_def Let_def bindR_eq_Ok mixer_inv_def)
next
  case (reach_Unwrap m d e r m1 e1)
  then show ?case using Mixer_Unwrap_inv by blast
qed (simp_all add: AddMode_def mixer_inv_def SetSwitchInterval_def)

text \<open>C25: In every mixer the program can come to, through any sequence of switches, rotations and
  packets, the list of modes is not empty and the current mask is the mask of the current
  mode; and asking for the current mask always succeeds.\<close>

theorem mixer_mask_matches_mode:
  assumes "mixer_reach m"
  shows "mx_modes m \<noteq> [] \<and> mask_mode (mx_currentMask m) = served (mx_currentMode m) \<and>
    is_ok (GetCurrentMask m e)"
  using mixer_reach_inv [OF assms] GetCurrentMask_inv [of m e] by (auto simp: mixer_inv_def)

theorem mixer_mask_matches_mode_witness:
  "\<exists>m e1. NewMaskMixer 5 env0 = Ok (m, e1) \<and> mx_modes m \<noteq> [] \<and> is_ok (GetCurrentMask m env0)"
proof -
  obtain m e1 where m: "NewMaskMixer 5 env0 = Ok (m, e1)" using NewMaskMixer_inv by blast
  then have "mixer_reach m" by (rule reach_New)
  from mixer_mask_matches_mode [OF this, of env0] m show ?thesis by simp
qed

text \<open>Rotation walks round the list of modes: from position \<open>i\<close>, \<open>k\<close> rotations lead to
  position \<open>i + k\<close> modulo the number of modes, and the list is left as it is.\<close>

theorem mixer_rotation_is_cyclic:
  assumes "distinct (mx_modes m)" and "i < length (mx_modes m)"
    and "mx_currentMode m = mx_modes m ! i"
  shows "\<exists>m1 e1. rotate_n k m e = Ok (m1, e1) \<and> mx_modes m1 = mx_modes m \<and>
    mx_currentMode m1 = mx_modes m ! ((i + k) mod length (mx_modes m))"
  by (rule rotate_n_at [OF assms])

theorem mixer_rotation_is_cyclic_witness:
  "\<exists>m1 e1. rotate_n 3 vk_mixer env0 = Ok (m1, e1) \<and> mx_currentMode m1 = ModeVK"
  using mixer_rotation_is_cyclic [of vk_mixer 0 3 env0] by auto

text \<open>\<open>Wrap\<close> makes a new mask for every packet, so in WebRTC and TLS mode each packet is the
  first of a handshake: packets for two payloads are the same, and no payload is ever sent.\<close>

theorem mixer_loses_payload_in_handshake_modes:
  assumes "SelectMask m p = md" and "SelectMask m q = md" and "md = ModeWebRTC \<or> md = ModeTLS"
    and "p \<noteq> []" and "q \<noteq> []"
  shows "is_ok (Mixer_Wrap m p e) \<and> Mixer_Wrap m p e = Mixer_Wrap m q e"
  by (rule Mixer_Wrap_blind [OF assms])

theorem mixer_loses_payload_in_handshake_modes_witness:
  "Mixer_Wrap (mixer_in ModeTLS (MVK vk0)) [1] env0 = Mixer_Wrap (mixer_in ModeTLS (MVK vk0)) [2] env0"
  using mixer_loses_payload_in_handshake_modes
    [of "mixer_in ModeTLS (MVK vk0)" "[1]" ModeTLS "[2]" env0]
  by (simp add: SelectMask_def GetCurrentMode_def mixer_in_def)

text \<open>In QUIC and in STUN mode \<open>Wrap\<close> panics on every payload: the first QUIC packet copies 24
  bytes into 22, the STUN fingerprint writes past its buffer.\<close>

theorem mixer_panics_in_quic_and_stun:
  assumes "SelectMask m p = ModeQUIC \<or> SelectMask m p = ModeSTUN"
  shows "Mixer_Wrap m p e = Panic"
  by (rule Mixer_Wrap_panics [OF assms])

theorem mixer_panics_in_quic_and_stun_witness:
  "Mixer_Wrap (mixer_in ModeQUIC (MVK vk0)) [1] env0 = Panic"
  using mixer_panics_in_quic_and_stun [of "mixer_in ModeQUIC (MVK vk0)" "[1]" env0]
  by (simp add: SelectMask_def GetCurrentMode_def mixer_in_def)

text \<open>A mixer whose current mask is the vk mask accepts any packet of at least 16 bytes,
  whatever mode it was wrapped in and whatever it holds, and returns it less 16 bytes: a
  packet of another mode is taken for a payload, not refused.\<close>

theorem vk_mixer_accepts_any_packet:
  assumes "mask_mode (mx_currentMask r) = ModeVK" and "16 \<le> length d"
  shows "\<exists>r1. Mixer_Unwrap r d e = Some (Ok (Ok (drop 16 d), r1, e)) \<and>
    mx_currentMode r1 = mx_currentMode r"
  using vk_accepts_anything [OF assms, of e] by auto

theorem vk_mixer_accepts_any_packet_witness:
  "\<exists>r1. Mixer_Unwrap vk_mixer (replicate 20 9) env0 = Some (Ok (Ok (replicate 4 9), r1, env0))"
  using vk_mixer_accepts_any_packet [of vk_mixer "replicate 20 9" env0] by auto

end
