(* ===== verification/ServerLaws.thy ===== *)
theory ServerLaws
  imports HandshakeLaws
begin

text \<open>
  The server's handshake, step by step: what a completed handshake says of the packet that
  was read, and what becomes of that packet when it is sent again, within thirty seconds
  and after them.
\<close>

definition config_of :: "Handshake \<Rightarrow> SessionConfig" where
  "config_of syn =
     \<lparr>SwitchInterval = uint (h_SwitchInterval syn) * second, Modes = h_Modes syn,
      CurrentMode = uint (h_CurrentMode syn), EnableReplayProtection = True,
      ReplayWindowSize = 64\<rparr>"

lemma accept_sequence_cases:
  obtains hm1 e1 where "accept_sequence hm seq e = (Ok (), hm1, e1)"
  | e1 where "accept_sequence hm seq e = (Fail ErrHandshakeReplay, hm, e1)"
proof (cases "fst (IsReplay (hm_state hm) seq (30 * second) e)")
  case True
  with that(2) show ?thesis by (simp add: accept_sequence_def case_prod_beta Let_def)
next
  case False
  with that(1) show ?thesis by (simp add: accept_sequence_def case_prod_beta Let_def)
qed

lemma accept_sequence_key:
  "accept_sequence hm seq e = (r, hm1, e1) \<Longrightarrow> hm_authKey hm1 = hm_authKey hm"
  by (auto simp: accept_sequence_def case_prod_beta Let_def split: if_splits)

text \<open>The verdict on a sequence number depends on the numbers remembered only.\<close>

lemma accept_sequence_memory:
  "s_LastSeen (hm_state hm) = s_LastSeen (hm_state hm') \<Longrightarrow>
   fst (accept_sequence hm seq e) = fst (accept_sequence hm' seq e)"
  by (simp add: accept_sequence_def IsReplay_def case_prod_beta Let_def)

lemma open_signed_key:
  "hm_authKey hm = hm_authKey hm' \<Longrightarrow> open_signed hm = open_signed hm'"
  unfolding open_signed_def verify_sig_def Sign_def by (intro ext) (simp only:)

text \<open>A server with a connection whose deadlines can be set, and a packet it can open.\<close>

lemma server_open:
  assumes "hc_read_deadline conn = None"
    and "bindR (conn_Read conn) (open_signed hm HandshakeSyn) = Ok syn"
  shows "fst (accept_sequence hm (h_Sequence syn) (snd (read_clock e))) = Ok () \<Longrightarrow>
      hc_write_deadline conn = None \<Longrightarrow>
      \<exists>out hm1 e1. PerformServerHandshake hm conn e = (Ok (config_of syn), out, hm1, e1)"
    and "fst (accept_sequence hm (h_Sequence syn) (snd (read_clock e))) = Fail err \<Longrightarrow>
      fst (PerformServerHandshake hm conn e) = Fail err"
proof -
  let ?a = "accept_sequence hm (h_Sequence syn) (snd (read_clock e))"
  have a: "?a = (fst ?a, fst (snd ?a), snd (snd ?a))" by simp
  {
    assume "fst ?a = Ok ()" and "hc_write_deadline conn = None"
    with a obtain hm1 e1 where "?a = (Ok (), hm1, e1)" by metis
    with assms \<open>hc_write_deadline conn = None\<close>
    show "\<exists>out hm1 e1. PerformServerHandshake hm conn e = (Ok (config_of syn), out, hm1, e1)"
      by (simp add: PerformServerHandshake_def case_prod_beta Let_def config_of_def)
  next
    assume "fst ?a = Fail err"
    with a obtain hm1 e1 where "?a = (Fail err, hm1, e1)" by metis
    with assms show "fst (PerformServerHandshake hm conn e) = Fail err"
      by (simp add: PerformServerHandshake_def case_prod_beta Let_def)
  }
qed

lemma server_done:
  assumes "PerformServerHandshake hm conn e = (Ok config, out, hm1, e1)"
  obtains syn hm2 e2 where "hc_read_deadline conn = None" "hc_write_deadline conn = None"
    "bindR (conn_Read conn) (open_signed hm HandshakeSyn) = Ok syn" "config = config_of syn"
    "accept_sequence hm (h_Sequence syn) (snd (read_clock e)) = (Ok (), hm2, e2)"
    "hm_authKey hm1 = hm_authKey hm" "s_LastSeen (hm_state hm1) = s_LastSeen (hm_state hm2)"
proof (cases "hc_read_deadline conn")
  case (Some err)
  with assms show ?thesis by (simp add: PerformServerHandshake_def case_prod_beta)
next
  case None
  show ?thesis
  proof (cases "bindR (conn_Read conn) (open_signed hm HandshakeSyn)")
    case (Ok syn)
    show ?thesis
    proof (rule accept_sequence_cases [of hm "h_Sequence syn" "snd (read_clock e)"])
      fix hm2 e2 assume acc: "accept_sequence hm (h_Sequence syn) (snd (read_clock e)) = (Ok (), hm2, e2)"
      from assms acc Ok None have "hc_write_deadline conn = None" "config = config_of syn"
        "hm1 = hm2\<lparr>hm_state := snd (NextSequence (hm_state hm2))\<rparr>"
        by (auto simp: PerformServerHandshake_def case_prod_beta Let_def config_of_def
            split: option.splits)
      with that [OF None _ Ok _ acc] accept_sequence_key [OF acc] show ?thesis
        by (simp add: NextSequence_def)
    next
      fix e2 assume "accept_sequence hm (h_Sequence syn) (snd (read_clock e)) = (Fail ErrHandshakeReplay, hm, e2)"
      with assms Ok None show ?thesis by (simp add: PerformServerHandshake_def case_prod_beta Let_def)
    qed
  qed (use assms None in \<open>simp_all add: PerformServerHandshake_def case_prod_beta Let_def\<close>)
qed

section \<open>Both roles\<close>

lemma roles_agree:
  assumes "params_ok interval modes cur" and "hm_authKey srv = hm_authKey cli"
    and "map_of (s_LastSeen (hm_state srv)) seq = None"
    and "map_of (s_LastSeen (hm_state cli)) (s_Sequence (hm_state srv) + 1) = None"
  shows "\<exists>p q srv1 cli1 e1 e2.
    PerformServerHandshake srv (direct p) es =
      (Ok \<lparr>SwitchInterval = interval, Modes = modes, CurrentMode = cur,
           EnableReplayProtection = True, ReplayWindowSize = 64\<rparr>, replicate 3 q, srv1, e1) \<and>
    PerformClientHandshake cli (direct q) interval modes cur seq ec =
      (Ok (), replicate 3 p, cli1, e2)"
proof -
  obtain syn e1 where syn: "NewHandshake HandshakeSyn interval modes cur seq ec = (syn, e1)"
    by fastforce
  from server_accepts [OF assms(1,2) syn assms(3), of es] obtain ack srv1 e2 e3 e4 where
    srv: "PerformServerHandshake srv (direct (Encode syn @ Sign cli (Encode syn))) es =
      (Ok \<lparr>SwitchInterval = interval, Modes = modes, CurrentMode = cur,
           EnableReplayProtection = True, ReplayWindowSize = 64\<rparr>,
       replicate 3 (Encode ack @ Sign srv (Encode ack)), srv1, e2)"
    and ack: "NewHandshake HandshakeAck interval modes cur (s_Sequence (hm_state srv) + 1) e3 =
      (ack, e4)"
    by (elim exE conjE) (rule that)
  from client_accepts [OF assms(1,2) ack assms(4), of seq ec] srv syn show ?thesis
    by (auto simp: Let_def)
qed

section \<open>The same packet again\<close>

lemma server_refuses_again:
  assumes "PerformServerHandshake hm conn e = (Ok config, out, hm1, e1)"
    and "distinct (map fst (s_LastSeen (hm_state hm)))"
    and "within d t (clk e)" and "within d t (clk e2)" and "d < 30 * second"
  shows "fst (PerformServerHandshake hm1 conn e2) = Fail ErrHandshakeReplay"
proof -
  from assms(1) obtain syn hm2 e3 where s: "hc_read_deadline conn = None"
    "bindR (conn_Read conn) (open_signed hm HandshakeSyn) = Ok syn"
    "accept_sequence hm (h_Sequence syn) (snd (read_clock e)) = (Ok (), hm2, e3)"
    "hm_authKey hm1 = hm_authKey hm" "s_LastSeen (hm_state hm1) = s_LastSeen (hm_state hm2)"
    by (rule server_done)
  have w: "within d t (clk (snd (read_clock e)))" "within d t (clk (snd (read_clock e2)))"
    using assms(3,4) within_tick by (simp_all add: read_clock_def)
  have "fst (accept_sequence hm2 (h_Sequence syn) (snd (read_clock e2))) = Fail ErrHandshakeReplay"
    by (rule accept_then_refuse [OF assms(2) s(3) w assms(5)])
  then have "fst (accept_sequence hm1 (h_Sequence syn) (snd (read_clock e2))) = Fail ErrHandshakeReplay"
    using accept_sequence_memory [OF s(5)] by simp
  moreover have "bindR (conn_Read conn) (open_signed hm1 HandshakeSyn) = Ok syn"
    using s(2) open_signed_key [OF s(4)] by simp
  ultimately show ?thesis using server_open(2) [OF s(1)] by blast
qed

text \<open>What is remembered of a number is a time at which it was accepted.\<close>

lemma accept_remembers:
  assumes "distinct (map fst (s_LastSeen (hm_state hm)))"
    and "accept_sequence hm seq e = (Ok (), hm1, e1)" and "within d t (clk e)"
    and "map_of (s_LastSeen (hm_state hm1)) seq = Some t1"
  shows "t1 \<le> t + d"
proof -
  obtain eb where eb: "within d t (clk eb)" "hm1 = hm\<lparr>hm_state := fst (MarkSeen seq (hm_state hm) eb)\<rparr>"
  proof (rule that)
    let ?eb = "snd (IsReplay (hm_state hm) seq (30 * second) e)"
    show "within d t (clk ?eb)"
      using assms(3) within_tick by (auto simp: IsReplay_def read_clock_def split: option.split)
    show "hm1 = hm\<lparr>hm_state := fst (MarkSeen seq (hm_state hm) ?eb)\<rparr>"
      using assms(2) by (auto simp: accept_sequence_def case_prod_beta Let_def split: if_splits)
  qed
  let ?ps = "AList.update seq (now (clk eb)) (s_LastSeen (hm_state hm))"
  have "(seq, t1) \<in> set ?ps"
    using map_of_SomeD [OF assms(4)] eb(2) sweep_seen_sub
    by (fastforce simp: MarkSeen_def case_prod_beta Let_def read_clock_def)
  moreover have "distinct (map fst ?ps)" using assms(1) by (rule distinct_update)
  ultimately have "map_of ?ps seq = Some t1" by simp
  then have "t1 = now (clk eb)" by (simp add: update_conv')
  with eb(1) show ?thesis by (simp add: within_def now_def)
qed

lemma server_accepts_again:
  assumes "PerformServerHandshake hm conn e = (Ok config, out, hm1, e1)"
    and "distinct (map fst (s_LastSeen (hm_state hm)))"
    and "within d t (clk e)" and "\<forall>i. t + d + 30 * second \<le> clk e2 i"
  shows "\<exists>out2 hm2 e3. PerformServerHandshake hm1 conn e2 = (Ok config, out2, hm2, e3)"
proof -
  from assms(1) obtain syn hm2 e3 where s: "hc_read_deadline conn = None"
    "bindR (conn_Read conn) (open_signed hm HandshakeSyn) = Ok syn"
    "accept_sequence hm (h_Sequence syn) (snd (read_clock e)) = (Ok (), hm2, e3)"
    "hm_authKey hm1 = hm_authKey hm" "s_LastSeen (hm_state hm1) = s_LastSeen (hm_state hm2)"
    "config = config_of syn" "hc_write_deadline conn = None"
    by (rule server_done)
  have w: "within d t (clk (snd (read_clock e)))"
    using assms(3) within_tick by (simp add: read_clock_def)
  have "fst (accept_sequence hm1 (h_Sequence syn) (snd (read_clock e2))) = Ok ()"
  proof (cases "map_of (s_LastSeen (hm_state hm1)) (h_Sequence syn)")
    case None
    then show ?thesis using accept_sequence_fresh by (metis fst_conv)
  next
    case (Some t1)
    then have "t1 \<le> t + d" using accept_remembers [OF assms(2) s(3) w] s(5) by simp
    moreover have "t + d + 30 * second \<le> clk e2 1" using assms(4) by blast
    ultimately have "\<not> now (clk (snd (read_clock e2))) - t1 < 30 * second"
      by (simp add: now_def read_clock_def tick_def)
    with Some show ?thesis
      by (simp add: accept_sequence_def IsReplay_def read_clock_def case_prod_beta Let_def)
  qed
  moreover have "bindR (conn_Read conn) (open_signed hm1 HandshakeSyn) = Ok syn"
    using s(2) open_signed_key [OF s(4)] by simp
  ultimately show ?thesis using server_open(1) [OF s(1) _ _ s(7)] s(6) by blast
qed

end
