(* ===== verification/WireProperties.thy ===== *)
theory WireProperties
  imports Samples ServerLaws
begin

text \<open>
  The properties of what goes over the wire: frames, fragments and bursts, the handshake,
  the replay windows.
\<close>

section \<open>Frames\<close>

fun write_packets :: "bytes list \<Rightarrow> writer \<Rightarrow> unit result \<times> writer" where
  "write_packets [] w = (Ok (), w)"
| "write_packets (p # ps) w =
     (case writeFrame True w p of
        (Ok _, w1) \<Rightarrow> write_packets ps w1
      | (r, w1) \<Rightarrow> (r, w1))"

lemma write_packets_out:
  "list_all packet_ok ps \<Longrightarrow> w_budget w = None \<Longrightarrow>
   write_packets ps w = (Ok (), w\<lparr>w_out := w_out w @ concat (map stream_frame ps)\<rparr>)"
  by (induction ps arbitrary: w) (simp_all add: writeFrame_stream packet_ok_def)

lemma empty_packet_refused:
  "w_budget w = None \<Longrightarrow> w_out w = [] \<Longrightarrow>
   fst (writeFrame True w []) = Ok () \<and>
   fst (readFrame_stream (w_out (snd (writeFrame True w [])) @ s)) = Fail ErrFrameTooLarge"
  by (simp add: writeFrame_stream stream_frame_def readFrame_stream_def)

text \<open>C27: Packets written one after the other with \<open>writeFrame\<close> on a TCP connection are read
  back by \<open>readFrame\<close> one by one, in order, and what follows them stays in the stream, when
  each has from one to 65535 bytes; an empty packet is written, but the reader refuses it.\<close>

theorem tcp_packets_read_back:
  assumes "list_all packet_ok ps" and "w_budget w = None" and "w_out w = []"
  shows "fst (write_packets ps w) = Ok () \<and>
    read_many readFrame_stream (length ps) (w_out (snd (write_packets ps w)) @ s) = (Ok ps, s) \<and>
    fst (writeFrame True w []) = Ok () \<and>
    fst (readFrame_stream (w_out (snd (writeFrame True w [])) @ s)) = Fail ErrFrameTooLarge"
  using write_packets_out [OF assms(1,2)] tcp_frames.read_many_enc [OF assms(1), of s]
    empty_packet_refused [OF assms(2,3), of s] assms(3) by simp

theorem tcp_packets_read_back_witness:
  "let ps = [[1, 2], [3]]; w = \<lparr>w_out = [], w_budget = None\<rparr> in
   read_many readFrame_stream (length ps) (w_out (snd (write_packets ps w)) @ [9]) = (Ok ps, [9])"
proof -
  have "list_all packet_ok [[1, 2], [3]]" by (simp add: packet_ok_def maxFrameSize_def)
  from tcp_packets_read_back [OF this, of "\<lparr>w_out = [], w_budget = None\<rparr>" "[9]"]
  show ?thesis unfolding Let_def by (simp del: read_many.simps write_packets.simps list.size)
qed

text \<open>\<open>ReadFrame\<close> takes the token, the length and the payload that \<open>WriteFrame\<close> wrote, but
  leaves the padding in the stream, where the next \<open>ReadFrame\<close> takes it for a token.\<close>

theorem padding_is_left_in_the_stream:
  assumes "length tok = 32" and "length data < 65536" and "w_budget w = None" and "w_out w = []"
  shows "fst (WriteFrame w data padding tok) = Ok () \<and>
    ReadFrame (w_out (snd (WriteFrame w data padding tok)) @ s) =
      (Ok \<lparr>AuthToken = tok, EncLen = of_nat (length data), Payload = data, Padding = []\<rparr>,
       padding @ s)"
  using ReadFrame_frame_bytes [OF assms(1,2), of padding s] WriteFrame_out [OF assms(3)] assms(4)
  by simp

theorem padding_is_left_in_the_stream_witness:
  "snd (ReadFrame (w_out (snd (WriteFrame \<lparr>w_out = [], w_budget = None\<rparr> [1] [7, 7] (replicate 32 0)))))
     = [7, 7]"
  using padding_is_left_in_the_stream [of "replicate 32 0" "[1]" "\<lparr>w_out = [], w_budget = None\<rparr>"
    "[7, 7]" "[]"] by simp

section \<open>Fragments and bursts\<close>

text \<open>C28: A fragmentor set up with \<open>0 < min < max\<close> cuts any data into pieces of its current size,
  which lies in \<open>min .. max - 1\<close>; the pieces joined are the data, and none is empty.\<close>

theorem fragments_join_to_the_data:
  assumes "frag_inv s"
  shows "\<exists>s1 fs. Fragment s data = Some (Ok (fs, s1)) \<and> frag_inv s1 \<and> concat fs = data \<and>
    (\<forall>f \<in> set fs. f \<noteq> [] \<and> int (length f) \<le> currentSize (fst s1)) \<and>
    minSize (fst s) \<le> currentSize (fst s1) \<and> currentSize (fst s1) < maxSize (fst s)"
proof -
  obtain s1 where s1: "Fragment s data = Some (Ok (chunks (nat (currentSize (fst s1))) data, s1))"
    "frag_inv s1" "minSize (fst s1) = minSize (fst s)" "maxSize (fst s1) = maxSize (fst s)"
    using Fragment_inv [OF assms] by blast
  then have pos: "0 < nat (currentSize (fst s1))" by (simp add: frag_inv_def)
  have "f \<noteq> [] \<and> int (length f) \<le> currentSize (fst s1)"
    if "f \<in> set (chunks (nat (currentSize (fst s1))) data)" for f
    using chunks_sizes [OF that] pos by auto
  with s1 concat_chunks [OF pos] show ?thesis by (auto simp: frag_inv_def)
qed

theorem fragments_join_to_the_data_witness:
  "\<exists>s1 fs. Fragment (NewFragmentor 2 4, clk env0) [1, 2, 3, 4, 5] = Some (Ok (fs, s1)) \<and>
    concat fs = [1, 2, 3, 4, 5]"
  using fragments_join_to_the_data [OF frag_inv_New [of 2 4 "clk env0"], of "[1, 2, 3, 4, 5]"]
  by (auto simp: env0_def clock_ok_def)

text \<open>Fragment sizes that are not positive are not survived: a current size of 0 never
  returns, a negative one panics, and equal minimum and maximum panic at the first rotation,
  a division by zero that \<open>Config.Validate\<close> lets through.\<close>

theorem degenerate_fragment_sizes:
  assumes "data \<noteq> []" and "zero_time + 30 * second < now c"
  shows "fragment_loop 0 data = None \<and> (sz < 0 \<longrightarrow> fragment_loop sz data = Some Panic) \<and>
    Fragment (NewFragmentor n n, c) data = Some Panic"
proof -
  have "rotateIfNeeded (NewFragmentor n n, c) = Panic"
    using assms(2) by (simp add: rotateIfNeeded_def NewFragmentor_def go_rem_def)
  then show ?thesis
    using fragment_loop_zero [OF assms(1)] fragment_loop_negative [OF assms(1)]
    by (simp add: Fragment_def)
qed

theorem degenerate_fragment_sizes_witness:
  "fragment_loop 0 [1] = None \<and> Fragment (NewFragmentor 288 288, clk env0) [1] = Some Panic"
  using degenerate_fragment_sizes [of "[1]" "clk env0" 0 288]
  by (simp add: env0_def now_def zero_time_def)

text \<open>The shaper cuts any data into bursts that join to the data, each of at least one byte and
  at most the greater of \<open>minBurst\<close> and \<open>maxBurst - 1\<close>.\<close>

theorem bursts_join_to_the_data:
  assumes "clock_ok c" and "0 < minBurst ts"
  shows "\<exists>bs c1. Process (ts, c) data = Some (Ok (bs, (ts, c1))) \<and> concat bs = data \<and>
    (\<forall>b \<in> set bs. 0 < length b \<and> int (length b) \<le> max (minBurst ts) (maxBurst ts - 1))"
proof -
  obtain bs c1 where "Process_loop ts c data = Some (Ok (bs, c1))" "concat bs = data"
    "\<forall>b \<in> set bs. 0 < length b \<and> int (length b) \<le> max (minBurst ts) (maxBurst ts - 1)"
    using Process_loop_total [OF assms, of data] by blast
  then show ?thesis by (simp add: Process_def)
qed

theorem bursts_join_to_the_data_witness:
  "\<exists>bs c1. Process (NewTrafficShaper 3 5 0, clk env0) [1, 2, 3, 4] =
     Some (Ok (bs, (NewTrafficShaper 3 5 0, c1))) \<and> concat bs = [1, 2, 3, 4]"
  using bursts_join_to_the_data [of "clk env0" "NewTrafficShaper 3 5 0" "[1, 2, 3, 4]"]
  by (auto simp: env0_def clock_ok_def NewTrafficShaper_def)

section \<open>The handshake\<close>

text \<open>C18: Decoding gives back every handshake message that was encoded with a current mode other
  than 0, a length of modes that fits its byte, and its own checksum.\<close>

theorem handshake_round_trip:
  assumes "hs_wf h" and "h_CurrentMode h \<noteq> 0" and "Verify h"
  shows "DecodeHandshake (Encode h) = Ok h"
  by (rule decode_encode [OF assms])

theorem handshake_round_trip_witness:
  "let h = fst (NewHandshake HandshakeSyn (300 * second) [ModeVK, ModeOzon] ModeVK 5 env0)
   in DecodeHandshake (Encode h) = Ok h"
proof -
  let ?n = "NewHandshake HandshakeSyn (300 * second) [ModeVK, ModeOzon] ModeVK 5 env0"
  have n: "?n = (fst ?n, snd ?n)" by simp
  show ?thesis
    using handshake_round_trip [OF NewHandshake_props(1) [OF params0 n] NewHandshake_props(3) [OF params0 n]
        NewHandshake_props(2) [OF params0 n]] by (simp add: Let_def)
qed

text \<open>A message whose current mode is 0, the WebRTC mode, is encoded without its tail; decoding
  it panics if it lists no mode, and otherwise supplies the first mode and zeros, and accepts
  only if the checksum of the result happens to be 0.\<close>

theorem webrtc_handshake_loses_its_tail:
  assumes "hs_wf h" and "h_CurrentMode h = 0"
  shows "DecodeHandshake (Encode h) =
    (if h_Modes h = [] then Panic
     else if Verify (without_tail h) then Ok (without_tail h)
     else Fail ErrHandshakeChecksumMismatch)"
  by (rule decode_encode_mode0 [OF assms])

theorem webrtc_handshake_loses_its_tail_witness:
  "let h = fst (NewHandshake HandshakeSyn (300 * second) [ModeWebRTC] ModeWebRTC 5 env0)
   in DecodeHandshake (Encode h) = Fail ErrHandshakeChecksumMismatch"
proof -
  let ?h = "fst (NewHandshake HandshakeSyn (300 * second) [ModeWebRTC] ModeWebRTC 5 env0)"
  have wf: "hs_wf ?h" "h_CurrentMode ?h = 0" "h_Modes ?h = [ModeWebRTC]"
    by (simp_all add: NewHandshake_def case_prod_beta Let_def hs_wf_def)
  have z: "((XOR) (0 :: byte) ^^ n) b = b" for n b by (induction n) simp_all
  have "\<not> Verify (without_tail ?h)"
    by (simp add: NewHandshake_def case_prod_beta Let_def Verify_def without_tail_def
        calcChecksum_def xor_bytes_all_def seconds32_def be32_def be64_def z)
  with wf show ?thesis
    using webrtc_handshake_loses_its_tail [of ?h] by (simp add: Let_def)
qed

text \<open>The decoder panics on exactly the packets of 11 to 14 bytes that announce no mode.\<close>

theorem decode_handshake_panics_iff:
  "DecodeHandshake data = Panic \<longleftrightarrow> 11 \<le> length data \<and> length data < 15 \<and> data ! 10 = 0"
  by (rule DecodeHandshake_panic_iff)


text \<open>C10: A client and a server with the same key, on a direct connection, agree: what the client
  sends for valid parameters makes the server return exactly these parameters, and what
  the server answers makes the client succeed, when neither has seen the other's
  sequence number.\<close>

theorem handshake_agreement:
  assumes "params_ok interval modes cur" and "hm_authKey srv = hm_authKey cli"
    and "map_of (s_LastSeen (hm_state srv)) seq = None"
    and "map_of (s_LastSeen (hm_state cli)) (s_Sequence (hm_state srv) + 1) = None"
  shows "\<exists>p q srv1 cli1 e1 e2.
    PerformServerHandshake srv (direct p) es =
      (Ok \<lparr>SwitchInterval = interval, Modes = modes, CurrentMode = cur,
           EnableReplayProtection = True, ReplayWindowSize = 64\<rparr>, replicate 3 q, srv1, e1) \<and>
    PerformClientHandshake cli (direct q) interval modes cur seq ec =
      (Ok (), replicate 3 p, cli1, e2)"
  by (rule roles_agree [OF assms])

theorem handshake_agreement_witness:
  "\<exists>p q srv1 cli1 e1 e2.
    PerformServerHandshake manager0 (direct p) env0 =
      (Ok \<lparr>SwitchInterval = 300 * second, Modes = [ModeVK, ModeOzon], CurrentMode = ModeVK,
           EnableReplayProtection = True, ReplayWindowSize = 64\<rparr>, replicate 3 q, srv1, e1) \<and>
    PerformClientHandshake manager0 (direct q) (300 * second) [ModeVK, ModeOzon] ModeVK 5 env0 =
      (Ok (), replicate 3 p, cli1, e2)"
proof (rule handshake_agreement)
  show "params_ok (300 * second) [ModeVK, ModeOzon] ModeVK" by (rule params0)
qed simp_all

text \<open>C19: A server that completes a handshake has read a packet that ends in the HMAC, under its
  key, of all the rest; the rest is a SYN, and the session it returns is the one asked for.\<close>

theorem server_needs_the_key:
  assumes "PerformServerHandshake hm conn e = (Ok config, out, hm1, e1)"
  shows "\<exists>packet d syn. hc_read conn = Ok packet \<and> take 4096 packet = d @ hmac_sha256 (hm_authKey hm) d \<and>
    DecodeHandshake d = Ok syn \<and> h_Type syn = HandshakeSyn \<and> config = config_of syn"
proof -
  from assms obtain syn where "bindR (conn_Read conn) (open_signed hm HandshakeSyn) = Ok syn"
    "config = config_of syn" by (rule server_done)
  then obtain packet where "hc_read conn = Ok packet"
    "open_signed hm HandshakeSyn (take 4096 packet) = Ok syn"
    by (auto simp: conn_Read_def bindR_eq_Ok)
  with open_signed_authentic \<open>config = config_of syn\<close> show ?thesis by blast
qed

theorem server_needs_the_key_witness:
  "\<exists>packet d syn config. fst (PerformServerHandshake manager0 (direct packet) env0) = Ok config \<and>
    take 4096 packet = d @ hmac_sha256 key0 d \<and> config = config_of syn"
proof -
  obtain pkt config out hm1 e1
    where s: "PerformServerHandshake manager0 (direct pkt) env0 = (Ok config, out, hm1, e1)"
    by (rule handshake0)
  from server_needs_the_key [OF s] obtain d syn where
    "take 4096 pkt = d @ hmac_sha256 key0 d" "config = config_of syn"
    by (auto simp: direct_def)
  with s show ?thesis by (metis fst_conv)
qed

text \<open>C20: The packet of a completed handshake is refused as a replay while less than thirty
  seconds pass.\<close>

theorem handshake_replay_is_refused:
  assumes "PerformServerHandshake hm conn e = (Ok config, out, hm1, e1)"
    and "distinct (map fst (s_LastSeen (hm_state hm)))"
    and "within d t (clk e)" and "within d t (clk e2)" and "d < 30 * second"
  shows "fst (PerformServerHandshake hm1 conn e2) = Fail ErrHandshakeReplay"
  by (rule server_refuses_again [OF assms])

theorem handshake_replay_is_refused_witness:
  "\<exists>p hm1. is_ok (fst (PerformServerHandshake manager0 (direct p) env0)) \<and>
    fst (PerformServerHandshake hm1 (direct p) env0) = Fail ErrHandshakeReplay"
proof -
  obtain pkt config out hm1 e1
    where s: "PerformServerHandshake manager0 (direct pkt) env0 = (Ok config, out, hm1, e1)"
    by (rule handshake0)
  have "fst (PerformServerHandshake hm1 (direct pkt) env0) = Fail ErrHandshakeReplay"
    by (rule handshake_replay_is_refused [OF s _ env0_within env0_within]) simp_all
  moreover have "is_ok (fst (PerformServerHandshake manager0 (direct pkt) env0))" using s by simp
  ultimately show ?thesis by blast
qed

text \<open>Thirty seconds later the same packet is accepted again, with the same session: the
  timestamp in the handshake is not looked at, so a recorded handshake does not expire.\<close>

theorem recorded_handshake_is_accepted_later:
  assumes "PerformServerHandshake hm conn e = (Ok config, out, hm1, e1)"
    and "distinct (map fst (s_LastSeen (hm_state hm)))"
    and "within d t (clk e)" and "\<forall>i. t + d + 30 * second \<le> clk e2 i"
  shows "\<exists>out2 hm2 e3. PerformServerHandshake hm1 conn e2 = (Ok config, out2, hm2, e3)"
  by (rule server_accepts_again [OF assms])

theorem recorded_handshake_is_accepted_later_witness:
  "\<exists>p config hm1. fst (PerformServerHandshake manager0 (direct p) env0) = Ok config \<and>
    fst (PerformServerHandshake hm1 (direct p) (env0\<lparr>clk := \<lambda>_. 1700000100000000000\<rparr>)) = Ok config"
proof -
  obtain pkt config out hm1 e1
    where s: "PerformServerHandshake manager0 (direct pkt) env0 = (Ok config, out, hm1, e1)"
    by (rule handshake0)
  have "\<exists>out2 hm2 e3. PerformServerHandshake hm1 (direct pkt) (env0\<lparr>clk := \<lambda>_. 1700000100000000000\<rparr>) =
      (Ok config, out2, hm2, e3)"
    by (rule recorded_handshake_is_accepted_later [OF s _ env0_within]) (simp_all add: env0_def)
  with s show ?thesis by (metis fst_conv)
qed

section \<open>Replay windows\<close>

text \<open>C29: A number that \<open>CheckAndAdd\<close> accepted is refused after any further checks among which
  fewer numbers were accepted than the window holds, and the window never outgrows its size.\<close>

theorem replay_window_refuses:
  assumes "rp_inv rp" and "CheckAndAdd rp x = (False, rp1)"
    and "check_all CheckAndAdd rp1 xs = (flags, rp2)"
    and "int (length (filter Not flags)) < rp_maxSize rp"
  shows "fst (CheckAndAdd rp2 x) \<and> int (length (rp_window rp2)) \<le> rp_maxSize rp"
proof -
  have rp1: "rp_inv rp1" "rp_maxSize rp1 = rp_maxSize rp"
    using CheckAndAdd_step(3,4) [OF assms(1), of x] assms(2) by simp_all
  have "fst (CheckAndAdd rp2 x)"
    using rp.replay_refused [OF assms(1), of x xs] assms(2-4) by (simp add: rp.accepted_def)
  moreover have "length (rp_window rp2) \<le> nat (rp_maxSize rp)"
    using rp.window_bounded [OF rp1(1), of xs] rp1(2) assms(3) by simp
  ultimately show ?thesis using assms(4) by linarith
qed

theorem replay_window_refuses_witness:
  "let (a, rp1) = CheckAndAdd (NewReplayProtection 2) 5; rp2 = snd (check_all CheckAndAdd rp1 [6])
   in \<not> a \<and> fst (CheckAndAdd rp2 5)"
proof -
  have a: "CheckAndAdd (NewReplayProtection 2) 5 =
      (False, \<lparr>rp_seen = {5}, rp_window = [5], rp_maxSize = 2\<rparr>)"
    by (simp add: CheckAndAdd_def NewReplayProtection_def)
  have b: "check_all CheckAndAdd \<lparr>rp_seen = {5}, rp_window = [5], rp_maxSize = 2\<rparr> [6] =
      ([False], \<lparr>rp_seen = {6, 5}, rp_window = [5, 6], rp_maxSize = 2\<rparr>)"
    by (simp add: CheckAndAdd_def)
  from replay_window_refuses [OF NewReplayProtection_inv a b] a b show ?thesis
    by (simp add: NewReplayProtection_def)
qed

end

