(* ===== verification/SessionProperties.thy ===== *)
theory SessionProperties
  imports Samples ServerLaws
begin

text \<open>
  The properties of sessions, of the engine's pipeline, and of the tunnel the handshake and
  the sessions make together.
\<close>

section \<open>Sessions\<close>

text \<open>Creating a session never fails, whatever the random bytes and whatever the modes: both
  mixers stand in the configured mode, except that mode 0, WebRTC, becomes VK; the session
  is in the manager under its id, and every other id is as before.\<close>

theorem create_session_with_config:
  "\<exists>s sm1 e1. CreateSessionWithConfig config sm e = Ok (s, sm1, e1) \<and> session_inv s \<and>
    ss_State s = SessionStateInit \<and>
    mx_currentMode (ss_LocalMixer s) =
      (if CurrentMode config = ModeWebRTC then ModeVK else CurrentMode config) \<and>
    mx_currentMode (ss_RemoteMixer s) = mx_currentMode (ss_LocalMixer s) \<and>
    GetSession sm1 (ss_ID s) = Some s \<and> (\<forall>i. i \<noteq> ss_ID s \<longrightarrow> GetSession sm1 i = GetSession sm i)"
proof -
  let ?c = "if CurrentMode config = 0 then config\<lparr>CurrentMode := ModeVK\<rparr> else config"
  obtain s sm1 e1 where "create_with ?c sm e = Ok (s, sm1, e1)" "session_inv s"
    "ss_State s = SessionStateInit" "mx_currentMode (ss_LocalMixer s) = CurrentMode ?c"
    "mx_currentMode (ss_RemoteMixer s) = CurrentMode ?c" "GetSession sm1 (ss_ID s) = Some s"
    "\<forall>i. i \<noteq> ss_ID s \<longrightarrow> GetSession sm1 i = GetSession sm i"
    using create_with_ok [of ?c sm e] by blast
  then show ?thesis by (simp add: CreateSessionWithConfig_def)
qed

theorem create_session_with_config_witness:
  "\<exists>s sm1 e1. CreateSessionWithConfig (config0\<lparr>CurrentMode := ModeWebRTC\<rparr>) NewSessionManager env0 =
      Ok (s, sm1, e1) \<and> mx_currentMode (ss_LocalMixer s) = ModeVK"
  using create_session_with_config [of "config0\<lparr>CurrentMode := ModeWebRTC\<rparr>" NewSessionManager env0]
  by auto

text \<open>What a session can become: any sequence of its operations.\<close>

inductive session_reach :: "Session \<Rightarrow> Session \<Rightarrow> bool" for s0 where
  start: "session_reach s0 s0"
| wrapped: "session_reach s0 s \<Longrightarrow> Session_Wrap s p e = Ok (pkt, s1, e1) \<Longrightarrow> session_reach s0 s1"
| unwrapped: "session_reach s0 s \<Longrightarrow> Session_Unwrap s p e = Some (Ok (r, s1, e1)) \<Longrightarrow> session_reach s0 s1"
| checked: "session_reach s0 s \<Longrightarrow> CheckReplay s x = (b, s1) \<Longrightarrow> session_reach s0 s1"
| rotated_local: "session_reach s0 s \<Longrightarrow> RotateLocalMask s e = Ok (s1, e1) \<Longrightarrow> session_reach s0 s1"
| rotated_remote: "session_reach s0 s \<Longrightarrow> RotateRemoteMask s e = Ok (s1, e1) \<Longrightarrow> session_reach s0 s1"
| synced: "session_reach s0 s \<Longrightarrow> SyncModes s e = Ok (s1, e1) \<Longrightarrow> session_reach s0 s1"

lemma session_reach_same:
  "session_reach s s1 \<Longrightarrow> ss_ID s1 = ss_ID s \<and> ss_MaskConfig s1 = ss_MaskConfig s"
  by (induction rule: session_reach.induct)
    (auto simp: Session_Wrap_def Session_Unwrap_def CheckReplay_def RotateLocalMask_def
      RotateRemoteMask_def SyncModes_def Let_def bindR_eq_Ok bindO_eq_Ok split: if_splits)

text \<open>C21: Whatever operations a session goes through, it keeps its id and its config, its masks
  stay those of the current modes, and its replay window stays within the configured size.\<close>

theorem session_operations_keep_the_invariant:
  assumes "session_inv s" and "session_reach s s1"
  shows "session_inv s1 \<and> ss_ID s1 = ss_ID s \<and> ss_MaskConfig s1 = ss_MaskConfig s \<and>
    mask_mode (mx_currentMask (ss_LocalMixer s1)) = served (mx_currentMode (ss_LocalMixer s1)) \<and>
    mask_mode (mx_currentMask (ss_RemoteMixer s1)) = served (mx_currentMode (ss_RemoteMixer s1)) \<and>
    length (ss_ReplayWindow s1) \<le> nat (ReplayWindowSize (ss_MaskConfig s))"
proof -
  from assms(2,1) have "session_inv s1"
    by (induction rule: session_reach.induct)
      (auto dest: Session_Wrap_inv Session_Unwrap_inv CheckReplay_inv rotations_inv)
  with session_reach_same [OF assms(2)] show ?thesis
    by (simp add: session_inv_def mixer_inv_def window_inv_def)
qed

lemma session0_inv: "session_inv session0"
  by (simp add: session_inv_def session0_def mixer_inv_def window_inv_def config0_def
      vk_mixer_def mixer_in_def day_modes_def night_modes_def served_def)

theorem session_operations_keep_the_invariant_witness:
  "session_reach session0 (snd (CheckReplay session0 9)) \<and>
   length (ss_ReplayWindow (snd (CheckReplay session0 9))) \<le> 2"
proof -
  have r: "session_reach session0 (snd (CheckReplay session0 9))"
    by (rule session_reach.checked [OF session_reach.start]) (rule prod.collapse [symmetric])
  from session_operations_keep_the_invariant [OF session0_inv r] r show ?thesis
    by (simp add: session0_def config0_def)
qed

text \<open>A payload that one session wraps comes out of the other session's \<open>Unwrap\<close> unchanged,
  whatever the environments, when the mode chosen for it is a codec mode able to carry it
  and the receiver's mask is of that mode; the receiver's mask stays as it is and the packet
  is counted.\<close>

theorem sessions_carry_the_payload:
  assumes "SelectMask (ss_LocalMixer s) p \<in> codec_modes - {ModeBrowser}"
    and "mode_carries (SelectMask (ss_LocalMixer s) p) p"
    and "mask_mode (mx_currentMask (ss_RemoteMixer r)) = SelectMask (ss_LocalMixer s) p"
    and "mask_ok (mx_currentMask (ss_RemoteMixer r))"
  shows "\<exists>pkt s1 e1 r1. Session_Wrap s p e = Ok (pkt, s1, e1) \<and>
    Session_Unwrap r pkt e2 = Some (Ok (Ok p, r1, e2)) \<and>
    ss_BytesIn r1 = ss_BytesIn r + of_nat (length pkt) \<and>
    mx_currentMask (ss_RemoteMixer r1) = mx_currentMask (ss_RemoteMixer r)"
  by (rule session_round_trip [OF assms])

theorem sessions_carry_the_payload_witness:
  "\<exists>pkt s1 e1 r1. Session_Wrap session0 [1, 2, 3] env0 = Ok (pkt, s1, e1) \<and>
    Session_Unwrap session0 pkt env0 = Some (Ok (Ok [1, 2, 3], r1, env0))"
  using sessions_carry_the_payload [of session0 "[1, 2, 3]" session0 env0 env0]
  by (auto simp: session0_def vk_mixer_selects codec_modes_def mode_carries_def)

text \<open>A sequence number that a session with replay protection accepted is refused by
  \<open>CheckReplay\<close> after any further checks that accept fewer numbers than the window holds.\<close>

theorem session_refuses_replays:
  assumes "replay_on s" and "CheckReplay s x = (False, s1)"
    and "check_all CheckReplay s1 xs = (flags, s2)"
    and "int (length (filter Not flags)) < ReplayWindowSize (ss_MaskConfig s)"
  shows "fst (CheckReplay s2 x)"
  using sr.replay_refused [OF assms(1), of x xs] assms(2-4) by (simp add: sr.accepted_def)

theorem session_refuses_replays_witness:
  "\<not> fst (CheckReplay session0 5) \<and>
   fst (CheckReplay (snd (check_all CheckReplay (snd (CheckReplay session0 5)) [6])) 5)"
proof -
  let ?s = "session0\<lparr>ss_ReplaySeen := {5}, ss_ReplayWindow := [5]\<rparr>"
  have on: "replay_on session0"
    by (simp add: replay_on_def session0_def config0_def window_inv_def)
  have a: "CheckReplay session0 5 = (False, ?s)"
    by (simp add: CheckReplay_def session0_def config0_def)
  have b: "check_all CheckReplay ?s [6] =
      ([False], session0\<lparr>ss_ReplaySeen := {6, 5}, ss_ReplayWindow := [5, 6]\<rparr>)"
    by (simp add: CheckReplay_def session0_def config0_def)
  from session_refuses_replays [OF on a b] a b show ?thesis
    by (simp add: session0_def config0_def)
qed

section \<open>The pipeline\<close>

text \<open>With masking off, the pipeline passes a stream on whole: for reads of any sizes within
  the buffer and a writer that does not fail, the pieces written, none of them empty, join
  to the data read, and \<open>Process\<close> returns the reader's final error.\<close>

theorem unmasked_stream_is_passed_on:
  assumes "\<not> ec_EnableMasking (se_config s)" and "engine_inv s (clk e)" and "k_budget k = None"
    and "list_all (\<lambda>d. length d \<le> 65536) ds"
  shows "\<exists>s1 e1 fs. engine_Process ds err s e k = Some (Ok (err, s1, e1, k\<lparr>k_out := k_out k @ fs\<rparr>)) \<and>
    concat fs = concat ds \<and> [] \<notin> set fs"
  by (rule engine_Process_plain [OF assms])

theorem unmasked_stream_is_passed_on_witness:
  "\<exists>s1 e1 fs. engine_Process [[1, 2, 3, 4, 5], [], [6]] IoEOF engine0 env0 sink0 =
      Some (Ok (IoEOF, s1, e1, sink0\<lparr>k_out := fs\<rparr>)) \<and> concat fs = [1, 2, 3, 4, 5, 6]"
  using unmasked_stream_is_passed_on [of engine0 env0 sink0 "[[1, 2, 3, 4, 5], [], [6]]" IoEOF]
    engine0_inv by (auto simp: engine0_def sink0_def)

text \<open>With masking on, one call of the pipeline masks the data as one packet and writes that
  packet in pieces: whatever the mask made of the data, the pieces join to it.\<close>

theorem masked_packet_is_cut_into_pieces:
  assumes "mask_out s d e = Ok (pkt, s1, e1)" and "engine_inv s (clk e1)" and "k_budget k = None"
  shows "\<exists>s2 e2 fs. engine_send s d e k = Some (Ok (Ok (), s2, e2, k\<lparr>k_out := k_out k @ fs\<rparr>)) \<and>
    engine_inv s2 (clk e2) \<and> concat fs = pkt \<and> [] \<notin> set fs \<and> se_config s2 = se_config s"
  by (rule engine_send_all [OF assms])

theorem masked_packet_is_cut_into_pieces_witness:
  "\<exists>s2 e2 fs. engine_send engine0 [1, 2, 3, 4, 5] env0 sink0 =
     Some (Ok (Ok (), s2, e2, sink0\<lparr>k_out := fs\<rparr>)) \<and> concat fs = [1, 2, 3, 4, 5]"
  using masked_packet_is_cut_into_pieces [of engine0 "[1, 2, 3, 4, 5]" env0 _ engine0 env0 sink0]
    engine0_inv by (auto simp: mask_out_def engine0_def sink0_def)

text \<open>The receiver unwraps each read on its own.\<close>

lemma unwrap_each_read:
  "ec_EnableMasking (se_config s) \<Longrightarrow> se_mixer s = Some m \<Longrightarrow>
   mask_mode (mx_currentMask m) = ModeVK \<Longrightarrow> k_budget k = None \<Longrightarrow>
   list_all (\<lambda>f. 16 \<le> length f \<and> length f \<le> 65536) fs \<Longrightarrow>
   \<exists>s1 e1. ProcessWithUnwrap fs err s e k =
     Some (Ok (err, s1, e1, k\<lparr>k_out := k_out k @ map (drop 16) fs\<rparr>))"
proof (induction fs arbitrary: s m e k)
  case (Cons f fs)
  let ?m = "m\<lparr>mx_packetsUnwrapped := mx_packetsUnwrapped m + 1\<rparr>"
  let ?s = "s\<lparr>se_mixer := Some ?m\<rparr>" and ?k = "k\<lparr>k_out := k_out k @ [drop 16 f]\<rparr>"
  have "ProcessWithUnwrap (f # fs) err s e k = ProcessWithUnwrap fs err ?s e ?k"
    using Cons.prems vk_accepts_anything [OF Cons.prems(3), of f] by (simp add: sink_write_def)
  moreover obtain s1 e1 where "ProcessWithUnwrap fs err ?s e ?k =
      Some (Ok (err, s1, e1, ?k\<lparr>k_out := k_out ?k @ map (drop 16) fs\<rparr>))"
    using Cons.IH [of ?s ?m ?k e] Cons.prems by auto
  ultimately show ?case by simp
qed simp

text \<open>A receiver in VK mode, given the pieces of a masked packet in reads of their own, takes
  the first sixteen bytes off each piece for a mask header: of every piece, not only of the
  first, sixteen bytes are lost. The pieces of one packet do not come out as its payload.\<close>

theorem each_piece_loses_sixteen_bytes:
  assumes "ec_EnableMasking (se_config s)" and "se_mixer s = Some m"
    and "mask_mode (mx_currentMask m) = ModeVK" and "k_budget k = None"
    and "list_all (\<lambda>f. 16 \<le> length f \<and> length f \<le> 65536) fs"
  shows "\<exists>s1 e1. ProcessWithUnwrap fs err s e k =
    Some (Ok (err, s1, e1, k\<lparr>k_out := k_out k @ map (drop 16) fs\<rparr>))"
  by (rule unwrap_each_read [OF assms])

theorem each_piece_loses_sixteen_bytes_witness:
  "\<exists>s1 e1. ProcessWithUnwrap [replicate 20 1, replicate 18 2] IoEOF
      (engine0\<lparr>se_mixer := Some vk_mixer, se_config := DefaultShredEngineConfig\<rparr>) env0 sink0 =
    Some (Ok (IoEOF, s1, e1, sink0\<lparr>k_out := [replicate 4 1, replicate 2 2]\<rparr>))"
  using each_piece_loses_sixteen_bytes [of
      "engine0\<lparr>se_mixer := Some vk_mixer, se_config := DefaultShredEngineConfig\<rparr>" vk_mixer
      sink0 "[replicate 20 1, replicate 18 2]" IoEOF env0]
  by (simp add: DefaultShredEngineConfig_def sink0_def)

end
