(* ===== verification/EngineServer.thy ===== *)
theory EngineServer
  imports Session Frames
begin

text \<open>
  The server of \<open>internal/engine/server.go\<close>. A \<open>ServerConnection\<close> is an object: the
  goroutine of its connection, the table \<open>connections\<close> and, through its session, the
  session manager all point to it. Objects are numbered in the order of their creation, and
  the two maps give numbers. Each function is what one goroutine does: a handshake, a packet
  that was read, a packet for a client; where another goroutine can see the middle of one, its
  parts are definitions of their own, and theory ServerTable takes them one by one. What is
  written to a connection and to the TUN device is kept in order.
\<close>

section \<open>State\<close>

record ServerConnection =
  sc_ID :: u64
  sc_Session :: Session
  sc_StartTime :: instant
  sc_LastSeen :: instant
  sc_BytesIn :: u64
  sc_BytesOut :: u64
  sc_sent :: "bytes list"
  sc_closed :: bool
  sc_write_error :: "go_error option"

record Server =
  sv_objects :: "ServerConnection list"
  sv_sessions :: "(u64 \<times> nat) list"
  sv_connections :: "(u64 \<times> nat) list"
  sv_handshake :: HandshakeManager
  sv_authKey :: bytes
  sv_tun :: "bytes list option"
  sv_stopped :: bool

text \<open>The key is the configured secret, or 32 random bytes.\<close>

definition NewServer :: "bytes \<Rightarrow> env \<Rightarrow> (Server \<times> env) result" where
  "NewServer secretKey e =
     (let (authKey, e1) = (if 0 < length secretKey then (secretKey, e) else draw 32 e) in
      bindR (NewHandshakeManager authKey (10 * second)) (\<lambda>hm.
        Ok (\<lparr>sv_objects = [], sv_sessions = [], sv_connections = [], sv_handshake = hm,
             sv_authKey = authKey, sv_tun = None, sv_stopped = False\<rparr>, e1)))"

definition on_object :: "nat \<Rightarrow> (ServerConnection \<Rightarrow> ServerConnection) \<Rightarrow> Server \<Rightarrow> Server" where
  "on_object c f sv = sv\<lparr>sv_objects := (sv_objects sv)[c := f (sv_objects sv ! c)]\<rparr>"

definition set_session :: "nat \<Rightarrow> Session \<Rightarrow> Server \<Rightarrow> Server" where
  "set_session c s sv = on_object c (\<lambda>sc. sc\<lparr>sc_Session := s\<rparr>) sv"

text \<open>\<open>Conn.Write\<close>: a closed connection refuses, another may fail.\<close>

definition conn_Write :: "nat \<Rightarrow> bytes \<Rightarrow> Server \<Rightarrow> unit result \<times> Server" where
  "conn_Write c pkt sv =
     (let sc = sv_objects sv ! c in
      if sc_closed sc then (Fail NetClosed, sv)
      else case sc_write_error sc of
        Some err \<Rightarrow> (Fail err, sv)
      | None \<Rightarrow> (Ok (), on_object c (\<lambda>sc. sc\<lparr>sc_sent := sc_sent sc @ [pkt]\<rparr>) sv))"

text \<open>A connection that breaks: its writes fail from now on.\<close>

definition break_connection :: "nat \<Rightarrow> go_error \<Rightarrow> Server \<Rightarrow> Server" where
  "break_connection c err sv = on_object c (\<lambda>sc. sc\<lparr>sc_write_error := Some err\<rparr>) sv"

section \<open>A connection\<close>

text \<open>
  The deferred functions of \<open>handleConnection\<close>, the last first: deletion from the table, by the
  id of the session, then \<open>Close\<close>. On a FIN the connection is closed before them; closing it
  again changes nothing.
\<close>

definition close_connection :: "nat \<Rightarrow> Server \<Rightarrow> Server" where
  "close_connection c sv = on_object c (\<lambda>sc. sc\<lparr>sc_closed := True\<rparr>) sv"

definition forget_connection :: "nat \<Rightarrow> Server \<Rightarrow> Server" where
  "forget_connection c sv =
     sv\<lparr>sv_connections := AList.delete (ss_ID (sc_Session (sv_objects sv ! c))) (sv_connections sv)\<rparr>"

definition end_connection :: "nat \<Rightarrow> Server \<Rightarrow> Server" where
  "end_connection c sv = close_connection c (forget_connection c sv)"

text \<open>
  The beginning of \<open>handleConnection\<close>. A connection whose handshake fails is closed and
  forgotten. After a handshake the session and the connection are made, the connection is
  entered in the table, the session is marked as established, and its modes are set.
\<close>

definition create_connection :: "SessionConfig \<Rightarrow> Server \<Rightarrow> env \<Rightarrow> (nat \<times> Server \<times> env) result" where
  "create_connection config sv e =
     bindR (CreateSessionWithConfig config [] e) (\<lambda>(session, _, e1).
       let (started, e2) = read_clock e1; (seen, e3) = read_clock e2; c = length (sv_objects sv);
           sc = \<lparr>sc_ID = ss_ID session, sc_Session = session, sc_StartTime = started,
                 sc_LastSeen = seen, sc_BytesIn = 0, sc_BytesOut = 0, sc_sent = [],
                 sc_closed = False, sc_write_error = None\<rparr>
       in Ok (c, sv\<lparr>sv_objects := sv_objects sv @ [sc],
                    sv_sessions := AList.update (ss_ID session) c (sv_sessions sv)\<rparr>, e3))"

definition enter_table :: "nat \<Rightarrow> Server \<Rightarrow> Server" where
  "enter_table c sv =
     sv\<lparr>sv_connections := AList.update (ss_ID (sc_Session (sv_objects sv ! c))) c (sv_connections sv)\<rparr>"

definition mark_established :: "nat \<Rightarrow> Server \<Rightarrow> Server" where
  "mark_established c sv =
     set_session c ((sc_Session (sv_objects sv ! c))\<lparr>ss_State := SessionStateEstablished\<rparr>) sv"

definition sync_connection :: "nat \<Rightarrow> Server \<Rightarrow> env \<Rightarrow> (Server \<times> env) result" where
  "sync_connection c sv e =
     bindR (SyncModes (sc_Session (sv_objects sv ! c)) e) (\<lambda>(s, e1). Ok (set_session c s sv, e1))"

text \<open>What the handshake writes is given with the outcome.\<close>

definition handleConnection ::
  "hs_conn \<Rightarrow> Server \<Rightarrow> env \<Rightarrow> (nat option \<times> bytes list \<times> Server \<times> env) result" where
  "handleConnection conn sv e =
     (case PerformServerHandshake (sv_handshake sv) conn e of
        (Panic, sent, hm, e1) \<Rightarrow> Panic
      | (Fail err, sent, hm, e1) \<Rightarrow> Ok (None, sent, sv\<lparr>sv_handshake := hm\<rparr>, e1)
      | (Ok config, sent, hm, e1) \<Rightarrow>
          bindR (create_connection config (sv\<lparr>sv_handshake := hm\<rparr>) e1) (\<lambda>(c, sv1, e2).
          bindR (sync_connection c (mark_established c (enter_table c sv1)) e2) (\<lambda>(sv2, e3).
            Ok (Some c, sent, sv2, e3))))"

text \<open>The session manager's \<open>UpdateActivity\<close>, on the object its map gives.\<close>

definition touch :: "u64 \<Rightarrow> Server \<Rightarrow> env \<Rightarrow> Server \<times> env" where
  "touch sid sv e =
     (case map_of (sv_sessions sv) sid of
        None \<Rightarrow> (sv, e)
      | Some c \<Rightarrow>
          (let (t, e1) = read_clock e in
           (on_object c (\<lambda>sc. sc\<lparr>sc_Session := (sc_Session sc)\<lparr>ss_LastSeen := t\<rparr>\<rparr>) sv, e1)))"

definition ip_version :: "byte \<Rightarrow> byte" where
  "ip_version b = drop_bit 4 b AND 0x0F"

definition is_ip :: "bytes \<Rightarrow> bool" where
  "is_ip p \<longleftrightarrow> 20 \<le> length p \<and> (ip_version (p ! 0) = 4 \<or> ip_version (p ! 0) = 6)"

definition is_fin :: "bytes \<Rightarrow> bool" where
  "is_fin data \<longleftrightarrow> 5 \<le> length data \<and> data ! 0 = 0xDE \<and> data ! 1 = 0xAD \<and>
     data ! 2 = 0xBE \<and> data ! 3 = 0xEF \<and> data ! 4 = 0x03"

definition to_tun :: "bytes \<Rightarrow> Server \<Rightarrow> Server" where
  "to_tun p sv = sv\<lparr>sv_tun := map_option (\<lambda>out. out @ [p]) (sv_tun sv)\<rparr>"

text \<open>
  One round of \<open>handleDataExchange\<close> with the packet that was read. A packet that does not
  unwrap is taken as it is when it looks like an IP packet.
\<close>

definition handle_packet :: "nat \<Rightarrow> bytes \<Rightarrow> Server \<Rightarrow> env \<Rightarrow> (Server \<times> env) result option" where
  "handle_packet c data sv e =
     (if data = [] then Some (Ok (sv, e))
      else if is_fin data then Some (Ok (end_connection c sv, e))
      else
        let (t, e1) = read_clock e;
            sv1 = on_object c (\<lambda>sc. sc\<lparr>sc_BytesIn := sc_BytesIn sc + of_nat (length data),
                                      sc_LastSeen := t\<rparr>) sv;
            (sv2, e2) = touch (sc_ID (sv_objects sv1 ! c)) sv1 e1 in
        bindO (Session_Unwrap (sc_Session (sv_objects sv2 ! c)) data e2) (\<lambda>(r, s, e3).
          let sv3 = set_session c s sv2 in
          case r of
            Panic \<Rightarrow> Some Panic
          | Ok unwrapped \<Rightarrow> Some (Ok (if is_ip unwrapped then to_tun unwrapped sv3 else sv3, e3))
          | Fail err \<Rightarrow> Some (Ok (if is_ip data then to_tun data sv3 else sv3, e3))))"

text \<open>A round on a TCP connection reads a frame first; a read that fails ends the connection.\<close>

definition handle_stream ::
  "nat \<Rightarrow> bytes \<Rightarrow> Server \<Rightarrow> env \<Rightarrow> (bytes \<times> Server \<times> env) result option" where
  "handle_stream c stream sv e =
     (case readFrame_stream stream of
        (Ok data, rest) \<Rightarrow> bindO (handle_packet c data sv e) (\<lambda>(sv1, e1). Some (Ok (rest, sv1, e1)))
      | (Fail err, rest) \<Rightarrow> Some (Ok (rest, end_connection c sv, e))
      | (Panic, rest) \<Rightarrow> Some Panic)"

section \<open>To the clients\<close>

text \<open>
  \<open>SendToSession\<close> looks the connection up under the lock of the table, then writes to what it
  found without it.
\<close>

definition send_on :: "nat \<Rightarrow> bytes \<Rightarrow> Server \<Rightarrow> env \<Rightarrow> (unit result \<times> Server \<times> env) result" where
  "send_on c data sv e =
     bindR (Session_Wrap (sc_Session (sv_objects sv ! c)) data e) (\<lambda>(wrapped, s, e1).
       let (r, sv1) = conn_Write c wrapped (set_session c s sv); (t, e2) = read_clock e1 in
       Ok (r, on_object c (\<lambda>sc. sc\<lparr>sc_BytesOut := sc_BytesOut sc + of_nat (length wrapped),
                                  sc_LastSeen := t\<rparr>) sv1, e2))"

definition SendToSession :: "u64 \<Rightarrow> bytes \<Rightarrow> Server \<Rightarrow> env \<Rightarrow> (unit result \<times> Server \<times> env) result" where
  "SendToSession sid data sv e =
     (case map_of (sv_connections sv) sid of
        None \<Rightarrow> Ok (Fail ErrSessionNotFound, sv, e)
      | Some c \<Rightarrow> send_on c data sv e)"

text \<open>The goroutines of \<open>Broadcast\<close> run in some order.\<close>

fun Broadcast :: "u64 list \<Rightarrow> bytes \<Rightarrow> Server \<Rightarrow> env \<Rightarrow> (Server \<times> env) result" where
  "Broadcast [] data sv e = Ok (sv, e)"
| "Broadcast (sid # sids) data sv e =
     bindR (SendToSession sid data sv e) (\<lambda>(_, sv1, e1). Broadcast sids data sv1 e1)"

text \<open>
  One round of \<open>tunLoop\<close>: a packet of the TUN device goes to every connection, in the order
  in which the map is visited.
\<close>

fun tun_round :: "nat list \<Rightarrow> bytes \<Rightarrow> Server \<Rightarrow> env \<Rightarrow> (Server \<times> env) result" where
  "tun_round [] data sv e = Ok (sv, e)"
| "tun_round (c # cs) data sv e =
     (if data = [] then Ok (sv, e)
      else bindR (Session_Wrap (sc_Session (sv_objects sv ! c)) data e) (\<lambda>(wrapped, s, e1).
        tun_round cs data (snd (conn_Write c wrapped (set_session c s sv))) e1))"

section \<open>Upkeep\<close>

text \<open>
  One tick of \<open>cleanupLoop\<close>: the session manager forgets the sessions, and the server the
  connections, that were idle for ten minutes. Each test reads the clock.
\<close>

fun idle_out :: "(nat \<Rightarrow> instant) \<Rightarrow> (u64 \<times> nat) list \<Rightarrow> env \<Rightarrow> nat list \<times> (u64 \<times> nat) list \<times> env" where
  "idle_out seen [] e = ([], [], e)"
| "idle_out seen (p # ps) e =
     (let (t, e1) = read_clock e; (dead, alive, e2) = idle_out seen ps e1 in
      if 10 * minute < t - seen (snd p) then (snd p # dead, alive, e2) else (dead, p # alive, e2))"

definition close_all :: "nat list \<Rightarrow> Server \<Rightarrow> Server" where
  "close_all cs sv = fold (\<lambda>c. on_object c (\<lambda>sc. sc\<lparr>sc_closed := True\<rparr>)) cs sv"

definition cleanup_tick :: "Server \<Rightarrow> env \<Rightarrow> Server \<times> env" where
  "cleanup_tick sv e =
     (let (_, sessions, e1) =
            idle_out (\<lambda>c. ss_LastSeen (sc_Session (sv_objects sv ! c))) (sv_sessions sv) e;
          (dead, alive, e2) =
            idle_out (\<lambda>c. sc_LastSeen (sv_objects sv ! c)) (sv_connections sv) e1 in
      (close_all dead (sv\<lparr>sv_sessions := sessions, sv_connections := alive\<rparr>), e2))"

definition on_session ::
  "u64 \<Rightarrow> (Session \<Rightarrow> env \<Rightarrow> (Session \<times> env) result) \<Rightarrow> Server \<Rightarrow> env \<Rightarrow>
     (unit result \<times> Server \<times> env) result" where
  "on_session sid f sv e =
     (case map_of (sv_connections sv) sid of
        None \<Rightarrow> Ok (Fail ErrSessionNotFound, sv, e)
      | Some c \<Rightarrow>
          bindR (f (sc_Session (sv_objects sv ! c)) e) (\<lambda>(s, e1). Ok (Ok (), set_session c s sv, e1)))"

definition ForceRotateSession ::
  "u64 \<Rightarrow> Server \<Rightarrow> env \<Rightarrow> (unit result \<times> Server \<times> env) result" where
  "ForceRotateSession sid sv e = on_session sid RotateLocalMask sv e"

definition SetSessionModes ::
  "u64 \<Rightarrow> ProtocolMode list \<Rightarrow> Server \<Rightarrow> env \<Rightarrow> (unit result \<times> Server \<times> env) result" where
  "SetSessionModes sid modes sv e =
     on_session sid (\<lambda>s. SyncModes (s\<lparr>ss_MaskConfig := (ss_MaskConfig s)\<lparr>Modes := modes\<rparr>\<rparr>)) sv e"

definition Server_GetSession :: "Server \<Rightarrow> u64 \<Rightarrow> Session option" where
  "Server_GetSession sv sid =
     map_option (\<lambda>c. sc_Session (sv_objects sv ! c)) (map_of (sv_connections sv) sid)"

definition GetConnection :: "Server \<Rightarrow> u64 \<Rightarrow> ServerConnection option" where
  "GetConnection sv sid = map_option (\<lambda>c. sv_objects sv ! c) (map_of (sv_connections sv) sid)"

text \<open>
  \<open>Start\<close>: a TUN device that cannot be made is done without; an inbound side that cannot is
  an error. The loops are the steps above.
\<close>

definition Server_Start :: "bool \<Rightarrow> unit result \<Rightarrow> Server \<Rightarrow> unit result \<times> Server" where
  "Server_Start tun_made inbound sv = (inbound, if tun_made then sv\<lparr>sv_tun := Some []\<rparr> else sv)"

text \<open>Closing a channel twice panics.\<close>

definition Server_Stop :: "Server \<Rightarrow> Server result" where
  "Server_Stop sv =
     (if sv_stopped sv then Panic
      else Ok (close_all (map snd (sv_connections sv)) (sv\<lparr>sv_stopped := True\<rparr>)))"

end
