(* ===== verification/EngineClient.thy ===== *)
theory EngineClient
  imports Session EngineServer
begin

text \<open>
  The client of \<open>internal/engine/client.go\<close>: making it, connecting, the handshake, the data
  path in both directions, and the switching of masks. Dialling and the routing commands of
  the operating system are outside; whether dialling succeeded is an argument. What is
  written to the connection and what is handed to the callback are kept in order.
\<close>

section \<open>State\<close>

record ClientConfig =
  cc_AuthKey :: bytes
  cc_SwitchInterval :: duration
  cc_Modes :: "ProtocolMode list"
  cc_HandshakeTimeout :: duration
  cc_EnableReplayProtection :: bool

record Client =
  cl_session :: Session
  cl_handshakeMgr :: HandshakeManager
  cl_mixer :: MaskMixer
  cl_authKey :: bytes
  cl_connected :: bool
  cl_handshakeDone :: bool
  cl_stopped :: bool
  cl_packetsSent :: u64
  cl_packetsRecv :: u64
  cl_bytesSent :: u64
  cl_bytesRecv :: u64
  cl_currentDomain :: string
  cl_conn :: bool
  cl_write_error :: "go_error option"
  cl_sent :: "bytes list"
  cl_delivered :: "bytes list option"

definition DefaultClientConfig :: "env \<Rightarrow> ClientConfig \<times> env" where
  "DefaultClientConfig e =
     (let (authKey, e1) = draw 32 e in
      (\<lparr>cc_AuthKey = authKey, cc_SwitchInterval = 5 * minute,
        cc_Modes = [ModeVK, ModeRuTube, ModeYandex, ModeOzon, ModeWildberries, ModeSberID,
          ModeGosuslugi, ModeWebRTC, ModeQUIC, ModeTLS],
        cc_HandshakeTimeout = 10 * second, cc_EnableReplayProtection = True\<rparr>, e1))"

text \<open>Without a key there is no client. The session's \<open>CurrentMode\<close> is left unset, that is 0.\<close>

definition NewClient :: "ClientConfig \<Rightarrow> env \<Rightarrow> (Client option \<times> env) result" where
  "NewClient config e =
     (if cc_AuthKey config = [] then Ok (None, e)
      else
        bindR (CreateSessionWithConfig
            \<lparr>SwitchInterval = cc_SwitchInterval config, Modes = cc_Modes config, CurrentMode = 0,
             EnableReplayProtection = cc_EnableReplayProtection config, ReplayWindowSize = 64\<rparr>
            NewSessionManager e) (\<lambda>(session, _, e1).
        bindR (NewMaskMixer (cc_SwitchInterval config) e1) (\<lambda>(m, e2).
        bindR (Mixer.SetModes (cc_Modes config) m e2) (\<lambda>(mixer, e3).
        bindR (NewHandshakeManager (cc_AuthKey config) (cc_HandshakeTimeout config)) (\<lambda>hm.
          Ok (Some \<lparr>cl_session = session, cl_handshakeMgr = hm, cl_mixer = mixer,
                    cl_authKey = cc_AuthKey config, cl_connected = False,
                    cl_handshakeDone = False, cl_stopped = False, cl_packetsSent = 0,
                    cl_packetsRecv = 0, cl_bytesSent = 0, cl_bytesRecv = 0,
                    cl_currentDomain = [], cl_conn = False, cl_write_error = None, cl_sent = [],
                    cl_delivered = None\<rparr>, e3))))))"

section \<open>Connecting\<close>

text \<open>
  \<open>conn\<close> is what the one read of the handshake gives; the packets the handshake writes are
  part of the outcome.
\<close>

definition performHandshake ::
  "hs_conn \<Rightarrow> Client \<Rightarrow> env \<Rightarrow> (unit result \<times> bytes list \<times> Client \<times> env) result" where
  "performHandshake conn c e =
     (if \<not> cl_conn c then Ok (Fail NetClosed, [], c, e)
      else
        let (t, e1) = read_clock e;
            sequence = unixnano64 t XOR ss_ID (cl_session c) in
        case PerformClientHandshake (cl_handshakeMgr c) conn (GetSwitchInterval (cl_mixer c))
               (GetModes (cl_mixer c)) (GetCurrentMode (cl_mixer c)) sequence e1 of
          (Panic, sent, hm, e2) \<Rightarrow> Panic
        | (Fail err, sent, hm, e2) \<Rightarrow> Ok (Fail err, sent, c\<lparr>cl_handshakeMgr := hm\<rparr>, e2)
        | (Ok _, sent, hm, e2) \<Rightarrow>
            bindR (SyncModes ((cl_session c)\<lparr>ss_State := SessionStateEstablished\<rparr>) e2) (\<lambda>(s, e3).
              Ok (Ok (), sent, c\<lparr>cl_handshakeMgr := hm, cl_session := s\<rparr>, e3)))"

text \<open>
  \<open>Start\<close> without what it does about routes: \<open>Start_routed\<close> of theory RoutingProperties puts \<open>saveDefaultRoute\<close>
  before it and \<open>setupRouting\<close> behind it.
\<close>

definition Start ::
  "unit result \<Rightarrow> hs_conn \<Rightarrow> Client \<Rightarrow> env \<Rightarrow> (unit result \<times> bytes list \<times> Client \<times> env) result"
  where
  "Start dial conn c e =
     (if cl_connected c then Ok (Ok (), [], c, e)
      else case dial of
        Panic \<Rightarrow> Panic
      | Fail err \<Rightarrow> Ok (Fail err, [], c, e)
      | Ok _ \<Rightarrow>
          let c1 = c\<lparr>cl_conn := True, cl_handshakeMgr := ResetReplayState (cl_handshakeMgr c)\<rparr> in
          bindR (performHandshake conn c1 e) (\<lambda>(r, sent, c2, e1).
            case r of
              Ok _ \<Rightarrow> Ok (Ok (), sent, c2\<lparr>cl_connected := True, cl_handshakeDone := True\<rparr>, e1)
            | _ \<Rightarrow> Ok (r, sent, c2\<lparr>cl_write_error := Some NetClosed\<rparr>, e1)))"

definition reconnect ::
  "unit result \<Rightarrow> hs_conn \<Rightarrow> Client \<Rightarrow> env \<Rightarrow> (unit result \<times> bytes list \<times> Client \<times> env) result"
  where
  "reconnect dial conn c e =
     (let c0 = c\<lparr>cl_connected := False, cl_handshakeDone := False, cl_conn := False\<rparr> in
      case dial of
        Panic \<Rightarrow> Panic
      | Fail err \<Rightarrow> Ok (Fail err, [], c0, e)
      | Ok _ \<Rightarrow>
          let c1 = c0\<lparr>cl_conn := True, cl_write_error := None,
                      cl_handshakeMgr := ResetReplayState (cl_handshakeMgr c0)\<rparr> in
          bindR (performHandshake conn c1 e) (\<lambda>(r, sent, c2, e1).
            case r of
              Ok _ \<Rightarrow> Ok (Ok (), sent, c2\<lparr>cl_connected := True, cl_handshakeDone := True\<rparr>, e1)
            | _ \<Rightarrow> Ok (r, sent, c2, e1)))"

section \<open>Sending\<close>

definition client_write :: "bytes \<Rightarrow> Client \<Rightarrow> unit result \<times> Client" where
  "client_write pkt c =
     (if \<not> cl_conn c then (Fail NetClosed, c)
      else case cl_write_error c of
        Some err \<Rightarrow> (Fail err, c)
      | None \<Rightarrow> (Ok (), c\<lparr>cl_sent := cl_sent c @ [pkt]\<rparr>))"

text \<open>A packet of twenty bytes or more that is not IP is dropped in silence; a shorter one is sent.\<close>

definition Send :: "bytes \<Rightarrow> Client \<Rightarrow> env \<Rightarrow> (unit result \<times> Client \<times> env) result" where
  "Send payload c e =
     (if \<not> cl_connected c then Ok (Fail NetClosed, c, e)
      else if 20 \<le> length payload \<and> \<not> is_ip payload then Ok (Ok (), c, e)
      else
        let c1 = c\<lparr>cl_packetsSent := cl_packetsSent c + 1,
                   cl_bytesSent := cl_bytesSent c + of_nat (length payload)\<rparr> in
        bindR (Session_Wrap (cl_session c1) payload e) (\<lambda>(wrapped, s, e1).
          let (r, c2) = client_write wrapped (c1\<lparr>cl_session := s\<rparr>) in Ok (r, c2, e1)))"

text \<open>One beat of the keep-alive in \<open>readLoop\<close>.\<close>

definition keep_alive :: "Client \<Rightarrow> Client" where
  "keep_alive c = (if cl_connected c then snd (client_write [0] c) else c)"

section \<open>Receiving\<close>

function sni_loop :: "bytes \<Rightarrow> nat \<Rightarrow> nat \<Rightarrow> bytes result" where
  "sni_loop data offset endExt =
     (if offset + 4 \<le> endExt then
        bindR (u16_at data offset) (\<lambda>extType.
        bindR (u16_at data (offset + 2)) (\<lambda>extLen.
          let off = offset + 4 in
          if extType = 0 then
            if length data < off + 2 then Ok []
            else bindR (u16_at data off) (\<lambda>sniLen.
              if off + 2 + unat sniLen \<le> length data
              then slice data (off + 2) (off + 2 + unat sniLen)
              else sni_loop data (off + 2 + unat extLen) endExt)
          else sni_loop data (off + unat extLen) endExt))
      else Ok [])"
  by pat_completeness auto
termination
  by (relation "measure (\<lambda>(data, offset, endExt). endExt - offset)") auto

declare sni_loop.simps [simp del]

definition extractSNI :: "bytes \<Rightarrow> bytes result" where
  "extractSNI data =
     (if length data < 43 then Ok []
      else
        bindR (index data 43) (\<lambda>sessionIDLen.
        let offset = 44 + unat sessionIDLen in
        if length data < offset + 2 then Ok []
        else bindR (u16_at data offset) (\<lambda>cipherSuitesLen.
          let offset = offset + (2 + unat cipherSuitesLen) in
          if length data < offset + 1 then Ok []
          else bindR (index data offset) (\<lambda>compressionMethodsLen.
            let offset = offset + (1 + unat compressionMethodsLen) in
            if length data < offset + 2 then Ok []
            else bindR (u16_at data offset) (\<lambda>extensionsLen.
              sni_loop data (offset + 2) (offset + 2 + unat extensionsLen))))))"

text \<open>A change of the server name in a TLS hello switches the client's mixer, not its session's.\<close>

definition follow_domain ::
  "(string \<times> string) list \<Rightarrow> bytes \<Rightarrow> Client \<Rightarrow> env \<Rightarrow> (Client \<times> env) result" where
  "follow_domain order unwrapped c e =
     (if 43 < length unwrapped \<and> unwrapped ! 0 = 0x16 then
        bindR (extractSNI unwrapped) (\<lambda>sni.
          let domain = map (\<lambda>b. char_of (unat b)) sni in
          if domain \<noteq> [] \<and> domain \<noteq> cl_currentDomain c then
            bindR (SwitchToDomain order domain (cl_mixer c) e) (\<lambda>(m, e1).
              Ok (c\<lparr>cl_currentDomain := domain, cl_mixer := m\<rparr>, e1))
          else Ok (c, e))
      else Ok (c, e))"

definition processIncomingPacket ::
  "(string \<times> string) list \<Rightarrow> bytes \<Rightarrow> Client \<Rightarrow> env \<Rightarrow> (Client \<times> env) result option" where
  "processIncomingPacket order data c e =
     bindO (Session_Unwrap (cl_session c) data e) (\<lambda>(r, s, e1).
       let c1 = c\<lparr>cl_session := s\<rparr> in
       case r of
         Panic \<Rightarrow> Some Panic
       | Fail err \<Rightarrow> Some (Ok (c1, e1))
       | Ok unwrapped \<Rightarrow>
           if unwrapped = [] then Some (Ok (c1, e1))
           else bindO (Some (follow_domain order unwrapped c1 e1)) (\<lambda>(c2, e2).
             if 20 \<le> length unwrapped \<and> \<not> is_ip unwrapped then Some (Ok (c2, e2))
             else Some (Ok (c2\<lparr>cl_delivered :=
               map_option (\<lambda>out. out @ [unwrapped]) (cl_delivered c2)\<rparr>, e2))))"

text \<open>One read of \<open>readLoop\<close>; the packet is handed to a goroutine that runs in one step.\<close>

definition receive ::
  "(string \<times> string) list \<Rightarrow> bytes \<Rightarrow> Client \<Rightarrow> env \<Rightarrow> (Client \<times> env) result option" where
  "receive order data c e =
     (if data = [] \<or> \<not> cl_handshakeDone c then Some (Ok (c, e))
      else processIncomingPacket order data
        (c\<lparr>cl_packetsRecv := cl_packetsRecv c + 1,
           cl_bytesRecv := cl_bytesRecv c + of_nat (length data)\<rparr>) e)"

section \<open>Switching\<close>

definition Client_ForceRotate :: "Client \<Rightarrow> env \<Rightarrow> (Client \<times> env) result" where
  "Client_ForceRotate c e =
     bindR (ForceRotate (cl_mixer c) e) (\<lambda>(m, e1).
     bindR (RotateLocalMask (cl_session c) e1) (\<lambda>(s, e2).
       Ok (c\<lparr>cl_mixer := m, cl_session := s\<rparr>, e2)))"

definition Client_SetModes :: "ProtocolMode list \<Rightarrow> Client \<Rightarrow> env \<Rightarrow> (Client \<times> env) result" where
  "Client_SetModes modes c e =
     bindR (Mixer.SetModes modes (cl_mixer c) e) (\<lambda>(m, e1).
     bindR (SyncModes ((cl_session c)\<lparr>ss_MaskConfig :=
         (ss_MaskConfig (cl_session c))\<lparr>Modes := modes\<rparr>\<rparr>) e1) (\<lambda>(s, e2).
       Ok (c\<lparr>cl_mixer := m, cl_session := s\<rparr>, e2)))"

definition Client_SetSwitchInterval :: "duration \<Rightarrow> Client \<Rightarrow> env \<Rightarrow> (Client \<times> env) result" where
  "Client_SetSwitchInterval interval c e =
     bindR (SyncModes ((cl_session c)\<lparr>ss_MaskConfig :=
         (ss_MaskConfig (cl_session c))\<lparr>SwitchInterval := interval\<rparr>\<rparr>) e) (\<lambda>(s, e1).
       Ok (c\<lparr>cl_mixer := SetSwitchInterval interval (cl_mixer c), cl_session := s\<rparr>, e1))"

definition SetOnPacket :: "Client \<Rightarrow> Client" where
  "SetOnPacket c = c\<lparr>cl_delivered := Some (case cl_delivered c of None \<Rightarrow> [] | Some out \<Rightarrow> out)\<rparr>"

end
