(* ===== verification/EngineLaws.thy ===== *)
theory EngineLaws
  imports EngineClient ServerLaws
begin

text \<open>
  What the client and the server make of a session: after the handshake both stand in the
  first of the agreed modes; a packet that one end sends is delivered by the other.
\<close>

section \<open>In step\<close>

text \<open>An end in step with mode \<open>md\<close>: it sends in that mode and expects it.\<close>

definition in_step :: "ProtocolMode \<Rightarrow> Session \<Rightarrow> bool" where
  "in_step md s \<longleftrightarrow> mx_currentMode (ss_LocalMixer s) = md \<and>
     mask_mode (mx_currentMask (ss_RemoteMixer s)) = md \<and> mask_ok (mx_currentMask (ss_RemoteMixer s))"

definition plain_modes :: "ProtocolMode set" where
  "plain_modes = codec_modes - {ModeBrowser}"

lemma SetModes_to:
  assumes "modes \<noteq> []" and "hd modes \<in> plain_modes"
  shows "\<exists>m1 e1. Mixer.SetModes modes m e = Ok (m1, e1) \<and> mx_currentMode m1 = hd modes \<and>
    mx_modes m1 = modes \<and> mask_mode (mx_currentMask m1) = hd modes \<and> mask_ok (mx_currentMask m1) \<and>
    mx_switchInterval m1 = mx_switchInterval m"
proof -
  obtain mk e1 where "CreateMask (hd modes) e = Ok (mk, e1)" "mask_mode mk = hd modes" "mask_ok mk"
    using CreateMask_ok [of "hd modes" e] assms(2) codec_served by (auto simp: plain_modes_def)
  with assms(1) show ?thesis by (simp add: SetModes_def switch_to_def case_prod_beta Let_def)
qed

lemma SyncModes_in_step:
  assumes "Modes (ss_MaskConfig s) \<noteq> []" and "hd (Modes (ss_MaskConfig s)) \<in> plain_modes"
  shows "\<exists>s1 e1. SyncModes s e = Ok (s1, e1) \<and> in_step (hd (Modes (ss_MaskConfig s))) s1 \<and>
    ss_ID s1 = ss_ID s \<and> ss_State s1 = ss_State s \<and> ss_MaskConfig s1 = ss_MaskConfig s \<and>
    mx_modes (ss_RemoteMixer s1) = Modes (ss_MaskConfig s)"
proof -
  let ?ms = "Modes (ss_MaskConfig s)"
  obtain l e1 where l: "Mixer.SetModes ?ms (ss_LocalMixer s) e = Ok (l, e1)" "mx_currentMode l = hd ?ms"
    using SetModes_to [OF assms] by blast
  obtain r e2 where r: "Mixer.SetModes ?ms (ss_RemoteMixer s) e1 = Ok (r, e2)"
    "mask_mode (mx_currentMask r) = hd ?ms" "mask_ok (mx_currentMask r)" "mx_modes r = ?ms"
    using SetModes_to [OF assms] by blast
  from l r show ?thesis
    by (simp add: SyncModes_def Let_def in_step_def SetSwitchInterval_def)
qed

section \<open>IP packets\<close>

lemma is_ip_not_tls: "is_ip p \<Longrightarrow> p ! 0 \<noteq> 0x16"
proof
  assume "is_ip p" and "p ! 0 = 0x16"
  moreover have "ip_version 0x16 = 1" by (simp add: ip_version_def)
  ultimately show False by (simp add: is_ip_def)
qed

lemma is_ip_ne: "is_ip p \<Longrightarrow> p \<noteq> []"
  by (auto simp: is_ip_def)

lemma select_ip: "is_ip p \<Longrightarrow> SelectMask m p = mx_currentMode m"
  using is_ip_not_tls by (simp add: SelectMask_def GetCurrentMode_def)

text \<open>No codec mask takes an empty packet.\<close>

lemma plain_unwrap_empty:
  "mask_mode m \<in> plain_modes \<Longrightarrow> Masker_Unwrap m [] e \<noteq> Some (Ok x)"
  by (cases m)
    (simp_all add: plain_modes_def codec_modes_def stateless_def VK_Unwrap_def Wildberries_Unwrap_def
      Gosuslugi_Unwrap_def Ozon_Unwrap_def SberID_Unwrap_def Yandex_Unwrap_def RuTube_Unwrap_def
      Zoom_Unwrap_def Teams_Unwrap_def WinUpdate_Unwrap_def DoH_Unwrap_def crlf_def)

text \<open>From an end in step to another, whatever the environments.\<close>

text \<open>A payload that looks like a TLS record goes into the browser mask instead.\<close>

definition hello_like :: "bytes \<Rightarrow> bool" where
  "hello_like p \<longleftrightarrow> 5 \<le> length p \<and> p ! 0 = 0x16 \<and> p ! 1 = 0x03"

lemma is_ip_not_hello: "is_ip p \<Longrightarrow> \<not> hello_like p"
  using is_ip_not_tls by (simp add: hello_like_def)

lemma in_step_carries:
  assumes "in_step md s" and "md \<in> plain_modes" and "mode_carries md p" and "\<not> hello_like p"
  shows "\<exists>pkt s1 e1. Session_Wrap s p e = Ok (pkt, s1, e1) \<and>
    in_step md s1 \<and> ss_ID s1 = ss_ID s \<and> pkt \<noteq> [] \<and>
    (\<forall>r e2. in_step md r \<longrightarrow> (\<exists>r1. (\<forall>e3. Session_Unwrap r pkt e3 = Some (Ok (Ok p, r1, e3))) \<and> in_step md r1))"
proof -
  let ?m = "ss_LocalMixer s"
  have sel: "SelectMask ?m p = md" using assms(1,4) by (auto simp: SelectMask_def GetCurrentMode_def hello_like_def in_step_def)
  obtain mk e1 where mk: "CreateMask md e = Ok (mk, e1)" "mask_mode mk = md" "mask_ok mk"
    using CreateMask_ok [of md e] assms(2) codec_served by (auto simp: plain_modes_def)
  from masker_codec [OF mk(3), of p e1] mk(2) assms(2,3) obtain pkt mk1 e3 where
    w: "Masker_Wrap mk p e1 = Ok (pkt, mk1, e3)" and
    u: "\<And>m2 e2. mask_ok m2 \<Longrightarrow> mask_mode m2 = md \<Longrightarrow> Masker_Unwrap m2 pkt e2 = Some (Ok (p, m2, e2))"
    by (auto simp: plain_modes_def)
  from mk w sel have m: "Mixer_Wrap ?m p e = Ok (pkt, ?m\<lparr>mx_packetsWrapped := mx_packetsWrapped ?m + 1,
      mx_stats := count_mode md (mx_stats ?m)\<rparr>, e3)"
    by (simp add: Mixer_Wrap_def Let_def)
  have "Mixer_Unwrap x pkt e2 = Some (Ok (Ok p, x\<lparr>mx_packetsUnwrapped := mx_packetsUnwrapped x + 1\<rparr>, e2))"
    if "mask_mode (mx_currentMask x) = md" "mask_ok (mx_currentMask x)" for x e2
    using u [OF that(2,1)] by (simp add: Mixer_Unwrap_def)
  then have "\<exists>r1. (\<forall>e3. Session_Unwrap r pkt e3 = Some (Ok (Ok p, r1, e3))) \<and> in_step md r1" if "in_step md r" for r
    using that by (simp add: Session_Unwrap_def Let_def in_step_def)
  moreover have "pkt \<noteq> []"
  proof -
    have "Masker_Unwrap mk pkt e1 = Some (Ok (p, mk, e1))" using u [OF mk(3,2)] .
    then show ?thesis using plain_unwrap_empty [of mk e1] mk(2) assms(2) by auto
  qed
  ultimately show ?thesis
    using m assms(1) by (simp add: Session_Wrap_def Let_def in_step_def)
qed

lemma in_step_delivers:
  assumes "in_step md s" and "in_step md r" and "md \<in> plain_modes" and "mode_carries md p" and "is_ip p"
  shows "\<exists>pkt s1 e1 r1. Session_Wrap s p e = Ok (pkt, s1, e1) \<and>
    in_step md s1 \<and> ss_ID s1 = ss_ID s \<and> pkt \<noteq> [] \<and>
    (\<forall>e2. Session_Unwrap r pkt e2 = Some (Ok (Ok p, r1, e2))) \<and> in_step md r1"
  using in_step_carries [OF assms(1,3,4) is_ip_not_hello [OF assms(5)], of e] assms(2) by fast

section \<open>Objects of the server\<close>

lemma on_object_simps [simp]:
  "sv_connections (on_object c f sv) = sv_connections sv"
  "sv_sessions (on_object c f sv) = sv_sessions sv"
  "sv_tun (on_object c f sv) = sv_tun sv"
  "sv_handshake (on_object c f sv) = sv_handshake sv"
  "length (sv_objects (on_object c f sv)) = length (sv_objects sv)"
  by (simp_all add: on_object_def)

lemma on_object_nth:
  "c < length (sv_objects sv) \<Longrightarrow> sv_objects (on_object c f sv) ! c = f (sv_objects sv ! c)"
  "d \<noteq> c \<Longrightarrow> sv_objects (on_object c f sv) ! d = sv_objects sv ! d"
  by (simp_all add: on_object_def)

text \<open>Touching a session changes a time only: what does not depend on it is kept.\<close>

definition timeless :: "(Session \<Rightarrow> bool) \<Rightarrow> bool" where
  "timeless P \<longleftrightarrow> (\<forall>s t. P (s\<lparr>ss_LastSeen := t\<rparr>) = P s)"

lemma timeless_in_step: "timeless (in_step md)"
  by (simp add: timeless_def in_step_def)

lemma touch_keeps:
  assumes "c < length (sv_objects sv)"
  shows "timeless P \<Longrightarrow> P (sc_Session (sv_objects (fst (touch sid sv e)) ! c)) \<longleftrightarrow>
      P (sc_Session (sv_objects sv ! c))"
    and "sv_tun (fst (touch sid sv e)) = sv_tun sv"
    and "sv_connections (fst (touch sid sv e)) = sv_connections sv"
    and "length (sv_objects (fst (touch sid sv e))) = length (sv_objects sv)"
proof -
  show "P (sc_Session (sv_objects (fst (touch sid sv e)) ! c)) \<longleftrightarrow> P (sc_Session (sv_objects sv ! c))"
    if "timeless P"
  proof (cases "map_of (sv_sessions sv) sid")
    case (Some d)
    then show ?thesis
      using assms that
      by (cases "d = c") (simp_all add: touch_def case_prod_beta Let_def on_object_nth timeless_def)
  qed (simp add: touch_def)
  show "sv_tun (fst (touch sid sv e)) = sv_tun sv"
    "sv_connections (fst (touch sid sv e)) = sv_connections sv"
    "length (sv_objects (fst (touch sid sv e))) = length (sv_objects sv)"
    by (simp_all add: touch_def case_prod_beta Let_def split: option.split)
qed

text \<open>A packet read by the server, up to what its session makes of it.\<close>

lemma handle_packet_session:
  assumes "c < length (sv_objects sv)" and "pkt \<noteq> []" and "\<not> is_fin pkt" and "timeless P"
    and "P (sc_Session (sv_objects sv ! c))"
    and "\<And>r e2. P r \<Longrightarrow> \<exists>r1 e3. Session_Unwrap r pkt e2 = Some (Ok (Ok p, r1, e3)) \<and> Q r1"
  shows "\<exists>sv2 e4. handle_packet c pkt sv e = Some (Ok (sv2, e4)) \<and>
    sv_tun sv2 = map_option (\<lambda>out. if is_ip p then out @ [p] else out) (sv_tun sv) \<and>
    Q (sc_Session (sv_objects sv2 ! c)) \<and>
    length (sv_objects sv2) = length (sv_objects sv)"
proof -
  let ?sv1 = "on_object c (\<lambda>sc. sc\<lparr>sc_BytesIn := sc_BytesIn sc + of_nat (length pkt),
      sc_LastSeen := fst (read_clock e)\<rparr>) sv"
  let ?t = "touch (sc_ID (sv_objects ?sv1 ! c)) ?sv1 (snd (read_clock e))"
  have c1: "c < length (sv_objects ?sv1)" using assms(1) by simp
  have "P (sc_Session (sv_objects (fst ?t) ! c))"
    using touch_keeps(1) [OF c1 assms(4)] assms(1,5) by (simp add: on_object_nth)
  from assms(6) [OF this, of "snd ?t"] obtain r1 e3 where
    r1: "Session_Unwrap (sc_Session (sv_objects (fst ?t) ! c)) pkt (snd ?t) = Some (Ok (Ok p, r1, e3))"
    "Q r1" by blast
  have "sc_Session (sv_objects (set_session c r1 (fst ?t)) ! c) = r1"
    using touch_keeps(4) [OF c1] assms(1) by (simp add: set_session_def on_object_nth)
  moreover have "handle_packet c pkt sv e = Some (Ok
      (if is_ip p then to_tun p (set_session c r1 (fst ?t)) else set_session c r1 (fst ?t), e3))"
    using assms(2,3) r1(1) by (simp add: handle_packet_def case_prod_beta Let_def)
  moreover have "sv_tun (set_session c r1 (fst ?t)) = sv_tun sv"
    using touch_keeps(2) [OF c1] by (simp add: set_session_def)
  moreover have "length (sv_objects (set_session c r1 (fst ?t))) = length (sv_objects sv)"
    using touch_keeps(4) [OF c1] by (simp add: set_session_def)
  moreover have "sv_objects (to_tun p x) = sv_objects x" "sv_tun (to_tun p x) = map_option (\<lambda>out. out @ [p]) (sv_tun x)" for x
    by (simp_all add: to_tun_def)
  ultimately show ?thesis using r1(2) by (simp add: option.map_ident)
qed

text \<open>A packet that the session refuses, with the session it leaves, is dropped unless it is an IP packet itself.\<close>

lemma handle_packet_refused:
  assumes "c < length (sv_objects sv)" and "pkt \<noteq> []" and "\<not> is_fin pkt" and "\<not> is_ip pkt" and "timeless P"
    and "P (sc_Session (sv_objects sv ! c))"
    and "\<And>r e2. P r \<Longrightarrow> \<exists>err r1 e3. Session_Unwrap r pkt e2 = Some (Ok (Fail err, r1, e3)) \<and> Q r1"
  shows "\<exists>sv2 e4. handle_packet c pkt sv e = Some (Ok (sv2, e4)) \<and> sv_tun sv2 = sv_tun sv \<and>
    Q (sc_Session (sv_objects sv2 ! c)) \<and> length (sv_objects sv2) = length (sv_objects sv)"
proof -
  let ?sv1 = "on_object c (\<lambda>sc. sc\<lparr>sc_BytesIn := sc_BytesIn sc + of_nat (length pkt),
      sc_LastSeen := fst (read_clock e)\<rparr>) sv"
  let ?t = "touch (sc_ID (sv_objects ?sv1 ! c)) ?sv1 (snd (read_clock e))"
  have c1: "c < length (sv_objects ?sv1)" using assms(1) by simp
  have "P (sc_Session (sv_objects (fst ?t) ! c))"
    using touch_keeps(1) [OF c1 assms(5)] assms(1,6) by (simp add: on_object_nth)
  from assms(7) [OF this, of "snd ?t"] obtain err r1 e3 where
    r1: "Session_Unwrap (sc_Session (sv_objects (fst ?t) ! c)) pkt (snd ?t) = Some (Ok (Fail err, r1, e3))"
    "Q r1" by blast
  have "sc_Session (sv_objects (set_session c r1 (fst ?t)) ! c) = r1"
    using touch_keeps(4) [OF c1] assms(1) by (simp add: set_session_def on_object_nth)
  moreover have "handle_packet c pkt sv e = Some (Ok (set_session c r1 (fst ?t), e3))"
    using assms(2-4) r1(1) by (simp add: handle_packet_def case_prod_beta Let_def)
  moreover have "sv_tun (set_session c r1 (fst ?t)) = sv_tun sv"
    "length (sv_objects (set_session c r1 (fst ?t))) = length (sv_objects sv)"
    using touch_keeps(2,4) [OF c1] by (simp_all add: set_session_def)
  ultimately show ?thesis using r1(2) by simp
qed

text \<open>Only a FIN closes a connection.\<close>

lemma on_object_closed:
  assumes "\<And>sc. sc_closed (f sc) = sc_closed sc"
  shows "sc_closed (sv_objects (on_object c f sv) ! d) = sc_closed (sv_objects sv ! d)"
  using assms by (cases "c < length (sv_objects sv)") (auto simp: on_object_def nth_list_update list_update_beyond)

lemma handle_packet_closed:
  assumes "handle_packet c pkt sv e = Some (Ok (sv1, e1))" and "\<not> is_fin pkt"
  shows "sc_closed (sv_objects sv1 ! d) = sc_closed (sv_objects sv ! d)"
proof -
  have "sc_closed (sv_objects (fst (touch sid x e2)) ! d) = sc_closed (sv_objects x ! d)" for sid x e2
    by (simp add: touch_def case_prod_beta Let_def on_object_closed split: option.split)
  moreover have "sc_closed (sv_objects (set_session c s x) ! d) = sc_closed (sv_objects x ! d)" for s x
    by (simp add: set_session_def on_object_closed)
  moreover have "sv_objects (to_tun p x) = sv_objects x" for p x by (simp add: to_tun_def)
  ultimately show ?thesis
    using assms by (auto simp: handle_packet_def case_prod_beta Let_def bindO_eq_Ok on_object_closed
        split: if_splits result.splits)
qed

lemma handle_packet_unwraps:
  assumes "c < length (sv_objects sv)" and "pkt \<noteq> []" and "\<not> is_fin pkt"
    and "in_step md (sc_Session (sv_objects sv ! c))"
    and "\<And>r e2. in_step md r \<Longrightarrow>
      \<exists>r1. Session_Unwrap r pkt e2 = Some (Ok (Ok p, r1, e2)) \<and> in_step md r1"
  shows "\<exists>sv2 e4. handle_packet c pkt sv e = Some (Ok (sv2, e4)) \<and>
    sv_tun sv2 = map_option (\<lambda>out. if is_ip p then out @ [p] else out) (sv_tun sv) \<and>
    in_step md (sc_Session (sv_objects sv2 ! c)) \<and>
    length (sv_objects sv2) = length (sv_objects sv)"
  using handle_packet_session [OF assms(1-3) timeless_in_step assms(4), where Q = "in_step md"] assms(5) by blast

section \<open>Opening a connection\<close>

lemma end_connection_eq:
  "end_connection c sv = on_object c (\<lambda>sc. sc\<lparr>sc_closed := True\<rparr>)
     (sv\<lparr>sv_connections := AList.delete (ss_ID (sc_Session (sv_objects sv ! c))) (sv_connections sv)\<rparr>)"
  by (simp add: end_connection_def close_connection_def forget_connection_def)

lemma opened_connection:
  assumes "PerformServerHandshake (sv_handshake sv) conn e = (Ok config, sent, hm, e1)"
    and "CreateSessionWithConfig config [] e1 = Ok (session, sm, e2)"
    and "SyncModes (session\<lparr>ss_State := SessionStateEstablished\<rparr>) (snd (read_clock (snd (read_clock e2)))) =
      Ok (session1, e5)"
  shows "handleConnection conn sv e = Ok (Some (length (sv_objects sv)), sent,
    sv\<lparr>sv_handshake := hm, sv_objects := sv_objects sv @
        [\<lparr>sc_ID = ss_ID session, sc_Session = session1, sc_StartTime = fst (read_clock e2),
          sc_LastSeen = fst (read_clock (snd (read_clock e2))), sc_BytesIn = 0, sc_BytesOut = 0,
          sc_sent = [], sc_closed = False, sc_write_error = None\<rparr>],
      sv_sessions := AList.update (ss_ID session) (length (sv_objects sv)) (sv_sessions sv),
      sv_connections := AList.update (ss_ID session) (length (sv_objects sv)) (sv_connections sv)\<rparr>, e5)"
  using assms
  by (simp add: handleConnection_def create_connection_def enter_table_def mark_established_def
      sync_connection_def set_session_def on_object_def case_prod_beta Let_def)

lemma handleConnection_ok:
  assumes "PerformServerHandshake (sv_handshake sv) conn e = (Ok config, sent, hm, e1)"
    and "Modes config \<noteq> []" and "hd (Modes config) \<in> plain_modes"
  shows "\<exists>sv1 e2. handleConnection conn sv e = Ok (Some (length (sv_objects sv)), sent, sv1, e2) \<and>
    length (sv_objects sv1) = Suc (length (sv_objects sv)) \<and> sv_tun sv1 = sv_tun sv \<and>
    (let sc = sv_objects sv1 ! length (sv_objects sv) in
     in_step (hd (Modes config)) (sc_Session sc) \<and> mx_modes (ss_RemoteMixer (sc_Session sc)) = Modes config \<and>
     ss_State (sc_Session sc) = SessionStateEstablished \<and>
     sc_ID sc = ss_ID (sc_Session sc) \<and> \<not> sc_closed sc \<and> sc_write_error sc = None \<and>
     map_of (sv_connections sv1) (sc_ID sc) = Some (length (sv_objects sv)))"
proof -
  let ?c = "if CurrentMode config = 0 then config\<lparr>CurrentMode := ModeVK\<rparr> else config"
  obtain s sm e2 where s: "CreateSessionWithConfig config [] e1 = Ok (s, sm, e2)"
    "ss_MaskConfig s = ?c"
    using create_with_ok [of ?c "[]" e1] by (auto simp: CreateSessionWithConfig_def)
  let ?e4 = "snd (read_clock (snd (read_clock e2)))"
  let ?s = "s\<lparr>ss_State := SessionStateEstablished\<rparr>"
  have "Modes (ss_MaskConfig ?s) = Modes config" using s(2) by simp
  with SyncModes_in_step [of ?s ?e4] assms(2,3) obtain s1 e5 where
    "SyncModes ?s ?e4 = Ok (s1, e5)" "in_step (hd (Modes config)) s1" "ss_ID s1 = ss_ID s"
    "mx_modes (ss_RemoteMixer s1) = Modes config" "ss_State s1 = SessionStateEstablished" by auto
  with opened_connection [OF assms(1) s(1)] show ?thesis
    by (simp add: Let_def nth_append update_conv')
qed

lemma NewClient_props:
  assumes "NewClient cfg e = Ok (Some c, e1)" and "cc_Modes cfg \<noteq> []" and "hd (cc_Modes cfg) \<in> plain_modes"
  shows "hm_authKey (cl_handshakeMgr c) = cc_AuthKey cfg"
    and "Modes (ss_MaskConfig (cl_session c)) = cc_Modes cfg"
    and "GetSwitchInterval (cl_mixer c) = cc_SwitchInterval cfg"
    and "GetModes (cl_mixer c) = cc_Modes cfg" and "GetCurrentMode (cl_mixer c) = hd (cc_Modes cfg)"
    and "\<not> cl_connected c" and "cl_write_error c = None"
proof -
  let ?cfg = "\<lparr>SwitchInterval = cc_SwitchInterval cfg, Modes = cc_Modes cfg, CurrentMode = 0,
    EnableReplayProtection = cc_EnableReplayProtection cfg, ReplayWindowSize = 64\<rparr>"
  have key: "cc_AuthKey cfg \<noteq> []" using assms(1) by (auto simp: NewClient_def split: if_splits)
  obtain s sm e2 where s: "CreateSessionWithConfig ?cfg NewSessionManager e = Ok (s, sm, e2)"
    "ss_MaskConfig s = ?cfg\<lparr>CurrentMode := ModeVK\<rparr>"
    using create_with_ok [of "?cfg\<lparr>CurrentMode := ModeVK\<rparr>" NewSessionManager e]
    by (auto simp: CreateSessionWithConfig_def)
  obtain m e3 where m: "NewMaskMixer (cc_SwitchInterval cfg) e2 = Ok (m, e3)"
    using NewMaskMixer_inv by blast
  then have iv: "mx_switchInterval m = cc_SwitchInterval cfg"
    by (auto simp: NewMaskMixer_def bindR_eq_Ok case_prod_beta Let_def)
  obtain m1 e4 where m1: "Mixer.SetModes (cc_Modes cfg) m e3 = Ok (m1, e4)"
    "mx_currentMode m1 = hd (cc_Modes cfg)" "mx_modes m1 = cc_Modes cfg"
    "mx_switchInterval m1 = mx_switchInterval m"
    using SetModes_to [OF assms(2,3)] by blast
  obtain hm where hm: "NewHandshakeManager (cc_AuthKey cfg) (cc_HandshakeTimeout cfg) = Ok hm"
    "c = \<lparr>cl_session = s, cl_handshakeMgr = hm, cl_mixer = m1, cl_authKey = cc_AuthKey cfg,
      cl_connected = False, cl_handshakeDone = False, cl_stopped = False, cl_packetsSent = 0,
      cl_packetsRecv = 0, cl_bytesSent = 0, cl_bytesRecv = 0, cl_currentDomain = [],
      cl_conn = False, cl_write_error = None, cl_sent = [], cl_delivered = None\<rparr>"
    using assms(1) key s(1) m m1(1) by (auto simp: NewClient_def bindR_eq_Ok)
  have "hm_authKey hm = cc_AuthKey cfg"
    using hm(1) by (auto simp: NewHandshakeManager_total bindR_eq_Ok)
  with hm(2) s(2) m1 iv
  show "hm_authKey (cl_handshakeMgr c) = cc_AuthKey cfg"
    "Modes (ss_MaskConfig (cl_session c)) = cc_Modes cfg"
    "GetSwitchInterval (cl_mixer c) = cc_SwitchInterval cfg"
    "GetModes (cl_mixer c) = cc_Modes cfg" "GetCurrentMode (cl_mixer c) = hd (cc_Modes cfg)"
    "\<not> cl_connected c" "cl_write_error c = None"
    by (simp_all add: GetSwitchInterval_def GetModes_def GetCurrentMode_def)
qed

lemma NewClient_total:
  assumes "cc_AuthKey cfg \<noteq> []"
  shows "\<exists>c e1. NewClient cfg e = Ok (Some c, e1)"
proof -
  let ?cfg = "\<lparr>SwitchInterval = cc_SwitchInterval cfg, Modes = cc_Modes cfg, CurrentMode = 0,
    EnableReplayProtection = cc_EnableReplayProtection cfg, ReplayWindowSize = 64\<rparr>"
  obtain s sm e2 where "CreateSessionWithConfig ?cfg NewSessionManager e = Ok (s, sm, e2)"
    using create_with_ok [of "?cfg\<lparr>CurrentMode := ModeVK\<rparr>" NewSessionManager e]
    by (auto simp: CreateSessionWithConfig_def)
  moreover obtain m e3 where "NewMaskMixer (cc_SwitchInterval cfg) e2 = Ok (m, e3)" "mixer_inv m"
    using NewMaskMixer_inv by blast
  moreover from keeps_invD [OF SetModes_inv this(2)] obtain m1 e4 where
    "Mixer.SetModes (cc_Modes cfg) m e3 = Ok (m1, e4)" by blast
  ultimately show ?thesis
    using assms by (auto simp: NewClient_def NewHandshakeManager_total slice_ok)
qed

text \<open>A configuration that can open a tunnel: its first mode is one that carries payloads.\<close>

definition tunnel_ok :: "ClientConfig \<Rightarrow> bool" where
  "tunnel_ok cfg \<longleftrightarrow> cc_Modes cfg \<noteq> [] \<and> hd (cc_Modes cfg) \<in> plain_modes \<and>
     params_ok (cc_SwitchInterval cfg) (cc_Modes cfg) (hd (cc_Modes cfg))"

lemma tunnel_opens:
  assumes "NewClient cfg e0 = Ok (Some c, e1)" and "tunnel_ok cfg"
    and "hm_authKey (sv_handshake sv) = cc_AuthKey cfg"
    and "map_of (s_LastSeen (hm_state (sv_handshake sv)))
      (unixnano64 (now (clk e)) XOR ss_ID (cl_session c)) = None"
  shows "\<exists>a b c1 e2 sv1 e3. Start (Ok ()) (direct b) c e = Ok (Ok (), replicate 3 a, c1, e2) \<and>
    handleConnection (direct a) sv es = Ok (Some (length (sv_objects sv)), replicate 3 b, sv1, e3) \<and>
    cl_connected c1 \<and> cl_handshakeDone c1 \<and> cl_conn c1 \<and> cl_write_error c1 = None \<and>
    in_step (hd (cc_Modes cfg)) (cl_session c1) \<and>
    length (sv_objects sv1) = Suc (length (sv_objects sv)) \<and> sv_tun sv1 = sv_tun sv \<and>
    (let sc = sv_objects sv1 ! length (sv_objects sv) in
     in_step (hd (cc_Modes cfg)) (sc_Session sc) \<and> mx_modes (ss_RemoteMixer (sc_Session sc)) = cc_Modes cfg \<and>
     ss_State (sc_Session sc) = SessionStateEstablished \<and>
     sc_ID sc = ss_ID (sc_Session sc) \<and> \<not> sc_closed sc \<and> sc_write_error sc = None \<and>
     map_of (sv_connections sv1) (sc_ID sc) = Some (length (sv_objects sv)))"
proof -
  have md: "cc_Modes cfg \<noteq> []" "hd (cc_Modes cfg) \<in> plain_modes"
    and par: "params_ok (cc_SwitchInterval cfg) (cc_Modes cfg) (hd (cc_Modes cfg))"
    using assms(2) by (simp_all add: tunnel_ok_def)
  note c = NewClient_props [OF assms(1) md]
  let ?hm = "ResetReplayState (cl_handshakeMgr c)"
  let ?seq = "unixnano64 (now (clk e)) XOR ss_ID (cl_session c)"
  have hm: "hm_authKey (sv_handshake sv) = hm_authKey ?hm" "s_LastSeen (hm_state ?hm) = []"
    using c(1) assms(3) by (simp_all add: ResetReplayState_def HandshakeState_Reset_def)
  then have fresh: "map_of (s_LastSeen (hm_state ?hm)) (s_Sequence (hm_state (sv_handshake sv)) + 1) = None"
    by simp
  from roles_agree [OF par hm(1) assms(4) fresh, of es "snd (read_clock e)"]
  obtain a b srv1 cli1 e4 e5 where
    srv: "PerformServerHandshake (sv_handshake sv) (direct a) es =
      (Ok \<lparr>SwitchInterval = cc_SwitchInterval cfg, Modes = cc_Modes cfg,
           CurrentMode = hd (cc_Modes cfg), EnableReplayProtection = True, ReplayWindowSize = 64\<rparr>,
       replicate 3 b, srv1, e4)" and
    cli: "PerformClientHandshake ?hm (direct b) (cc_SwitchInterval cfg) (cc_Modes cfg)
        (hd (cc_Modes cfg)) ?seq (snd (read_clock e)) = (Ok (), replicate 3 a, cli1, e5)"
    by (elim exE conjE) (rule that)
  let ?s = "(cl_session c)\<lparr>ss_State := SessionStateEstablished\<rparr>"
  obtain s1 e6 where "SyncModes ?s e5 = Ok (s1, e6)" "in_step (hd (cc_Modes cfg)) s1"
    using SyncModes_in_step [of ?s e5] md c(2) by auto
  then have "\<exists>c1 e2. Start (Ok ()) (direct b) c e = Ok (Ok (), replicate 3 a, c1, e2) \<and>
      cl_connected c1 \<and> cl_handshakeDone c1 \<and> cl_conn c1 \<and> cl_write_error c1 = None \<and>
      in_step (hd (cc_Modes cfg)) (cl_session c1)"
    using cli c by (simp add: Start_def performHandshake_def case_prod_beta Let_def read_clock_def)
  moreover from handleConnection_ok [OF srv] md have
    "\<exists>sv1 e3. handleConnection (direct a) sv es = Ok (Some (length (sv_objects sv)), replicate 3 b, sv1, e3) \<and>
    length (sv_objects sv1) = Suc (length (sv_objects sv)) \<and> sv_tun sv1 = sv_tun sv \<and>
    (let sc = sv_objects sv1 ! length (sv_objects sv) in
     in_step (hd (cc_Modes cfg)) (sc_Session sc) \<and> mx_modes (ss_RemoteMixer (sc_Session sc)) = cc_Modes cfg \<and>
     ss_State (sc_Session sc) = SessionStateEstablished \<and>
     sc_ID sc = ss_ID (sc_Session sc) \<and> \<not> sc_closed sc \<and> sc_write_error sc = None \<and>
     map_of (sv_connections sv1) (sc_ID sc) = Some (length (sv_objects sv)))"
    by simp
  ultimately show ?thesis by blast
qed

end
