(* ===== verification/ServerTable.thy ===== *)
theory ServerTable
  imports EngineLaws
begin

text \<open>
  The table of connections of the server, through everything the server does, \<open>Stop\<close> included. The
  steps of its goroutines are taken one by one, between the points where another goroutine can
  look at the table or at a connection: each connection has a place in \<open>handleConnection\<close>, and
  \<open>Stop\<close> a list of connections it still has to close.
\<close>

definition object_ok :: "ServerConnection \<Rightarrow> bool" where
  "object_ok sc \<longleftrightarrow> sc_ID sc = ss_ID (sc_Session sc) \<and> session_inv (sc_Session sc)"

definition server_inv :: "Server \<Rightarrow> bool" where
  "server_inv sv \<longleftrightarrow> (\<forall>c < length (sv_objects sv). object_ok (sv_objects sv ! c)) \<and>
     distinct (map fst (sv_connections sv)) \<and>
     (\<forall>i c. (i, c) \<in> set (sv_connections sv) \<longrightarrow> c < length (sv_objects sv) \<and> sc_ID (sv_objects sv ! c) = i) \<and>
     (\<forall>i c. (i, c) \<in> set (sv_sessions sv) \<longrightarrow> c < length (sv_objects sv))"

lemma object_at: "server_inv sv \<Longrightarrow> c < length (sv_objects sv) \<Longrightarrow> object_ok (sv_objects sv ! c)"
  by (simp add: server_inv_def)

section \<open>What leaves the table and the states of connections alone\<close>

text \<open>Connections keep their number, whether they are closed, and the state of their session.\<close>

definition same_object :: "ServerConnection \<Rightarrow> ServerConnection \<Rightarrow> bool" where
  "same_object o1 o2 \<longleftrightarrow> sc_ID o2 = sc_ID o1 \<and> sc_closed o2 = sc_closed o1 \<and>
     ss_State (sc_Session o2) = ss_State (sc_Session o1)"

definition quiet :: "Server \<Rightarrow> Server \<Rightarrow> bool" where
  "quiet sv sv1 \<longleftrightarrow> length (sv_objects sv1) = length (sv_objects sv) \<and>
     sv_connections sv1 = sv_connections sv \<and> sv_stopped sv1 = sv_stopped sv \<and>
     (\<forall>c < length (sv_objects sv). same_object (sv_objects sv ! c) (sv_objects sv1 ! c))"

definition keeps :: "Server \<Rightarrow> Server \<Rightarrow> bool" where
  "keeps sv sv1 \<longleftrightarrow> (server_inv sv \<longrightarrow> server_inv sv1 \<and> quiet sv sv1)"

lemma keeps_refl [simp]: "keeps sv sv"
  by (simp add: keeps_def quiet_def same_object_def)

lemma keeps_trans: "keeps sv sv1 \<Longrightarrow> keeps sv1 sv2 \<Longrightarrow> keeps sv sv2"
  by (auto simp: keeps_def quiet_def same_object_def)

lemma on_object_beyond: "\<not> c < length (sv_objects sv) \<Longrightarrow> on_object c f sv = sv"
  by (cases sv) (simp add: on_object_def list_update_beyond)

lemma keeps_on_object:
  assumes "c < length (sv_objects sv) \<Longrightarrow> object_ok (sv_objects sv ! c) \<Longrightarrow>
    object_ok (f (sv_objects sv ! c)) \<and> same_object (sv_objects sv ! c) (f (sv_objects sv ! c))"
  shows "keeps sv (on_object c f sv)"
proof (cases "c < length (sv_objects sv)")
  case True
  with assms show ?thesis
    by (auto simp: keeps_def quiet_def server_inv_def same_object_def on_object_def nth_list_update)
qed (simp add: on_object_beyond)

lemma keeps_set_session:
  assumes "c < length (sv_objects sv) \<Longrightarrow> session_inv (sc_Session (sv_objects sv ! c)) \<Longrightarrow>
    session_inv s \<and> ss_ID s = ss_ID (sc_Session (sv_objects sv ! c)) \<and>
    ss_State s = ss_State (sc_Session (sv_objects sv ! c))"
  shows "keeps sv (set_session c s sv)"
  unfolding set_session_def
  by (rule keeps_on_object) (use assms in \<open>simp add: object_ok_def same_object_def\<close>)

text \<open>Fields that are outside the invariant.\<close>

lemma keeps_counters:
  "keeps sv (on_object c (\<lambda>sc. sc\<lparr>sc_BytesIn := i sc, sc_LastSeen := t\<rparr>) sv)"
  "keeps sv (on_object c (\<lambda>sc. sc\<lparr>sc_BytesOut := i sc, sc_LastSeen := t\<rparr>) sv)"
  "keeps sv (on_object c (\<lambda>sc. sc\<lparr>sc_sent := out sc\<rparr>) sv)"
  "keeps sv (on_object c (\<lambda>sc. sc\<lparr>sc_write_error := w\<rparr>) sv)"
  by (rule keeps_on_object; simp add: object_ok_def same_object_def)+

lemma keeps_to_tun: "keeps sv (to_tun p sv)"
  by (simp add: keeps_def quiet_def same_object_def server_inv_def to_tun_def)

lemma keeps_conn_Write: "keeps sv (snd (conn_Write c pkt sv))"
  by (simp add: conn_Write_def Let_def keeps_counters split: option.split)

lemma keeps_touch: "keeps sv (fst (touch sid sv e))"
  by (auto simp: touch_def case_prod_beta Let_def split: option.split intro!: keeps_on_object)
    (simp_all add: object_ok_def session_inv_def same_object_def)

lemma keeps_break: "keeps sv (break_connection c err sv)"
  by (simp add: break_connection_def keeps_counters)

lemma keeps_handle_packet:
  assumes "handle_packet c data sv e = Some (Ok (sv1, e1))" and "\<not> is_fin data"
  shows "keeps sv sv1"
proof -
  let ?sv1 = "on_object c (\<lambda>sc. sc\<lparr>sc_BytesIn := sc_BytesIn sc + of_nat (length data),
      sc_LastSeen := fst (read_clock e)\<rparr>) sv"
  let ?t = "touch (sc_ID (sv_objects ?sv1 ! c)) ?sv1 (snd (read_clock e))"
  have t: "keeps sv (fst ?t)" by (rule keeps_trans [OF keeps_counters(1) keeps_touch])
  have s: "keeps sv (set_session c s (fst ?t))"
    if "Session_Unwrap (sc_Session (sv_objects (fst ?t) ! c)) data e2 = Some (Ok (r, s, e3))" for r s e2 e3
    by (rule keeps_trans [OF t keeps_set_session])
      (use Session_Unwrap_inv [OF _ that] session_ops_keep(2) [OF that] in simp)
  show ?thesis
    using assms s keeps_trans [OF s keeps_to_tun]
    by (auto simp: handle_packet_def case_prod_beta Let_def bindO_eq_Ok split: if_splits result.splits)
qed

text \<open>Wrapping for an object, and writing what was wrapped.\<close>

lemma keeps_wrap_write:
  assumes "Session_Wrap (sc_Session (sv_objects sv ! c)) data e = Ok (wrapped, s, e1)"
  shows "keeps sv (snd (conn_Write c wrapped (set_session c s sv)))"
  by (rule keeps_trans [OF keeps_set_session keeps_conn_Write])
    (use Session_Wrap_inv [OF _ assms] session_ops_keep(1) [OF assms] in simp)

lemma keeps_send_on:
  assumes "send_on c data sv e = Ok (r, sv1, e1)"
  shows "keeps sv sv1"
proof -
  obtain wrapped s e2 where w: "Session_Wrap (sc_Session (sv_objects sv ! c)) data e = Ok (wrapped, s, e2)"
    using assms by (auto simp: send_on_def bindR_eq_Ok)
  with assms keeps_trans [OF keeps_wrap_write [OF w] keeps_counters(2)] show ?thesis
    by (auto simp: send_on_def case_prod_beta Let_def)
qed

lemma keeps_tun_round: "tun_round cs data sv e = Ok (sv1, e1) \<Longrightarrow> keeps sv sv1"
proof (induction cs arbitrary: sv e)
  case (Cons c cs)
  show ?case
  proof (cases "data = []")
    case False
    with Cons.prems obtain wrapped s e2 where
      w: "Session_Wrap (sc_Session (sv_objects sv ! c)) data e = Ok (wrapped, s, e2)"
      "tun_round cs data (snd (conn_Write c wrapped (set_session c s sv))) e2 = Ok (sv1, e1)"
      by (auto simp: bindR_eq_Ok)
    from keeps_trans [OF keeps_wrap_write [OF w(1)] Cons.IH [OF w(2)]] show ?thesis .
  qed (use Cons.prems in simp)
qed simp

lemma keeps_rotate:
  assumes "RotateLocalMask (sc_Session (sv_objects sv ! c)) e = Ok (s, e1)"
  shows "keeps sv (set_session c s sv)"
  by (rule keeps_set_session) (use rotations_inv(1) session_ops_keep(3) [OF assms] assms in blast)

lemma keeps_sync_connection:
  assumes "sync_connection c sv e = Ok (sv1, e1)"
  shows "keeps sv sv1"
proof -
  obtain s where s: "SyncModes (sc_Session (sv_objects sv ! c)) e = Ok (s, e1)" "sv1 = set_session c s sv"
    using assms by (auto simp: sync_connection_def bindR_eq_Ok)
  show ?thesis
    unfolding s(2) by (rule keeps_set_session) (use rotations_inv(3) session_ops_keep(4) [OF s(1)] s(1) in blast)
qed

lemma keeps_new_modes:
  assumes "SyncModes (s0\<lparr>ss_MaskConfig := (ss_MaskConfig s0)\<lparr>Modes := modes\<rparr>\<rparr>) e = Ok (s, e1)"
    and "s0 = sc_Session (sv_objects sv ! c)"
  shows "keeps sv (set_session c s sv)"
proof (rule keeps_set_session)
  assume "session_inv (sc_Session (sv_objects sv ! c))"
  then have "session_inv (s0\<lparr>ss_MaskConfig := (ss_MaskConfig s0)\<lparr>Modes := modes\<rparr>\<rparr>)"
    using assms(2) by (simp add: session_inv_def)
  then show "session_inv s \<and> ss_ID s = ss_ID (sc_Session (sv_objects sv ! c)) \<and>
      ss_State s = ss_State (sc_Session (sv_objects sv ! c))"
    using rotations_inv(3) [OF _ assms(1)] session_ops_keep(4) [OF assms(1)] assms(2) by simp
qed

section \<open>Opening and closing\<close>

lemma alist_update_subset: "set (AList.update k v ps) \<subseteq> insert (k, v) (set ps)"
  by (induction ps) auto

text \<open>A connection is made with the invariant of its session, outside the table.\<close>

lemma create_connection_made:
  assumes "create_connection config sv e = Ok (c, sv1, e1)" and "server_inv sv"
  shows "c = length (sv_objects sv)" and "server_inv sv1" and "sv_connections sv1 = sv_connections sv"
    and "sv_stopped sv1 = sv_stopped sv" and "\<exists>sc. sv_objects sv1 = sv_objects sv @ [sc] \<and> \<not> sc_closed sc"
proof -
  let ?c = "if CurrentMode config = 0 then config\<lparr>CurrentMode := ModeVK\<rparr> else config"
  obtain s sm e2 where s: "CreateSessionWithConfig config [] e = Ok (s, sm, e2)" "session_inv s"
    using create_with_ok [of ?c "[]" e] by (auto simp: CreateSessionWithConfig_def)
  let ?n = "length (sv_objects sv)"
  let ?sc = "\<lparr>sc_ID = ss_ID s, sc_Session = s, sc_StartTime = fst (read_clock e2),
      sc_LastSeen = fst (read_clock (snd (read_clock e2))), sc_BytesIn = 0, sc_BytesOut = 0, sc_sent = [],
      sc_closed = False, sc_write_error = None\<rparr>"
  have eq: "c = ?n" "sv1 = sv\<lparr>sv_objects := sv_objects sv @ [?sc],
      sv_sessions := AList.update (ss_ID s) ?n (sv_sessions sv)\<rparr>"
    using assms(1) s(1) by (auto simp: create_connection_def case_prod_beta Let_def)
  then show "c = length (sv_objects sv)" "sv_connections sv1 = sv_connections sv"
    "sv_stopped sv1 = sv_stopped sv" "\<exists>sc. sv_objects sv1 = sv_objects sv @ [sc] \<and> \<not> sc_closed sc" by simp_all
  have "object_ok ?sc" using s(2) by (simp add: object_ok_def)
  moreover have "d < Suc ?n" if "(i, d) \<in> set (AList.update (ss_ID s) ?n (sv_sessions sv))" for i d
    using that alist_update_subset [of "ss_ID s" ?n "sv_sessions sv"] assms(2) by (fastforce simp: server_inv_def)
  moreover have "d < Suc ?n \<and> sc_ID ((sv_objects sv @ [?sc]) ! d) = i" if "(i, d) \<in> set (sv_connections sv)" for i d
    using that assms(2) by (fastforce simp: server_inv_def nth_append less_Suc_eq)
  ultimately show "server_inv sv1"
    using assms(2) unfolding server_inv_def eq(2) by (simp add: nth_append less_Suc_eq)
qed

lemma inv_enter_table:
  assumes "server_inv sv" and "c < length (sv_objects sv)"
  shows "server_inv (enter_table c sv)"
    and "(i, d) \<in> set (sv_connections (enter_table c sv)) \<Longrightarrow> d = c \<or> (i, d) \<in> set (sv_connections sv)"
proof -
  let ?id = "ss_ID (sc_Session (sv_objects sv ! c))"
  have id: "sc_ID (sv_objects sv ! c) = ?id" using object_at [OF assms] by (simp add: object_ok_def)
  have new: "(i, d) \<in> set (AList.update ?id c (sv_connections sv)) \<Longrightarrow> (i, d) = (?id, c) \<or> (i, d) \<in> set (sv_connections sv)"
    for i d using alist_update_subset [of ?id c "sv_connections sv"] by auto
  then show "(i, d) \<in> set (sv_connections (enter_table c sv)) \<Longrightarrow> d = c \<or> (i, d) \<in> set (sv_connections sv)"
    by (auto simp: enter_table_def)
  show "server_inv (enter_table c sv)"
    using assms id new unfolding server_inv_def enter_table_def by (simp add: distinct_update) blast
qed

lemma inv_forget_connection:
  assumes "server_inv sv" and "c < length (sv_objects sv)"
  shows "server_inv (forget_connection c sv)"
    and "(i, d) \<in> set (sv_connections (forget_connection c sv)) \<Longrightarrow> (i, d) \<in> set (sv_connections sv) \<and> d \<noteq> c"
proof -
  let ?id = "ss_ID (sc_Session (sv_objects sv ! c))"
  have id: "sc_ID (sv_objects sv ! c) = ?id" using object_at [OF assms] by (simp add: object_ok_def)
  have sub: "(i, d) \<in> set (sv_connections sv) \<and> d \<noteq> c"
    if "(i, d) \<in> set (AList.delete ?id (sv_connections sv))" for i d
    using that assms(1) id by (auto simp: server_inv_def AList.delete_eq)
  then show "(i, d) \<in> set (sv_connections (forget_connection c sv)) \<Longrightarrow> (i, d) \<in> set (sv_connections sv) \<and> d \<noteq> c"
    by (simp add: forget_connection_def)
  show "server_inv (forget_connection c sv)"
    using assms(1) sub unfolding server_inv_def forget_connection_def by (simp add: distinct_delete) blast
qed

lemma close_connection_fields [simp]:
  "sv_connections (close_connection c sv) = sv_connections sv"
  "length (sv_objects (close_connection c sv)) = length (sv_objects sv)"
  "sv_stopped (close_connection c sv) = sv_stopped sv"
  by (simp_all add: close_connection_def on_object_def)

lemma close_connection_nth:
  "d < length (sv_objects sv) \<Longrightarrow> sv_objects (close_connection c sv) ! d =
     (if d = c then (sv_objects sv ! c)\<lparr>sc_closed := True\<rparr> else sv_objects sv ! d)"
  by (simp add: close_connection_def on_object_def nth_list_update)

lemma inv_close_connection:
  assumes "server_inv sv"
  shows "server_inv (close_connection c sv)"
proof -
  have "object_ok (sv_objects (close_connection c sv) ! d) \<and>
      sc_ID (sv_objects (close_connection c sv) ! d) = sc_ID (sv_objects sv ! d)"
    if "d < length (sv_objects sv)" for d
    using object_at [OF assms that] that by (auto simp: close_connection_nth object_ok_def)
  moreover have "sv_sessions (close_connection c sv) = sv_sessions sv" by (simp add: close_connection_def)
  ultimately show ?thesis using assms by (simp add: server_inv_def)
qed

section \<open>Clean-up\<close>

lemma idle_out_sub:
  "idle_out seen ps e = (dead, alive, e1) \<Longrightarrow> set alive \<subseteq> set ps \<and> set dead \<subseteq> snd ` set ps \<and>
   (distinct (map fst ps) \<longrightarrow> distinct (map fst alive))"
proof (induction ps arbitrary: e dead alive e1)
  case (Cons p ps)
  obtain d a e2 where r: "idle_out seen ps (snd (read_clock e)) = (d, a, e2)"
    by (metis prod_cases3)
  have "fst p \<notin> fst ` set a" if "fst p \<notin> fst ` set ps"
    using that Cons.IH [OF r] by blast
  with Cons.IH [OF r] Cons.prems r show ?case
    by (auto simp: case_prod_beta Let_def split: if_splits)
qed simp

lemma idle_out_disjoint:
  "idle_out seen ps e = (dead, alive, e1) \<Longrightarrow> distinct (map snd ps) \<Longrightarrow>
   (i, c) \<in> set alive \<Longrightarrow> c \<notin> set dead"
proof (induction ps arbitrary: e dead alive e1)
  case (Cons p ps)
  obtain d a e2 where r: "idle_out seen ps (snd (read_clock e)) = (d, a, e2)"
    by (metis prod_cases3)
  have "(i, snd p) \<notin> set a" "snd p \<notin> set d" "(i, c) \<in> set a \<Longrightarrow> c \<notin> set d"
    using Cons.prems(2) idle_out_sub [OF r] Cons.IH [OF r] by (auto intro: rev_image_eqI)
  with Cons.prems r show ?case
    by (auto simp: case_prod_beta Let_def split: if_splits)
qed simp

lemma close_all_objects:
  "length (sv_objects (close_all cs sv)) = length (sv_objects sv)"
  "sv_connections (close_all cs sv) = sv_connections sv" "sv_sessions (close_all cs sv) = sv_sessions sv"
  "sv_stopped (close_all cs sv) = sv_stopped sv"
  "c < length (sv_objects sv) \<Longrightarrow> sv_objects (close_all cs sv) ! c =
    (if c \<in> set cs then (sv_objects sv ! c)\<lparr>sc_closed := True\<rparr> else sv_objects sv ! c)"
proof -
  show "length (sv_objects (close_all cs sv)) = length (sv_objects sv)"
    "sv_connections (close_all cs sv) = sv_connections sv" "sv_sessions (close_all cs sv) = sv_sessions sv"
    "sv_stopped (close_all cs sv) = sv_stopped sv"
    unfolding close_all_def by (induction cs arbitrary: sv) (simp_all add: on_object_def)
  show "c < length (sv_objects sv) \<Longrightarrow> sv_objects (close_all cs sv) ! c =
      (if c \<in> set cs then (sv_objects sv ! c)\<lparr>sc_closed := True\<rparr> else sv_objects sv ! c)"
    unfolding close_all_def
  proof (induction cs arbitrary: sv)
    case (Cons d cs)
    from Cons.IH [of "on_object d (\<lambda>sc. sc\<lparr>sc_closed := True\<rparr>) sv"] Cons.prems show ?case
      by (cases "d = c") (simp_all add: on_object_nth)
  qed simp
qed

lemma connections_injective:
  assumes "server_inv sv"
  shows "distinct (map snd (sv_connections sv))"
proof -
  have "distinct (sv_connections sv)" using assms by (simp add: server_inv_def distinct_map)
  moreover have "i = j" if "(i, c) \<in> set (sv_connections sv)" "(j, c) \<in> set (sv_connections sv)" for i j c
    using assms that unfolding server_inv_def by metis
  then have "inj_on snd (set (sv_connections sv))" by (auto simp: inj_on_def)
  ultimately show ?thesis by (simp add: distinct_map)
qed

text \<open>One tick: it closes and removes the idle, and touches nobody else.\<close>

lemma cleanup_tick_effect:
  assumes "server_inv sv" and "sv1 = fst (cleanup_tick sv e)"
  shows "server_inv sv1" and "sv_stopped sv1 = sv_stopped sv"
    and "length (sv_objects sv1) = length (sv_objects sv)"
    and "c < length (sv_objects sv) \<Longrightarrow> sv_objects sv1 ! c = sv_objects sv ! c \<or>
      c \<in> snd ` set (sv_connections sv) \<and> sv_objects sv1 ! c = (sv_objects sv ! c)\<lparr>sc_closed := True\<rparr>"
    and "(i, c) \<in> set (sv_connections sv1) \<Longrightarrow>
      (i, c) \<in> set (sv_connections sv) \<and> sv_objects sv1 ! c = sv_objects sv ! c"
proof -
  let ?ss = "\<lambda>c. ss_LastSeen (sc_Session (sv_objects sv ! c))"
  obtain d0 sessions e1 where 1: "idle_out ?ss (sv_sessions sv) e = (d0, sessions, e1)"
    by (metis prod_cases3)
  obtain dead alive e2 where
    2: "idle_out (\<lambda>c. sc_LastSeen (sv_objects sv ! c)) (sv_connections sv) e1 = (dead, alive, e2)"
    by (metis prod_cases3)
  let ?sv = "sv\<lparr>sv_sessions := sessions, sv_connections := alive\<rparr>"
  have eq: "sv1 = close_all dead ?sv" using assms(2) by (simp add: cleanup_tick_def 1 2)
  note obj = close_all_objects [where cs = dead and sv = ?sv]
  note sub = idle_out_sub [OF 1] idle_out_sub [OF 2]
  have old: "c < length (sv_objects sv) \<and> sc_ID (sv_objects sv ! c) = i" if "(i, c) \<in> set (sv_connections sv)" for i c
    using that assms(1) by (auto simp: server_inv_def)
  show "sv_stopped sv1 = sv_stopped sv" "length (sv_objects sv1) = length (sv_objects sv)"
    using obj by (simp_all add: eq)
  show "sv_objects sv1 ! c = sv_objects sv ! c \<or>
      c \<in> snd ` set (sv_connections sv) \<and> sv_objects sv1 ! c = (sv_objects sv ! c)\<lparr>sc_closed := True\<rparr>"
    if "c < length (sv_objects sv)" for c using that obj(5) sub(2) by (auto simp: eq)
  show "(i, c) \<in> set (sv_connections sv) \<and> sv_objects sv1 ! c = sv_objects sv ! c"
    if "(i, c) \<in> set (sv_connections sv1)" for i c
  proof -
    have a: "(i, c) \<in> set alive" using that obj(2) by (simp add: eq)
    then have "c \<notin> set dead" using idle_out_disjoint [OF 2 connections_injective [OF assms(1)]] by blast
    with a sub(2) old [of i c] obj(5) show ?thesis by (auto simp: eq)
  qed
  have "object_ok (sv_objects sv1 ! c)" if "c < length (sv_objects sv)" for c
    using that object_at [OF assms(1) that] obj(5) by (auto simp: eq object_ok_def)
  moreover have "sc_ID (sv_objects sv1 ! c) = sc_ID (sv_objects sv ! c)" if "c < length (sv_objects sv)" for c
    using that obj(5) by (simp add: eq)
  ultimately show "server_inv sv1"
    using assms(1) sub old obj(1-3) unfolding server_inv_def eq by auto
qed

section \<open>Everything the server does\<close>

text \<open>
  The place of the goroutine of a connection: the connection is made; it is entered in the
  table; its session is established; packets are handled; a FIN has closed it; another end has
  come; it is taken out of the table; \<open>handleConnection\<close> has returned.
\<close>

datatype conn_pc = Created | Entered | Established | Serving | Finned | Leaving | Removed | Returned

text \<open>The connections \<open>Stop\<close> found in the table, and those of them it still has to close.\<close>

record server_run =
  sr_server :: Server
  sr_pcs :: "conn_pc list"
  sr_stop :: "(nat list \<times> nat list) option"

definition just_made :: "Server \<Rightarrow> server_run" where
  "just_made sv = \<lparr>sr_server = sv, sr_pcs = [], sr_stop = None\<rparr>"

abbreviation at_place :: "server_run \<Rightarrow> nat \<Rightarrow> conn_pc \<Rightarrow> bool" where
  "at_place r c p \<equiv> c < length (sr_pcs r) \<and> sr_pcs r ! c = p"

definition move :: "nat \<Rightarrow> conn_pc \<Rightarrow> Server \<Rightarrow> server_run \<Rightarrow> server_run" where
  "move c p sv r = r\<lparr>sr_server := sv, sr_pcs := (sr_pcs r)[c := p]\<rparr>"

text \<open>
  Steps of the goroutines, in any order. Handshakes run side by side, so their common memory may
  change at any time; what a handshake agrees on is any configuration that one returns. A read
  of a connection that was closed meanwhile may still give a packet. A function that looked a
  connection up may act on it when it is no longer in the table.
\<close>

inductive server_step :: "server_run \<Rightarrow> server_run \<Rightarrow> bool" where
  memory: "server_step r (r\<lparr>sr_server := (sr_server r)\<lparr>sv_handshake := hm\<rparr>\<rparr>)"
| created: "PerformServerHandshake hm conn e = (Ok config, sent, hm1, e1) \<Longrightarrow>
    create_connection config (sr_server r) e2 = Ok (c, sv1, e3) \<Longrightarrow>
    server_step r (r\<lparr>sr_server := sv1, sr_pcs := sr_pcs r @ [Created]\<rparr>)"
| entered: "at_place r c Created \<Longrightarrow> server_step r (move c Entered (enter_table c (sr_server r)) r)"
| established: "at_place r c Entered \<Longrightarrow>
    server_step r (move c Established (mark_established c (sr_server r)) r)"
| synced: "at_place r c Established \<Longrightarrow> sync_connection c (sr_server r) e = Ok (sv1, e1) \<Longrightarrow>
    server_step r (move c Serving sv1 r)"
| packet: "at_place r c Serving \<Longrightarrow> \<not> is_fin data \<Longrightarrow>
    handle_packet c data (sr_server r) e = Some (Ok (sv1, e1)) \<Longrightarrow> server_step r (r\<lparr>sr_server := sv1\<rparr>)"
| fin: "at_place r c Serving \<Longrightarrow> server_step r (move c Finned (close_connection c (sr_server r)) r)"
| left: "at_place r c Serving \<Longrightarrow> server_step r (move c Leaving (sr_server r) r)"
| removed: "at_place r c Finned \<or> at_place r c Leaving \<Longrightarrow>
    server_step r (move c Removed (forget_connection c (sr_server r)) r)"
| returned: "at_place r c Removed \<Longrightarrow> server_step r (move c Returned (close_connection c (sr_server r)) r)"
| broken: "server_step r (r\<lparr>sr_server := break_connection c err (sr_server r)\<rparr>)"
| sent: "send_on c data (sr_server r) e = Ok (x, sv1, e1) \<Longrightarrow> server_step r (r\<lparr>sr_server := sv1\<rparr>)"
| from_tun: "set cs = snd ` set (sv_connections (sr_server r)) \<Longrightarrow>
    tun_round cs data (sr_server r) e = Ok (sv1, e1) \<Longrightarrow> server_step r (r\<lparr>sr_server := sv1\<rparr>)"
| cleaned: "server_step r (r\<lparr>sr_server := fst (cleanup_tick (sr_server r) e)\<rparr>)"
| rotated: "RotateLocalMask (sc_Session (sv_objects (sr_server r) ! c)) e = Ok (s, e1) \<Longrightarrow>
    server_step r (r\<lparr>sr_server := set_session c s (sr_server r)\<rparr>)"
| new_modes: "s0 = sc_Session (sv_objects (sr_server r) ! c) \<Longrightarrow>
    SyncModes (s0\<lparr>ss_MaskConfig := (ss_MaskConfig s0)\<lparr>Modes := modes\<rparr>\<rparr>) e = Ok (s, e1) \<Longrightarrow>
    server_step r (r\<lparr>sr_server := set_session c s (sr_server r)\<rparr>)"
| stop: "\<not> sv_stopped (sr_server r) \<Longrightarrow>
    server_step r (r\<lparr>sr_server := (sr_server r)\<lparr>sv_stopped := True\<rparr>\<rparr>)"
| stop_list: "sv_stopped (sr_server r) \<Longrightarrow> sr_stop r = None \<Longrightarrow>
    set cs = snd ` set (sv_connections (sr_server r)) \<Longrightarrow> server_step r (r\<lparr>sr_stop := Some (cs, cs)\<rparr>)"
| stop_close: "sr_stop r = Some (all, c # cs) \<Longrightarrow>
    server_step r (r\<lparr>sr_server := close_connection c (sr_server r), sr_stop := Some (all, cs)\<rparr>)"

abbreviation server_steps :: "server_run \<Rightarrow> server_run \<Rightarrow> bool" where
  "server_steps \<equiv> server_step\<^sup>*\<^sup>*"

text \<open>
  A connection in the table has not been taken out, and it is closed only when its goroutine has
  read a FIN or the server is stopped.
\<close>

definition entry_ok :: "server_run \<Rightarrow> nat \<Rightarrow> bool" where
  "entry_ok r c \<longleftrightarrow> sr_pcs r ! c \<notin> {Created, Removed, Returned} \<and>
     (sc_closed (sv_objects (sr_server r) ! c) \<longrightarrow> sr_pcs r ! c = Finned \<or> sv_stopped (sr_server r))"

definition state_ok :: "server_run \<Rightarrow> nat \<Rightarrow> bool" where
  "state_ok r c \<longleftrightarrow> (sr_pcs r ! c \<notin> {Created, Entered} \<longrightarrow>
       ss_State (sc_Session (sv_objects (sr_server r) ! c)) = SessionStateEstablished) \<and>
     (sr_pcs r ! c = Created \<longrightarrow> \<not> sc_closed (sv_objects (sr_server r) ! c))"

definition stop_ok :: "server_run \<Rightarrow> bool" where
  "stop_ok r \<longleftrightarrow> (case sr_stop r of None \<Rightarrow> True
     | Some (all, cs) \<Rightarrow> sv_stopped (sr_server r) \<and> set cs \<subseteq> set all \<and> (\<forall>c\<in>set all. c < length (sr_pcs r) \<and> sr_pcs r ! c \<noteq> Created \<and>
         (c \<in> set cs \<or> sc_closed (sv_objects (sr_server r) ! c))))"

definition run_inv :: "server_run \<Rightarrow> bool" where
  "run_inv r \<longleftrightarrow> server_inv (sr_server r) \<and> length (sr_pcs r) = length (sv_objects (sr_server r)) \<and>
     (\<forall>c < length (sr_pcs r). state_ok r c) \<and>
     (\<forall>i c. (i, c) \<in> set (sv_connections (sr_server r)) \<longrightarrow> entry_ok r c) \<and> stop_ok r"

section \<open>Every step keeps the invariant\<close>

lemmas run_defs = run_inv_def entry_ok_def state_ok_def stop_ok_def

lemma same_objectD:
  assumes "quiet sv sv1" and "c < length (sv_objects sv)"
  shows "sc_closed (sv_objects sv1 ! c) = sc_closed (sv_objects sv ! c)"
    and "ss_State (sc_Session (sv_objects sv1 ! c)) = ss_State (sc_Session (sv_objects sv ! c))"
  using assms by (simp_all add: quiet_def same_object_def)

lemma entry_at: "run_inv r \<Longrightarrow> (i, c) \<in> set (sv_connections (sr_server r)) \<Longrightarrow> c < length (sr_pcs r)"
  by (auto simp: run_inv_def server_inv_def)

lemma run_inv_keeps:
  assumes "run_inv r" and "keeps (sr_server r) sv1"
  shows "run_inv (r\<lparr>sr_server := sv1\<rparr>)"
proof -
  have q: "server_inv sv1" "quiet (sr_server r) sv1" using assms by (simp_all add: keeps_def run_inv_def)
  have len: "length (sr_pcs r) = length (sv_objects (sr_server r))" using assms(1) by (simp add: run_inv_def)
  have "entry_ok (r\<lparr>sr_server := sv1\<rparr>) c" if "(i, c) \<in> set (sv_connections sv1)" for i c
  proof -
    have i: "(i, c) \<in> set (sv_connections (sr_server r))" using that q(2) by (simp add: quiet_def)
    then have "entry_ok r c" using assms(1) by (auto simp: run_inv_def)
    with entry_at [OF assms(1) i] len same_objectD [OF q(2)] q(2) show ?thesis by (simp add: entry_ok_def quiet_def)
  qed
  moreover have "state_ok (r\<lparr>sr_server := sv1\<rparr>) c" if "c < length (sr_pcs r)" for c
    using that assms(1) len same_objectD [OF q(2)] by (simp add: run_inv_def state_ok_def)
  moreover have "stop_ok (r\<lparr>sr_server := sv1\<rparr>)"
    using assms(1) len same_objectD [OF q(2)] q(2)
    by (auto simp: run_inv_def stop_ok_def quiet_def split: option.splits)
  ultimately show ?thesis using q len by (simp add: run_inv_def quiet_def)
qed

text \<open>A goroutine that goes on without changing the server.\<close>

lemma run_inv_move:
  assumes "run_inv r" and "c < length (sr_pcs r)" and "p \<noteq> Created"
    and "p \<notin> {Created, Entered} \<Longrightarrow>
      ss_State (sc_Session (sv_objects (sr_server r) ! c)) = SessionStateEstablished"
    and "\<And>i. (i, c) \<in> set (sv_connections (sr_server r)) \<Longrightarrow> p \<notin> {Created, Removed, Returned} \<and>
      (sc_closed (sv_objects (sr_server r) ! c) \<longrightarrow> p = Finned \<or> sv_stopped (sr_server r))"
  shows "run_inv (move c p (sr_server r) r)"
  using assms unfolding run_defs move_def by (auto simp: nth_list_update split: option.splits)

lemma run_inv_goes_on:
  assumes "run_inv r" and "at_place r c q"
    and "(q, p) \<in> {(Established, Serving), (Serving, Finned), (Serving, Leaving), (Removed, Returned)}"
  shows "run_inv (move c p (sr_server r) r)"
proof -
  have c: "c < length (sr_pcs r)" "sr_pcs r ! c = q" using assms(2) by simp_all
  have "state_ok r c" using assms(1) c(1) by (simp add: run_inv_def)
  moreover have "entry_ok r c" if "(i, c) \<in> set (sv_connections (sr_server r))" for i
    using assms(1) that by (auto simp: run_inv_def)
  ultimately show ?thesis
    using assms(3) c by (intro run_inv_move [OF assms(1) c(1)]) (auto simp: state_ok_def entry_ok_def)
qed

text \<open>A connection is closed when its goroutine says so, or the server is stopped.\<close>

lemma run_inv_close:
  assumes "run_inv r" and "at_place r c p" and "p \<noteq> Created"
    and "\<And>i. (i, c) \<in> set (sv_connections (sr_server r)) \<Longrightarrow> sr_pcs r ! c = Finned \<or> sv_stopped (sr_server r)"
  shows "run_inv (r\<lparr>sr_server := close_connection c (sr_server r)\<rparr>)"
proof -
  let ?sv = "sr_server r" and ?r1 = "r\<lparr>sr_server := close_connection c (sr_server r)\<rparr>"
  have len: "length (sr_pcs r) = length (sv_objects ?sv)" using assms(1) by (simp add: run_inv_def)
  have "entry_ok ?r1 d" if "(i, d) \<in> set (sv_connections ?sv)" for i d
  proof -
    have "entry_ok r d" using assms(1) that by (auto simp: run_inv_def)
    with entry_at [OF assms(1) that] len assms(4) [of i] that show ?thesis
      by (auto simp: entry_ok_def close_connection_nth)
  qed
  moreover have "state_ok ?r1 d" if "d < length (sr_pcs r)" for d
    using that assms(1-3) len by (auto simp: run_inv_def state_ok_def close_connection_nth)
  moreover have "stop_ok ?r1"
    using assms(1) len by (auto simp: run_inv_def stop_ok_def close_connection_nth split: option.splits if_splits)
  ultimately show ?thesis
    using assms(1) inv_close_connection by (simp add: run_inv_def)
qed

lemma run_inv_created:
  assumes "run_inv r" and "create_connection config (sr_server r) e = Ok (c, sv1, e1)"
  shows "run_inv (r\<lparr>sr_server := sv1, sr_pcs := sr_pcs r @ [Created]\<rparr>)"
proof -
  have inv: "server_inv (sr_server r)" using assms(1) by (simp add: run_inv_def)
  note new = create_connection_made [OF assms(2) inv]
  obtain sc where sc: "sv_objects sv1 = sv_objects (sr_server r) @ [sc]" "\<not> sc_closed sc" using new(5) by blast
  have len: "length (sr_pcs r) = length (sv_objects (sr_server r))" using assms(1) by (simp add: run_inv_def)
  let ?r1 = "r\<lparr>sr_server := sv1, sr_pcs := sr_pcs r @ [Created]\<rparr>"
  have "entry_ok ?r1 d" if "(i, d) \<in> set (sv_connections sv1)" for i d
  proof -
    have i: "(i, d) \<in> set (sv_connections (sr_server r))" using that new(3) by simp
    then have "entry_ok r d" using assms(1) by (auto simp: run_inv_def)
    with entry_at [OF assms(1) i] len sc new(4) show ?thesis by (simp add: entry_ok_def nth_append)
  qed
  moreover have "state_ok ?r1 d" if "d < Suc (length (sr_pcs r))" for d
    using that assms(1) len sc by (auto simp: run_inv_def state_ok_def nth_append less_Suc_eq)
  moreover have "stop_ok ?r1"
    using assms(1) len sc new(4) by (fastforce simp: run_inv_def stop_ok_def nth_append split: option.splits)
  ultimately show ?thesis using new(2) len sc by (simp add: run_inv_def)
qed

lemma run_inv_entered:
  assumes "run_inv r" and "at_place r c Created"
  shows "run_inv (move c Entered (enter_table c (sr_server r)) r)"
proof -
  let ?sv = "sr_server r" and ?r1 = "move c Entered (enter_table c (sr_server r)) r"
  have c: "c < length (sv_objects ?sv)" and inv: "server_inv ?sv" using assms by (simp_all add: run_inv_def)
  have obj: "sv_objects (enter_table c ?sv) = sv_objects ?sv" "sv_stopped (enter_table c ?sv) = sv_stopped ?sv"
    by (simp_all add: enter_table_def)
  have "entry_ok ?r1 d" if "(i, d) \<in> set (sv_connections (enter_table c ?sv))" for i d
    using inv_enter_table(2) [OF inv c that] assms obj c
    by (auto simp: run_defs move_def nth_list_update)
  moreover have "state_ok ?r1 d" if "d < length (sr_pcs r)" for d
    using that assms obj by (simp add: run_inv_def state_ok_def move_def nth_list_update)
  moreover have "stop_ok ?r1"
    using assms obj by (auto simp: run_inv_def stop_ok_def move_def nth_list_update split: option.splits)
  ultimately show ?thesis
    using assms(1) inv_enter_table(1) [OF inv c] obj by (simp add: run_inv_def move_def)
qed

lemma run_inv_established:
  assumes "run_inv r" and "at_place r c Entered"
  shows "run_inv (move c Established (mark_established c (sr_server r)) r)"
proof -
  let ?sv = "sr_server r"
  let ?s = "(sc_Session (sv_objects ?sv ! c))\<lparr>ss_State := SessionStateEstablished\<rparr>"
  have c: "c < length (sv_objects ?sv)" and inv: "server_inv ?sv" using assms by (simp_all add: run_inv_def)
  have obj: "sv_objects (mark_established c ?sv) =
      (sv_objects ?sv)[c := (sv_objects ?sv ! c)\<lparr>sc_Session := ?s\<rparr>]"
    "sv_connections (mark_established c ?sv) = sv_connections ?sv"
    "sv_sessions (mark_established c ?sv) = sv_sessions ?sv" "sv_stopped (mark_established c ?sv) = sv_stopped ?sv"
    by (simp_all add: mark_established_def set_session_def on_object_def)
  have "object_ok (sv_objects ?sv ! c)" by (rule object_at [OF inv c])
  then have "object_ok ((sv_objects ?sv ! c)\<lparr>sc_Session := ?s\<rparr>)" by (simp add: object_ok_def session_inv_def)
  then have "server_inv (mark_established c ?sv)"
    using inv c by (auto simp: server_inv_def obj nth_list_update)
  moreover have "entry_ok (move c Established (mark_established c ?sv) r) d"
    if "(i, d) \<in> set (sv_connections ?sv)" for i d
  proof -
    have "entry_ok r d" using assms(1) that by (auto simp: run_inv_def)
    then show ?thesis using assms(2) c by (cases "d = c") (auto simp: entry_ok_def move_def obj)
  qed
  moreover have "state_ok (move c Established (mark_established c ?sv) r) d" if "d < length (sr_pcs r)" for d
    using that assms c by (auto simp: run_inv_def state_ok_def move_def obj nth_list_update)
  moreover have "stop_ok (move c Established (mark_established c ?sv) r)"
    using assms c by (auto simp: run_inv_def stop_ok_def move_def obj nth_list_update split: option.splits)
  ultimately show ?thesis using assms(1) by (simp add: run_inv_def move_def obj)
qed

lemma run_inv_removed:
  assumes "run_inv r" and "at_place r c Finned \<or> at_place r c Leaving"
  shows "run_inv (move c Removed (forget_connection c (sr_server r)) r)"
proof -
  let ?sv = "sr_server r"
  have c: "c < length (sv_objects ?sv)" and inv: "server_inv ?sv" using assms by (auto simp: run_inv_def)
  have obj: "sv_objects (forget_connection c ?sv) = sv_objects ?sv" "sv_stopped (forget_connection c ?sv) = sv_stopped ?sv"
    by (simp_all add: forget_connection_def)
  note sub = inv_forget_connection(2) [OF inv c]
  show ?thesis
    using assms inv_forget_connection(1) [OF inv c] c
    by (auto simp: run_defs move_def obj nth_list_update split: option.splits dest!: sub)
qed

lemma run_inv_cleaned:
  assumes "run_inv r"
  shows "run_inv (r\<lparr>sr_server := fst (cleanup_tick (sr_server r) e)\<rparr>)"
proof -
  let ?sv = "sr_server r" and ?sv1 = "fst (cleanup_tick (sr_server r) e)"
  let ?r1 = "r\<lparr>sr_server := ?sv1\<rparr>"
  have inv: "server_inv ?sv" and len: "length (sr_pcs r) = length (sv_objects ?sv)" using assms by (simp_all add: run_inv_def)
  note eff = cleanup_tick_effect [OF inv refl, where e = e]
  have "entry_ok ?r1 d" if "(i, d) \<in> set (sv_connections ?sv1)" for i d
    using eff(5) [OF that] assms eff(2) by (auto simp: run_inv_def entry_ok_def)
  moreover have "state_ok ?r1 d" if d: "d < length (sr_pcs r)" for d
  proof -
    have old: "state_ok r d" using assms d by (simp add: run_inv_def)
    have "entry_ok r d" if "d \<in> snd ` set (sv_connections ?sv)" using assms that by (auto simp: run_inv_def)
    with old eff(4) [of d] d len show ?thesis by (auto simp: state_ok_def entry_ok_def)
  qed
  moreover have "stop_ok ?r1"
  proof -
    have "sc_closed (sv_objects ?sv1 ! d)" if "d < length (sr_pcs r)" "sc_closed (sv_objects ?sv ! d)" for d
      using that eff(4) [of d] len by auto
    then show ?thesis using assms eff(2) by (auto simp: run_inv_def stop_ok_def split: option.splits)
  qed
  ultimately show ?thesis using eff(1,3) len by (simp add: run_inv_def)
qed

lemma run_inv_stop:
  assumes "run_inv r"
  shows "run_inv (r\<lparr>sr_server := (sr_server r)\<lparr>sv_stopped := True\<rparr>\<rparr>)"
  using assms by (auto simp: run_defs server_inv_def split: option.splits)

lemma run_inv_stop_list:
  assumes "run_inv r" and "sv_stopped (sr_server r)" and "set cs = snd ` set (sv_connections (sr_server r))"
  shows "run_inv (r\<lparr>sr_stop := Some (cs, cs)\<rparr>)"
proof -
  have "c < length (sr_pcs r) \<and> sr_pcs r ! c \<noteq> Created" if c: "c \<in> set cs" for c
  proof -
    from c assms(3) obtain i where i: "(i, c) \<in> set (sv_connections (sr_server r))" by auto
    with assms(1) have "entry_ok r c" by (auto simp: run_inv_def)
    with entry_at [OF assms(1) i] show ?thesis by (simp add: entry_ok_def)
  qed
  then have "stop_ok (r\<lparr>sr_stop := Some (cs, cs)\<rparr>)" using assms(2) by (simp add: stop_ok_def)
  with assms(1) show ?thesis by (simp add: run_inv_def entry_ok_def state_ok_def)
qed

lemma run_inv_stop_close:
  assumes "run_inv r" and "sr_stop r = Some (all, c # cs)"
  shows "run_inv (r\<lparr>sr_server := close_connection c (sr_server r), sr_stop := Some (all, cs)\<rparr>)"
proof -
  let ?r1 = "r\<lparr>sr_server := close_connection c (sr_server r)\<rparr>"
  let ?r2 = "r\<lparr>sr_server := close_connection c (sr_server r), sr_stop := Some (all, cs)\<rparr>"
  have st: "sv_stopped (sr_server r)" "set (c # cs) \<subseteq> set all"
    "\<forall>d\<in>set all. d < length (sr_pcs r) \<and> sr_pcs r ! d \<noteq> Created \<and>
      (d \<in> set (c # cs) \<or> sc_closed (sv_objects (sr_server r) ! d))"
    and len: "length (sr_pcs r) = length (sv_objects (sr_server r))"
    using assms unfolding run_inv_def stop_ok_def by auto
  then have "at_place r c (sr_pcs r ! c)" "sr_pcs r ! c \<noteq> Created" by auto
  from run_inv_close [OF assms(1) this] st(1) have r1: "run_inv ?r1" by simp
  have "d < length (sr_pcs r) \<and> sr_pcs r ! d \<noteq> Created \<and>
      (d \<in> set cs \<or> sc_closed (sv_objects (close_connection c (sr_server r)) ! d))" if "d \<in> set all" for d
    using st(3) that len by (auto simp: close_connection_nth)
  then have "stop_ok ?r2" using st(1,2) by (simp add: stop_ok_def)
  with r1 show ?thesis by (simp add: run_inv_def entry_ok_def state_ok_def)
qed

lemma server_step_inv: "server_step r t \<Longrightarrow> run_inv r \<Longrightarrow> run_inv t"
proof (induction rule: server_step.induct)
  case (memory r hm)
  then show ?case by (auto simp: run_defs server_inv_def split: option.splits)
next
  case (created hm conn e config sent hm1 e1 r e2 c sv1 e3)
  then show ?case by (intro run_inv_created)
next
  case (entered r c)
  then show ?case by (intro run_inv_entered)
next
  case (established r c)
  then show ?case by (intro run_inv_established)
next
  case (synced r c e sv1 e1)
  then have "run_inv (r\<lparr>sr_server := sv1\<rparr>)" by (intro run_inv_keeps keeps_sync_connection)
  from run_inv_goes_on [OF this, of c Established Serving] synced show ?case by (simp add: move_def)
next
  case (packet r c data e sv1 e1)
  then show ?case by (intro run_inv_keeps keeps_handle_packet)
next
  case (fin r c)
  then have "run_inv (move c Finned (sr_server r) r)" by (intro run_inv_goes_on) auto
  from run_inv_close [OF this, of c Finned] fin
  have "run_inv ((move c Finned (sr_server r) r)\<lparr>sr_server := close_connection c (sr_server r)\<rparr>)"
    by (simp add: move_def)
  moreover have "(move c Finned (sr_server r) r)\<lparr>sr_server := close_connection c (sr_server r)\<rparr> =
      move c Finned (close_connection c (sr_server r)) r" by (simp add: move_def)
  ultimately show ?case by simp
next
  case (left r c)
  then show ?case by (intro run_inv_goes_on) auto
next
  case (removed r c)
  then show ?case by (intro run_inv_removed)
next
  case (returned r c)
  then have "run_inv (r\<lparr>sr_server := close_connection c (sr_server r)\<rparr>)"
    by (intro run_inv_close) (auto simp: run_inv_def entry_ok_def)
  from run_inv_goes_on [OF this, of c Removed Returned] returned show ?case by (simp add: move_def)
next
  case (stop r)
  then show ?case by (intro run_inv_stop)
next
  case (stop_list r cs)
  then show ?case by (intro run_inv_stop_list)
next
  case (stop_close r all c cs)
  then show ?case by (intro run_inv_stop_close)
next
  case (broken r c err)
  then show ?case by (intro run_inv_keeps keeps_break)
next
  case (sent c data r e x sv1 e1)
  then show ?case by (intro run_inv_keeps keeps_send_on)
next
  case (from_tun cs r data e sv1 e1)
  then show ?case by (intro run_inv_keeps keeps_tun_round)
next
  case (cleaned r e)
  then show ?case by (intro run_inv_cleaned)
next
  case (rotated r c e s e1)
  then show ?case by (intro run_inv_keeps keeps_rotate)
next
  case (new_modes s0 r c modes e s e1)
  then show ?case by (intro run_inv_keeps keeps_new_modes)
qed

lemma server_steps_inv: "server_steps r t \<Longrightarrow> run_inv r \<Longrightarrow> run_inv t"
  by (induction rule: rtranclp_induct) (auto intro: server_step_inv)

lemma just_made_inv: "NewServer secret e = Ok (sv, e1) \<Longrightarrow> run_inv (just_made sv)"
  by (auto simp: NewServer_def just_made_def run_inv_def server_inv_def stop_ok_def bindR_eq_Ok case_prod_beta Let_def)

text \<open>\<open>handleConnection\<close> in one piece is a run of these steps.\<close>

lemma handleConnection_steps:
  assumes "handleConnection conn (sr_server r) e = Ok (Some c, sent, sv1, e1)" and "run_inv r"
  shows "server_steps r (r\<lparr>sr_server := sv1, sr_pcs := sr_pcs r @ [Serving]\<rparr>)"
proof -
  obtain config hm e2 where hs: "PerformServerHandshake (sv_handshake (sr_server r)) conn e = (Ok config, sent, hm, e2)"
    using assms(1) by (auto simp: handleConnection_def bindR_eq_Ok split: prod.splits result.splits)
  define r1 where "r1 = r\<lparr>sr_server := (sr_server r)\<lparr>sv_handshake := hm\<rparr>\<rparr>"
  obtain sv2 e3 where made: "create_connection config (sr_server r1) e2 = Ok (c, sv2, e3)"
    and sync: "sync_connection c (mark_established c (enter_table c sv2)) e3 = Ok (sv1, e1)"
    using assms(1) hs by (auto simp: handleConnection_def r1_def bindR_eq_Ok)
  have m: "server_step r r1" unfolding r1_def by (rule server_step.memory)
  then have inv1: "run_inv r1" using server_step_inv assms(2) by blast
  then have c: "c = length (sr_pcs r1)"
    using create_connection_made(1) [OF made] by (simp add: run_inv_def)
  define r2 where "r2 = r1\<lparr>sr_server := sv2, sr_pcs := sr_pcs r1 @ [Created]\<rparr>"
  define r3 where "r3 = move c Entered (enter_table c sv2) r2"
  define r4 where "r4 = move c Established (mark_established c (enter_table c sv2)) r3"
  have s1: "server_step r1 r2" unfolding r2_def by (rule server_step.created [OF hs made])
  have s2: "server_step r2 r3"
    using server_step.entered [of c r2] c by (simp add: r3_def r2_def)
  have s3: "server_step r3 r4"
    using server_step.established [of c r3] c by (simp add: r4_def r3_def r2_def move_def)
  have s4: "server_step r4 (move c Serving sv1 r4)"
    by (rule server_step.synced) (use sync c in \<open>simp_all add: r4_def r3_def r2_def move_def\<close>)
  have "move c Serving sv1 r4 = r\<lparr>sr_server := sv1, sr_pcs := sr_pcs r @ [Serving]\<rparr>"
    using c by (simp add: r4_def r3_def r2_def r1_def move_def)
  with m s1 s2 s3 s4 show ?thesis by (metis converse_rtranclp_into_rtranclp rtranclp.rtrancl_refl)
qed

end
