(* ===== verification/ClientStop.thy ===== *)
theory ClientStop
  imports Prelude
begin

text \<open>
  How \<open>Stop\<close> and \<open>readLoop\<close> of \<open>internal/engine/client.go\<close> wait for each other. \<open>Stop\<close> takes
  the client's lock, closes \<open>stopChan\<close> and waits for the loop with the lock held; the loop
  takes the same lock for its keep-alive and for each packet. The state is the place of each
  goroutine, whether \<open>stopChan\<close> is closed, and who holds the lock; a step is one action of
  one goroutine. A \<open>select\<close> takes any of its cases that are ready.
\<close>

datatype stop_pc =
    StopIdle
  | StopLocked
  | StopWaiting
  | StopDone

datatype read_pc =
    ReadTop
  | ReadBeat
  | ReadWait
  | ReadPacket
  | ReadExit

record stop_state =
  stopper :: stop_pc
  reader :: read_pc
  chan_closed :: bool
  lock_held :: bool

definition running :: stop_state where
  "running = \<lparr>stopper = StopIdle, reader = ReadTop, chan_closed = False, lock_held = False\<rparr>"

inductive stop_step :: "stop_state \<Rightarrow> stop_state \<Rightarrow> bool" where
  lock: "stopper s = StopIdle \<Longrightarrow> \<not> lock_held s \<Longrightarrow>
    stop_step s (s\<lparr>stopper := StopLocked, lock_held := True\<rparr>)"
| close_chan: "stopper s = StopLocked \<Longrightarrow>
    stop_step s (s\<lparr>stopper := StopWaiting, chan_closed := True\<rparr>)"
| waited: "stopper s = StopWaiting \<Longrightarrow> reader s = ReadExit \<Longrightarrow>
    stop_step s (s\<lparr>stopper := StopDone, lock_held := False\<rparr>)"
| top_stop: "reader s = ReadTop \<Longrightarrow> chan_closed s \<Longrightarrow> stop_step s (s\<lparr>reader := ReadExit\<rparr>)"
| top_beat: "reader s = ReadTop \<Longrightarrow> stop_step s (s\<lparr>reader := ReadBeat\<rparr>)"
| top_default: "reader s = ReadTop \<Longrightarrow> \<not> chan_closed s \<Longrightarrow> stop_step s (s\<lparr>reader := ReadWait\<rparr>)"
| beat: "reader s = ReadBeat \<Longrightarrow> \<not> lock_held s \<Longrightarrow> stop_step s (s\<lparr>reader := ReadWait\<rparr>)"
| wait_stop: "reader s = ReadWait \<Longrightarrow> chan_closed s \<Longrightarrow> stop_step s (s\<lparr>reader := ReadExit\<rparr>)"
| wait_eof: "reader s = ReadWait \<Longrightarrow> stop_step s (s\<lparr>reader := ReadExit\<rparr>)"
| wait_packet: "reader s = ReadWait \<Longrightarrow> stop_step s (s\<lparr>reader := ReadPacket\<rparr>)"
| wait_again: "reader s = ReadWait \<Longrightarrow> stop_step s (s\<lparr>reader := ReadTop\<rparr>)"
| packet: "reader s = ReadPacket \<Longrightarrow> \<not> lock_held s \<Longrightarrow> stop_step s (s\<lparr>reader := ReadTop\<rparr>)"

inductive stop_reach :: "stop_state \<Rightarrow> stop_state \<Rightarrow> bool" for s0 where
  start: "stop_reach s0 s0"
| step: "stop_reach s0 s \<Longrightarrow> stop_step s t \<Longrightarrow> stop_reach s0 t"

text \<open>
  Stop holds the lock and the loop is at a place where it needs it: Stop waits, or will wait,
  for the loop, and the loop waits for Stop.
\<close>

definition doomed :: "stop_state \<Rightarrow> bool" where
  "doomed s \<longleftrightarrow> lock_held s \<and> (reader s = ReadBeat \<or> reader s = ReadPacket)"

definition stop_inv :: "stop_state \<Rightarrow> bool" where
  "stop_inv s \<longleftrightarrow> (lock_held s \<longleftrightarrow> stopper s = StopLocked \<or> stopper s = StopWaiting) \<and>
     (chan_closed s \<longleftrightarrow> stopper s = StopWaiting \<or> stopper s = StopDone) \<and>
     (stopper s = StopDone \<longrightarrow> reader s = ReadExit)"

lemma stop_step_inv: "stop_step s t \<Longrightarrow> stop_inv s \<Longrightarrow> stop_inv t"
  by (induction rule: stop_step.induct) (auto simp: stop_inv_def)

lemma stop_reach_inv: "stop_reach s0 s \<Longrightarrow> stop_inv s0 \<Longrightarrow> stop_inv s"
  by (induction rule: stop_reach.induct) (auto intro: stop_step_inv)

lemma running_inv: "stop_inv running"
  by (simp add: stop_inv_def running_def)

section \<open>Doomed states\<close>

lemma doomed_step: "stop_step s t \<Longrightarrow> doomed s \<Longrightarrow> doomed t"
  by (induction rule: stop_step.induct) (auto simp: doomed_def)

lemma doomed_reach: "stop_reach s t \<Longrightarrow> doomed s \<Longrightarrow> doomed t"
  by (induction rule: stop_reach.induct) (auto intro: doomed_step)

lemma doomed_never_done: "stop_inv s \<Longrightarrow> doomed s \<Longrightarrow> stop_reach s t \<Longrightarrow> stopper t \<noteq> StopDone"
  using doomed_reach stop_reach_inv by (fastforce simp: doomed_def stop_inv_def)

section \<open>The others\<close>

lemma stop_reach_trans: "stop_reach t u \<Longrightarrow> stop_reach s t \<Longrightarrow> stop_reach s u"
  by (induction rule: stop_reach.induct) (auto intro: stop_reach.step)

lemma stop_reach1: "stop_step s t \<Longrightarrow> stop_reach s t"
  by (blast intro: stop_reach.intros)

lemma from_exit: "reader s = ReadExit \<Longrightarrow> stop_inv s \<Longrightarrow> \<exists>t. stop_reach s t \<and> stopper t = StopDone"
proof -
  assume r: "reader s = ReadExit" and i: "stop_inv s"
  have waiting: "\<exists>t. stop_reach u t \<and> stopper t = StopDone"
    if "stopper u = StopWaiting" "reader u = ReadExit" for u
    using stop_reach1 [OF stop_step.waited [OF that]] by (intro exI conjI) (assumption, simp)
  have locked: "\<exists>t. stop_reach u t \<and> stopper t = StopDone"
    if "stopper u = StopLocked" "reader u = ReadExit" for u
    using waiting [of "u\<lparr>stopper := StopWaiting, chan_closed := True\<rparr>"] that
      stop_reach1 [OF stop_step.close_chan [OF that(1)]] by (auto intro: stop_reach_trans)
  show ?thesis
  proof (cases "stopper s")
    case StopIdle
    with i have "\<not> lock_held s" by (simp add: stop_inv_def)
    with StopIdle locked [of "s\<lparr>stopper := StopLocked, lock_held := True\<rparr>"] r
      stop_reach1 [OF stop_step.lock] show ?thesis by (auto intro: stop_reach_trans)
  next
    case StopDone
    then show ?thesis by (blast intro: stop_reach.start)
  qed (use r waiting locked in blast)+
qed

lemma to_exit:
  assumes "stop_inv s" and "\<not> doomed s"
  shows "\<exists>u. stop_reach s u \<and> reader u = ReadExit"
proof -
  have w: "\<exists>u. stop_reach v u \<and> reader u = ReadExit" if "reader v = ReadWait" for v
    using stop_reach1 [OF stop_step.wait_eof [OF that]] by (intro exI conjI) (assumption, simp)
  have t: "\<exists>u. stop_reach v u \<and> reader u = ReadExit" if "reader v = ReadTop" for v
  proof (cases "chan_closed v")
    case True
    then show ?thesis
      using stop_reach1 [OF stop_step.top_stop [OF that]] by (intro exI conjI) (assumption, simp)
  next
    case False
    with w [of "v\<lparr>reader := ReadWait\<rparr>"] stop_reach1 [OF stop_step.top_default [OF that]]
    show ?thesis by (auto intro: stop_reach_trans)
  qed
  show ?thesis
  proof (cases "reader s")
    case ReadBeat
    with assms(2) have "\<not> lock_held s" by (simp add: doomed_def)
    with w [of "s\<lparr>reader := ReadWait\<rparr>"] stop_reach1 [OF stop_step.beat [OF ReadBeat]]
    show ?thesis by (auto intro: stop_reach_trans)
  next
    case ReadPacket
    with assms(2) have "\<not> lock_held s" by (simp add: doomed_def)
    with t [of "s\<lparr>reader := ReadTop\<rparr>"] stop_reach1 [OF stop_step.packet [OF ReadPacket]]
    show ?thesis by (auto intro: stop_reach_trans)
  next
    case ReadExit
    then show ?thesis by (blast intro: stop_reach.start)
  qed (use w t in blast)+
qed

lemma stop_can_finish_iff:
  assumes "stop_reach running s"
  shows "(\<exists>t. stop_reach s t \<and> stopper t = StopDone) \<longleftrightarrow> \<not> doomed s"
proof
  have inv: "stop_inv s" using stop_reach_inv [OF assms running_inv] .
  show "\<not> doomed s" if "\<exists>t. stop_reach s t \<and> stopper t = StopDone"
    using that doomed_never_done [OF inv] by blast
  assume "\<not> doomed s"
  then obtain u where u: "stop_reach s u" "reader u = ReadExit" using to_exit [OF inv] by blast
  with from_exit stop_reach_inv [OF u(1) inv] show "\<exists>t. stop_reach s t \<and> stopper t = StopDone"
    by (meson stop_reach_trans)
qed

lemma doomed_reachable: "\<exists>d. stop_reach running d \<and> doomed d"
proof -
  have "stop_reach running (running\<lparr>reader := ReadBeat\<rparr>)"
    by (intro stop_reach1 stop_step.top_beat) (simp add: running_def)
  then have "stop_reach running (running\<lparr>reader := ReadBeat, stopper := StopLocked, lock_held := True\<rparr>)"
    using stop_reach.step [OF _ stop_step.lock] by (fastforce simp: running_def)
  then show ?thesis by (fastforce simp: doomed_def)
qed

end
