(* ===== verification/TunnelRuns.thy ===== *)
theory TunnelRuns
  imports EngineLaws Samples
begin

text \<open>
  Whole runs over a connection that keeps its packets apart and in order, as KCP does: the client
  acts, and the server reads one after the other what was written - the copies of the handshake
  it has not read, then what the client sent.
\<close>

section \<open>The client acts, the server reads\<close>

text \<open>A call of \<open>Send\<close>, by the application or by the cover traffic, or a beat of the keep-alive.\<close>

datatype client_act = Packet bytes | Beat

fun client_acts :: "client_act list \<Rightarrow> Client \<Rightarrow> env \<Rightarrow> (Client \<times> env) result" where
  "client_acts [] c e = Ok (c, e)"
| "client_acts (Packet p # as) c e = bindR (Send p c e) (\<lambda>(_, c1, e1). client_acts as c1 e1)"
| "client_acts (Beat # as) c e = client_acts as (keep_alive c) e"

text \<open>The rounds of \<open>handleDataExchange\<close>: it ends with the connection.\<close>

fun server_reads :: "nat \<Rightarrow> bytes list \<Rightarrow> Server \<Rightarrow> env \<Rightarrow> (Server \<times> env) result option" where
  "server_reads k [] sv e = Some (Ok (sv, e))"
| "server_reads k (d # ds) sv e =
     (if sc_closed (sv_objects sv ! k) then Some (Ok (sv, e))
      else bindO (handle_packet k d sv e) (\<lambda>(sv1, e1). server_reads k ds sv1 e1))"

lemma server_reads_closed: "sc_closed (sv_objects sv ! k) \<Longrightarrow> server_reads k ds sv e = Some (Ok (sv, e))"
  by (cases ds) simp_all

text \<open>The IP packets among what is sent.\<close>

fun ip_packets :: "client_act list \<Rightarrow> bytes list" where
  "ip_packets [] = []"
| "ip_packets (Packet p # as) = (if is_ip p then p # ip_packets as else ip_packets as)"
| "ip_packets (Beat # as) = ip_packets as"

text \<open>A payload that the mode carries and that is not taken for a TLS record.\<close>

fun act_ok :: "ProtocolMode \<Rightarrow> client_act \<Rightarrow> bool" where
  "act_ok md (Packet p) = (mode_carries md p \<and> \<not> hello_like p)"
| "act_ok md Beat = True"

definition client_up :: "ProtocolMode \<Rightarrow> Client \<Rightarrow> bool" where
  "client_up md c \<longleftrightarrow> cl_connected c \<and> cl_conn c \<and> cl_write_error c = None \<and> in_step md (cl_session c)"

definition server_up :: "(Session \<Rightarrow> bool) \<Rightarrow> nat \<Rightarrow> Server \<Rightarrow> bool" where
  "server_up P k sv \<longleftrightarrow> k < length (sv_objects sv) \<and> P (sc_Session (sv_objects sv ! k)) \<and>
     \<not> sc_closed (sv_objects sv ! k)"

section \<open>The keep-alive\<close>

text \<open>No mask takes a packet of fewer than five bytes, so a beat leaves the session as it is.\<close>

lemma find_sub_fits: "find_sub p d = Some i \<Longrightarrow> i + length p \<le> length d"
proof (induction p d arbitrary: i rule: find_sub.induct)
  case (2 p x xs)
  then show ?case by (auto split: if_splits option.splits dest: arg_cong [where f = length])
qed (auto split: if_splits)

lemma refused_below_five:
  assumes "length d < 5"
  shows "\<exists>err. Masker_Unwrap mk d e = Some (Fail err)"
proof (cases mk)
  case (MDoH m)
  have "DoH_Unwrap d = Fail ErrInvalidPacket"
  proof (cases "find_sub (crlf @ crlf) d")
    case (Some i)
    with find_sub_fits [OF Some] have "slice_from d (i + 4) = Ok (drop (i + 4) d)"
      by (simp add: slice_from_def slice_ok crlf_def)
    then show ?thesis using Some assms by (simp add: DoH_Unwrap_def)
  qed (simp add: DoH_Unwrap_def)
  then show ?thesis by (simp add: MDoH stateless_def)
qed (use assms in \<open>simp_all add: stateless_def WebRTC_Unwrap_def QUIC_Unwrap_def Teams_Unwrap_def
    WinUpdate_Unwrap_def RuTube_Unwrap_def Yandex_Unwrap_def VK_Unwrap_def STUN_Unwrap_def Zoom_Unwrap_def
    Ozon_Unwrap_def Wildberries_Unwrap_def SberID_Unwrap_def Gosuslugi_Unwrap_def TLS_Unwrap_def Browser_Unwrap_def rewrap_def Let_def\<close>)

lemma try_modes_refused:
  assumes "length d < 5"
  shows "\<exists>e1. try_modes ms d e = Some (Ok (None, e1))"
proof (induction ms arbitrary: e)
  case (Cons m ms)
  obtain mk e1 where mk: "CreateMask m e = Ok (mk, e1)" using CreateMask_ok by blast
  obtain err where "Masker_Unwrap mk d e1 = Some (Fail err)" using refused_below_five [OF assms] by blast
  with mk Cons show ?case by simp
qed simp

lemma beat_refused:
  assumes "length d < 5"
  shows "\<exists>err r1 e3. Session_Unwrap r d e = Some (Ok (Fail err, r1, e3)) \<and>
    ss_LocalMixer r1 = ss_LocalMixer r \<and>
    mx_currentMask (ss_RemoteMixer r1) = mx_currentMask (ss_RemoteMixer r) \<and>
    mx_modes (ss_RemoteMixer r1) = mx_modes (ss_RemoteMixer r)"
proof -
  obtain err where "Masker_Unwrap (mx_currentMask (ss_RemoteMixer r)) d e = Some (Fail err)"
    using refused_below_five [OF assms] by blast
  moreover obtain e1 where "try_modes (mx_modes (ss_RemoteMixer r)) d e = Some (Ok (None, e1))"
    using try_modes_refused [OF assms] by blast
  ultimately show ?thesis by (auto simp: Session_Unwrap_def Mixer_Unwrap_def Let_def)
qed

text \<open>A property of sessions that neither the time nor a refused packet disturbs.\<close>

definition lasting :: "(Session \<Rightarrow> bool) \<Rightarrow> bool" where
  "lasting P \<longleftrightarrow> timeless P \<and> (\<forall>s s1. P s \<longrightarrow> ss_LocalMixer s1 = ss_LocalMixer s \<longrightarrow>
     mx_currentMask (ss_RemoteMixer s1) = mx_currentMask (ss_RemoteMixer s) \<longrightarrow>
     mx_modes (ss_RemoteMixer s1) = mx_modes (ss_RemoteMixer s) \<longrightarrow> P s1)"

lemma lasting_in_step: "lasting (in_step md)"
  by (simp add: lasting_def timeless_def in_step_def)

lemma beat_handled:
  assumes "server_up P k sv" and "lasting P"
  shows "\<exists>sv1 es1. handle_packet k [0] sv es = Some (Ok (sv1, es1)) \<and> sv_tun sv1 = sv_tun sv \<and> server_up P k sv1"
proof -
  have nf: "\<not> is_fin [0]" "\<not> is_ip [0]" by (simp_all add: is_fin_def is_ip_def)
  have "\<exists>err r1 e3. Session_Unwrap r [0] e2 = Some (Ok (Fail err, r1, e3)) \<and> P r1" if "P r" for r e2
    using beat_refused [of "[0]" r e2] that assms(2) unfolding lasting_def by fastforce
  from handle_packet_refused [OF _ _ nf _ _ this, where c = k and sv = sv and e = es and P = P] assms obtain sv1 es1 where
    "handle_packet k [0] sv es = Some (Ok (sv1, es1))" "sv_tun sv1 = sv_tun sv"
    "P (sc_Session (sv_objects sv1 ! k))" "length (sv_objects sv1) = length (sv_objects sv)"
    by (auto simp: server_up_def lasting_def)
  with handle_packet_closed [OF this(1) nf(1)] assms(1) show ?thesis by (simp add: server_up_def)
qed

lemma packet_handled:
  assumes "server_up P k sv" and "timeless P" and "pkt \<noteq> []" and "\<not> is_fin pkt"
    and "\<And>r e2. P r \<Longrightarrow> \<exists>r1 e3. Session_Unwrap r pkt e2 = Some (Ok (Ok p, r1, e3)) \<and> Q r1"
  shows "\<exists>sv1 es1. handle_packet k pkt sv es = Some (Ok (sv1, es1)) \<and> server_up Q k sv1 \<and>
    sv_tun sv1 = map_option (\<lambda>out. if is_ip p then out @ [p] else out) (sv_tun sv)"
proof -
  from handle_packet_session [OF _ assms(3,4,2) _ assms(5), where c = k and sv = sv and e = es] assms(1) obtain sv1 es1 where
    "handle_packet k pkt sv es = Some (Ok (sv1, es1))" "Q (sc_Session (sv_objects sv1 ! k))"
    "length (sv_objects sv1) = length (sv_objects sv)"
    "sv_tun sv1 = map_option (\<lambda>out. if is_ip p then out @ [p] else out) (sv_tun sv)"
    by (auto simp: server_up_def)
  with handle_packet_closed [OF this(1) assms(4)] assms(1) show ?thesis by (simp add: server_up_def)
qed

section \<open>A run of the client\<close>

text \<open>What one act writes, if anything.\<close>

lemma beat_written:
  "client_up md c \<Longrightarrow> keep_alive c = c\<lparr>cl_sent := cl_sent c @ [[0]]\<rparr>"
  by (simp add: client_up_def keep_alive_def client_write_def)

lemma send_dropped: "cl_connected c \<Longrightarrow> 20 \<le> length p \<Longrightarrow> \<not> is_ip p \<Longrightarrow> Send p c e = Ok (Ok (), c, e)"
  by (simp add: Send_def)

lemma send_written:
  assumes "client_up md c" and "md \<in> plain_modes" and "act_ok md (Packet p)" and "20 \<le> length p \<longrightarrow> is_ip p"
  shows "\<exists>pkt c1 e1. Send p c e = Ok (Ok (), c1, e1) \<and> client_up md c1 \<and> cl_sent c1 = cl_sent c @ [pkt] \<and> pkt \<noteq> [] \<and>
    (\<exists>s s1. in_step md s \<and> Session_Wrap s p e = Ok (pkt, s1, e1)) \<and>
    (\<forall>r e2. in_step md r \<longrightarrow> (\<exists>r1 e3. Session_Unwrap r pkt e2 = Some (Ok (Ok p, r1, e3)) \<and> in_step md r1))"
proof -
  let ?c = "c\<lparr>cl_packetsSent := cl_packetsSent c + 1, cl_bytesSent := cl_bytesSent c + of_nat (length p)\<rparr>"
  from assms in_step_carries [of md "cl_session c" p e] obtain pkt s1 e1 where
    w: "Session_Wrap (cl_session c) p e = Ok (pkt, s1, e1)" "in_step md s1" "pkt \<noteq> []"
    "\<forall>r e2. in_step md r \<longrightarrow> (\<exists>r1. (\<forall>e3. Session_Unwrap r pkt e3 = Some (Ok (Ok p, r1, e3))) \<and> in_step md r1)"
    by (auto simp: client_up_def)
  then have "Send p c e = Ok (Ok (), ?c\<lparr>cl_session := s1, cl_sent := cl_sent c @ [pkt]\<rparr>, e1)"
    using assms(1,4) by (auto simp: Send_def client_up_def client_write_def)
  moreover have "\<exists>s s1. in_step md s \<and> Session_Wrap s p e = Ok (pkt, s1, e1)"
    using w(1) assms(1) by (auto simp: client_up_def)
  ultimately show ?thesis using w assms(1) by (fastforce simp: client_up_def)
qed

text \<open>
  A run, and what a server in step makes of it: the IP packets come out, up to the first packet that
  looks like a FIN.
\<close>

definition carries :: "ProtocolMode \<Rightarrow> bytes list \<Rightarrow> bytes list \<Rightarrow> bool" where
  "carries md pkts ips \<longleftrightarrow> (\<forall>k sv es out. server_up (in_step md) k sv \<longrightarrow> sv_tun sv = Some out \<longrightarrow>
     (\<exists>sv1 es1 n. server_reads k pkts sv es = Some (Ok (sv1, es1)) \<and> sv_tun sv1 = Some (out @ take n ips) \<and>
        (list_all (\<lambda>d. \<not> is_fin d) pkts \<longrightarrow> length ips \<le> n \<and> server_up (in_step md) k sv1)))"

lemma carriesD:
  assumes "carries md pkts ips" and "server_up (in_step md) k sv" and "sv_tun sv = Some out"
  shows "\<exists>sv1 es1 n. server_reads k pkts sv es = Some (Ok (sv1, es1)) \<and> sv_tun sv1 = Some (out @ take n ips) \<and>
    (list_all (\<lambda>d. \<not> is_fin d) pkts \<longrightarrow> length ips \<le> n \<and> server_up (in_step md) k sv1)"
  using assms unfolding carries_def by blast

lemma carries_nil: "carries md [] []"
  unfolding carries_def by simp

lemma carries_packet:
  assumes "pkt \<noteq> []" and "carries md pkts ips"
    and "\<forall>r e2. in_step md r \<longrightarrow> (\<exists>r1 e3. Session_Unwrap r pkt e2 = Some (Ok (Ok p, r1, e3)) \<and> in_step md r1)"
  shows "carries md (pkt # pkts) (if is_ip p then p # ips else ips)"
  unfolding carries_def
proof (intro allI impI)
  fix k sv es out
  assume up: "server_up (in_step md) k sv" and out: "sv_tun sv = Some out"
  let ?ips = "if is_ip p then p # ips else ips"
  have open_k: "\<not> sc_closed (sv_objects sv ! k)" using up by (simp add: server_up_def)
  show "\<exists>sv1 es1 n. server_reads k (pkt # pkts) sv es = Some (Ok (sv1, es1)) \<and> sv_tun sv1 = Some (out @ take n ?ips) \<and>
      (list_all (\<lambda>d. \<not> is_fin d) (pkt # pkts) \<longrightarrow> length ?ips \<le> n \<and> server_up (in_step md) k sv1)"
  proof (cases "is_fin pkt")
    case True
    have "sc_closed (sv_objects (end_connection k sv) ! k)" "sv_tun (end_connection k sv) = sv_tun sv"
      using up by (simp_all add: end_connection_eq server_up_def on_object_nth)
    then have "server_reads k (pkt # pkts) sv es = Some (Ok (end_connection k sv, es))"
      using True assms(1) open_k by (simp add: handle_packet_def server_reads_closed)
    then show ?thesis using True out \<open>sv_tun (end_connection k sv) = sv_tun sv\<close> by (auto intro: exI [of _ 0])
  next
    case False
    from packet_handled [OF up _ assms(1) False, where p = p and Q = "in_step md" and es = es] assms(3) lasting_in_step obtain sv1 es1 where
      h: "handle_packet k pkt sv es = Some (Ok (sv1, es1))" "server_up (in_step md) k sv1"
      "sv_tun sv1 = Some (if is_ip p then out @ [p] else out)"
      using out by (auto simp: lasting_def)
    from carriesD [OF assms(2) h(2,3), of es1] obtain sv2 es2 n where
      r: "server_reads k pkts sv1 es1 = Some (Ok (sv2, es2))"
      "sv_tun sv2 = Some ((if is_ip p then out @ [p] else out) @ take n ips)"
      "list_all (\<lambda>d. \<not> is_fin d) pkts \<longrightarrow> length ips \<le> n \<and> server_up (in_step md) k sv2" by blast
    let ?n = "if is_ip p then Suc n else n"
    have "sv_tun sv2 = Some (out @ take ?n ?ips)" using r(2) by simp
    moreover have "server_reads k (pkt # pkts) sv es = Some (Ok (sv2, es2))" using h(1) r(1) open_k by simp
    ultimately show ?thesis using r(3) by (intro exI [of _ sv2] exI [of _ es2] exI [of _ ?n]) auto
  qed
qed

lemma carries_beat:
  assumes "carries md pkts ips"
  shows "carries md ([0] # pkts) ips"
  unfolding carries_def
proof (intro allI impI)
  fix k sv es out
  assume up: "server_up (in_step md) k sv" and out: "sv_tun sv = Some out"
  from beat_handled [OF up lasting_in_step, of es] obtain sv1 es1 where
    h: "handle_packet k [0] sv es = Some (Ok (sv1, es1))" "sv_tun sv1 = sv_tun sv" "server_up (in_step md) k sv1" by blast
  have "\<not> sc_closed (sv_objects sv ! k)" using up by (simp add: server_up_def)
  then have "server_reads k ([0] # pkts) sv es = server_reads k pkts sv1 es1" using h(1) by simp
  with carriesD [OF assms h(3), of out es1] h(2) out
  show "\<exists>sv1 es1 n. server_reads k ([0] # pkts) sv es = Some (Ok (sv1, es1)) \<and> sv_tun sv1 = Some (out @ take n ips) \<and>
      (list_all (\<lambda>d. \<not> is_fin d) ([0] # pkts) \<longrightarrow> length ips \<le> n \<and> server_up (in_step md) k sv1)" by auto
qed

lemma client_run:
  assumes "client_up md c" and "md \<in> plain_modes" and "list_all (act_ok md) acts"
  shows "\<exists>c1 e1 new. client_acts acts c e = Ok (c1, e1) \<and> client_up md c1 \<and> cl_sent c1 = cl_sent c @ new \<and>
    carries md new (ip_packets acts)"
  using assms
proof (induction acts arbitrary: c e)
  case Nil
  then show ?case by (simp add: carries_nil)
next
  case (Cons a acts)
  show ?case
  proof (cases a)
    case (Packet p)
    show ?thesis
    proof (cases "20 \<le> length p \<and> \<not> is_ip p")
      case True
      with Cons.prems have "Send p c e = Ok (Ok (), c, e)" by (simp add: send_dropped client_up_def)
      with Cons.IH [OF Cons.prems(1,2), of e] Cons.prems(3) True Packet show ?thesis by simp
    next
      case False
      from send_written [OF Cons.prems(1,2), of p e] Cons.prems(3) Packet False obtain pkt c1 e1 where
        s: "Send p c e = Ok (Ok (), c1, e1)" "client_up md c1" "cl_sent c1 = cl_sent c @ [pkt]" "pkt \<noteq> []"
        "\<forall>r e2. in_step md r \<longrightarrow> (\<exists>r1 e3. Session_Unwrap r pkt e2 = Some (Ok (Ok p, r1, e3)) \<and> in_step md r1)"
        by auto
      from Cons.IH [OF s(2) Cons.prems(2), of e1] Cons.prems(3) obtain c2 e2 new where
        "client_acts acts c1 e1 = Ok (c2, e2)" "client_up md c2" "cl_sent c2 = cl_sent c1 @ new"
        "carries md new (ip_packets acts)" by auto
      with s carries_packet [OF s(4) this(4) s(5)] Packet show ?thesis by (auto intro!: exI [of _ "pkt # new"])
    qed
  next
    case Beat
    have up: "client_up md (keep_alive c)" using Cons.prems(1) by (simp add: beat_written) (simp add: client_up_def)
    from Cons.IH [OF up Cons.prems(2), of e] Cons.prems(3) obtain c2 e2 new where
      "client_acts acts (keep_alive c) e = Ok (c2, e2)" "client_up md c2" "cl_sent c2 = cl_sent (keep_alive c) @ new"
      "carries md new (ip_packets acts)" by auto
    with carries_beat [OF this(4)] Beat beat_written [OF Cons.prems(1)] show ?thesis
      by (auto intro!: exI [of _ "[0] # new"])
  qed
qed

section \<open>The copies of the handshake\<close>

lemma be32_small:
  assumes "0 \<le> m" and "m < 65536"
  shows "be32 (of_int m) ! Suc 0 = 0"
proof -
  have m: "take_bit 16 m = m" using assms by (simp add: take_bit_int_eq_self)
  have "\<not> bit m (16 + n)" for n
    using arg_cong [OF m, of "\<lambda>k. bit k (16 + n)"] by (simp add: bit_take_bit_iff)
  then have "drop_bit 16 (of_int m :: u32) = 0" by (intro bit_word_eqI) (simp add: bit_simps)
  then show ?thesis by (simp add: be32_def)
qed

definition small_modes :: "ProtocolMode list \<Rightarrow> ProtocolMode \<Rightarrow> bool" where
  "small_modes modes cur \<longleftrightarrow> modes \<noteq> [] \<and> list_all (\<lambda>m. 0 \<le> m \<and> m < 65536) (cur # modes)"

text \<open>The bytes of a message behind its sixteenth begin with a byte of a mode or of the current mode
  that is zero.\<close>

lemma Encode_behind_sixteen:
  assumes "params_ok interval modes cur" and "NewHandshake typ interval modes cur seq e = (h, e1)"
    and "small_modes modes cur"
  shows "52 \<le> length (Encode h) \<and> drop 16 (Encode h @ s) ! 0 = 0"
proof -
  note p = NewHandshake_props [OF assms(1,2)]
  have h: "h_CurrentMode h = of_int cur" "length (h_Magic h) = 4" "length (h_Nonce h) = 16"
    using assms(2) by (auto simp: NewHandshake_def case_prod_beta Let_def draw_def)
  obtain m ms where m: "modes = m # ms" using assms(3) by (cases modes) (auto simp: small_modes_def)
  have "length (encode_head h) = 11" using h(2) by (simp add: encode_head_def)
  with h p(3,6) assms(3) m show ?thesis
    by (cases ms) (auto simp: small_modes_def Encode_def encode_modes_def encode_tail_def nth_append be32_small)
qed

lemma behind_sixteen_is_no_ip: "drop 16 a ! 0 = 0 \<Longrightarrow> \<not> is_ip (drop 16 a)"
  by (simp add: is_ip_def ip_version_def)

text \<open>What the two copies of the SYN are to a server: the packet that the client wrote three times.\<close>

definition syn_copy :: "ClientConfig \<Rightarrow> bytes \<Rightarrow> bool" where
  "syn_copy cfg a \<longleftrightarrow> (\<exists>h hm seq e e1. a = Encode h @ Sign hm (Encode h) \<and>
     NewHandshake HandshakeSyn (cc_SwitchInterval cfg) (cc_Modes cfg) (hd (cc_Modes cfg)) seq e = (h, e1))"

lemma syn_copy_no_fin:
  assumes "syn_copy cfg a" and "tunnel_ok cfg"
  shows "\<not> is_fin a" and "49 \<le> length a"
proof -
  from assms(1) obtain h hm seq e e1 where h: "a = Encode h @ Sign hm (Encode h)"
    "NewHandshake HandshakeSyn (cc_SwitchInterval cfg) (cc_Modes cfg) (hd (cc_Modes cfg)) seq e = (h, e1)"
    by (auto simp: syn_copy_def)
  have par: "params_ok (cc_SwitchInterval cfg) (cc_Modes cfg) (hd (cc_Modes cfg))"
    using assms(2) by (simp add: tunnel_ok_def)
  have "h_Magic h = [0xDE, 0xAD, 0xBE, 0xEF]"
    using h(2) by (auto simp: NewHandshake_def case_prod_beta Let_def)
  then have "a ! 4 = HandshakeSyn" using NewHandshake_props(4) [OF par h(2)] h(1) by (simp add: Encode_def encode_head_def)
  then show "\<not> is_fin a" by (simp add: is_fin_def)
  have "length (h_Magic h) = 4" "length (h_Nonce h) = 16"
    using h(2) by (auto simp: NewHandshake_def case_prod_beta Let_def draw_def)
  then show "49 \<le> length a" using h(1) NewHandshake_props(3) [OF par h(2)] by (simp add: Encode_def encode_head_def encode_tail_def Sign_def)
qed

lemma Start_writes:
  assumes "Start (Ok ()) conn c e = Ok (Ok (), replicate 3 a, c1, e2)" and "NewClient cfg e0 = Ok (Some c, e1)"
    and "tunnel_ok cfg"
  shows "syn_copy cfg a" and "cl_sent c1 = []"
proof -
  have md: "cc_Modes cfg \<noteq> []" "hd (cc_Modes cfg) \<in> plain_modes" using assms(3) by (simp_all add: tunnel_ok_def)
  note c = NewClient_props [OF assms(2) md]
  have n: "cl_sent c = []" using assms(2) by (auto simp: NewClient_def bindR_eq_Ok split: if_splits)
  obtain r sent hm e3 where p: "PerformClientHandshake (ResetReplayState (cl_handshakeMgr c)) conn
      (cc_SwitchInterval cfg) (cc_Modes cfg) (hd (cc_Modes cfg))
      (unixnano64 (fst (read_clock e)) XOR ss_ID (cl_session c)) (snd (read_clock e)) = (r, sent, hm, e3)"
    by (metis surj_pair)
  have r: "sent = replicate 3 a \<and> cl_sent c1 = []"
    using assms(1) c n p by (cases r) (auto simp: Start_def performHandshake_def case_prod_beta Let_def bindR_eq_Ok)
  then show "cl_sent c1 = []" by simp
  show "syn_copy cfg a"
    unfolding syn_copy_def using p r
    by (auto simp: PerformClientHandshake_def case_prod_beta Let_def numeral_3_eq_3 prod_eq_iff
        split: option.splits result.splits)
qed

text \<open>The masks that check nothing but the length of a packet, and what they cut off.\<close>

definition taking_modes :: "ProtocolMode set" where
  "taking_modes = {ModeVK, ModeWildberries, ModeOzon, ModeSberID, ModeGosuslugi, ModeYandex}"

definition header_len :: "ProtocolMode \<Rightarrow> nat" where
  "header_len md = (if md = ModeVK then 16 else if md = ModeWildberries then 20 else if md = ModeOzon then 24
     else if md = ModeYandex then 38 else 32)"

lemma taken_unwrap:
  assumes "in_step md r" and "md \<in> taking_modes" and "38 \<le> length d"
  shows "\<exists>r1. Session_Unwrap r d e = Some (Ok (Ok (drop (header_len md) d), r1, e)) \<and> in_step md r1"
proof -
  let ?m = "mx_currentMask (ss_RemoteMixer r)"
  have "mask_mode ?m = md" using assms(1) by (simp add: in_step_def)
  then have "Masker_Unwrap ?m d e = Some (Ok (drop (header_len md) d, ?m, e))"
    using assms(2,3) by (cases ?m) (auto simp: taking_modes_def header_len_def stateless_def VK_Unwrap_def
        Wildberries_Unwrap_def Ozon_Unwrap_def SberID_Unwrap_def Gosuslugi_Unwrap_def Yandex_Unwrap_def go_simps)
  then show ?thesis using assms(1) by (simp add: Session_Unwrap_def Mixer_Unwrap_def in_step_def Let_def)
qed

lemma copy_handled:
  assumes "server_up (in_step md) k sv" and "md \<in> taking_modes" and "\<not> is_fin a" and "49 \<le> length a"
  shows "\<exists>sv1 es1. handle_packet k a sv es = Some (Ok (sv1, es1)) \<and> server_up (in_step md) k sv1 \<and>
    sv_tun sv1 = map_option (\<lambda>out. if is_ip (drop (header_len md) a) then out @ [drop (header_len md) a] else out) (sv_tun sv)"
proof (rule packet_handled [OF assms(1) timeless_in_step])
  show "a \<noteq> []" using assms(4) by auto
  show "\<exists>r1 e3. Session_Unwrap r a e2 = Some (Ok (Ok (drop (header_len md) a), r1, e3)) \<and> in_step md r1"
    if "in_step md r" for r e2
    using taken_unwrap [OF that assms(2), of a e2] assms(4) by auto
qed fact

lemma vk_copy_no_ip:
  assumes "syn_copy cfg a" and "tunnel_ok cfg" and "small_modes (cc_Modes cfg) (hd (cc_Modes cfg))"
  shows "\<not> is_ip (drop 16 a)"
proof -
  have par: "params_ok (cc_SwitchInterval cfg) (cc_Modes cfg) (hd (cc_Modes cfg))"
    using assms(2) by (simp add: tunnel_ok_def)
  from assms(1) Encode_behind_sixteen [OF par _ assms(3)] behind_sixteen_is_no_ip show ?thesis
    unfolding syn_copy_def by metis
qed

text \<open>
  A run from the handshake on: the copies are unwrapped like any packet, what is left of one is
  an IP packet or nothing; then come the packets of the client.
\<close>

lemma run_after_handshake:
  assumes "server_up (in_step md) k sv" and "md \<in> taking_modes" and "md \<in> plain_modes" and "sv_tun sv = Some out"
    and "client_up md c" and "list_all (act_ok md) acts" and "\<not> is_fin a" and "49 \<le> length a" and "cl_sent c = []"
  shows "\<exists>c1 ec1 sv1 es1 n. client_acts acts c ec = Ok (c1, ec1) \<and>
    server_reads k ([a, a] @ cl_sent c1) sv es = Some (Ok (sv1, es1)) \<and>
    sv_tun sv1 = Some (out @ (let j = drop (header_len md) a in if is_ip j then [j, j] else []) @ take n (ip_packets acts)) \<and>
    (list_all (\<lambda>d. \<not> is_fin d) (cl_sent c1) \<longrightarrow> length (ip_packets acts) \<le> n)"
proof -
  let ?j = "drop (header_len md) a"
  from copy_handled [OF assms(1,2,7,8), of es] assms(4) obtain sv1 es1 where
    h1: "handle_packet k a sv es = Some (Ok (sv1, es1))" "server_up (in_step md) k sv1"
      "sv_tun sv1 = Some (if is_ip ?j then out @ [?j] else out)" by auto
  from copy_handled [OF h1(2) assms(2,7,8), of es1] h1(3) obtain sv2 es2 where
    h2: "handle_packet k a sv1 es1 = Some (Ok (sv2, es2))" "server_up (in_step md) k sv2"
      "sv_tun sv2 = Some (out @ (if is_ip ?j then [?j, ?j] else []))" by (auto split: if_splits)
  from client_run [OF assms(5,3,6), of ec] obtain c1 ec1 where
    c1: "client_acts acts c ec = Ok (c1, ec1)" "carries md (cl_sent c1) (ip_packets acts)"
    using assms(9) by auto
  from carriesD [OF c1(2) h2(2,3), of es2] obtain sv3 es3 n where
    r: "server_reads k (cl_sent c1) sv2 es2 = Some (Ok (sv3, es3))"
      "sv_tun sv3 = Some ((out @ (if is_ip ?j then [?j, ?j] else [])) @ take n (ip_packets acts))"
      "list_all (\<lambda>d. \<not> is_fin d) (cl_sent c1) \<longrightarrow> length (ip_packets acts) \<le> n" by blast
  have "\<not> sc_closed (sv_objects sv ! k)" "\<not> sc_closed (sv_objects sv1 ! k)"
    using assms(1) h1(2) by (simp_all add: server_up_def)
  then have "server_reads k ([a, a] @ cl_sent c1) sv es = Some (Ok (sv3, es3))" using h1(1) h2(1) r(1) by simp
  with c1(1) r(2,3) show ?thesis by (auto simp: Let_def)
qed

end
