(* ===== verification/TunnelProperties.thy ===== *)
theory TunnelProperties
  imports ServerTable ClientStop TunnelRuns
begin

text \<open>
  The tunnel as a whole: a client made by \<open>NewClient\<close> and a server, from the handshake to
  the packets of the TUN device, and what anyone else on the path can do to it.
\<close>

section \<open>Packets in both directions\<close>

text \<open>A client that can send, and the server's end of its connection, in step.\<close>

definition tunnel_up :: "ProtocolMode \<Rightarrow> Client \<Rightarrow> nat \<Rightarrow> Server \<Rightarrow> bool" where
  "tunnel_up md c k sv \<longleftrightarrow> cl_connected c \<and> cl_conn c \<and> cl_write_error c = None \<and>
     in_step md (cl_session c) \<and> k < length (sv_objects sv) \<and>
     in_step md (sc_Session (sv_objects sv ! k))"

lemma send_one:
  assumes "tunnel_up md c k sv" and "md \<in> plain_modes" and "mode_carries md p" and "is_ip p"
  shows "\<exists>c1 ec1. Send p c ec = Ok (Ok (), c1, ec1) \<and> tunnel_up md c1 k sv \<and>
    (is_fin (last (cl_sent c1)) \<or>
     (\<exists>sv1 es1. handle_packet k (last (cl_sent c1)) sv es = Some (Ok (sv1, es1)) \<and>
       tunnel_up md c1 k sv1 \<and> sv_tun sv1 = map_option (\<lambda>out. out @ [p]) (sv_tun sv)))"
proof -
  let ?r = "sc_Session (sv_objects sv ! k)"
  let ?c = "c\<lparr>cl_packetsSent := cl_packetsSent c + 1, cl_bytesSent := cl_bytesSent c + of_nat (length p)\<rparr>"
  have s: "in_step md (cl_session c)" and r: "in_step md ?r" and k: "k < length (sv_objects sv)"
    using assms(1) by (simp_all add: tunnel_up_def)
  obtain pkt s1 e1 where w: "Session_Wrap (cl_session c) p ec = Ok (pkt, s1, e1)" "in_step md s1" "pkt \<noteq> []"
    using in_step_delivers [OF s r assms(2-4), of ec] by blast
  have u: "\<exists>r1. Session_Unwrap r' pkt e2 = Some (Ok (Ok p, r1, e2)) \<and> in_step md r1"
    if "in_step md r'" for r' e2
    using in_step_delivers [OF s that assms(2-4), of ec] w(1) by auto
  have send: "Send p c ec = Ok (Ok (), ?c\<lparr>cl_session := s1, cl_sent := cl_sent c @ [pkt]\<rparr>, e1)"
    using assms(1,4) w(1) by (simp add: Send_def tunnel_up_def client_write_def)
  show ?thesis
  proof (cases "is_fin pkt")
    case True
    with send w assms(1) show ?thesis by (simp add: tunnel_up_def)
  next
    case False
    from handle_packet_unwraps [OF k w(3) False r u, of es] obtain sv1 es1 where
      "handle_packet k pkt sv es = Some (Ok (sv1, es1))"
      "sv_tun sv1 = map_option (\<lambda>out. out @ [p]) (sv_tun sv)"
      "in_step md (sc_Session (sv_objects sv1 ! k))" "k < length (sv_objects sv1)"
      using assms(4) k by auto
    with send w assms(1) show ?thesis by (simp add: tunnel_up_def)
  qed
qed

text \<open>C1: A client made by \<open>NewClient\<close> and a server with the same key open a tunnel when the first
  of the client's modes is VK, Wildberries, Ozon, SberID, Gosuslugi or Yandex and the server has not seen the client's sequence
  number: each role accepts what the other sends. Then the client acts - packets are sent,
  the keep-alive beats - and the server reads, on a connection that keeps the packets apart
  and in order, first the two copies of the SYN that the handshake left and then all that the client wrote.
  The IP packets come out of the server's TUN device, each once, in order and unchanged, up to the first packet,
  if any, whose masked form looks like a FIN; before them come only the remains of the two copies, and these only if
  what is behind a mask's header in a copy is an IP packet, which it is not in VK mode with modes below 65536.\<close>

theorem tunnel_carries_every_packet:
  assumes "NewClient cfg e0 = Ok (Some c, e1)" and "tunnel_ok cfg" and "hd (cc_Modes cfg) \<in> taking_modes"
    and "hm_authKey (sv_handshake sv) = cc_AuthKey cfg"
    and "map_of (s_LastSeen (hm_state (sv_handshake sv)))
      (unixnano64 (now (clk e)) XOR ss_ID (cl_session c)) = None"
    and "sv_tun sv = Some out"
    and "list_all (act_ok (hd (cc_Modes cfg))) acts"
  shows "\<exists>a b c1 e2 k sv1 e3 c2 ec2 sv2 es3 n. Start (Ok ()) (direct b) c e = Ok (Ok (), replicate 3 a, c1, e2) \<and>
    handleConnection (direct a) sv es = Ok (Some k, replicate 3 b, sv1, e3) \<and>
    client_acts acts c1 ec = Ok (c2, ec2) \<and>
    server_reads k (tl (replicate 3 a) @ cl_sent c2) sv1 es2 = Some (Ok (sv2, es3)) \<and>
    (let rest = drop (header_len (hd (cc_Modes cfg))) a in
      sv_tun sv2 = Some (out @ (if is_ip rest then [rest, rest] else []) @ take n (ip_packets acts)) \<and>
      (hd (cc_Modes cfg) = ModeVK \<and> list_all (\<lambda>m. 0 \<le> m \<and> m < 65536) (cc_Modes cfg) \<longrightarrow> \<not> is_ip rest)) \<and>
    (list_all (\<lambda>pkt. \<not> is_fin pkt) (cl_sent c2) \<longrightarrow> length (ip_packets acts) \<le> n)"
proof -
  let ?md = "hd (cc_Modes cfg)" and ?k = "length (sv_objects sv)"
  from tunnel_opens [OF assms(1,2,4,5), of es] obtain a b c1 e2 sv1 e3 where
    o: "Start (Ok ()) (direct b) c e = Ok (Ok (), replicate 3 a, c1, e2)"
    "handleConnection (direct a) sv es = Ok (Some ?k, replicate 3 b, sv1, e3)"
    "client_up ?md c1" "server_up (in_step ?md) ?k sv1" "sv_tun sv1 = Some out"
    using assms(6) by (auto simp: client_up_def server_up_def Let_def)
  note a = Start_writes [OF o(1) assms(1,2)]
  have md: "?md \<in> plain_modes" "cc_Modes cfg \<noteq> []" using assms(2) by (simp_all add: tunnel_ok_def)
  from run_after_handshake [OF o(4) assms(3) md(1) o(5,3) assms(7) syn_copy_no_fin [OF a(1) assms(2)] a(2), of ec es2]
  have "\<exists>c2 ec2 sv2 es3 n. client_acts acts c1 ec = Ok (c2, ec2) \<and>
      server_reads ?k (tl (replicate 3 a) @ cl_sent c2) sv1 es2 = Some (Ok (sv2, es3)) \<and>
      sv_tun sv2 = Some (out @ (let j = drop (header_len ?md) a in if is_ip j then [j, j] else []) @ take n (ip_packets acts)) \<and>
      (list_all (\<lambda>d. \<not> is_fin d) (cl_sent c2) \<longrightarrow> length (ip_packets acts) \<le> n)"
    by (simp add: numeral_3_eq_3)
  moreover have "\<not> is_ip (drop (header_len ?md) a)" if "?md = ModeVK" "list_all (\<lambda>m. 0 \<le> m \<and> m < 65536) (cc_Modes cfg)"
    using vk_copy_no_ip [OF a(1) assms(2)] that md(2) by (simp add: small_modes_def header_len_def)
  ultimately show ?thesis using o(1,2) unfolding Let_def by blast
qed

definition cfg0 :: ClientConfig where
  "cfg0 = \<lparr>cc_AuthKey = key0, cc_SwitchInterval = 300 * second, cc_Modes = [ModeVK, ModeOzon],
     cc_HandshakeTimeout = 10 * second, cc_EnableReplayProtection = True\<rparr>"

definition server0 :: Server where
  "server0 = \<lparr>sv_objects = [], sv_sessions = [], sv_connections = [], sv_handshake = manager0,
     sv_authKey = key0, sv_tun = Some [], sv_stopped = False\<rparr>"

definition ip0 :: bytes where
  "ip0 = 0x45 # replicate 19 0"

lemma cfg0_ok: "tunnel_ok cfg0"
  using params0 by (simp add: tunnel_ok_def cfg0_def plain_modes_def codec_modes_def)

lemma ip0_ip: "is_ip ip0"
  by (simp add: is_ip_def ip0_def ip_version_def)

theorem tunnel_carries_every_packet_witness:
  "\<exists>c e1 a b c1 e2 k sv1 e3 c2 ec2 sv2 es3. NewClient cfg0 env0 = Ok (Some c, e1) \<and>
    Start (Ok ()) (direct b) c e1 = Ok (Ok (), replicate 3 a, c1, e2) \<and>
    handleConnection (direct a) server0 env0 = Ok (Some k, replicate 3 b, sv1, e3) \<and>
    client_acts [Packet ip0, Beat, Packet ip0] c1 env0 = Ok (c2, ec2) \<and>
    server_reads k (tl (replicate 3 a) @ cl_sent c2) sv1 env0 = Some (Ok (sv2, es3)) \<and>
    (list_all (\<lambda>pkt. \<not> is_fin pkt) (cl_sent c2) \<longrightarrow> sv_tun sv2 = Some [ip0, ip0])"
proof -
  let ?acts = "[Packet ip0, Beat, Packet ip0]"
  obtain c e1 where c: "NewClient cfg0 env0 = Ok (Some c, e1)"
    using NewClient_total [of cfg0 env0] by (auto simp: cfg0_def key0_def)
  have k: "hm_authKey (sv_handshake server0) = cc_AuthKey cfg0"
    "map_of (s_LastSeen (hm_state (sv_handshake server0))) n = None" "sv_tun server0 = Some []" for n
    by (simp_all add: server0_def cfg0_def)
  have md: "hd (cc_Modes cfg0) = ModeVK" "list_all (\<lambda>m. 0 \<le> m \<and> m < 65536) (cc_Modes cfg0)"
    by (simp_all add: cfg0_def)
  have l: "list_all (act_ok (hd (cc_Modes cfg0))) ?acts"
    using is_ip_not_hello [OF ip0_ip] by (simp add: md mode_carries_def)
  have t: "hd (cc_Modes cfg0) \<in> taking_modes" by (simp add: md taking_modes_def)
  have ips: "ip_packets ?acts = [ip0, ip0]" using ip0_ip by simp
  from tunnel_carries_every_packet [OF c cfg0_ok t k l, of e1 env0 env0 env0] obtain a b c1 e2 k sv1 e3 c2 ec2 sv2 es3 n where
    o: "Start (Ok ()) (direct b) c e1 = Ok (Ok (), replicate 3 a, c1, e2)"
    "handleConnection (direct a) server0 env0 = Ok (Some k, replicate 3 b, sv1, e3)"
    "client_acts ?acts c1 env0 = Ok (c2, ec2)"
    "server_reads k (tl (replicate 3 a) @ cl_sent c2) sv1 env0 = Some (Ok (sv2, es3))"
    "sv_tun sv2 = Some ([] @ (if is_ip (drop (header_len (hd (cc_Modes cfg0))) a)
        then [drop (header_len (hd (cc_Modes cfg0))) a, drop (header_len (hd (cc_Modes cfg0))) a] else []) @
      take n (ip_packets ?acts))" "\<not> is_ip (drop (header_len (hd (cc_Modes cfg0))) a)"
    "list_all (\<lambda>pkt. \<not> is_fin pkt) (cl_sent c2) \<longrightarrow> length (ip_packets ?acts) \<le> n"
    unfolding Let_def using md by blast
  from o(5-7) have "list_all (\<lambda>pkt. \<not> is_fin pkt) (cl_sent c2) \<longrightarrow> sv_tun sv2 = Some [ip0, ip0]"
    unfolding ips by auto
  with c o(1-4) show ?thesis by blast
qed

section \<open>What is not protected\<close>

text \<open>C35: Nothing in a data packet proves where it comes from: whoever can send to a connection
  whose session stands in VK mode has any IP packet of his own written to the TUN device,
  behind any sixteen bytes that do not make it a FIN; and a packet that begins with five
  given bytes closes the connection and takes it out of the table, whatever the session.\<close>

theorem anyone_can_inject_and_close:
  assumes "k < length (sv_objects sv)" and "in_step ModeVK (sc_Session (sv_objects sv ! k))"
    and "sv_tun sv = Some out" and "is_ip p" and "length h = 16" and "\<not> is_fin (h @ p)"
  shows "(\<exists>sv1 e1. handle_packet k (h @ p) sv e = Some (Ok (sv1, e1)) \<and> sv_tun sv1 = Some (out @ [p])) \<and>
    (\<exists>sv1. handle_packet k ([0xDE, 0xAD, 0xBE, 0xEF, 0x03] @ t) sv e = Some (Ok (sv1, e)) \<and>
      sc_closed (sv_objects sv1 ! k) \<and>
      map_of (sv_connections sv1) (ss_ID (sc_Session (sv_objects sv ! k))) = None)"
proof
  have u: "\<exists>r1. Session_Unwrap r (h @ p) e2 = Some (Ok (Ok p, r1, e2)) \<and> in_step ModeVK r1"
    if "in_step ModeVK r" for r e2
    using that vk_accepts_anything [of "ss_RemoteMixer r" "h @ p" e2] assms(5)
    by (simp add: Session_Unwrap_def Let_def in_step_def)
  from handle_packet_unwraps [OF assms(1) _ assms(6,2) u, of e] assms(3,4) is_ip_ne [OF assms(4)]
  show "\<exists>sv1 e1. handle_packet k (h @ p) sv e = Some (Ok (sv1, e1)) \<and> sv_tun sv1 = Some (out @ [p])"
    by auto
  have "is_fin ([0xDE, 0xAD, 0xBE, 0xEF, 0x03] @ t)" by (simp add: is_fin_def)
  then show "\<exists>sv1. handle_packet k ([0xDE, 0xAD, 0xBE, 0xEF, 0x03] @ t) sv e = Some (Ok (sv1, e)) \<and>
      sc_closed (sv_objects sv1 ! k) \<and>
      map_of (sv_connections sv1) (ss_ID (sc_Session (sv_objects sv ! k))) = None"
    using assms(1) by (simp add: handle_packet_def end_connection_eq on_object_def delete_conv)
qed

definition conn0 :: ServerConnection where
  "conn0 = \<lparr>sc_ID = 1, sc_Session = session0, sc_StartTime = 0, sc_LastSeen = 0, sc_BytesIn = 0,
     sc_BytesOut = 0, sc_sent = [], sc_closed = False, sc_write_error = None\<rparr>"

definition server1 :: Server where
  "server1 = server0\<lparr>sv_objects := [conn0], sv_sessions := [(1, 0)], sv_connections := [(1, 0)]\<rparr>"

lemma server1_in_step: "in_step ModeVK (sc_Session (sv_objects server1 ! 0))"
  by (simp add: server1_def conn0_def in_step_def session0_def)

lemma server1_simps [simp]:
  "sv_objects server1 = [conn0]" "sv_connections server1 = [(1, 0)]" "sv_tun server1 = Some []"
  by (simp_all add: server1_def server0_def)

definition client1 :: Client where
  "client1 = \<lparr>cl_session = session0, cl_handshakeMgr = manager0, cl_mixer = vk_mixer,
     cl_authKey = key0, cl_connected = True, cl_handshakeDone = True, cl_stopped = False,
     cl_packetsSent = 0, cl_packetsRecv = 0, cl_bytesSent = 0, cl_bytesRecv = 0,
     cl_currentDomain = [], cl_conn = True, cl_write_error = None, cl_sent = [],
     cl_delivered = Some []\<rparr>"

lemma client1_up: "tunnel_up ModeVK client1 0 server1"
  using server1_in_step by (simp add: tunnel_up_def client1_def in_step_def session0_def)

theorem anyone_can_inject_and_close_witness:
  "\<exists>sv1 e1. handle_packet 0 (replicate 16 7 @ ip0) server1 env0 = Some (Ok (sv1, e1)) \<and>
     sv_tun sv1 = Some [ip0]"
proof -
  have "\<not> is_fin (replicate 16 7 @ ip0)" by (simp add: is_fin_def nth_append)
  with anyone_can_inject_and_close [OF _ server1_in_step, of "[]" ip0 "replicate 16 7" env0 "[]"] ip0_ip
  show ?thesis by simp
qed

section \<open>Rotation\<close>

lemma rutube_packet:
  assumes "CreateMask ModeRuTube e = Ok (mk, e1)" and "Masker_Wrap mk p e1 = Ok (pkt, mk1, e2)"
  shows "24 + length p \<le> length pkt"
proof -
  obtain r where "mk = MRuTube r" using assms(1) by (auto simp: CreateMask_def made_def)
  with assms(2) obtain r1 where "RuTube_Wrap r p e1 = Ok (pkt, r1, e2)"
    by (auto simp: rewrap_def bindR_eq_Ok)
  then show ?thesis
    by (auto simp: RuTube_Wrap_def bindR_eq_Ok case_prod_beta Let_def simp del: writes.simps
      dest!: writes_length)
qed

text \<open>\<open>ForceRotate\<close> of the client turns its own masks to the next mode and tells the server
  nothing: with the default order of modes, VK then RuTube, the server still takes sixteen
  bytes off the next packet, so that what it writes to the TUN device, if anything, is
  longer than the packet that was sent.\<close>

theorem rotation_breaks_the_tunnel:
  assumes "tunnel_up ModeVK c k sv" and "mixer_inv (cl_mixer c)"
    and "mx_modes (ss_LocalMixer (cl_session c)) = ModeVK # ModeRuTube # ms"
    and "is_ip p" and "sv_tun sv = Some out"
  shows "\<exists>c1 e1 c2 e2. Client_ForceRotate c e = Ok (c1, e1) \<and> Send p c1 e1 = Ok (Ok (), c2, e2) \<and>
    (is_fin (last (cl_sent c2)) \<or>
     (\<exists>sv1 e3. handle_packet k (last (cl_sent c2)) sv es = Some (Ok (sv1, e3)) \<and>
       (sv_tun sv1 = Some out \<or> (\<exists>q. sv_tun sv1 = Some (out @ [q]) \<and> length p < length q))))"
proof -
  let ?l = "ss_LocalMixer (cl_session c)"
  obtain m e0 where m: "ForceRotate (cl_mixer c) e = Ok (m, e0)"
    using keeps_invD [OF ForceRotate_inv assms(2)] by blast
  have cur: "mx_currentMode ?l = ModeVK" using assms(1) by (simp add: tunnel_up_def in_step_def)
  have idx: "nat (1 mod (2 + int (length ms))) = 1" by simp
  obtain mk t e1 where l: "ForceRotate ?l e0 = Ok (?l\<lparr>mx_currentMode := ModeRuTube,
      mx_currentMask := mk, mx_lastSwitch := t\<rparr>, e1)"
    using switch_to_ok [of ModeRuTube ?l e0] assms(3) cur idx
    by (auto simp: ForceRotate_def rotate_mode_def Let_def add.commute)
  let ?l1 = "?l\<lparr>mx_currentMode := ModeRuTube, mx_currentMask := mk, mx_lastSwitch := t\<rparr>"
  let ?c1 = "c\<lparr>cl_mixer := m, cl_session := (cl_session c)\<lparr>ss_LocalMixer := ?l1\<rparr>\<rparr>"
  have rot: "Client_ForceRotate c e = Ok (?c1, e1)"
    using m l by (simp add: Client_ForceRotate_def RotateLocalMask_def)
  obtain mk2 e2 where mk2: "CreateMask ModeRuTube e1 = Ok (mk2, e2)" "mask_mode mk2 = ModeRuTube" "mask_ok mk2"
    using CreateMask_ok [of ModeRuTube e1] by (auto simp: served_def)
  obtain pkt mk3 e3 where w: "Masker_Wrap mk2 p e2 = Ok (pkt, mk3, e3)"
    using masker_codec [OF mk2(3), of p e2] mk2(2) by (auto simp: codec_modes_def)
  have len: "24 + length p \<le> length pkt" by (rule rutube_packet [OF mk2(1) w])
  have sel: "SelectMask ?l1 p = ModeRuTube" using assms(4) by (simp add: select_ip)
  have "\<exists>c2 e4. Send p ?c1 e1 = Ok (Ok (), c2, e4) \<and> cl_sent c2 = cl_sent c @ [pkt]"
    using assms(1,4) sel mk2(1) w
    by (simp add: Send_def tunnel_up_def Session_Wrap_def Mixer_Wrap_def client_write_def Let_def)
  then obtain c2 e4 where send: "Send p ?c1 e1 = Ok (Ok (), c2, e4)" "last (cl_sent c2) = pkt" by auto
  have "\<exists>sv1 e5. handle_packet k pkt sv es = Some (Ok (sv1, e5)) \<and>
      (sv_tun sv1 = Some out \<or> (\<exists>q. sv_tun sv1 = Some (out @ [q]) \<and> length p < length q))"
    if "\<not> is_fin pkt"
  proof -
    have u: "\<exists>r1. Session_Unwrap r pkt e2 = Some (Ok (Ok (drop 16 pkt), r1, e2)) \<and> in_step ModeVK r1"
      if "in_step ModeVK r" for r e2
      using that vk_accepts_anything [of "ss_RemoteMixer r" pkt e2] len
      by (simp add: Session_Unwrap_def Let_def in_step_def)
    have "pkt \<noteq> []" using len by auto
    from handle_packet_unwraps [OF _ this that _ u, of k sv es] assms(1,5) len show ?thesis
      by (auto simp: tunnel_up_def)
  qed
  with rot send show ?thesis by blast
qed

theorem rotation_breaks_the_tunnel_witness:
  "\<exists>c1 e1 c2 e2. Client_ForceRotate (client1\<lparr>cl_session := session0\<lparr>ss_LocalMixer :=
      vk_mixer\<lparr>mx_modes := [ModeVK, ModeRuTube]\<rparr>\<rparr>\<rparr>) env0 = Ok (c1, e1) \<and>
    Send ip0 c1 e1 = Ok (Ok (), c2, e2) \<and>
    (is_fin (last (cl_sent c2)) \<or>
     (\<exists>sv1 e3. handle_packet 0 (last (cl_sent c2)) server1 env0 = Some (Ok (sv1, e3)) \<and>
       sv_tun sv1 \<noteq> Some [ip0]))"
proof -
  let ?c = "client1\<lparr>cl_session := session0\<lparr>ss_LocalMixer := vk_mixer\<lparr>mx_modes := [ModeVK, ModeRuTube]\<rparr>\<rparr>\<rparr>"
  have up: "tunnel_up ModeVK ?c 0 server1"
    using client1_up by (simp add: tunnel_up_def in_step_def client1_def session0_def)
  have "mixer_inv (cl_mixer ?c)"
    by (simp add: client1_def mixer_inv_def vk_mixer_def mixer_in_def day_modes_def night_modes_def
        served_def)
  from rotation_breaks_the_tunnel [OF up this, of "[]" ip0 "[]" env0 env0] ip0_ip
  show ?thesis by (simp add: client1_def session0_def) fastforce
qed

section \<open>TCP\<close>

text \<open>C38: On a TCP connection the tunnel does not survive its own handshake: the client writes its
  SYN three times without a frame header, the handshake reads one, and the server takes the
  first four bytes of the next for the length of a frame, refuses it and closes the connection.\<close>

theorem tcp_handshake_copy_closes_the_connection:
  assumes "NewHandshake HandshakeSyn interval modes cur seq e0 = (syn, e1)"
    and "k < length (sv_objects sv)"
  shows "\<exists>rest sv1. handle_stream k ((Encode syn @ Sign hm (Encode syn)) @ s) sv e = Some (Ok (rest, sv1, e)) \<and>
    sc_closed (sv_objects sv1 ! k) \<and> sv_tun sv1 = sv_tun sv"
proof -
  have m: "h_Magic syn = [0xDE, 0xAD, 0xBE, 0xEF]"
    using assms(1) by (auto simp: NewHandshake_def case_prod_beta Let_def)
  then have "\<exists>t. Encode syn = [0xDE, 0xAD, 0xBE, 0xEF] @ t"
    by (simp add: Encode_def encode_head_def)
  then obtain t where t: "Encode syn = [0xDE, 0xAD, 0xBE, 0xEF] @ t" by blast
  have l: "de32 [0xDE, 0xAD, 0xBE, 0xEF] = 0xDEADBEEF" by (simp add: de32.simps)
  have "readFrame_stream ((Encode syn @ Sign hm (Encode syn)) @ s) =
      (Fail ErrFrameTooLarge, t @ Sign hm (Encode syn) @ s)"
    using read_full_append [of "[0xDE, 0xAD, 0xBE, 0xEF]" 4 "t @ Sign hm (Encode syn) @ s"] l
    by (simp add: readFrame_stream_def t maxFrameSize_def del: read_full_append)
  then show ?thesis
    using assms(2) by (simp add: handle_stream_def end_connection_eq on_object_def)
qed

theorem tcp_handshake_copy_closes_the_connection_witness:
  "let syn = fst (NewHandshake HandshakeSyn (300 * second) [ModeVK] ModeVK 5 env0);
       pkt = Encode syn @ Sign manager0 (Encode syn)
   in \<exists>rest sv1. handle_stream 0 (pkt @ pkt) server1 env0 = Some (Ok (rest, sv1, env0)) \<and>
     sc_closed (sv_objects sv1 ! 0)"
  using tcp_handshake_copy_closes_the_connection [OF prod.collapse [symmetric], of 0 server1]
  unfolding Let_def by (fastforce simp: server1_simps)

section \<open>The table of connections\<close>

text \<open>C3: Whatever the goroutines of a server do after it was made - handshakes, packets, FINs, broken and
  idle connections, packets for the clients, changes of masks, \<open>Stop\<close>, in any order and however
  they interleave - a session id in its table names a connection of that id whose session keeps
  the invariant of its masks and its replay window, and which its goroutine has not taken out. The session is
  established, but for the moment in which its goroutine has entered it and not yet marked it;
  and the connection is open unless its goroutine has read a FIN or the server is stopped. When \<open>Stop\<close> is
  through, every connection that it found in the table is closed.\<close>

theorem connection_table_is_sound:
  assumes "NewServer secret e = Ok (sv0, e0)" and "server_steps (just_made sv0) r"
    and "map_of (sv_connections (sr_server r)) sid = Some c"
  shows "(let sc = sv_objects (sr_server r) ! c in
      c < length (sv_objects (sr_server r)) \<and> sc_ID sc = sid \<and> ss_ID (sc_Session sc) = sid \<and>
      session_inv (sc_Session sc) \<and>
      sr_pcs r ! c \<in> {Entered, Established, Serving, Finned, Leaving} \<and>
      (ss_State (sc_Session sc) = SessionStateEstablished \<or> sr_pcs r ! c = Entered) \<and>
      (\<not> sc_closed sc \<or> sr_pcs r ! c = Finned \<or> sv_stopped (sr_server r))) \<and>
    (\<forall>all. sr_stop r = Some (all, []) \<longrightarrow> (\<forall>d\<in>set all. sc_closed (sv_objects (sr_server r) ! d)))"
proof -
  have inv: "run_inv r" using server_steps_inv [OF assms(2)] just_made_inv [OF assms(1)] by blast
  have i: "(sid, c) \<in> set (sv_connections (sr_server r))" using map_of_SomeD [OF assms(3)] .
  have sv: "server_inv (sr_server r)" using inv by (simp add: run_inv_def)
  with i have c: "c < length (sv_objects (sr_server r))" "sc_ID (sv_objects (sr_server r) ! c) = sid"
    by (auto simp: server_inv_def)
  have "entry_ok r c" "state_ok r c" "stop_ok r" using inv i c(1) by (auto simp: run_inv_def)
  with c object_at [OF sv c(1)] show ?thesis
    by (cases "sr_pcs r ! c") (auto simp: entry_ok_def state_ok_def stop_ok_def object_ok_def Let_def)
qed

theorem connection_table_is_sound_witness:
  "\<exists>sv0 e0 r sid. NewServer key0 env0 = Ok (sv0, e0) \<and> server_steps (just_made sv0) r \<and>
    map_of (sv_connections (sr_server r)) sid = Some 0 \<and>
    \<not> sc_closed (sv_objects (sr_server r) ! 0) \<and>
    ss_State (sc_Session (sv_objects (sr_server r) ! 0)) = SessionStateEstablished"
proof -
  obtain sv0 e0 where sv0: "NewServer key0 env0 = Ok (sv0, e0)" "sv_objects sv0 = []" "\<not> sv_stopped sv0"
    "hm_authKey (sv_handshake sv0) = key0" "s_LastSeen (hm_state (sv_handshake sv0)) = []"
    by (simp add: NewServer_def NewHandshakeManager_total NewHandshakeState_def key0_def)
  obtain c e1 where c: "NewClient cfg0 env0 = Ok (Some c, e1)"
    using NewClient_total [of cfg0 env0] by (auto simp: cfg0_def key0_def)
  from tunnel_opens [OF c cfg0_ok, of sv0 env0 env0] sv0 obtain a b sv1 e3 where
    o: "handleConnection (direct a) sv0 env0 = Ok (Some 0, replicate 3 b, sv1, e3)"
    "map_of (sv_connections sv1) (sc_ID (sv_objects sv1 ! 0)) = Some 0" "\<not> sc_closed (sv_objects sv1 ! 0)"
    by (auto simp: cfg0_def Let_def)
  let ?r = "(just_made sv0)\<lparr>sr_server := sv1, sr_pcs := [Serving]\<rparr>"
  have r: "server_steps (just_made sv0) ?r"
    using handleConnection_steps [OF _ just_made_inv [OF sv0(1)]] o(1) by (simp add: just_made_def)
  from connection_table_is_sound [OF sv0(1) r, of "sc_ID (sv_objects sv1 ! 0)" 0] o(2,3) sv0(1) r
  show ?thesis by (auto simp: Let_def intro!: exI [of _ ?r])
qed

section \<open>Stopping a client\<close>

text \<open>C5: From every state that a running client and a call of \<open>Stop\<close> can get into, \<open>Stop\<close> can
  still complete exactly when it does not hold the lock at a moment when the read loop is
  about to take it; and such a state is reachable, after which \<open>Stop\<close> and the loop wait for
  each other for ever.\<close>

theorem stop_completes_unless_doomed:
  assumes "stop_reach running s"
  shows "((\<exists>t. stop_reach s t \<and> stopper t = StopDone) \<longleftrightarrow> \<not> doomed s) \<and>
    (\<exists>d. stop_reach running d \<and> doomed d \<and> (\<forall>t. stop_reach d t \<longrightarrow> doomed t))"
  using stop_can_finish_iff [OF assms] doomed_reachable doomed_reach by blast

theorem stop_completes_unless_doomed_witness:
  "\<exists>t. stop_reach running t \<and> stopper t = StopDone"
  using stop_completes_unless_doomed [OF stop_reach.start] by (simp add: doomed_def running_def)

end
