(* ===== verification/AnswerProperties.thy ===== *)
theory AnswerProperties
  imports TunnelProperties
begin

text \<open>
  The way from the server to the clients: what \<open>SendToSession\<close> writes for one client, and what
  the loop over the TUN device writes for all of them.
\<close>

section \<open>To one client\<close>

text \<open>A client in step hands on what was wrapped for it, and stays in step.\<close>

lemma client_receives:
  assumes "in_step md s" and "in_step md (cl_session c)" and "md \<in> plain_modes"
    and "mode_carries md p" and "is_ip p" and "cl_handshakeDone c" and "cl_delivered c = Some out"
  shows "\<exists>pkt s1 e1 c1. Session_Wrap s p e = Ok (pkt, s1, e1) \<and> in_step md s1 \<and>
    receive order pkt c ec = Some (Ok (c1, ec)) \<and> cl_delivered c1 = Some (out @ [p]) \<and>
    in_step md (cl_session c1) \<and> cl_connected c1 = cl_connected c \<and> cl_conn c1 = cl_conn c \<and>
    cl_write_error c1 = cl_write_error c"
proof -
  obtain pkt s1 e1 r1 where w: "Session_Wrap s p e = Ok (pkt, s1, e1)" "in_step md s1" "pkt \<noteq> []"
    and u: "\<And>e2. Session_Unwrap (cl_session c) pkt e2 = Some (Ok (Ok p, r1, e2))" "in_step md r1"
    using in_step_delivers [OF assms(1-5), of e] by blast
  have "p \<noteq> []" "p ! 0 \<noteq> 0x16" using is_ip_ne is_ip_not_tls assms(5) by blast+
  then have "receive order pkt c ec = Some (Ok (c\<lparr>cl_packetsRecv := cl_packetsRecv c + 1,
      cl_bytesRecv := cl_bytesRecv c + of_nat (length pkt), cl_session := r1,
      cl_delivered := Some (out @ [p])\<rparr>, ec))"
    using w(3) u(1) assms(5-7)
    by (simp add: receive_def processIncomingPacket_def follow_domain_def)
  with w u(2) show ?thesis by auto
qed

text \<open>What the server sends to a session comes out of the client's callback unchanged, while
  both ends stand in the same codec mode.\<close>

theorem server_answers_reach_the_callback:
  assumes "tunnel_up md c k sv" and "md \<in> plain_modes" and "mode_carries md p" and "is_ip p"
    and "map_of (sv_connections sv) sid = Some k" and "\<not> sc_closed (sv_objects sv ! k)"
    and "sc_write_error (sv_objects sv ! k) = None"
    and "cl_handshakeDone c" and "cl_delivered c = Some out"
  shows "\<exists>sv1 e1 pkt c1. SendToSession sid p sv es = Ok (Ok (), sv1, e1) \<and>
    sc_sent (sv_objects sv1 ! k) = sc_sent (sv_objects sv ! k) @ [pkt] \<and>
    receive order pkt c ec = Some (Ok (c1, ec)) \<and> cl_delivered c1 = Some (out @ [p]) \<and>
    tunnel_up md c1 k sv1"
proof -
  let ?s = "sc_Session (sv_objects sv ! k)" and ?k = "sv_objects sv ! k"
  have s: "in_step md ?s" and r: "in_step md (cl_session c)" and k: "k < length (sv_objects sv)"
    using assms(1) by (simp_all add: tunnel_up_def)
  from client_receives [OF s r assms(2-4,8,9), of es order ec] obtain pkt s1 e1 c1 where
    w: "Session_Wrap ?s p es = Ok (pkt, s1, e1)" "in_step md s1" and
    c1: "receive order pkt c ec = Some (Ok (c1, ec))" "cl_delivered c1 = Some (out @ [p])"
      "in_step md (cl_session c1)" "cl_connected c1 = cl_connected c" "cl_conn c1 = cl_conn c"
      "cl_write_error c1 = cl_write_error c" by blast
  let ?sv = "on_object k (\<lambda>sc. sc\<lparr>sc_BytesOut := sc_BytesOut sc + of_nat (length pkt),
      sc_LastSeen := fst (read_clock e1)\<rparr>)
    (on_object k (\<lambda>sc. sc\<lparr>sc_sent := sc_sent sc @ [pkt]\<rparr>) (set_session k s1 sv))"
  have "SendToSession sid p sv es = Ok (Ok (), ?sv, snd (read_clock e1))"
    using assms(5-7) w(1) k
    by (simp add: SendToSession_def send_on_def conn_Write_def set_session_def on_object_nth case_prod_beta Let_def)
  moreover have "sc_sent (sv_objects ?sv ! k) = sc_sent ?k @ [pkt]" "sc_Session (sv_objects ?sv ! k) = s1"
    using k by (simp_all add: set_session_def on_object_nth)
  ultimately show ?thesis
    using w(2) c1 assms(1) k by (simp add: tunnel_up_def set_session_def)
qed

theorem server_answers_reach_the_callback_witness:
  "\<exists>sv1 e1 pkt c1. SendToSession 1 ip0 server1 env0 = Ok (Ok (), sv1, e1) \<and>
    sc_sent (sv_objects sv1 ! 0) = [pkt] \<and>
    receive NewMaskSelector pkt client1 env0 = Some (Ok (c1, env0)) \<and> cl_delivered c1 = Some [ip0]"
  using server_answers_reach_the_callback [OF client1_up, of ip0 1 "[]" env0 NewMaskSelector env0] ip0_ip
  by (simp add: plain_modes_def codec_modes_def mode_carries_def conn0_def client1_def) blast

section \<open>To all clients\<close>

lemma wrap_write_other:
  "k \<noteq> j \<Longrightarrow> sv_objects (snd (conn_Write j pkt (set_session j s sv))) ! k = sv_objects sv ! k"
  by (simp add: conn_Write_def set_session_def on_object_def Let_def split: option.split)

lemma tun_round_others:
  assumes "tun_round ks p sv e = Ok (sv1, e1)" and "k \<notin> set ks"
  shows "sv_objects sv1 ! k = sv_objects sv ! k"
  using assms
proof (induction ks arbitrary: sv e)
  case (Cons j ks)
  show ?case
  proof (cases "p = []")
    case False
    with Cons.prems obtain pkt s e0 where
      w: "Session_Wrap (sc_Session (sv_objects sv ! j)) p e = Ok (pkt, s, e0)"
      "tun_round ks p (snd (conn_Write j pkt (set_session j s sv))) e0 = Ok (sv1, e1)"
      by (auto simp: bindR_eq_Ok)
    with Cons.IH [OF w(2)] Cons.prems(2) show ?thesis by (simp add: wrap_write_other)
  qed (use Cons.prems in simp)
qed simp

text \<open>A connection that the loop reaches with a client at the other end.\<close>

definition served_by :: "Client \<Rightarrow> nat \<Rightarrow> bytes \<Rightarrow> Server \<Rightarrow> bool" where
  "served_by c k p sv \<longleftrightarrow> (\<exists>md\<in>plain_modes. tunnel_up md c k sv \<and> mode_carries md p) \<and>
     \<not> sc_closed (sv_objects sv ! k) \<and> sc_write_error (sv_objects sv ! k) = None \<and>
     cl_handshakeDone c \<and> cl_delivered c \<noteq> None"

lemma served_by_other:
  assumes "served_by c k p sv" and "k \<noteq> j"
  shows "served_by c k p (snd (conn_Write j pkt (set_session j s sv)))"
  using assms
  by (simp add: served_by_def tunnel_up_def conn_Write_def set_session_def on_object_def Let_def split: option.split)

text \<open>C4: The loop over the TUN device does not look where a packet is going: every packet is written
  to every connection of the table, and each client that reads it hands it to its callback. An
  answer to one client is read by all of them.\<close>

theorem every_client_gets_every_packet:
  assumes "is_ip p" and "distinct ks" and "\<forall>k\<in>set ks. served_by (cl k) k p sv"
  shows "\<exists>sv1 e1. tun_round ks p sv es = Ok (sv1, e1) \<and>
    (\<forall>k\<in>set ks. \<exists>pkt c1. sc_sent (sv_objects sv1 ! k) = sc_sent (sv_objects sv ! k) @ [pkt] \<and>
      receive order pkt (cl k) ec = Some (Ok (c1, ec)) \<and>
      cl_delivered c1 = map_option (\<lambda>out. out @ [p]) (cl_delivered (cl k)))"
  using assms(2,3)
proof (induction ks arbitrary: sv es)
  case (Cons k ks)
  from Cons.prems(2) have k: "served_by (cl k) k p sv" by simp
  then obtain md out where md: "md \<in> plain_modes" "tunnel_up md (cl k) k sv" "mode_carries md p"
    and c: "cl_handshakeDone (cl k)" "cl_delivered (cl k) = Some out" by (auto simp: served_by_def)
  let ?s = "sc_Session (sv_objects sv ! k)"
  have "in_step md ?s" "in_step md (cl_session (cl k))" and len: "k < length (sv_objects sv)"
    using md(2) by (simp_all add: tunnel_up_def)
  from client_receives [OF this(1,2) md(1,3) assms(1) c, of es order ec] obtain pkt s1 e1 c1 where
    w: "Session_Wrap ?s p es = Ok (pkt, s1, e1)" and
    c1: "receive order pkt (cl k) ec = Some (Ok (c1, ec))" "cl_delivered c1 = Some (out @ [p])" by blast
  let ?sv = "snd (conn_Write k pkt (set_session k s1 sv))"
  have "\<forall>j\<in>set ks. served_by (cl j) j p ?sv"
    using Cons.prems by (auto intro!: served_by_other)
  from Cons.IH [OF _ this, of e1] Cons.prems(1) obtain sv1 e2 where
    t: "tun_round ks p ?sv e1 = Ok (sv1, e2)" and
    rest: "\<forall>j\<in>set ks. \<exists>pkt c1. sc_sent (sv_objects sv1 ! j) = sc_sent (sv_objects ?sv ! j) @ [pkt] \<and>
      receive order pkt (cl j) ec = Some (Ok (c1, ec)) \<and>
      cl_delivered c1 = map_option (\<lambda>out. out @ [p]) (cl_delivered (cl j))" by auto
  have "tun_round (k # ks) p sv es = Ok (sv1, e2)"
    using w t is_ip_ne [OF assms(1)] by simp
  moreover have "sc_sent (sv_objects sv1 ! k) = sc_sent (sv_objects sv ! k) @ [pkt]"
    using tun_round_others [OF t, of k] Cons.prems(1) k len
    by (simp add: served_by_def conn_Write_def set_session_def on_object_nth Let_def)
  moreover have "sc_sent (sv_objects ?sv ! j) = sc_sent (sv_objects sv ! j)" if "j \<in> set ks" for j
  proof -
    have "j \<noteq> k" using that Cons.prems(1) by auto
    then show ?thesis by (simp add: wrap_write_other)
  qed
  ultimately show ?case using c1 c(2) rest by auto
qed simp

definition server2 :: Server where
  "server2 = server1\<lparr>sv_objects := [conn0, conn0\<lparr>sc_ID := 2\<rparr>], sv_connections := [(1, 0), (2, 1)]\<rparr>"

theorem every_client_gets_every_packet_witness:
  "\<exists>sv1 e1. tun_round [0, 1] ip0 server2 env0 = Ok (sv1, e1) \<and>
    (\<forall>k\<in>{0, 1}. \<exists>pkt c1. sc_sent (sv_objects sv1 ! k) = [pkt] \<and>
      receive NewMaskSelector pkt client1 env0 = Some (Ok (c1, env0)) \<and> cl_delivered c1 = Some [ip0])"
proof -
  have "served_by client1 0 ip0 server2" "served_by client1 1 ip0 server2"
    using client1_up
    by (auto simp: served_by_def tunnel_up_def server2_def conn0_def client1_def mode_carries_def
        plain_modes_def codec_modes_def in_step_def session0_def intro!: bexI [of _ ModeVK])
  then have "\<forall>k\<in>set [0, 1]. served_by ((\<lambda>_. client1) k) k ip0 server2" by simp
  from every_client_gets_every_packet [OF ip0_ip _ this, of env0 NewMaskSelector env0]
  show ?thesis by (simp add: server2_def conn0_def client1_def nth_Cons')
qed

end
