(* ===== verification/Ciphers.thy ===== *)
theory Ciphers
  imports GoAead Prelude
begin

text \<open>
  The secrecy primitives of \<open>internal/crypto\<close> that need no peer: the cipher of \<open>cipher.go\<close>,
  the ratchet of \<open>ratchet.go\<close> and the key encapsulation of \<open>kyber.go\<close>. AES-GCM and
  HMAC-SHA-256 are the computed ones of theories GoAead and GoCrypto; \<open>rand.Read\<close> draws from
  the environment and does not fail.
\<close>

section \<open>The cipher\<close>

record AEADCipher =
  aead :: bytes
  ac_nonce :: bytes

definition NewAEADCipher :: "bytes \<Rightarrow> AEADCipher result" where
  "NewAEADCipher key =
     (if \<not> aes_key_ok key then Fail OtherError
      else Ok \<lparr>aead = key, ac_nonce = replicate 12 0\<rparr>)"

definition Aead_Encrypt :: "AEADCipher \<Rightarrow> bytes \<Rightarrow> env \<Rightarrow> bytes result \<times> env" where
  "Aead_Encrypt c plaintext e =
     (let (nonce, e1) = draw 12 e in
      (bindR (gcm_seal (aead c) nonce plaintext []) (\<lambda>ciphertext. Ok (nonce @ ciphertext)), e1))"

definition Aead_Decrypt :: "AEADCipher \<Rightarrow> bytes \<Rightarrow> bytes result" where
  "Aead_Decrypt c ciphertext =
     (if length ciphertext < 12 then Fail OtherError
      else gcm_open (aead c) (take 12 ciphertext) (drop 12 ciphertext) [])"

lemma gcm_seal_open:
  assumes "gcm_open key nonce c aad = Ok p"
  shows "gcm_seal key nonce p aad = Ok c"
proof -
  let ?n = "length c - 16"
  from assms have *: "length nonce = 12" "16 \<le> length c" "int ?n \<le> gcm_max"
      "drop ?n c = gcm_tag (aes_block key) nonce aad (take ?n c)"
      "p = ctr_xor (aes_block key) nonce (take ?n c)"
    by (auto simp: gcm_open_def Let_def split: if_splits)
  then have "take ?n c @ gcm_tag (aes_block key) nonce aad (take ?n c) = c"
    by (metis append_take_drop_id)
  with * show ?thesis by (simp add: gcm_seal_def Let_def ctr_xor_involution)
qed

lemma gcm_open_iff: "gcm_open key nonce c aad = Ok p \<longleftrightarrow> gcm_seal key nonce p aad = Ok c"
  by (blast intro: gcm_seal_open gcm_open_seal)

lemma gcm_open_not_Panic: "length nonce = 12 \<Longrightarrow> gcm_open key nonce c aad \<noteq> Panic"
  by (simp add: gcm_open_def Let_def)

lemma Aead_Encrypt_ok:
  assumes "int (length p) \<le> gcm_max"
  shows "\<exists>ct. fst (Aead_Encrypt c p e) = Ok ct \<and> length ct = length p + 28 \<and>
    Aead_Decrypt c ct = Ok p"
proof -
  have n: "length (rbytes 12 (rand e)) = 12" by simp
  from gcm_seal_ok [OF n assms] obtain s where s: "gcm_seal (aead c) (rbytes 12 (rand e)) p [] = Ok s"
    by blast
  show ?thesis
    using gcm_seal_length [OF s] gcm_open_seal [OF s] s
    by (simp add: Aead_Encrypt_def Aead_Decrypt_def draw_def)
qed

lemma Aead_Decrypt_iff:
  "Aead_Decrypt c ct = Ok p \<longleftrightarrow>
     (\<exists>nonce s. length nonce = 12 \<and> gcm_seal (aead c) nonce p [] = Ok s \<and> ct = nonce @ s)"
proof
  assume "Aead_Decrypt c ct = Ok p"
  then have "12 \<le> length ct" and "gcm_open (aead c) (take 12 ct) (drop 12 ct) [] = Ok p"
    by (auto simp: Aead_Decrypt_def split: if_splits)
  then show "\<exists>nonce s. length nonce = 12 \<and> gcm_seal (aead c) nonce p [] = Ok s \<and> ct = nonce @ s"
    by (intro exI [of _ "take 12 ct"] exI [of _ "drop 12 ct"]) (simp add: gcm_open_iff)
qed (auto simp: Aead_Decrypt_def gcm_open_iff)

lemma Aead_Decrypt_fails:
  "length ct < 28 \<Longrightarrow> Aead_Decrypt c ct = Fail OtherError"
  by (auto simp: Aead_Decrypt_def gcm_open_def)

section \<open>The ratchet\<close>

text \<open>
  The field \<open>mac\<close> is an HMAC keyed with the root key; each use resets it, so it holds no
  state beside that key. A nil chain key is the empty one.
\<close>

record DoubleRatchet =
  rootKey :: bytes
  chainKey :: bytes
  sendChainKey :: bytes
  recvChainKey :: bytes
  sendN :: u32
  recvN :: u32
  mac_key :: bytes

definition NewDoubleRatchet :: "bytes \<Rightarrow> DoubleRatchet" where
  "NewDoubleRatchet root =
     \<lparr>rootKey = root, chainKey = root, sendChainKey = [], recvChainKey = [], sendN = 0, recvN = 0,
      mac_key = root\<rparr>"

definition kdf :: "DoubleRatchet \<Rightarrow> bytes \<Rightarrow> bytes \<Rightarrow> bytes" where
  "kdf d key data = hmac_sha256 (mac_key d) (key @ data)"

definition RatchetSend :: "DoubleRatchet \<Rightarrow> bytes \<times> DoubleRatchet" where
  "RatchetSend d =
     (let d1 = d\<lparr>sendChainKey := kdf d (chainKey d) [1], sendN := sendN d + 1\<rparr>
      in (kdf d1 (sendChainKey d1) [2], d1))"

definition RatchetRecv :: "DoubleRatchet \<Rightarrow> bytes \<times> DoubleRatchet" where
  "RatchetRecv d =
     (let d1 = d\<lparr>recvChainKey := kdf d (chainKey d) [1], recvN := recvN d + 1\<rparr>
      in (kdf d1 (recvChainKey d1) [2], d1))"

text \<open>
  Both ignore the error of the cipher's constructor, which a key of 32 bytes never gives, and
  \<open>Encrypt\<close> ignores that of the cipher; a nil cipher would be dereferenced.
\<close>

definition cipher_of :: "bytes \<Rightarrow> AEADCipher result" where
  "cipher_of msgKey = (case NewAEADCipher msgKey of Ok c \<Rightarrow> Ok c | _ \<Rightarrow> Panic)"

definition Ratchet_Encrypt ::
  "DoubleRatchet \<Rightarrow> bytes \<Rightarrow> env \<Rightarrow> (bytes \<times> bytes) result \<times> DoubleRatchet \<times> env" where
  "Ratchet_Encrypt d plaintext e =
     (case cipher_of (kdf d (sendChainKey d) [2]) of
        Ok c \<Rightarrow>
          (case Aead_Encrypt c plaintext e of
             (Ok encrypted, e1) \<Rightarrow>
               (let (key, d1) = RatchetSend d in (Ok (encrypted, key), d1, e1))
           | (Fail _, e1) \<Rightarrow> (let (key, d1) = RatchetSend d in (Ok ([], key), d1, e1))
           | (Panic, e1) \<Rightarrow> (Panic, d, e1))
      | _ \<Rightarrow> (Panic, d, e))"

definition Ratchet_Decrypt :: "DoubleRatchet \<Rightarrow> bytes \<Rightarrow> bytes result \<times> DoubleRatchet" where
  "Ratchet_Decrypt d ciphertext =
     (case cipher_of (kdf d (recvChainKey d) [2]) of
        Ok c \<Rightarrow> (let (_, d1) = RatchetRecv d in (Aead_Decrypt c ciphertext, d1))
      | _ \<Rightarrow> (Panic, d))"

lemma length_kdf [simp]: "length (kdf d k x) = 32"
  by (simp add: kdf_def)

lemma cipher_of_kdf [simp]:
  "cipher_of (kdf d k x) = Ok \<lparr>aead = kdf d k x, ac_nonce = replicate 12 0\<rparr>"
  by (simp add: cipher_of_def NewAEADCipher_def aes_key_ok_def)

text \<open>The one chain key a ratchet ever steps to.\<close>

definition ratchet_chain :: "bytes \<Rightarrow> bytes" where
  "ratchet_chain root = hmac_sha256 root (root @ [1])"

definition ratchet_inv :: "bytes \<Rightarrow> DoubleRatchet \<Rightarrow> bool" where
  "ratchet_inv root d \<longleftrightarrow> rootKey d = root \<and> chainKey d = root \<and> mac_key d = root \<and>
     sendChainKey d \<in> {[], ratchet_chain root} \<and> recvChainKey d \<in> {[], ratchet_chain root}"

lemma ratchet_new: "ratchet_inv root (NewDoubleRatchet root)"
  by (simp add: ratchet_inv_def NewDoubleRatchet_def)

lemma RatchetSend_inv:
  assumes "ratchet_inv root d"
  shows "ratchet_inv root (snd (RatchetSend d))"
    and "sendChainKey (snd (RatchetSend d)) = ratchet_chain root"
    and "recvChainKey (snd (RatchetSend d)) = recvChainKey d"
    and "fst (RatchetSend d) = hmac_sha256 root (ratchet_chain root @ [2])"
  using assms
  by (auto simp: ratchet_inv_def RatchetSend_def kdf_def ratchet_chain_def Let_def split: if_splits)

lemma RatchetRecv_inv:
  assumes "ratchet_inv root d"
  shows "ratchet_inv root (snd (RatchetRecv d))"
    and "recvChainKey (snd (RatchetRecv d)) = ratchet_chain root"
    and "sendChainKey (snd (RatchetRecv d)) = sendChainKey d"
    and "fst (RatchetRecv d) = hmac_sha256 root (ratchet_chain root @ [2])"
  using assms
  by (auto simp: ratchet_inv_def RatchetRecv_def kdf_def ratchet_chain_def Let_def split: if_splits)

lemma Ratchet_Encrypt_ok:
  assumes "int (length p) \<le> gcm_max"
  shows "\<exists>ct. fst (Ratchet_Encrypt d p e) = Ok (ct, fst (RatchetSend d)) \<and>
    fst (snd (Ratchet_Encrypt d p e)) = snd (RatchetSend d) \<and>
    Aead_Decrypt \<lparr>aead = kdf d (sendChainKey d) [2], ac_nonce = replicate 12 0\<rparr> ct = Ok p"
proof -
  let ?c = "\<lparr>aead = kdf d (sendChainKey d) [2], ac_nonce = replicate 12 0\<rparr>"
  from Aead_Encrypt_ok [OF assms, of ?c e] obtain ct e1
    where "Aead_Encrypt ?c p e = (Ok ct, e1)" "Aead_Decrypt ?c ct = Ok p"
    by (metis prod.collapse)
  then show ?thesis
    by (auto simp: Ratchet_Encrypt_def split: prod.splits)
qed

lemma Ratchet_Decrypt_eq:
  "Ratchet_Decrypt d ct =
     (Aead_Decrypt \<lparr>aead = kdf d (recvChainKey d) [2], ac_nonce = replicate 12 0\<rparr> ct,
      snd (RatchetRecv d))"
  by (simp add: Ratchet_Decrypt_def split: prod.splits)

text \<open>What the operations of a ratchet lead to from a root key.\<close>

inductive ratchet_reach :: "bytes \<Rightarrow> DoubleRatchet \<Rightarrow> bool" for root where
  fresh: "ratchet_reach root (NewDoubleRatchet root)"
| send: "ratchet_reach root d \<Longrightarrow> ratchet_reach root (snd (RatchetSend d))"
| recv: "ratchet_reach root d \<Longrightarrow> ratchet_reach root (snd (RatchetRecv d))"
| encrypt: "ratchet_reach root d \<Longrightarrow> int (length p) \<le> gcm_max \<Longrightarrow>
    ratchet_reach root (fst (snd (Ratchet_Encrypt d p e)))"
| decrypt: "ratchet_reach root d \<Longrightarrow> ratchet_reach root (snd (Ratchet_Decrypt d ct))"

lemma ratchet_reach_inv: "ratchet_reach root d \<Longrightarrow> ratchet_inv root d"
proof (induction rule: ratchet_reach.induct)
  case (encrypt d p e)
  then show ?case using Ratchet_Encrypt_ok [of p d e] by (auto dest: RatchetSend_inv(1))
qed (simp_all add: ratchet_new RatchetSend_inv RatchetRecv_inv Ratchet_Decrypt_eq)

text \<open>The key that seals the next message, and the key that opens the next one.\<close>

definition message_key :: "bytes \<Rightarrow> bytes \<Rightarrow> bytes" where
  "message_key root ck = hmac_sha256 root (ck @ [2])"

lemma kdf_message_key: "ratchet_inv root d \<Longrightarrow> kdf d ck [2] = message_key root ck"
  by (simp add: ratchet_inv_def kdf_def message_key_def)

section \<open>Key encapsulation\<close>

record KyberKeyPair =
  kyber_Public :: bytes
  kyber_Private :: bytes

definition GenerateKeyPair :: "env \<Rightarrow> KyberKeyPair result \<times> env" where
  "GenerateKeyPair e =
     (let (pub, e1) = draw 1184 e; (priv, e2) = draw 2400 e1
      in (Ok \<lparr>kyber_Public = pub, kyber_Private = priv\<rparr>, e2))"

definition Encapsulate :: "bytes \<Rightarrow> env \<Rightarrow> (bytes \<times> bytes) result \<times> env" where
  "Encapsulate publicKey e =
     (if length publicKey \<noteq> 1184 then (Fail OtherError, e)
      else
        let (ciphertext, e1) = draw 1088 e; (sharedSecret, e2) = draw 32 e1
        in (Ok (ciphertext, sharedSecret), e2))"

definition Decapsulate :: "bytes \<Rightarrow> bytes \<Rightarrow> env \<Rightarrow> bytes result \<times> env" where
  "Decapsulate privateKey ciphertext e =
     (if length privateKey \<noteq> 2400 then (Fail OtherError, e)
      else if length ciphertext \<noteq> 1088 then (Fail OtherError, e)
      else let (sharedSecret, e1) = draw 32 e in (Ok sharedSecret, e1))"

lemma rbytes_any: "length s = n \<Longrightarrow> rbytes n (\<lambda>i. if i < n then s ! i else r i) = s"
  by (auto simp: rbytes_def intro: nth_equalityI)

lemma Decapsulate_any:
  assumes "length priv = 2400" and "length ct = 1088" and "length s = 32"
  shows "\<exists>e'. fst (Decapsulate priv ct e') = Ok s"
  by (rule exI [of _ "env\<lparr>rand := (\<lambda>i. if i < 32 then s ! i else 0)\<rparr>" for env])
    (simp add: Decapsulate_def draw_def assms rbytes_any)

end
