(* ===== verification/Noise.thy ===== *)
theory Noise
  imports Ciphers Frames
begin

text \<open>
  The key exchange of \<open>internal/crypto/noise.go\<close> and the hybrid one of \<open>hybrid.go\<close>.
  Curve25519 and HKDF are of the third-party module golang.org/x/crypto, so they are a
  parameter: multiplication of a scalar and a point, multiplication of the base point, and
  the first bytes HKDF-SHA-256 gives for a secret and a salt with no info. A connection is
  the bytes the peer sends and a writer. Keys are values: that the key a first handshake
  returned is a slice of the array into which a second handshake of the same object reads its
  throwaway bytes is not modelled.
\<close>

section \<open>Steps that may fail\<close>

text \<open>
  The handshake mutates its object and reads and writes as it goes, and returns at the first
  error with what it has done so far.
\<close>

record NoiseHandshake =
  initiator :: bool
  staticPublic :: bytes
  staticPrivate :: bytes
  ephemeralPublic :: bytes
  ephemeralPrivate :: bytes
  peerStatic :: bytes
  peerEphemeral :: bytes
  nz_ck :: bytes
  nz_h :: bytes
  cipherKey :: "bytes option"
  finished :: bool

record noise_conn =
  nc_in :: bytes
  nc_out :: writer

type_synonym 'a noise_step = "NoiseHandshake \<times> noise_conn \<Rightarrow> 'a result \<times> NoiseHandshake \<times> noise_conn"

definition bindS :: "'a noise_step \<Rightarrow> ('a \<Rightarrow> 'b noise_step) \<Rightarrow> 'b noise_step" where
  "bindS m f = (\<lambda>s. case m s of
     (Ok x, s1) \<Rightarrow> f x s1 | (Fail e, s1) \<Rightarrow> (Fail e, s1) | (Panic, s1) \<Rightarrow> (Panic, s1))"

definition noise_upd :: "(NoiseHandshake \<Rightarrow> NoiseHandshake) \<Rightarrow> unit noise_step" where
  "noise_upd f = (\<lambda>(n, c). (Ok (), f n, c))"

definition noise_get :: "(NoiseHandshake \<Rightarrow> 'a) \<Rightarrow> 'a noise_step" where
  "noise_get f = (\<lambda>(n, c). (Ok (f n), n, c))"

definition writeMessage :: "bytes \<Rightarrow> unit noise_step" where
  "writeMessage data = (\<lambda>(n, c).
     (fst (w_write data (nc_out c)), n, c\<lparr>nc_out := snd (w_write data (nc_out c))\<rparr>))"

definition readMessage :: "nat \<Rightarrow> bytes noise_step" where
  "readMessage len = (\<lambda>(n, c).
     (fst (read_full len (nc_in c)), n, c\<lparr>nc_in := snd (read_full len (nc_in c))\<rparr>))"

lemma bindS_simps [simp]:
  "m s = (Ok x, s1) \<Longrightarrow> bindS m f s = f x s1"
  "m s = (Fail e, s1) \<Longrightarrow> bindS m f s = (Fail e, s1)"
  by (simp_all add: bindS_def)

section \<open>The Noise handshake\<close>

record x_crypto =
  ScalarMult :: "bytes \<Rightarrow> bytes \<Rightarrow> bytes"
  ScalarBaseMult :: "bytes \<Rightarrow> bytes"
  hkdf :: "bytes \<Rightarrow> bytes \<Rightarrow> nat \<Rightarrow> bytes"

definition protocolName :: bytes where
  "protocolName = map of_char ''Noise_XX_25519_ChaChaPoly_SHA256''"

definition NewNoiseHandshake :: "x_crypto \<Rightarrow> bool \<Rightarrow> bytes \<Rightarrow> env \<Rightarrow> NoiseHandshake result \<times> env" where
  "NewNoiseHandshake x init static e =
     (let (sp, e1) = (if length static = 32 then (static, e) else draw 32 e);
          (ep, e2) = draw 32 e1; h = sha256 protocolName
      in (Ok \<lparr>initiator = init, staticPublic = ScalarBaseMult x sp, staticPrivate = sp,
             ephemeralPublic = ScalarBaseMult x ep, ephemeralPrivate = ep,
             peerStatic = replicate 32 0, peerEphemeral = replicate 32 0, nz_ck = h, nz_h = h,
             cipherKey = None, finished = False\<rparr>, e2))"

definition mixHash :: "bytes \<Rightarrow> NoiseHandshake \<Rightarrow> NoiseHandshake" where
  "mixHash data n = n\<lparr>nz_h := sha256 (nz_h n @ data)\<rparr>"

text \<open>The second read of the key stream goes to the chaining key that is then replaced.\<close>

definition mixKey :: "x_crypto \<Rightarrow> bytes \<Rightarrow> NoiseHandshake \<Rightarrow> NoiseHandshake" where
  "mixKey x data n = n\<lparr>nz_ck := hkdf x data (nz_ck n) 32\<rparr>"

text \<open>\<open>copy\<close> into an array of 32 bytes keeps what a shorter source leaves.\<close>

definition copy32 :: "bytes \<Rightarrow> bytes \<Rightarrow> bytes" where
  "copy32 dst src = take 32 src @ drop (length (take 32 src)) dst"

definition recv_ephemeral :: "unit noise_step" where
  "recv_ephemeral =
     bindS (readMessage 32) (\<lambda>k.
     bindS (noise_upd (\<lambda>n. n\<lparr>peerEphemeral := copy32 (peerEphemeral n) k\<rparr>)) (\<lambda>_.
     noise_upd (\<lambda>n. mixHash (peerEphemeral n) n)))"

definition recv_static :: "unit noise_step" where
  "recv_static =
     bindS (readMessage 32) (\<lambda>k.
     bindS (noise_upd (\<lambda>n. n\<lparr>peerStatic := copy32 (peerStatic n) k\<rparr>)) (\<lambda>_.
     noise_upd (\<lambda>n. mixHash (peerStatic n) n)))"

definition send_ephemeral :: "unit noise_step" where
  "send_ephemeral =
     bindS (noise_get ephemeralPublic) (\<lambda>k.
     bindS (writeMessage k) (\<lambda>_. noise_upd (\<lambda>n. mixHash (ephemeralPublic n) n)))"

definition send_static :: "unit noise_step" where
  "send_static =
     bindS (noise_get staticPublic) (\<lambda>k.
     bindS (writeMessage k) (\<lambda>_. noise_upd (\<lambda>n. mixHash (staticPublic n) n)))"

definition mix_ee :: "x_crypto \<Rightarrow> unit noise_step" where
  "mix_ee x = noise_upd (\<lambda>n. mixKey x (ScalarMult x (ephemeralPrivate n) (peerEphemeral n)) n)"

text \<open>The ephemeral key with the peer's static one, and the static key with the ephemeral one.\<close>

definition mix_es :: "x_crypto \<Rightarrow> unit noise_step" where
  "mix_es x = noise_upd (\<lambda>n. mixKey x (ScalarMult x (ephemeralPrivate n) (peerStatic n)) n)"

definition mix_se :: "x_crypto \<Rightarrow> unit noise_step" where
  "mix_se x = noise_upd (\<lambda>n. mixKey x (ScalarMult x (staticPrivate n) (peerEphemeral n)) n)"

definition Noise_Handshake :: "x_crypto \<Rightarrow> bytes noise_step" where
  "Noise_Handshake x = bindS (noise_get initiator) (\<lambda>init.
     bindS (if init then
              bindS send_ephemeral (\<lambda>_. bindS recv_ephemeral (\<lambda>_. bindS (mix_ee x) (\<lambda>_.
              bindS recv_static (\<lambda>_. bindS (mix_es x) (\<lambda>_.
              bindS send_static (\<lambda>_. mix_se x))))))
            else
              bindS recv_ephemeral (\<lambda>_. bindS send_ephemeral (\<lambda>_. bindS (mix_ee x) (\<lambda>_.
              bindS send_static (\<lambda>_. bindS (mix_se x) (\<lambda>_.
              bindS recv_static (\<lambda>_. mix_es x)))))))
       (\<lambda>_. bindS (noise_upd (\<lambda>n. n\<lparr>finished := True, cipherKey := Some (nz_ck n)\<rparr>))
              (\<lambda>_. noise_get nz_ck)))"

definition GetPeerKey :: "NoiseHandshake \<Rightarrow> bytes" where
  "GetPeerKey n = peerStatic n"

definition SetPeerKey :: "bytes \<Rightarrow> NoiseHandshake \<Rightarrow> NoiseHandshake" where
  "SetPeerKey key n = (if length key = 32 then n\<lparr>peerStatic := copy32 (peerStatic n) key\<rparr> else n)"

definition GetSharedSecret :: "NoiseHandshake \<Rightarrow> bytes option" where
  "GetSharedSecret n = cipherKey n"

definition SetSharedSecret :: "bytes option \<Rightarrow> NoiseHandshake \<Rightarrow> NoiseHandshake" where
  "SetSharedSecret secret n = n\<lparr>cipherKey := secret\<rparr>"

definition GetCipherKey :: "NoiseHandshake \<Rightarrow> bytes option" where
  "GetCipherKey n = cipherKey n"

text \<open>What \<open>NewNoiseHandshake\<close> gives: key pairs, and arrays of 32 bytes.\<close>

definition noise_ok :: "x_crypto \<Rightarrow> NoiseHandshake \<Rightarrow> bool" where
  "noise_ok x n \<longleftrightarrow> staticPublic n = ScalarBaseMult x (staticPrivate n) \<and>
     ephemeralPublic n = ScalarBaseMult x (ephemeralPrivate n) \<and>
     length (staticPrivate n) = 32 \<and> length (ephemeralPrivate n) = 32 \<and>
     length (peerStatic n) = 32 \<and> length (peerEphemeral n) = 32"

lemma NewNoiseHandshake_ok:
  "NewNoiseHandshake x init static e = (Ok n, e1) \<Longrightarrow>
     noise_ok x n \<and> initiator n = init \<and> nz_ck n = sha256 protocolName \<and> cipherKey n = None"
  by (auto simp: NewNoiseHandshake_def noise_ok_def draw_def Let_def split: if_splits prod.splits)

text \<open>The key an initiator and a responder derive from what the peer sends.\<close>

definition chain3 :: "x_crypto \<Rightarrow> bytes \<Rightarrow> bytes \<Rightarrow> bytes \<Rightarrow> bytes \<Rightarrow> bytes" where
  "chain3 x ck a b c = hkdf x c (hkdf x b (hkdf x a ck 32) 32) 32"

definition noise_key :: "x_crypto \<Rightarrow> NoiseHandshake \<Rightarrow> bytes \<Rightarrow> bytes \<Rightarrow> bytes" where
  "noise_key x n pe ps =
     (let ee = ScalarMult x (ephemeralPrivate n) pe; es = ScalarMult x (ephemeralPrivate n) ps;
          se = ScalarMult x (staticPrivate n) pe
      in if initiator n then chain3 x (nz_ck n) ee es se else chain3 x (nz_ck n) ee se es)"

lemma copy32_full [simp]: "length dst = 32 \<Longrightarrow> length src = 32 \<Longrightarrow> copy32 dst src = src"
  by (simp add: copy32_def)

lemmas noise_steps = recv_ephemeral_def recv_static_def send_ephemeral_def send_static_def
  mix_ee_def mix_es_def mix_se_def readMessage_def writeMessage_def noise_upd_def noise_get_def
  mixHash_def mixKey_def

lemma Noise_Handshake_runs:
  assumes "length pe = 32" and "length ps = 32"
    and "length (peerStatic n) = 32" and "length (peerEphemeral n) = 32"
    and "w_budget (nc_out c) = None" and "nc_in c = pe @ ps @ r"
  shows "\<exists>n'. Noise_Handshake x (n, c) =
      (Ok (noise_key x n pe ps), n',
       c\<lparr>nc_in := r, nc_out := (nc_out c)\<lparr>w_out := w_out (nc_out c) @ ephemeralPublic n @ staticPublic n\<rparr>\<rparr>) \<and>
     cipherKey n' = Some (noise_key x n pe ps) \<and> finished n' \<and> peerStatic n' = ps"
  using assms
  by (cases "initiator n")
    (simp_all add: Noise_Handshake_def bindS_def noise_steps w_write_def noise_key_def chain3_def Let_def)

section \<open>The hybrid exchange\<close>

record HybridKEX =
  hk_noise :: NoiseHandshake
  hk_secret :: bytes

definition NewHybridKEX :: "x_crypto \<Rightarrow> bool \<Rightarrow> bytes \<Rightarrow> env \<Rightarrow> HybridKEX result \<times> env" where
  "NewHybridKEX x init static e =
     (let (r, e1) = NewNoiseHandshake x init static e
      in (bindR r (\<lambda>n. Ok \<lparr>hk_noise = n, hk_secret = []\<rparr>), e1))"

text \<open>
  With no shared secret the result is nil slices and the error of the last call, which is nil.
\<close>

definition GenerateSharedSecret ::
  "HybridKEX \<Rightarrow> env \<Rightarrow> (bytes option \<times> bytes option) result \<times> env" where
  "GenerateSharedSecret h e =
     (case GenerateKeyPair e of
        (Ok pair, e1) \<Rightarrow>
          (case Encapsulate (kyber_Public pair) e1 of
             (Ok (ciphertext, kyberSecret), e2) \<Rightarrow>
               (case GetSharedSecret (hk_noise h) of
                  None \<Rightarrow> (Ok (None, None), e2)
                | Some noiseSecret \<Rightarrow>
                    (Ok (Some (sha256 (kyberSecret @ noiseSecret)), Some ciphertext), e2))
           | (Fail err, e2) \<Rightarrow> (Fail err, e2) | (Panic, e2) \<Rightarrow> (Panic, e2))
      | (Fail err, e1) \<Rightarrow> (Fail err, e1) | (Panic, e1) \<Rightarrow> (Panic, e1))"

definition DecapsulateSharedSecret ::
  "HybridKEX \<Rightarrow> bytes \<Rightarrow> bytes \<Rightarrow> env \<Rightarrow> bytes option result \<times> env" where
  "DecapsulateSharedSecret h publicKey ciphertext e =
     (case Decapsulate publicKey ciphertext e of
        (Ok kyberSecret, e1) \<Rightarrow>
          (case GetSharedSecret (hk_noise h) of
             None \<Rightarrow> (Ok None, e1)
           | Some noiseSecret \<Rightarrow> (Ok (Some (sha256 (kyberSecret @ noiseSecret))), e1))
      | (Fail err, e1) \<Rightarrow> (Fail err, e1) | (Panic, e1) \<Rightarrow> (Panic, e1))"

definition Hybrid_Handshake ::
  "x_crypto \<Rightarrow> HybridKEX \<Rightarrow> noise_conn \<Rightarrow> unit result \<times> HybridKEX \<times> noise_conn" where
  "Hybrid_Handshake x h c =
     (case Noise_Handshake x (hk_noise h, c) of
        (Ok secret, n1, c1) \<Rightarrow> (Ok (), h\<lparr>hk_noise := SetSharedSecret (Some secret) n1\<rparr>, c1)
      | (Fail err, n1, c1) \<Rightarrow> (Fail err, h\<lparr>hk_noise := n1\<rparr>, c1)
      | (Panic, n1, c1) \<Rightarrow> (Panic, h\<lparr>hk_noise := n1\<rparr>, c1))"

end
