(* ===== verification/Padding.thy ===== *)
theory Padding
  imports Prelude
begin

text \<open>
  The padding engine of \<open>internal/crypto/padding.go\<close>. Sizes are Go ints, and \<open>make\<close> panics
  on a negative one; a nil slice is the empty list. The last section compares the search for
  a natural packet size with the least such size.
\<close>

record PaddingConfig =
  MinSize :: int
  MaxSize :: int
  RotateInterval :: duration
  UseHistogram :: bool
  TargetSizes :: "int list"

definition DefaultPaddingConfig :: PaddingConfig where
  "DefaultPaddingConfig =
     \<lparr>MinSize = 16, MaxSize = 256, RotateInterval = 30 * second, UseHistogram = True,
      TargetSizes = [40, 52, 64, 76, 88, 128, 256, 512, 1024, 1350, 1400]\<rparr>"

record PaddingEngine =
  pe_minSize :: int
  pe_maxSize :: int
  pe_currentSize :: int
  pe_lastRotate :: instant
  pe_rotateEvery :: duration
  pe_targetSizes :: "int list"
  pe_useHistogram :: bool

text \<open>One reading of the clock decides, the next picks the size, the last is kept.\<close>

definition pe_rotate :: "PaddingEngine \<Rightarrow> env \<Rightarrow> (PaddingEngine \<times> env) result" where
  "pe_rotate p e =
     (if \<not> 0 < pe_rotateEvery p then Ok (p, e)
      else
        let (t1, e1) = read_clock e in
        if t1 - pe_lastRotate p \<le> pe_rotateEvery p then Ok (p, e1)
        else if pe_useHistogram p \<and> pe_targetSizes p \<noteq> [] then
          let (t2, e2) = read_clock e1; (t3, e3) = read_clock e2 in
          bindR (go_rem t2 (int (length (pe_targetSizes p)))) (\<lambda>idx.
          if idx < 0 then Panic
          else bindR (index (pe_targetSizes p) (nat idx)) (\<lambda>sz.
            Ok (p\<lparr>pe_currentSize := sz, pe_lastRotate := t3\<rparr>, e3)))
        else
          let rangeSize = pe_maxSize p - pe_minSize p in
          if 0 < rangeSize then
            let (t2, e2) = read_clock e1; (t3, e3) = read_clock e2 in
            bindR (go_rem t2 rangeSize) (\<lambda>r.
              Ok (p\<lparr>pe_currentSize := pe_minSize p + r, pe_lastRotate := t3\<rparr>, e3))
          else
            let (t3, e3) = read_clock e1 in
            Ok (p\<lparr>pe_currentSize := pe_minSize p, pe_lastRotate := t3\<rparr>, e3))"

definition NewPaddingEngine :: "PaddingConfig option \<Rightarrow> env \<Rightarrow> (PaddingEngine \<times> env) result" where
  "NewPaddingEngine cfg e =
     (let c = (case cfg of None \<Rightarrow> DefaultPaddingConfig | Some c \<Rightarrow> c)
      in pe_rotate \<lparr>pe_minSize = MinSize c, pe_maxSize = MaxSize c, pe_currentSize = MinSize c,
           pe_lastRotate = zero_time, pe_rotateEvery = RotateInterval c,
           pe_targetSizes = TargetSizes c, pe_useHistogram = UseHistogram c\<rparr> e)"

text \<open>\<open>make\<close> and a random fill.\<close>

definition random_pad :: "int \<Rightarrow> env \<Rightarrow> (bytes \<times> env) result" where
  "random_pad n e = (if n < 0 then Panic else Ok (draw (nat n) e))"

definition Generate :: "PaddingEngine \<Rightarrow> env \<Rightarrow> (bytes \<times> PaddingEngine \<times> env) result" where
  "Generate p e = bindR (pe_rotate p e) (\<lambda>(p1, e1).
     if pe_currentSize p1 \<le> 0 then Ok ([], p1, e1)
     else bindR (random_pad (pe_currentSize p1) e1) (\<lambda>(pad, e2). Ok (pad, p1, e2)))"

definition GenerateUpTo ::
  "PaddingEngine \<Rightarrow> int \<Rightarrow> env \<Rightarrow> (bytes \<times> PaddingEngine \<times> env) result" where
  "GenerateUpTo p maxLen e = bindR (pe_rotate p e) (\<lambda>(p1, e1).
     let baseSize = pe_currentSize p1 in
     if baseSize \<le> 0 then Ok ([], p1, e1)
     else
       let actualSize = (if maxLen < baseSize then maxLen else baseSize) in
       bindR (random_pad actualSize e1) (\<lambda>(pad, e2). Ok (pad, p1, e2)))"

definition NormalizePacket :: "bytes \<Rightarrow> int \<Rightarrow> env \<Rightarrow> (bytes \<times> env) result" where
  "NormalizePacket data targetLen e =
     (if targetLen \<le> int (length data) then Ok (data, e)
      else bindR (random_pad (targetLen - int (length data)) e) (\<lambda>(pad, e1). Ok (data @ pad, e1)))"

definition AddRandomPadding :: "bytes \<Rightarrow> int \<Rightarrow> int \<Rightarrow> env \<Rightarrow> (bytes \<times> env) result" where
  "AddRandomPadding data minPad maxPad e =
     (if minPad \<le> 0 \<or> maxPad \<le> 0 \<or> maxPad < minPad then Ok (data, e)
      else
        bindR (if minPad \<noteq> maxPad then
                 let (t, e1) = read_clock e in
                 bindR (go_rem t (maxPad - minPad)) (\<lambda>r. Ok (minPad + r, e1))
               else Ok (minPad, e)) (\<lambda>(padLen, e1).
        if padLen \<le> 0 then Ok (data, e1)
        else bindR (random_pad padLen e1) (\<lambda>(pad, e2). Ok (data @ pad, e2))))"

definition GetCurrentSize :: "PaddingEngine \<Rightarrow> int" where
  "GetCurrentSize p = pe_currentSize p"

definition SetTargetSizes :: "int list \<Rightarrow> PaddingEngine \<Rightarrow> PaddingEngine" where
  "SetTargetSizes sizes p = p\<lparr>pe_targetSizes := sizes\<rparr>"

definition SetMinMax :: "int \<Rightarrow> int \<Rightarrow> PaddingEngine \<Rightarrow> PaddingEngine" where
  "SetMinMax mn mx p =
     (let p1 = p\<lparr>pe_minSize := mn, pe_maxSize := mx\<rparr>;
          p2 = (if pe_currentSize p1 < mn then p1\<lparr>pe_currentSize := mn\<rparr> else p1)
      in if mx < pe_currentSize p2 then p2\<lparr>pe_currentSize := mx\<rparr> else p2)"

section \<open>The nearest natural size\<close>

fun closest_loop :: "int \<Rightarrow> int \<Rightarrow> int \<Rightarrow> int list \<Rightarrow> int" where
  "closest_loop val minDiff closest [] = closest"
| "closest_loop val minDiff closest (t # ts) =
     (let diff = t - val in
      if 0 \<le> diff \<and> diff < minDiff then closest_loop val diff t ts
      else closest_loop val minDiff closest ts)"

abbreviation MaxInt32 :: int where "MaxInt32 \<equiv> 2147483647"

definition findClosestTarget :: "int \<Rightarrow> int list \<Rightarrow> int result" where
  "findClosestTarget val targets =
     bindR (index targets 0) (\<lambda>closest. Ok (closest_loop val MaxInt32 closest targets))"

definition NewNormalizedPadding ::
  "PaddingEngine \<Rightarrow> int \<Rightarrow> env \<Rightarrow> (bytes \<times> PaddingEngine \<times> env) result" where
  "NewNormalizedPadding p originalLen e = bindR (pe_rotate p e) (\<lambda>(p1, e1).
     bindR (findClosestTarget originalLen (pe_targetSizes p1)) (\<lambda>t.
     let targetLen = (if t \<le> originalLen then originalLen + pe_minSize p1 else t);
         padLen = targetLen - originalLen in
     if padLen \<le> 0 then Ok ([], p1, e1)
     else bindR (random_pad padLen e1) (\<lambda>(pad, e2). Ok (pad, p1, e2))))"

lemma closest_loop_none:
  "\<forall>t\<in>set ts. \<not> (val \<le> t \<and> t - val < d) \<Longrightarrow> closest_loop val d c ts = c"
  by (induction ts) (auto simp: Let_def)

lemma closest_loop_least:
  assumes "\<exists>t\<in>set ts. val \<le> t \<and> t - val < d"
  shows "closest_loop val d c ts = Min {t \<in> set ts. val \<le> t}"
  using assms
proof (induction ts arbitrary: d c)
  case (Cons a ts)
  let ?S = "{t \<in> set ts. val \<le> t}"
  show ?case
  proof (cases "val \<le> a \<and> a - val < d")
    case hit: True
    then have set: "{t \<in> set (a # ts). val \<le> t} = insert a ?S" by auto
    show ?thesis
    proof (cases "\<exists>t\<in>set ts. val \<le> t \<and> t - val < a - val")
      case True
      then have "Min ?S < a" by (subst Min_less_iff) auto
      with True have "Min (insert a ?S) = Min ?S" by (subst Min_insert) auto
      with hit Cons.IH [OF True] set show ?thesis by (simp add: Let_def)
    next
      case False
      then have "Min (insert a ?S) = a" by (intro Min_eqI) auto
      with hit set closest_loop_none [of ts val "a - val" a] False show ?thesis
        by (auto simp: Let_def)
    qed
  next
    case miss: False
    with Cons.prems have ex: "\<exists>t\<in>set ts. val \<le> t \<and> t - val < d" by auto
    have "Min {t \<in> set (a # ts). val \<le> t} = Min ?S"
    proof (cases "val \<le> a")
      case True
      with miss have "\<exists>t\<in>?S. t < a" using ex by force
      then have "Min ?S < a" by (subst Min_less_iff) auto
      moreover have "{t \<in> set (a # ts). val \<le> t} = insert a ?S" using True by auto
      moreover have "?S \<noteq> {}" using ex by auto
      ultimately show ?thesis by simp
    qed (auto intro: arg_cong [of _ _ Min])
    with miss Cons.IH [OF ex] show ?thesis by (auto simp: Let_def)
  qed
qed simp

lemma findClosestTarget_least:
  assumes "t \<in> set ts" and "val \<le> t" and "t - val < MaxInt32"
  shows "findClosestTarget val ts = Ok (Min {t \<in> set ts. val \<le> t})"
  using assms closest_loop_least [of ts val MaxInt32]
  by (cases ts) (auto simp: findClosestTarget_def index_def simp del: closest_loop.simps)

lemma findClosestTarget_none:
  assumes "ts \<noteq> []" and "\<forall>t\<in>set ts. t < val"
  shows "findClosestTarget val ts = Ok (hd ts)"
proof -
  have "closest_loop val MaxInt32 (hd ts) ts = hd ts"
    using assms by (intro closest_loop_none) auto
  with assms(1) show ?thesis
    by (simp add: findClosestTarget_def index_def hd_conv_nth)
qed

section \<open>Rotation\<close>

lemma clk_read [simp]: "clock_ok (clk e) \<Longrightarrow> clock_ok (clk (snd (read_clock e)))"
  by (simp add: read_clock_def)

text \<open>Rotation keeps the configuration and takes a size of the histogram or of the range.\<close>

definition pe_within :: "PaddingEngine \<Rightarrow> bool" where
  "pe_within p \<longleftrightarrow> pe_minSize p \<le> pe_currentSize p \<and>
     (pe_currentSize p \<le> max (pe_minSize p) (pe_maxSize p))"

lemma pe_rotate_total:
  assumes "clock_ok (clk e)"
  shows "\<exists>p1 e1. pe_rotate p e = Ok (p1, e1) \<and> clock_ok (clk e1) \<and>
    pe_targetSizes p1 = pe_targetSizes p \<and> pe_minSize p1 = pe_minSize p \<and>
    pe_maxSize p1 = pe_maxSize p \<and>
    (p1 = p \<or> pe_useHistogram p \<and> pe_currentSize p1 \<in> set (pe_targetSizes p) \<or>
     (\<not> pe_useHistogram p \<or> pe_targetSizes p = []) \<and> pe_within p1)"
proof -
  let ?t = "now (tick 1 (clk e))"
  let ?i = "nat (?t mod int (length (pe_targetSizes p)))"
  have t: "0 \<le> ?t" using assms by (simp del: One_nat_def)
  have i: "pe_targetSizes p \<noteq> [] \<Longrightarrow> ?i < length (pe_targetSizes p)"
    and i0: "pe_targetSizes p \<noteq> [] \<Longrightarrow> \<not> ?t mod int (length (pe_targetSizes p)) < 0"
    by (simp_all add: nat_less_iff not_less)
  have r: "pe_minSize p < pe_maxSize p \<Longrightarrow>
      pe_minSize p \<le> pe_minSize p + ?t mod (pe_maxSize p - pe_minSize p) \<and>
      pe_minSize p + ?t mod (pe_maxSize p - pe_minSize p) \<le> pe_maxSize p"
    using pos_mod_bound [of "pe_maxSize p - pe_minSize p" ?t] by (simp del: One_nat_def pos_mod_bound)
  note defs = pe_rotate_def read_clock_def Let_def
  show ?thesis
  proof (cases "0 < pe_rotateEvery p \<and> pe_rotateEvery p < now (clk e) - pe_lastRotate p")
    case False
    with assms show ?thesis by (auto simp: defs)
  next
    case True
    then show ?thesis
      using assms t i i0 r
      by (cases "pe_useHistogram p \<and> pe_targetSizes p \<noteq> []"; cases "pe_minSize p < pe_maxSize p")
        (auto simp: defs go_rem_pos index_def pe_within_def)
  qed
qed

end
