(* ===== verification/Authenticators.thy ===== *)
theory Authenticators
  imports GoCrypto "HOL-Library.AList"
begin

text \<open>
  The authenticators of \<open>internal/crypto/auth.go\<close>: time-window tokens, handshake
  signatures and the table of sessions. Offsets and timestamps are signed 64-bit integers and
  wrap, so the search of a window is a partial function.
\<close>

section \<open>Tokens\<close>

record TokenAuthenticator =
  ta_secret :: bytes
  ta_windowSize :: "64 word"

definition NewTokenAuthenticator :: "bytes \<Rightarrow> u64 \<Rightarrow> TokenAuthenticator" where
  "NewTokenAuthenticator secret windowSize = \<lparr>ta_secret = secret, ta_windowSize = windowSize\<rparr>"

definition token_at :: "TokenAuthenticator \<Rightarrow> u64 \<Rightarrow> u64 \<Rightarrow> bytes" where
  "token_at t sessionID timestamp = hmac_sha256 (ta_secret t) (be64 sessionID @ be64 timestamp)"

definition GenerateToken :: "TokenAuthenticator \<Rightarrow> u64 \<Rightarrow> instant \<Rightarrow> bytes" where
  "GenerateToken t sessionID tm = token_at t sessionID (unix64 tm)"

partial_function (option) token_loop ::
  "TokenAuthenticator \<Rightarrow> bytes \<Rightarrow> u64 \<Rightarrow> u64 \<Rightarrow> u64 \<Rightarrow> bool option" where
  "token_loop t token sessionID tm offset =
     (if sint offset \<le> sint (ta_windowSize t) then
        (if hmac_equal token (token_at t sessionID (tm + offset)) then Some True
         else token_loop t token sessionID tm (offset + 1))
      else Some False)"

definition ValidateToken :: "TokenAuthenticator \<Rightarrow> bytes \<Rightarrow> u64 \<Rightarrow> instant \<Rightarrow> bool option" where
  "ValidateToken t token sessionID tm =
     token_loop t token sessionID (unix64 tm) (- ta_windowSize t)"

definition GenerateHandshakeAuth :: "TokenAuthenticator \<Rightarrow> u64 \<Rightarrow> bytes \<Rightarrow> bytes" where
  "GenerateHandshakeAuth t sessionID nonce = hmac_sha256 (ta_secret t) (be64 sessionID @ nonce)"

definition ValidateHandshakeAuth :: "TokenAuthenticator \<Rightarrow> u64 \<Rightarrow> bytes \<Rightarrow> bytes \<Rightarrow> bool" where
  "ValidateHandshakeAuth t sessionID nonce signature =
     hmac_equal signature (GenerateHandshakeAuth t sessionID nonce)"

definition GenerateRandomSecret :: "env \<Rightarrow> bytes \<times> env" where
  "GenerateRandomSecret e = draw 32 e"

text \<open>The loop over a window that does not reach the largest integer ends.\<close>

lemma token_loop_window:
  assumes "sint (ta_windowSize t) < 2 ^ 63 - 1" and "n = nat (sint (ta_windowSize t) + 1 - sint off)"
  shows "\<exists>b. token_loop t token sid tm off = Some b \<and>
    (b \<longleftrightarrow> (\<exists>k < n. token = token_at t sid (tm + off + of_nat k)))"
  using assms(2)
proof (induction n arbitrary: off)
  case 0
  then show ?case by (intro exI [of _ False]) (simp add: token_loop.simps)
next
  case (Suc n)
  then have le: "sint off \<le> sint (ta_windowSize t)" by linarith
  have "sint (off + 1) = sint off + 1"
    using le assms(1) sint_ge [of off] by (simp add: sint_word_ariths signed_take_bit_int_eq_self)
  then have n: "n = nat (sint (ta_windowSize t) + 1 - sint (off + 1))"
    using Suc.prems le by linarith
  from Suc.IH [OF n] obtain b where b: "token_loop t token sid tm (off + 1) = Some b"
      "b \<longleftrightarrow> (\<exists>k < n. token = token_at t sid (tm + (off + 1) + of_nat k))" by blast
  have "(\<exists>k < Suc n. token = token_at t sid (tm + off + of_nat k)) \<longleftrightarrow>
      token = token_at t sid (tm + off) \<or> b"
    unfolding b(2) Ex_less_Suc2 by (simp add: ac_simps)
  with le b(1) show ?case by (subst token_loop.simps) (simp add: hmac_equal_def)
qed

section \<open>Handshake signatures\<close>

record HandshakeAuthenticator =
  ha_secret :: bytes

definition NewHandshakeAuthenticator :: "bytes \<Rightarrow> HandshakeAuthenticator" where
  "NewHandshakeAuthenticator secret = \<lparr>ha_secret = secret\<rparr>"

definition Auth_Sign :: "HandshakeAuthenticator \<Rightarrow> bytes \<Rightarrow> bytes" where
  "Auth_Sign ha data = hmac_sha256 (ha_secret ha) data"

definition Auth_Verify :: "HandshakeAuthenticator \<Rightarrow> bytes \<Rightarrow> bytes \<Rightarrow> bool" where
  "Auth_Verify ha data signature = hmac_equal signature (Auth_Sign ha data)"

section \<open>The table of sessions\<close>

text \<open>A map from session to expiry.\<close>

type_synonym SessionAuthenticator = "(u64 \<times> instant) list"

definition NewSessionAuthenticator :: SessionAuthenticator where
  "NewSessionAuthenticator = []"

definition RegisterSession :: "u64 \<Rightarrow> duration \<Rightarrow> instant \<Rightarrow> SessionAuthenticator \<Rightarrow> SessionAuthenticator"
  where "RegisterSession sid dur tm sa = AList.update sid (tm + dur) sa"

definition IsSessionValid :: "u64 \<Rightarrow> instant \<Rightarrow> SessionAuthenticator \<Rightarrow> bool" where
  "IsSessionValid sid tm sa =
     (case map_of sa sid of None \<Rightarrow> False | Some expiry \<Rightarrow> tm < expiry)"

definition RevokeSession :: "u64 \<Rightarrow> SessionAuthenticator \<Rightarrow> SessionAuthenticator" where
  "RevokeSession sid sa = AList.delete sid sa"

definition Auth_Cleanup :: "instant \<Rightarrow> SessionAuthenticator \<Rightarrow> SessionAuthenticator" where
  "Auth_Cleanup tm sa = filter (\<lambda>(_, expiry). \<not> expiry < tm) sa"

definition sa_inv :: "SessionAuthenticator \<Rightarrow> bool" where
  "sa_inv sa \<longleftrightarrow> distinct (map fst sa)"

lemma map_of_filter_distinct:
  "distinct (map fst xs) \<Longrightarrow>
     map_of (filter (\<lambda>(k, v). P v) xs) k =
       (case map_of xs k of None \<Rightarrow> None | Some v \<Rightarrow> if P v then Some v else None)"
  by (induction xs) (auto simp: map_of_eq_None_iff split: option.splits dest: map_of_SomeD)

lemma sa_inv_keeps [simp]:
  "sa_inv NewSessionAuthenticator"
  "sa_inv sa \<Longrightarrow> sa_inv (RegisterSession sid dur tm sa)"
  "sa_inv sa \<Longrightarrow> sa_inv (RevokeSession sid sa)"
  "sa_inv sa \<Longrightarrow> sa_inv (Auth_Cleanup tm sa)"
  by (auto simp: sa_inv_def NewSessionAuthenticator_def RegisterSession_def RevokeSession_def
      Auth_Cleanup_def distinct_update distinct_delete intro: distinct_map_filter)

lemma IsSessionValid_simps:
  "IsSessionValid s tm NewSessionAuthenticator = False"
  "IsSessionValid s tm (RegisterSession sid dur t0 sa) =
     (if s = sid then tm < t0 + dur else IsSessionValid s tm sa)"
  "IsSessionValid s tm (RevokeSession sid sa) = (s \<noteq> sid \<and> IsSessionValid s tm sa)"
  "sa_inv sa \<Longrightarrow> IsSessionValid s tm (Auth_Cleanup t0 sa) =
     (case map_of sa s of None \<Rightarrow> False | Some x \<Rightarrow> t0 \<le> x \<and> tm < x)"
  by (auto simp: IsSessionValid_def NewSessionAuthenticator_def RegisterSession_def RevokeSession_def
      Auth_Cleanup_def update_conv' delete_conv sa_inv_def map_of_filter_distinct not_less
      split: option.splits)

end
