(* ===== verification/CryptoProperties.thy ===== *)
theory CryptoProperties
  imports Noise Padding Authenticators Samples
begin

text \<open>
  The properties of package crypto: what the cipher opens, what the ratchet does and does not
  do, on what the two ends of the Noise handshake agree, which tokens a window accepts, which
  size the padding brings a packet to.
\<close>

section \<open>Cipher\<close>

text \<open>C24: A cipher of a valid key opens what it seals, adds 28 bytes to it, and opens nothing but a
  12-byte nonce followed by what AES-GCM seals under that nonce.\<close>

theorem cipher_opens_exactly_what_it_seals:
  assumes "aes_key_ok key" and "int (length p) \<le> gcm_max"
  shows "\<exists>c ct. NewAEADCipher key = Ok c \<and> fst (Aead_Encrypt c p e) = Ok ct \<and>
    length ct = length p + 28 \<and> Aead_Decrypt c ct = Ok p \<and>
    {(x, q). Aead_Decrypt c x = Ok q} =
      {(nonce @ s, q) | nonce s q. length nonce = 12 \<and> gcm_seal key nonce q [] = Ok s}"
proof -
  let ?c = "\<lparr>aead = key, ac_nonce = replicate 12 0\<rparr>"
  from Aead_Encrypt_ok [OF assms(2), of ?c e] obtain ct
    where "fst (Aead_Encrypt ?c p e) = Ok ct" "length ct = length p + 28" "Aead_Decrypt ?c ct = Ok p"
    by blast
  moreover have "NewAEADCipher key = Ok ?c" using assms(1) by (simp add: NewAEADCipher_def)
  moreover have "{(x, q). Aead_Decrypt ?c x = Ok q} =
      {(nonce @ s, q) | nonce s q. length nonce = 12 \<and> gcm_seal key nonce q [] = Ok s}"
    by (auto simp: Aead_Decrypt_iff)
  ultimately show ?thesis by blast
qed

lemma cipher_opens_exactly_what_it_seals_witness:
  "\<exists>c ct. NewAEADCipher (replicate 16 0) = Ok c \<and> fst (Aead_Encrypt c [1, 2, 3] env0) = Ok ct \<and>
    length ct = 31 \<and> Aead_Decrypt c ct = Ok [1, 2, 3]"
  using cipher_opens_exactly_what_it_seals [of "replicate 16 0" "[1, 2, 3]" env0]
  by (auto simp: aes_key_ok_def gcm_max_def)

section \<open>Ratchet\<close>

fun ratchet_send_all :: "DoubleRatchet \<Rightarrow> bytes list \<Rightarrow> env \<Rightarrow> bytes list" where
  "ratchet_send_all d [] e = []"
| "ratchet_send_all d (p # ps) e =
     (case Ratchet_Encrypt d p e of
        (Ok (ct, _), d1, e1) \<Rightarrow> ct # ratchet_send_all d1 ps e1
      | _ \<Rightarrow> [])"

fun ratchet_recv_all :: "DoubleRatchet \<Rightarrow> bytes list \<Rightarrow> bytes result list" where
  "ratchet_recv_all d [] = []"
| "ratchet_recv_all d (ct # cts) =
     fst (Ratchet_Decrypt d ct) # ratchet_recv_all (snd (Ratchet_Decrypt d ct)) cts"

lemma ratchet_in_order:
  assumes "ratchet_inv root s" and "ratchet_inv root r" and "sendChainKey s = recvChainKey r"
    and "\<forall>p\<in>set ps. int (length p) \<le> gcm_max"
  shows "ratchet_recv_all r (ratchet_send_all s ps e) = map Ok ps"
  using assms
proof (induction ps arbitrary: s r e)
  case (Cons p ps)
  from Cons.prems(4) have len: "int (length p) \<le> gcm_max" by simp
  from Ratchet_Encrypt_ok [OF len, of s e] obtain ct e1 where enc:
      "Ratchet_Encrypt s p e = (Ok (ct, fst (RatchetSend s)), snd (RatchetSend s), e1)"
      "Aead_Decrypt \<lparr>aead = kdf s (sendChainKey s) [2], ac_nonce = replicate 12 0\<rparr> ct = Ok p"
    by (metis prod.collapse)
  have key: "kdf r (recvChainKey r) [2] = kdf s (sendChainKey s) [2]"
    using Cons.prems(1-3) by (simp add: kdf_message_key)
  from Cons.IH [OF RatchetSend_inv(1) [OF Cons.prems(1)] RatchetRecv_inv(1) [OF Cons.prems(2)]]
    Cons.prems enc key show ?case
    by (simp add: Ratchet_Decrypt_eq RatchetSend_inv(2) RatchetRecv_inv(2))
qed simp

text \<open>C23: What one ratchet encrypts, a ratchet of the same root key decrypts, in order.\<close>

theorem ratchets_carry_messages_in_order:
  assumes "\<forall>p\<in>set ps. int (length p) \<le> gcm_max"
  shows "ratchet_recv_all (NewDoubleRatchet root) (ratchet_send_all (NewDoubleRatchet root) ps e) =
    map Ok ps"
  by (rule ratchet_in_order [OF ratchet_new ratchet_new _ assms]) (simp add: NewDoubleRatchet_def)

lemma ratchets_carry_messages_in_order_witness:
  "ratchet_recv_all (NewDoubleRatchet key0)
     (ratchet_send_all (NewDoubleRatchet key0) [[1], [2, 3], []] env0) = map Ok [[1], [2, 3], []]"
  by (rule ratchets_carry_messages_in_order) (simp add: gcm_max_def)

text \<open>The ratchet does not turn: once both ends have taken a step, every message is sealed with
  one key, which is the very key handed back beside each ciphertext, and it is opened at any
  place in the sequence and as often as it is replayed.\<close>

theorem ratchet_never_turns:
  assumes "ratchet_reach root s" and "ratchet_reach root r"
    and "sendChainKey s \<noteq> []" and "recvChainKey r \<noteq> []" and "int (length p) \<le> gcm_max"
  shows "\<exists>ct. fst (Ratchet_Encrypt s p e) = Ok (ct, message_key root (ratchet_chain root)) \<and>
    (\<exists>c. NewAEADCipher (message_key root (ratchet_chain root)) = Ok c \<and> Aead_Decrypt c ct = Ok p) \<and>
    fst (Ratchet_Decrypt r ct) = Ok p \<and>
    fst (Ratchet_Decrypt (snd (Ratchet_Decrypt r ct)) ct) = Ok p"
proof -
  from assms have s: "ratchet_inv root s" "sendChainKey s = ratchet_chain root"
    and r: "ratchet_inv root r" "recvChainKey r = ratchet_chain root"
    by (auto dest!: ratchet_reach_inv simp: ratchet_inv_def)
  have key: "NewAEADCipher (message_key root (ratchet_chain root)) =
      Ok \<lparr>aead = message_key root (ratchet_chain root), ac_nonce = replicate 12 0\<rparr>"
    by (simp add: NewAEADCipher_def message_key_def aes_key_ok_def)
  from Ratchet_Encrypt_ok [OF assms(5), of s e] s obtain ct where
      "fst (Ratchet_Encrypt s p e) = Ok (ct, message_key root (ratchet_chain root))"
      "Aead_Decrypt \<lparr>aead = message_key root (ratchet_chain root), ac_nonce = replicate 12 0\<rparr> ct = Ok p"
    by (auto simp: kdf_message_key RatchetSend_inv(4) message_key_def)
  with key r show ?thesis
    by (auto simp: Ratchet_Decrypt_eq kdf_message_key [OF r(1)] RatchetRecv_inv(2) [OF r(1)]
        kdf_message_key [OF RatchetRecv_inv(1) [OF r(1)]])
qed

lemma ratchet_never_turns_witness:
  "\<exists>ct k. fst (Ratchet_Encrypt (snd (RatchetSend (NewDoubleRatchet key0))) [7] env0) = Ok (ct, k) \<and>
    fst (Ratchet_Decrypt (snd (RatchetRecv (NewDoubleRatchet key0))) ct) = Ok [7]"
proof -
  have "length (ratchet_chain key0) = 32" by (simp add: ratchet_chain_def)
  then have ne: "ratchet_chain key0 \<noteq> []" by auto
  have "sendChainKey (snd (RatchetSend (NewDoubleRatchet key0))) \<noteq> []"
    "recvChainKey (snd (RatchetRecv (NewDoubleRatchet key0))) \<noteq> []"
    using ne RatchetSend_inv(2) [OF ratchet_new, of key0] RatchetRecv_inv(2) [OF ratchet_new, of key0]
    by simp_all
  from ratchet_never_turns [OF ratchet_reach.send [OF ratchet_reach.fresh] ratchet_reach.recv [OF ratchet_reach.fresh] this,
      where p = "[7]" and e = env0]
  show ?thesis by (auto simp: ratchet_reach.fresh gcm_max_def)
qed

section \<open>Noise\<close>

text \<open>What Curve25519 promises: the two ends of an exchange compute one point, of 32 bytes.\<close>

definition exchange_ok :: "x_crypto \<Rightarrow> bool" where
  "exchange_ok x \<longleftrightarrow> (\<forall>a b. length a = 32 \<longrightarrow> length b = 32 \<longrightarrow>
     ScalarMult x a (ScalarBaseMult x b) = ScalarMult x b (ScalarBaseMult x a)) \<and>
     (\<forall>a. length a = 32 \<longrightarrow> length (ScalarBaseMult x a) = 32)"

text \<open>The product of any scalar and a point of low order is zero, as of the all-zero point.\<close>

definition low_order :: "x_crypto \<Rightarrow> bytes \<Rightarrow> bool" where
  "low_order x pt \<longleftrightarrow> (\<forall>a. length a = 32 \<longrightarrow> ScalarMult x a pt = replicate 32 0)"

definition conn_to :: "bytes \<Rightarrow> noise_conn" where
  "conn_to peer = \<lparr>nc_in = peer, nc_out = \<lparr>w_out = [], w_budget = None\<rparr>\<rparr>"

text \<open>An exchange for the witnesses: the shared point is the conjunction of the scalars.\<close>

definition x0 :: x_crypto where
  "x0 = \<lparr>ScalarMult = map2 (AND), ScalarBaseMult = (\<lambda>a. a),
         hkdf = (\<lambda>s salt n. take n (s @ salt))\<rparr>"

lemma map2_and_comm: "map2 (AND) a b = map2 (AND) b (a :: bytes)"
proof (induction a arbitrary: b)
  case (Cons x a)
  then show ?case by (cases b) (simp_all add: and.commute)
qed simp

lemma map2_and_zero: "map2 (AND) (a :: bytes) (replicate (length a) 0) = replicate (length a) 0"
  by (induction a) auto

lemma x0_ok: "exchange_ok x0" "low_order x0 (replicate 32 0)"
proof -
  show "exchange_ok x0" by (simp add: exchange_ok_def x0_def map2_and_comm)
  show "low_order x0 (replicate 32 0)"
    unfolding low_order_def x0_def using map2_and_zero by (metis x_crypto.select_convs(1))
qed

lemma noise_new:
  assumes "NewNoiseHandshake x init static e = (Ok n, e1)" and "exchange_ok x"
  shows "length (ephemeralPublic n) = 32" "length (staticPublic n) = 32" "noise_ok x n"
    "initiator n = init" "nz_ck n = sha256 protocolName"
  using NewNoiseHandshake_ok [OF assms(1)] assms(2) by (auto simp: exchange_ok_def noise_ok_def)

lemma noise_runs:
  assumes "noise_ok x n" and "length pe = 32" and "length ps = 32"
  shows "\<exists>n' c'. Noise_Handshake x (n, conn_to (pe @ ps)) = (Ok (noise_key x n pe ps), n', c') \<and>
    w_out (nc_out c') = ephemeralPublic n @ staticPublic n \<and>
    cipherKey n' = Some (noise_key x n pe ps) \<and> peerStatic n' = ps"
  using Noise_Handshake_runs [of pe ps n "conn_to (pe @ ps)" "[]" x] assms
  by (auto simp: conn_to_def noise_ok_def)

text \<open>C22: An initiator and a responder, each reading what the other writes, end with one key and each
  with the static key of the other; each writes its two public keys and nothing else.\<close>

theorem noise_sides_agree:
  assumes "exchange_ok x"
    and "NewNoiseHandshake x True si ei = (Ok i, ei1)"
    and "NewNoiseHandshake x False sr er = (Ok r, er1)"
  shows "\<exists>k i1 ci r1 cr.
    Noise_Handshake x (i, conn_to (w_out (nc_out cr))) = (Ok k, i1, ci) \<and>
    Noise_Handshake x (r, conn_to (w_out (nc_out ci))) = (Ok k, r1, cr) \<and>
    w_out (nc_out ci) = ephemeralPublic i @ staticPublic i \<and>
    w_out (nc_out cr) = ephemeralPublic r @ staticPublic r \<and>
    GetCipherKey i1 = Some k \<and> GetCipherKey r1 = Some k \<and>
    GetPeerKey i1 = staticPublic r \<and> GetPeerKey r1 = staticPublic i"
proof -
  note I = noise_new [OF assms(2,1)] and R = noise_new [OF assms(3,1)]
  have keys: "noise_key x r (ephemeralPublic i) (staticPublic i) =
      noise_key x i (ephemeralPublic r) (staticPublic r)"
    using I R assms(1) by (simp add: noise_key_def noise_ok_def exchange_ok_def Let_def)
  from noise_runs [OF I(3) R(1,2)] noise_runs [OF R(3) I(1,2)] obtain i1 ci r1 cr where
    i: "Noise_Handshake x (i, conn_to (ephemeralPublic r @ staticPublic r)) =
        (Ok (noise_key x i (ephemeralPublic r) (staticPublic r)), i1, ci)"
      "w_out (nc_out ci) = ephemeralPublic i @ staticPublic i"
      "cipherKey i1 = Some (noise_key x i (ephemeralPublic r) (staticPublic r))"
      "peerStatic i1 = staticPublic r" and
    r: "Noise_Handshake x (r, conn_to (ephemeralPublic i @ staticPublic i)) =
        (Ok (noise_key x i (ephemeralPublic r) (staticPublic r)), r1, cr)"
      "w_out (nc_out cr) = ephemeralPublic r @ staticPublic r"
      "cipherKey r1 = Some (noise_key x i (ephemeralPublic r) (staticPublic r))"
      "peerStatic r1 = staticPublic i"
    unfolding keys by blast
  show ?thesis
    by (rule exI [of _ "noise_key x i (ephemeralPublic r) (staticPublic r)"], rule exI [of _ i1],
        rule exI [of _ ci], rule exI [of _ r1], rule exI [of _ cr])
      (simp add: i r GetCipherKey_def GetPeerKey_def)
qed

lemma NewNoiseHandshake_total: "\<exists>n e1. NewNoiseHandshake x init static e = (Ok n, e1)"
  by (simp add: NewNoiseHandshake_def Let_def split: prod.splits)

lemma noise_sides_agree_witness:
  "\<exists>i r k i1 ci r1 cr. fst (NewNoiseHandshake x0 True [] env0) = Ok i \<and>
    fst (NewNoiseHandshake x0 False (replicate 32 9) env0) = Ok r \<and>
    Noise_Handshake x0 (i, conn_to (w_out (nc_out cr))) = (Ok k, i1, ci) \<and>
    Noise_Handshake x0 (r, conn_to (w_out (nc_out ci))) = (Ok k, r1, cr)"
proof -
  obtain i ei r er where "NewNoiseHandshake x0 True [] env0 = (Ok i, ei)"
    "NewNoiseHandshake x0 False (replicate 32 9) env0 = (Ok r, er)"
    using NewNoiseHandshake_total by metis
  from noise_sides_agree [OF x0_ok(1) this] this show ?thesis
    by (metis fst_conv)
qed

text \<open>Whoever sends a point of low order for both its keys forces the key: every handshake with
  it succeeds, and ends with one and the same key whatever the private keys.\<close>

theorem noise_key_can_be_forced:
  assumes "exchange_ok x" and "low_order x pt" and "length pt = 32"
    and "NewNoiseHandshake x init s1 e1 = (Ok n, e1')"
    and "NewNoiseHandshake x init' s2 e2 = (Ok m, e2')"
  shows "\<exists>k. fst (Noise_Handshake x (n, conn_to (pt @ pt))) = Ok k \<and>
    fst (Noise_Handshake x (m, conn_to (pt @ pt))) = Ok k \<and>
    k = chain3 x (sha256 protocolName) (replicate 32 0) (replicate 32 0) (replicate 32 0)"
proof -
  note N = noise_new [OF assms(4,1)] and M = noise_new [OF assms(5,1)]
  have "noise_key x n' pt pt =
      chain3 x (sha256 protocolName) (replicate 32 0) (replicate 32 0) (replicate 32 0)"
    if "noise_ok x n'" "nz_ck n' = sha256 protocolName" for n'
    using that assms(2) by (simp add: noise_key_def noise_ok_def low_order_def Let_def)
  with N M noise_runs [OF N(3) assms(3,3)] noise_runs [OF M(3) assms(3,3)] show ?thesis
    by auto
qed

lemma noise_key_can_be_forced_witness:
  "\<exists>n m k. fst (NewNoiseHandshake x0 True [] env0) = Ok n \<and>
    fst (NewNoiseHandshake x0 False (replicate 32 9) env0) = Ok m \<and>
    fst (Noise_Handshake x0 (n, conn_to (replicate 64 0))) = Ok k \<and>
    fst (Noise_Handshake x0 (m, conn_to (replicate 64 0))) = Ok k"
proof -
  obtain i ei r er where new: "NewNoiseHandshake x0 True [] env0 = (Ok i, ei)"
    "NewNoiseHandshake x0 False (replicate 32 9) env0 = (Ok r, er)"
    using NewNoiseHandshake_total by metis
  have "replicate 64 (0 :: byte) = replicate 32 0 @ replicate 32 0"
    by (simp flip: replicate_add)
  with noise_key_can_be_forced [OF x0_ok _ new] new show ?thesis
    by (metis fst_conv length_replicate)
qed

section \<open>The hybrid exchange\<close>

text \<open>The two calls of the hybrid exchange share no secret: a key of the pair's public half is
  refused, and with a private one any secret comes out whatever was encapsulated.\<close>

theorem encapsulated_secret_is_not_recovered:
  assumes "GetSharedSecret (hk_noise h) = Some ns" and "length priv = 2400"
    and "length ct = 1088" and "length secret = 32" and "fst (GenerateKeyPair e0) = Ok pair"
  shows "(\<exists>e'. fst (DecapsulateSharedSecret h priv ct e') = Ok (Some (sha256 (secret @ ns)))) \<and>
    fst (DecapsulateSharedSecret h (kyber_Public pair) ct e) = Fail OtherError"
proof -
  from Decapsulate_any [OF assms(2-4)] obtain e' where "fst (Decapsulate priv ct e') = Ok secret" ..
  then have "fst (DecapsulateSharedSecret h priv ct e') = Ok (Some (sha256 (secret @ ns)))"
    using assms(1) by (cases "Decapsulate priv ct e'") (simp add: DecapsulateSharedSecret_def)
  moreover have "length (kyber_Public pair) = 1184"
    using assms(5) by (auto simp: GenerateKeyPair_def draw_def Let_def)
  then have "fst (DecapsulateSharedSecret h (kyber_Public pair) ct e) = Fail OtherError"
    by (simp add: DecapsulateSharedSecret_def Decapsulate_def)
  ultimately show ?thesis by blast
qed

lemma encapsulated_secret_is_not_recovered_witness:
  "\<exists>h e1 e2 pair s1 s2. fst (GenerateKeyPair env0) = Ok pair \<and>
    fst (DecapsulateSharedSecret h (kyber_Private pair) (replicate 1088 0) e1) = Ok (Some s1) \<and>
    s1 = sha256 (replicate 32 1) \<and>
    fst (DecapsulateSharedSecret h (kyber_Public pair) (replicate 1088 0) e2) = Fail OtherError"
proof -
  obtain n e1 where n: "NewNoiseHandshake x0 True [] env0 = (Ok n, e1)"
    using NewNoiseHandshake_total by metis
  let ?h = "\<lparr>hk_noise = SetSharedSecret (Some []) n, hk_secret = []\<rparr>"
  obtain pair where p: "fst (GenerateKeyPair env0) = Ok pair" "length (kyber_Private pair) = 2400"
    by (simp add: GenerateKeyPair_def draw_def)
  from encapsulated_secret_is_not_recovered [of ?h "[]" "kyber_Private pair" "replicate 1088 0"
      "replicate 32 1" env0 pair env0] p
  show ?thesis by (auto simp: GetSharedSecret_def SetSharedSecret_def)
qed

section \<open>Padding\<close>

text \<open>Padding normalised to the histogram brings a packet to the least natural size above it; a
  packet that already has a natural size, or is longer than all of them, gets the minimal
  padding instead, which takes it off the histogram; and an empty histogram panics.\<close>

theorem normalized_padding_sizes:
  assumes "clock_ok (clk e)" and "\<forall>t\<in>set (pe_targetSizes p). 0 \<le> t \<and> t < MaxInt32" and "0 \<le> len"
  shows "if pe_targetSizes p = [] then NewNormalizedPadding p len e = Panic
    else \<exists>pad p1 e1. NewNormalizedPadding p len e = Ok (pad, p1, e1) \<and>
      len + int (length pad) =
        (if len \<notin> set (pe_targetSizes p) \<and> (\<exists>t\<in>set (pe_targetSizes p). len < t)
         then Min {t \<in> set (pe_targetSizes p). len \<le> t} else len + max 0 (pe_minSize p))"
proof -
  let ?ts = "pe_targetSizes p"
  obtain p1 e1 where rot: "pe_rotate p e = Ok (p1, e1)" "pe_targetSizes p1 = ?ts"
      "pe_minSize p1 = pe_minSize p"
    using pe_rotate_total [OF assms(1), of p] by blast
  show ?thesis
  proof (cases "?ts = []")
    case True
    with rot show ?thesis by (simp add: NewNormalizedPadding_def findClosestTarget_def index_def)
  next
    case ne: False
    obtain t where t: "findClosestTarget len ?ts = Ok t"
      and cases: "if \<exists>t\<in>set ?ts. len \<le> t then t = Min {t \<in> set ?ts. len \<le> t} else t < len"
    proof (cases "\<exists>t\<in>set ?ts. len \<le> t")
      case True
      then obtain t where t: "t \<in> set ?ts" "len \<le> t" by blast
      with assms(2,3) have "t - len < MaxInt32" by force
      from findClosestTarget_least [OF t this] that True show ?thesis by simp
    next
      case False
      with ne findClosestTarget_none [of ?ts len] that show ?thesis
        by (auto simp: not_le)
    qed
    have Min: "Min {t \<in> set ?ts. len \<le> t} = len" if "len \<in> set ?ts"
      using that by (intro Min_eqI) auto
    have above: "len < Min {t \<in> set ?ts. len \<le> t}" if "len \<notin> set ?ts" "\<exists>t\<in>set ?ts. len \<le> t"
      using that by (subst Min_gr_iff) (auto simp: order.order_iff_strict)
    show ?thesis
      using ne rot t cases Min above
      by (auto simp: NewNormalizedPadding_def random_pad_def draw_def Let_def le_less
          split: if_splits)
  qed
qed

lemma normalized_padding_sizes_witness:
  "\<exists>pad p1 e1. NewNormalizedPadding
      \<lparr>pe_minSize = 16, pe_maxSize = 256, pe_currentSize = 16, pe_lastRotate = 0, pe_rotateEvery = 0,
       pe_targetSizes = [64, 40, 52], pe_useHistogram = True\<rparr> 45 env0 = Ok (pad, p1, e1) \<and>
    length pad = 7"
proof -
  have min: "Min {t. (t = 64 \<or> t = 40 \<or> t = 52) \<and> (45 :: int) \<le> t} = 52"
    by (intro Min_eqI) auto
  show ?thesis
    using normalized_padding_sizes [of env0 "\<lparr>pe_minSize = 16, pe_maxSize = 256, pe_currentSize = 16,
      pe_lastRotate = 0, pe_rotateEvery = 0, pe_targetSizes = [64, 40, 52], pe_useHistogram = True\<rparr>" 45]
    by (auto simp: min env0_def clock_ok_def)
qed

section \<open>Authenticators\<close>

lemma window_from_below:
  assumes "0 \<le> (w :: int)"
  shows "(\<exists>k < nat (2 * w + 1). P (- w + int k)) \<longleftrightarrow> (\<exists>d \<in> {- w .. w}. P d)"
proof
  assume "\<exists>d \<in> {- w .. w}. P d"
  then obtain d where "- w \<le> d" "d \<le> w" "P d" by auto
  then show "\<exists>k < nat (2 * w + 1). P (- w + int k)"
    by (intro exI [of _ "nat (d + w)"]) auto
next
  assume "\<exists>k < nat (2 * w + 1). P (- w + int k)"
  then obtain k where "k < nat (2 * w + 1)" "P (- w + int k)" by blast
  then show "\<exists>d \<in> {- w .. w}. P d" by (intro bexI [of _ "- w + int k"]) auto
qed

lemma sint_uminus: "0 \<le> sint (v :: u64) \<Longrightarrow> sint (- v) = - sint v"
  using sint_less [of v] by (simp add: sint_word_ariths(4) signed_take_bit_int_eq_self)

text \<open>Unless its window is the largest integer, the validation of a token returns, and it accepts
  exactly the tokens of the seconds of the window around the present one; a token is accepted
  within that window as often as it is presented.\<close>

theorem token_is_valid_in_its_window:
  assumes "0 \<le> sint (ta_windowSize t)" and "sint (ta_windowSize t) < 2 ^ 63 - 1"
  shows "ValidateToken t token sid tm =
    Some (\<exists>d \<in> {- sint (ta_windowSize t) .. sint (ta_windowSize t)}.
      token = token_at t sid (unix64 tm + of_int d))"
proof -
  define w where "w = sint (ta_windowSize t)"
  define P where "P d = (token = token_at t sid (unix64 tm + of_int d))" for d
  have neg: "sint (- ta_windowSize t) = - w" and "- ta_windowSize t = of_int (- w)"
    using assms(1) by (simp_all add: sint_uminus w_def)
  then have P: "(token = token_at t sid (unix64 tm + - ta_windowSize t + of_nat k)) = P (- w + int k)" for k
    by (simp add: P_def algebra_simps)
  have n: "nat (2 * w + 1) = nat (sint (ta_windowSize t) + 1 - sint (- ta_windowSize t))"
    unfolding neg by (simp add: w_def)
  from token_loop_window [OF assms(2) n, of token sid "unix64 tm"]
  obtain b where "token_loop t token sid (unix64 tm) (- ta_windowSize t) = Some b"
    "b \<longleftrightarrow> (\<exists>k < nat (2 * w + 1). P (- w + int k))"
    unfolding P by blast
  with assms(1) window_from_below [of w P] show ?thesis
    by (simp add: ValidateToken_def P_def w_def)
qed

lemma token_is_valid_in_its_window_witness:
  "ValidateToken (NewTokenAuthenticator key0 2)
     (GenerateToken (NewTokenAuthenticator key0 2) 7 (100 * second)) 7 (101 * second) = Some True"
  using token_is_valid_in_its_window [of "NewTokenAuthenticator key0 2"
      "GenerateToken (NewTokenAuthenticator key0 2) 7 (100 * second)" 7 "101 * second"]
  by (auto simp: NewTokenAuthenticator_def GenerateToken_def unix64_def intro!: bexI [of _ "- 1"])

text \<open>There is one secret for all purposes and no label: the token of a session at a second is the
  handshake signature of that session for the nonce that encodes the second.\<close>

lemma token_is_a_handshake_signature:
  "ValidateHandshakeAuth t sid (be64 (unix64 tm)) (GenerateToken t sid tm)"
  by (simp add: ValidateHandshakeAuth_def GenerateHandshakeAuth_def GenerateToken_def token_at_def
      hmac_equal_def)

text \<open>Cleaning up the table of sessions changes no answer from then on, and what a table answers
  is what was last registered for a session and not revoked.\<close>

theorem cleanup_changes_no_answer:
  assumes "sa_inv sa" and "t0 \<le> tm"
  shows "IsSessionValid s tm (Auth_Cleanup t0 sa) = IsSessionValid s tm sa \<and>
    IsSessionValid s tm (RevokeSession s (Auth_Cleanup t0 sa)) = False \<and>
    IsSessionValid s tm (RegisterSession s dur t0 (Auth_Cleanup t0 sa)) = (tm < t0 + dur)"
  using assms
  by (auto simp: IsSessionValid_simps IsSessionValid_def [of s tm sa] split: option.splits)

lemma cleanup_changes_no_answer_witness:
  "IsSessionValid 7 5 (Auth_Cleanup 5 [(7, 9), (8, 3)])"
  using cleanup_changes_no_answer [of "[(7, 9), (8, 3)]" 5 5 7 0]
  by (simp add: sa_inv_def IsSessionValid_def)

end
