(* ===== verification/EngineMixer.thy ===== *)
theory EngineMixer
  imports MixerLaws
begin

text \<open>
  The second mixer of the program, \<open>ProtocolMixer\<close> of \<open>internal/engine/mixer.go\<close>, with its
  own numbering of the modes: 10 is Minecraft, which has no mask, and 11 is TLS. Unlike the
  mixer of package shred it keeps one mask from packet to packet. The mutex makes each
  operation one step.
\<close>

section \<open>Modes and masks\<close>

abbreviation ModeMinecraft :: ProtocolMode where "ModeMinecraft \<equiv> 10"
abbreviation Engine_ModeTLS :: ProtocolMode where "Engine_ModeTLS \<equiv> 11"

definition Engine_mode_String :: "ProtocolMode \<Rightarrow> string" where
  "Engine_mode_String m =
     (if m = ModeWebRTC then ''webrtc'' else if m = ModeQUIC then ''quic''
      else if m = ModeTeams then ''teams'' else if m = ModeWinUpdate then ''winupdate''
      else if m = ModeDNSOverHTTPS then ''doh'' else if m = ModeRuTube then ''rutube''
      else if m = ModeYandex then ''yandex'' else if m = ModeVK then ''vk''
      else if m = ModeSTUN then ''stun'' else if m = ModeZoom then ''zoom''
      else if m = ModeMinecraft then ''minecraft'' else ''unknown'')"

definition Engine_CreateMask :: "ProtocolMode \<Rightarrow> env \<Rightarrow> (Masker \<times> env) result" where
  "Engine_CreateMask mode e =
     (if mode = ModeWebRTC then made MWebRTC (NewWebRTCMask e)
      else if mode = ModeQUIC then bindR (NewQUICMask e) (made MQUIC)
      else if mode = ModeTeams then made MTeams (NewTeamsMask e)
      else if mode = ModeWinUpdate then made MWinUpdate (NewWinUpdateMask e)
      else if mode = ModeDNSOverHTTPS then made MDoH (NewDNSOverHTTPSMask e)
      else if mode = ModeRuTube then made MRuTube (NewRuTubeMask e)
      else if mode = ModeYandex then made MYandex (NewYandexMask e)
      else if mode = ModeVK then made MVK (NewVKMask e)
      else if mode = ModeSTUN then made MSTUN (NewSTUNMask e)
      else if mode = ModeZoom then made MZoom (NewZoomMask e)
      else if mode = Engine_ModeTLS then bindR (NewTLSMask e) (made MTLS)
      else made MVK (NewVKMask e))"

text \<open>The mode of package shred whose mask a mode of this mixer is served with.\<close>

definition engine_served :: "ProtocolMode \<Rightarrow> ProtocolMode" where
  "engine_served m = (if 0 \<le> m \<and> m \<le> 9 then m else if m = 11 then 14 else 7)"

lemma engine_mask_is_shred_mask: "Engine_CreateMask m e = CreateMask (engine_served m) e"
proof -
  consider "m \<in> {0 .. 11}" | "m \<notin> {0 .. 11}" by blast
  then show ?thesis
  proof cases
    case 1
    then have "m \<in> {0, 1, 2, 3, 4, 5, 6, 7, 8, 9, 10, 11}" by (simp, presburger)
    then show ?thesis
      by (elim insertE emptyE) (simp_all add: CreateMask_def Engine_CreateMask_def engine_served_def)
  next
    case 2
    then show ?thesis by (auto simp: CreateMask_def Engine_CreateMask_def engine_served_def)
  qed
qed

lemma Engine_CreateMask_ok:
  "\<exists>mk e1. Engine_CreateMask md e = Ok (mk, e1) \<and> mask_mode mk = engine_served md"
proof -
  have "served (engine_served md) = engine_served md"
    by (auto simp: served_def engine_served_def)
  with CreateMask_ok [of "engine_served md" e] show ?thesis
    by (auto simp: engine_mask_is_shred_mask)
qed

section \<open>The mixer\<close>

record ProtocolMixer =
  pm_currentMode :: ProtocolMode
  pm_currentMask :: Masker
  pm_modes :: "ProtocolMode list"
  pm_lastSwitch :: instant
  pm_switchInterval :: duration
  pm_stats :: "(ProtocolMode \<times> int) list"
  pm_packetsWrapped :: int
  pm_packetsUnwrapped :: int
  pm_errorsCount :: int

definition NewProtocolMixer :: "env \<Rightarrow> (ProtocolMixer \<times> env) result" where
  "NewProtocolMixer e =
     (let (t, e1) = read_clock e in
      bindR (Engine_CreateMask ModeRuTube e1) (\<lambda>(mk, e2).
        Ok (\<lparr>pm_currentMode = ModeRuTube, pm_currentMask = mk,
             pm_modes = [ModeRuTube, ModeYandex, ModeVK, ModeQUIC, ModeWebRTC, ModeMinecraft],
             pm_lastSwitch = t, pm_switchInterval = 5 * minute, pm_stats = [],
             pm_packetsWrapped = 0, pm_packetsUnwrapped = 0, pm_errorsCount = 0\<rparr>, e2)))"

definition PM_become :: "ProtocolMode \<Rightarrow> ProtocolMixer \<Rightarrow> env \<Rightarrow> (ProtocolMixer \<times> env) result" where
  "PM_become mode m e = bindR (Engine_CreateMask mode e) (\<lambda>(mk, e1).
     let (t, e2) = read_clock e1 in
     Ok (m\<lparr>pm_currentMode := mode, pm_currentMask := mk, pm_lastSwitch := t\<rparr>, e2))"

definition switchMode :: "ProtocolMixer \<Rightarrow> env \<Rightarrow> (ProtocolMixer \<times> env) result" where
  "switchMode m e =
     (if pm_modes m = [] then Ok (m, e)
      else
        let nextIndex = (index_of (pm_currentMode m) (pm_modes m) + 1) mod int (length (pm_modes m))
        in PM_become (pm_modes m ! nat nextIndex) m e)"

definition PM_GetCurrentMode :: "ProtocolMixer \<Rightarrow> env \<Rightarrow> (ProtocolMixer \<times> env) result" where
  "PM_GetCurrentMode m e =
     (if 0 < pm_switchInterval m then
        let (t, e1) = read_clock e in
        if pm_switchInterval m < t - pm_lastSwitch m then switchMode m e1 else Ok (m, e1)
      else Ok (m, e))"

definition PM_GetCurrentMask :: "ProtocolMixer \<Rightarrow> env \<Rightarrow> (Masker \<times> ProtocolMixer \<times> env) result" where
  "PM_GetCurrentMask m e =
     bindR (PM_GetCurrentMode m e) (\<lambda>(m1, e1). Ok (pm_currentMask m1, m1, e1))"

text \<open>The mask is shared with the mixer, so what a packet does to it stays.\<close>

definition PM_Wrap :: "ProtocolMixer \<Rightarrow> bytes \<Rightarrow> env \<Rightarrow> (bytes \<times> ProtocolMixer \<times> env) result" where
  "PM_Wrap m payload e =
     bindR (PM_GetCurrentMask m e) (\<lambda>(mask, m1, e1).
       let m2 = m1\<lparr>pm_packetsWrapped := pm_packetsWrapped m1 + 1,
                   pm_stats := count_mode (pm_currentMode m1) (pm_stats m1)\<rparr> in
       bindR (Masker_Wrap mask payload e1) (\<lambda>(pkt, mask1, e2).
         Ok (pkt, m2\<lparr>pm_currentMask := mask1\<rparr>, e2)))"

fun PM_try_modes ::
  "ProtocolMode list \<Rightarrow> bytes \<Rightarrow> env \<Rightarrow>
     ((bytes \<times> ProtocolMode \<times> Masker) option \<times> env) result option" where
  "PM_try_modes [] data e = Some (Ok (None, e))"
| "PM_try_modes (mode # modes) data e =
     bindO (Some (Engine_CreateMask mode e)) (\<lambda>(testMask, e1).
       case Masker_Unwrap testMask data e1 of
         None \<Rightarrow> None
       | Some Panic \<Rightarrow> Some Panic
       | Some (Ok (result, testMask1, e2)) \<Rightarrow> Some (Ok (Some (result, mode, testMask1), e2))
       | Some (Fail err) \<Rightarrow> PM_try_modes modes data e1)"

definition PM_Unwrap ::
  "ProtocolMixer \<Rightarrow> bytes \<Rightarrow> env \<Rightarrow> (bytes result \<times> ProtocolMixer \<times> env) result option" where
  "PM_Unwrap m data e =
     bindO (Some (PM_GetCurrentMask m e)) (\<lambda>(mask, m1, e1).
       case Masker_Unwrap mask data e1 of
         None \<Rightarrow> None
       | Some Panic \<Rightarrow> Some Panic
       | Some (Ok (result, mask1, e2)) \<Rightarrow>
           Some (Ok (Ok result, m1\<lparr>pm_currentMask := mask1,
             pm_packetsUnwrapped := pm_packetsUnwrapped m1 + 1\<rparr>, e2))
       | Some (Fail err) \<Rightarrow>
           bindO (PM_try_modes (pm_modes m1) data e1) (\<lambda>(found, e2).
             case found of
               Some (result, mode, mk) \<Rightarrow>
                 Some (Ok (Ok result, m1\<lparr>pm_currentMode := mode, pm_currentMask := mk,
                   pm_packetsUnwrapped := pm_packetsUnwrapped m1 + 1\<rparr>, e2))
             | None \<Rightarrow>
                 Some (Ok (Fail ErrUnwrapFailed,
                   m1\<lparr>pm_errorsCount := pm_errorsCount m1 + 1\<rparr>, e2))))"

definition PM_SetModes :: "ProtocolMode list \<Rightarrow> ProtocolMixer \<Rightarrow> env \<Rightarrow> (ProtocolMixer \<times> env) result"
  where "PM_SetModes modes m e =
     (if modes = [] then Ok (m, e) else PM_become (hd modes) (m\<lparr>pm_modes := modes\<rparr>) e)"

definition PM_SetSwitchInterval :: "duration \<Rightarrow> ProtocolMixer \<Rightarrow> ProtocolMixer" where
  "PM_SetSwitchInterval interval m = m\<lparr>pm_switchInterval := interval\<rparr>"

definition GetMaskForMode :: "ProtocolMode \<Rightarrow> string" where
  "GetMaskForMode mode = Engine_mode_String mode"

definition ResetStats :: "ProtocolMixer \<Rightarrow> ProtocolMixer" where
  "ResetStats m = m\<lparr>pm_packetsWrapped := 0, pm_packetsUnwrapped := 0, pm_errorsCount := 0,
     pm_stats := []\<rparr>"

definition ForceSwitch :: "ProtocolMixer \<Rightarrow> env \<Rightarrow> (ProtocolMixer \<times> env) result" where
  "ForceSwitch m e = switchMode m e"

definition PM_AddMode :: "ProtocolMode \<Rightarrow> ProtocolMixer \<Rightarrow> ProtocolMixer" where
  "PM_AddMode mode m =
     (if mode \<in> set (pm_modes m) then m else m\<lparr>pm_modes := pm_modes m @ [mode]\<rparr>)"

definition PM_RemoveMode :: "ProtocolMode \<Rightarrow> ProtocolMixer \<Rightarrow> env \<Rightarrow> (ProtocolMixer \<times> env) result"
  where "PM_RemoveMode mode m e =
     (let newModes = filter (\<lambda>x. x \<noteq> mode) (pm_modes m) in
      if newModes = [] then Ok (m, e)
      else
        let m1 = m\<lparr>pm_modes := newModes\<rparr> in
        if pm_currentMode m1 \<in> set newModes then Ok (m1, e)
        else PM_become (hd newModes) m1 e)"

section \<open>The invariant\<close>

definition pm_inv :: "ProtocolMixer \<Rightarrow> bool" where
  "pm_inv m \<longleftrightarrow> pm_currentMode m \<in> set (pm_modes m) \<and>
     mask_mode (pm_currentMask m) = engine_served (pm_currentMode m)"

lemma Masker_Wrap_mode: "Masker_Wrap mk p e = Ok (b, mk1, e1) \<Longrightarrow> mask_mode mk1 = mask_mode mk"
  by (cases mk) (auto simp: rewrap_def bindR_eq_Ok)

lemma Masker_Unwrap_same_mode:
  "Masker_Unwrap mk d e = Some (Ok (p, mk1, e1)) \<Longrightarrow> mask_mode mk1 = mask_mode mk"
  by (cases mk) (auto simp: stateless_def rewrap_def bindR_eq_Ok)

lemma PM_become_ok:
  "\<exists>mk t e1. PM_become md m e =
      Ok (m\<lparr>pm_currentMode := md, pm_currentMask := mk, pm_lastSwitch := t\<rparr>, e1) \<and>
    mask_mode mk = engine_served md"
proof -
  obtain mk e1 where "Engine_CreateMask md e = Ok (mk, e1)" "mask_mode mk = engine_served md"
    using Engine_CreateMask_ok by blast
  then show ?thesis by (auto simp: PM_become_def case_prod_beta Let_def)
qed

lemma PM_become_inv:
  assumes "md \<in> set (pm_modes m)"
  shows "\<exists>m1 e1. PM_become md m e = Ok (m1, e1) \<and> pm_inv m1 \<and> pm_modes m1 = pm_modes m"
  using PM_become_ok [of md m e] assms by (auto simp: pm_inv_def)

lemma NewProtocolMixer_inv: "\<exists>m e1. NewProtocolMixer e = Ok (m, e1) \<and> pm_inv m"
  using Engine_CreateMask_ok [of ModeRuTube "snd (read_clock e)"]
  by (auto simp: NewProtocolMixer_def pm_inv_def case_prod_beta)

lemma switchMode_inv:
  assumes "pm_inv m"
  shows "\<exists>m1 e1. switchMode m e = Ok (m1, e1) \<and> pm_inv m1"
proof -
  let ?i = "nat ((index_of (pm_currentMode m) (pm_modes m) + 1) mod int (length (pm_modes m)))"
  from assms have ne: "pm_modes m \<noteq> []" by (auto simp: pm_inv_def)
  then have "?i < length (pm_modes m)" by (simp add: nat_less_iff)
  then have "pm_modes m ! ?i \<in> set (pm_modes m)" by (rule nth_mem)
  from PM_become_inv [OF this, of e] ne show ?thesis by (auto simp: switchMode_def)
qed

lemma PM_GetCurrentMask_inv:
  assumes "pm_inv m"
  shows "\<exists>m1 e1. PM_GetCurrentMask m e = Ok (pm_currentMask m1, m1, e1) \<and> pm_inv m1"
  using assms switchMode_inv [OF assms, of "snd (read_clock e)"]
  by (auto simp: PM_GetCurrentMask_def PM_GetCurrentMode_def case_prod_beta)

lemma PM_SetModes_inv:
  assumes "pm_inv m"
  shows "\<exists>m1 e1. PM_SetModes modes m e = Ok (m1, e1) \<and> pm_inv m1"
  using assms PM_become_inv [of "hd modes" "m\<lparr>pm_modes := modes\<rparr>" e]
  by (auto simp: PM_SetModes_def)

lemma PM_RemoveMode_inv:
  assumes "pm_inv m"
  shows "\<exists>m1 e1. PM_RemoveMode md m e = Ok (m1, e1) \<and> pm_inv m1"
  using assms hd_in_set [of "filter (\<lambda>x. x \<noteq> md) (pm_modes m)"]
    PM_become_inv [of "hd (filter (\<lambda>x. x \<noteq> md) (pm_modes m))"
      "m\<lparr>pm_modes := filter (\<lambda>x. x \<noteq> md) (pm_modes m)\<rparr>" e]
  by (auto simp: PM_RemoveMode_def Let_def pm_inv_def)

lemma PM_AddMode_inv: "pm_inv m \<Longrightarrow> pm_inv (PM_AddMode md m)"
  by (auto simp: PM_AddMode_def pm_inv_def)

lemma PM_Wrap_inv:
  assumes "pm_inv m" and "PM_Wrap m p e = Ok (pkt, m1, e1)"
  shows "pm_inv m1"
proof -
  obtain m2 e2 where m2: "PM_GetCurrentMask m e = Ok (pm_currentMask m2, m2, e2)" "pm_inv m2"
    using PM_GetCurrentMask_inv [OF assms(1)] by blast
  with assms(2) obtain mk where "Masker_Wrap (pm_currentMask m2) p e2 = Ok (pkt, mk, e1)"
    "m1 = m2\<lparr>pm_packetsWrapped := pm_packetsWrapped m2 + 1,
       pm_stats := count_mode (pm_currentMode m2) (pm_stats m2), pm_currentMask := mk\<rparr>"
    by (auto simp: PM_Wrap_def bindR_eq_Ok)
  with Masker_Wrap_mode m2(2) show ?thesis by (simp add: pm_inv_def)
qed

lemma PM_try_modes_found:
  "PM_try_modes modes d e = Some (Ok (Some (p, md, mk), e1)) \<Longrightarrow>
   md \<in> set modes \<and> mask_mode mk = engine_served md"
proof (induction modes arbitrary: e)
  case (Cons x xs)
  obtain k e2 where k: "Engine_CreateMask x e = Ok (k, e2)" "mask_mode k = engine_served x"
    using Engine_CreateMask_ok by blast
  show ?case
  proof (cases "\<exists>err. Masker_Unwrap k d e2 = Some (Fail err)")
    case True
    with Cons.prems k(1) have "PM_try_modes xs d e2 = Some (Ok (Some (p, md, mk), e1))" by auto
    from Cons.IH [OF this] show ?thesis by simp
  next
    case False
    with Cons.prems k(1) obtain e3 where "Masker_Unwrap k d e2 = Some (Ok (p, mk, e3))" "md = x"
      by (auto split: option.splits result.splits)
    with Masker_Unwrap_same_mode [OF this(1)] k(2) show ?thesis by simp
  qed
qed simp

lemma PM_Unwrap_inv:
  assumes "pm_inv m" and "PM_Unwrap m d e = Some (Ok (r, m1, e1))"
  shows "pm_inv m1"
proof -
  obtain m2 e2 where m2: "PM_GetCurrentMask m e = Ok (pm_currentMask m2, m2, e2)" "pm_inv m2"
    using PM_GetCurrentMask_inv [OF assms(1)] by blast
  show ?thesis
  proof (cases "\<exists>err. Masker_Unwrap (pm_currentMask m2) d e2 = Some (Fail err)")
    case False
    with assms(2) m2(1) obtain p mk where "Masker_Unwrap (pm_currentMask m2) d e2 = Some (Ok (p, mk, e1))"
      "m1 = m2\<lparr>pm_currentMask := mk, pm_packetsUnwrapped := pm_packetsUnwrapped m2 + 1\<rparr>"
      by (auto simp: PM_Unwrap_def split: option.splits result.splits)
    with Masker_Unwrap_same_mode [OF this(1)] m2(2) show ?thesis by (simp add: pm_inv_def)
  next
    case True
    with assms(2) m2(1) obtain found e3 where
      f: "PM_try_modes (pm_modes m2) d e2 = Some (Ok (found, e3))"
      and m1: "found = None \<and> m1 = m2\<lparr>pm_errorsCount := pm_errorsCount m2 + 1\<rparr> \<or>
        (\<exists>p md mk. found = Some (p, md, mk) \<and> m1 = m2\<lparr>pm_currentMode := md, pm_currentMask := mk,
          pm_packetsUnwrapped := pm_packetsUnwrapped m2 + 1\<rparr>)"
      by (auto simp: PM_Unwrap_def bindO_eq_Ok split: option.splits) (metis prod_cases3 option.exhaust)
    then show ?thesis
      using m2(2) PM_try_modes_found by (fastforce simp: pm_inv_def)
  qed
qed

text \<open>What the operations reach from a new mixer.\<close>

inductive pm_reach :: "ProtocolMixer \<Rightarrow> bool" where
  new: "NewProtocolMixer e = Ok (m, e1) \<Longrightarrow> pm_reach m"
| wrap: "pm_reach m \<Longrightarrow> PM_Wrap m p e = Ok (pkt, m1, e1) \<Longrightarrow> pm_reach m1"
| unwrap: "pm_reach m \<Longrightarrow> PM_Unwrap m d e = Some (Ok (r, m1, e1)) \<Longrightarrow> pm_reach m1"
| switch: "pm_reach m \<Longrightarrow> ForceSwitch m e = Ok (m1, e1) \<Longrightarrow> pm_reach m1"
| current: "pm_reach m \<Longrightarrow> PM_GetCurrentMask m e = Ok (mk, m1, e1) \<Longrightarrow> pm_reach m1"
| modes: "pm_reach m \<Longrightarrow> PM_SetModes ms m e = Ok (m1, e1) \<Longrightarrow> pm_reach m1"
| add: "pm_reach m \<Longrightarrow> pm_reach (PM_AddMode md m)"
| remove: "pm_reach m \<Longrightarrow> PM_RemoveMode md m e = Ok (m1, e1) \<Longrightarrow> pm_reach m1"
| interval: "pm_reach m \<Longrightarrow> pm_reach (PM_SetSwitchInterval d m)"
| reset: "pm_reach m \<Longrightarrow> pm_reach (ResetStats m)"

lemma pm_reach_inv: "pm_reach m \<Longrightarrow> pm_inv m"
proof (induction rule: pm_reach.induct)
  case (new e m e1)
  then show ?case using NewProtocolMixer_inv [of e] by auto
next
  case (switch m e m1 e1)
  then show ?case using switchMode_inv [of m e] by (auto simp: ForceSwitch_def)
next
  case (current m e mk m1 e1)
  then show ?case using PM_GetCurrentMask_inv [of m e] by auto
next
  case (modes m ms e m1 e1)
  then show ?case using PM_SetModes_inv [of m ms e] by auto
next
  case (remove m md e m1 e1)
  then show ?case using PM_RemoveMode_inv [of m md e] by auto
next
  case (wrap m p e pkt m1 e1)
  then show ?case by (blast intro: PM_Wrap_inv)
next
  case (unwrap m d e r m1 e1)
  then show ?case by (blast intro: PM_Unwrap_inv)
qed (simp_all add: PM_AddMode_inv, simp_all add: PM_SetSwitchInterval_def ResetStats_def pm_inv_def)

end
