(* ===== verification/Shredder.thy ===== *)
theory Shredder
  imports Ciphers ShredEngine
begin

text \<open>
  The encrypting pipeline of \<open>internal/engine/shredder.go\<close>: bursts of the shaper of package
  shred, fragments of the fragmentor the file repeats from that package, each sealed and
  written. The jitter only sleeps. The reader is the list of what it gives, then an error;
  bytes that a reader gives together with its error are lost, since the code returns before it looks at
  them, so the error carries none.
\<close>

section \<open>The fragmentor, repeated\<close>

definition Engine_NewFragmentor :: "int \<Rightarrow> int \<Rightarrow> fragmentor" where
  "Engine_NewFragmentor mn mx =
     \<lparr>minSize = mn, maxSize = mx, currentSize = mn, lastRotation = zero_time\<rparr>"

definition Engine_rotateIfNeeded :: "fragmentor \<times> clock \<Rightarrow> (fragmentor \<times> clock) result" where
  "Engine_rotateIfNeeded = (\<lambda>(f, c).
     if now c - lastRotation f > 30 * second then
       bindR (go_rem (now (tick 1 c)) (maxSize f - minSize f)) (\<lambda>r.
         Ok (f\<lparr>currentSize := minSize f + r, lastRotation := now (tick 2 c)\<rparr>, tick 3 c))
     else Ok (f, tick 1 c))"

definition Engine_Fragment ::
  "fragmentor \<times> clock \<Rightarrow> bytes \<Rightarrow> (bytes list \<times> (fragmentor \<times> clock)) result option" where
  "Engine_Fragment s data =
     bindO (Some (Engine_rotateIfNeeded s)) (\<lambda>s1.
     bindO (fragment_loop (currentSize (fst s1)) data) (\<lambda>fs. Some (Ok (fs, s1))))"

lemma engine_fragmentor:
  "Engine_NewFragmentor = NewFragmentor" "Engine_Fragment = Fragment"
proof -
  have rot: "Engine_rotateIfNeeded = rotateIfNeeded"
    by (simp add: Engine_rotateIfNeeded_def rotateIfNeeded_def)
  have "Engine_Fragment s d = Fragment s d" for s d
  proof (cases "rotateIfNeeded s")
    case (Ok s1)
    then show ?thesis
    proof (cases "fragment_loop (currentSize (fst s1)) d")
      case (Some r)
      with Ok show ?thesis by (cases r) (simp_all add: Engine_Fragment_def Fragment_def rot)
    qed (simp add: Engine_Fragment_def Fragment_def rot)
  qed (simp_all add: Engine_Fragment_def Fragment_def rot)
  then show "Engine_Fragment = Fragment" by blast
  show "Engine_NewFragmentor = NewFragmentor"
    by (simp add: fun_eq_iff Engine_NewFragmentor_def NewFragmentor_def)
qed

section \<open>The shredder\<close>

record Shredder =
  sh_fragmentor :: fragmentor
  sh_shaper :: shaper
  sh_cipher :: AEADCipher
  sh_sessionID :: u64

definition NewShredder :: "u64 \<Rightarrow> AEADCipher \<Rightarrow> Shredder" where
  "NewShredder sessionID cph =
     \<lparr>sh_fragmentor = Engine_NewFragmentor 32 288,
      sh_shaper = NewTrafficShaper 500 1500 (10 * millisecond), sh_cipher = cph,
      sh_sessionID = sessionID\<rparr>"

fun seal_fragments :: "AEADCipher \<Rightarrow> bytes list \<Rightarrow> env \<Rightarrow> sink \<Rightarrow> unit result \<times> env \<times> sink" where
  "seal_fragments c [] e k = (Ok (), e, k)"
| "seal_fragments c (f # fs) e k =
     (case Aead_Encrypt c f e of
        (Ok encrypted, e1) \<Rightarrow>
          (case sink_write encrypted k of
             (Ok _, k1) \<Rightarrow> seal_fragments c fs e1 k1
           | (r, k1) \<Rightarrow> (r, e1, k1))
      | (Fail err, e1) \<Rightarrow> (Fail err, e1, k)
      | (Panic, e1) \<Rightarrow> (Panic, e1, k))"

fun seal_bursts ::
  "bytes list \<Rightarrow> Shredder \<Rightarrow> env \<Rightarrow> sink \<Rightarrow> (unit result \<times> Shredder \<times> env \<times> sink) result option" where
  "seal_bursts [] s e k = Some (Ok (Ok (), s, e, k))"
| "seal_bursts (b # bs) s e k =
     bindO (Engine_Fragment (sh_fragmentor s, clk e) b) (\<lambda>(frags, (f1, c1)).
       let s1 = s\<lparr>sh_fragmentor := f1\<rparr> in
       case seal_fragments (sh_cipher s) frags (e\<lparr>clk := c1\<rparr>) k of
         (Ok _, e1, k1) \<Rightarrow> seal_bursts bs s1 e1 k1
       | (r, e1, k1) \<Rightarrow> Some (Ok (r, s1, e1, k1)))"

fun Shred ::
  "bytes list \<Rightarrow> go_error \<Rightarrow> Shredder \<Rightarrow> env \<Rightarrow> sink \<Rightarrow>
     (go_error \<times> Shredder \<times> env \<times> sink) result option" where
  "Shred [] err s e k = Some (Ok (err, s, e, k))"
| "Shred (d # ds) err s e k =
     bindO (Process (sh_shaper s, clk e) (take 65536 d)) (\<lambda>(bursts, (sh, c)).
     bindO (seal_bursts bursts (s\<lparr>sh_shaper := sh\<rparr>) (e\<lparr>clk := c\<rparr>) k) (\<lambda>(r, s1, e1, k1).
       case r of
         Fail werr \<Rightarrow> Some (Ok (werr, s1, e1, k1))
       | Panic \<Rightarrow> Some Panic
       | Ok _ \<Rightarrow> Shred ds err s1 e1 k1))"

section \<open>What holds of it\<close>

definition shredder_inv :: "Shredder \<Rightarrow> env \<Rightarrow> bool" where
  "shredder_inv s e \<longleftrightarrow> frag_inv (sh_fragmentor s, clk e) \<and> shaper_inv (sh_shaper s, clk e)"

lemma NewShredder_inv: "clock_ok (clk e) \<Longrightarrow> shredder_inv (NewShredder sid c) e"
  by (simp add: shredder_inv_def NewShredder_def engine_fragmentor(1) frag_inv_New shaper_inv_def
      NewTrafficShaper_def)

text \<open>What was written: packets that the cipher opens to non-empty pieces of the data.\<close>

definition sealed :: "AEADCipher \<Rightarrow> sink \<Rightarrow> sink \<Rightarrow> bytes \<Rightarrow> bool" where
  "sealed c k k1 data \<longleftrightarrow> k_budget k1 = None \<and>
     (\<exists>cts ps. k_out k1 = k_out k @ cts \<and> map (Aead_Decrypt c) cts = map Ok ps \<and>
        concat ps = data \<and> [] \<notin> set ps)"

lemma sealed_nil: "k_budget k = None \<Longrightarrow> sealed c k k []"
  unfolding sealed_def by (intro conjI exI [of _ "[]"]) simp_all

lemma sealed_append:
  assumes "sealed c k k1 d1" and "sealed c k1 k2 d2"
  shows "sealed c k k2 (d1 @ d2)"
proof -
  from assms obtain c1 p1 c2 p2 where "k_out k1 = k_out k @ c1" "map (Aead_Decrypt c) c1 = map Ok p1"
    "concat p1 = d1" "[] \<notin> set p1" "k_out k2 = k_out k1 @ c2" "map (Aead_Decrypt c) c2 = map Ok p2"
    "concat p2 = d2" "[] \<notin> set p2" "k_budget k2 = None"
    by (auto simp: sealed_def)
  then show ?thesis
    unfolding sealed_def by (intro conjI exI [of _ "c1 @ c2"] exI [of _ "p1 @ p2"]) simp_all
qed

lemma seal_fragments_sealed:
  assumes "k_budget k = None" and "[] \<notin> set fs" and "\<forall>f\<in>set fs. int (length f) \<le> gcm_max"
  shows "\<exists>e1 k1. seal_fragments c fs e k = (Ok (), e1, k1) \<and> clk e1 = clk e \<and>
    sealed c k k1 (concat fs)"
  using assms
proof (induction fs arbitrary: e k)
  case (Cons f fs)
  then have "int (length f) \<le> gcm_max" by simp
  from Aead_Encrypt_ok [OF this, of c e] obtain ct e1
    where ct: "Aead_Encrypt c f e = (Ok ct, e1)" "Aead_Decrypt c ct = Ok f"
    by (metis prod.collapse)
  then have clk: "clk e1 = clk e" by (auto simp: Aead_Encrypt_def draw_def Let_def)
  let ?k = "k\<lparr>k_out := k_out k @ [ct]\<rparr>"
  have w: "sink_write ct k = (Ok (), ?k)" using Cons.prems(1) by (simp add: sink_write_def)
  have s1: "sealed c k ?k f"
    unfolding sealed_def using Cons.prems ct(2)
    by (intro conjI exI [of _ "[ct]"] exI [of _ "[f]"]) auto
  from Cons.IH [of ?k e1] Cons.prems obtain e2 k2 where
    "seal_fragments c fs e1 ?k = (Ok (), e2, k2)" "clk e2 = clk e1" "sealed c ?k k2 (concat fs)"
    by auto
  with sealed_append [OF s1] ct w clk show ?case by auto
qed (auto simp: sealed_nil)

lemma length_in_concat: "x \<in> set xs \<Longrightarrow> length x \<le> length (concat xs)"
  by (induction xs) auto

lemma seal_bursts_sealed:
  assumes "shredder_inv s e" and "k_budget k = None" and "\<forall>b\<in>set bs. length b \<le> 65536"
  shows "\<exists>s1 e1 k1. seal_bursts bs s e k = Some (Ok (Ok (), s1, e1, k1)) \<and> shredder_inv s1 e1 \<and>
    sh_cipher s1 = sh_cipher s \<and> sealed (sh_cipher s) k k1 (concat bs)"
  using assms
proof (induction bs arbitrary: s e k)
  case (Cons b bs)
  from Cons.prems(1) have "frag_inv (sh_fragmentor s, clk e)" by (simp add: shredder_inv_def)
  from fragmentor.split_total [OF this, of b] obtain fs f1 c1 where
    frag: "Fragment (sh_fragmentor s, clk e) b = Some (Ok (fs, (f1, c1)))"
      "frag_inv (f1, c1)" "concat fs = b" "[] \<notin> set fs"
    by auto
  have "int (length f) \<le> gcm_max" if "f \<in> set fs" for f
    using length_in_concat [OF that] Cons.prems(3) frag(3) by (simp add: gcm_max_def)
  with seal_fragments_sealed [OF Cons.prems(2) frag(4), of "sh_cipher s" "e\<lparr>clk := c1\<rparr>"] frag(3)
  obtain e1 k1 where
    sealed: "seal_fragments (sh_cipher s) fs (e\<lparr>clk := c1\<rparr>) k = (Ok (), e1, k1)" "clk e1 = c1"
      "sealed (sh_cipher s) k k1 b"
    by auto
  let ?s = "s\<lparr>sh_fragmentor := f1\<rparr>"
  have "shredder_inv ?s e1"
    using Cons.prems(1) frag(2) sealed(2) by (simp add: shredder_inv_def shaper_inv_def frag_inv_def)
  moreover have "k_budget k1 = None" using sealed(3) by (simp add: sealed_def)
  ultimately obtain s2 e2 k2 where "seal_bursts bs ?s e1 k1 = Some (Ok (Ok (), s2, e2, k2))"
    "shredder_inv s2 e2" "sh_cipher s2 = sh_cipher s" "sealed (sh_cipher s) k1 k2 (concat bs)"
    using Cons.IH [of ?s e1 k1] Cons.prems(3) by auto
  then show ?case
    using frag(1) sealed(1) sealed_append [OF sealed(3)] by (auto simp: engine_fragmentor(2))
qed (auto simp: sealed_nil)

lemma Shred_sealed:
  assumes "shredder_inv s e" and "k_budget k = None" and "\<forall>d\<in>set ds. length d \<le> 65536"
  shows "\<exists>s1 e1 k1. Shred ds err s e k = Some (Ok (err, s1, e1, k1)) \<and>
    sealed (sh_cipher s) k k1 (concat ds)"
  using assms
proof (induction ds arbitrary: s e k)
  case (Cons d ds)
  from Cons.prems(1) have "shaper_inv (sh_shaper s, clk e)" by (simp add: shredder_inv_def)
  from shaper.split_total [OF this, of d] obtain bs sh c where
    proc: "Process (sh_shaper s, clk e) d = Some (Ok (bs, (sh, c)))" "shaper_inv (sh, c)"
      "concat bs = d"
    by auto
  let ?s = "s\<lparr>sh_shaper := sh\<rparr>"
  have "shredder_inv ?s (e\<lparr>clk := c\<rparr>)"
    using Cons.prems(1) proc(2) by (simp add: shredder_inv_def frag_inv_def shaper_inv_def)
  moreover have "\<forall>b\<in>set bs. length b \<le> 65536"
    using length_in_concat [of _ bs] proc(3) Cons.prems(3) by fastforce
  ultimately obtain s1 e1 k1 where burst:
      "seal_bursts bs ?s (e\<lparr>clk := c\<rparr>) k = Some (Ok (Ok (), s1, e1, k1))" "shredder_inv s1 e1"
      "sh_cipher s1 = sh_cipher s" "sealed (sh_cipher s) k k1 d"
    using seal_bursts_sealed [of ?s "e\<lparr>clk := c\<rparr>" k bs] Cons.prems(2) proc(3) by auto
  from burst(4) have "k_budget k1 = None" by (simp add: sealed_def)
  with Cons.IH [OF burst(2), of k1] Cons.prems(3) burst(3) obtain s2 e2 k2 where
    "Shred ds err s1 e1 k1 = Some (Ok (err, s2, e2, k2))" "sealed (sh_cipher s) k1 k2 (concat ds)"
    by auto
  then show ?case
    using proc(1) burst sealed_append [OF burst(4)] Cons.prems(3) by auto
qed (auto simp: sealed_nil)

end
