(* ===== verification/Background.thy ===== *)
theory Background
  imports HttpMasks
begin

text \<open>
  Cover traffic: the heartbeats of \<open>internal/engine/background.go\<close> and the chaff of
  \<open>internal/engine/scheduler.go\<close>. The function that sends is outside; what it is given is
  the result. A ticker is its period, a channel that stops a goroutine is whether it is
  closed: closing it twice panics.
\<close>

section \<open>Random integers\<close>

text \<open>On a machine of 64-bit integers the four bytes never make a negative number.\<close>

definition randInt :: "int \<Rightarrow> int \<Rightarrow> env \<Rightarrow> (int \<times> env) result" where
  "randInt mn mx e =
     (if mn = mx then Ok (mn, e)
      else
        let (b, e1) = draw 4 e; n = uint (de32 b) in
        bindR (go_rem n (mx - mn)) (\<lambda>r. Ok (mn + r, e1)))"

lemma randInt_range:
  assumes "mn < mx"
  shows "\<exists>n e1. randInt mn mx e = Ok (n, e1) \<and> mn \<le> n \<and> n < mx"
proof -
  let ?r = "uint (de32 (fst (draw 4 e))) mod (mx - mn)"
  have "0 \<le> ?r" "?r < mx - mn" using assms by simp_all
  moreover have "randInt mn mx e = Ok (mn + ?r, snd (draw 4 e))"
    using assms by (simp add: randInt_def case_prod_beta Let_def go_rem_pos)
  ultimately show ?thesis by auto
qed

section \<open>Heartbeats\<close>

record BackgroundConfig =
  bc_Enabled :: bool
  bc_Interval :: duration
  bc_JitterMs :: int
  bc_Randomize :: bool

definition DefaultBackgroundConfig :: BackgroundConfig where
  "DefaultBackgroundConfig =
     \<lparr>bc_Enabled = True, bc_Interval = 30 * second, bc_JitterMs = 5000, bc_Randomize = True\<rparr>"

record BackgroundTraffic =
  bt_enabled :: bool
  bt_ticker :: "duration option"
  bt_stopped :: bool
  bt_interval :: duration
  bt_jitter :: duration

text \<open>\<open>time.NewTicker\<close> panics on a period that is not positive.\<close>

definition bt_start :: "BackgroundTraffic \<Rightarrow> env \<Rightarrow> (BackgroundTraffic \<times> env) result" where
  "bt_start bt e =
     (if bt_ticker bt \<noteq> None then Ok (bt, e)
      else
        bindR (if 0 < bt_jitter bt then
                 bindR (randInt 0 (bt_jitter bt div millisecond) e) (\<lambda>(j, e1).
                   Ok (bt_interval bt + j * millisecond, e1))
               else Ok (bt_interval bt, e)) (\<lambda>(interval, e1).
        if interval \<le> 0 then Panic else Ok (bt\<lparr>bt_ticker := Some interval\<rparr>, e1)))"

definition NewBackgroundTraffic ::
  "BackgroundConfig option \<Rightarrow> env \<Rightarrow> (BackgroundTraffic \<times> env) result" where
  "NewBackgroundTraffic config e =
     (let c = (case config of None \<Rightarrow> DefaultBackgroundConfig | Some c \<Rightarrow> c);
          bt = \<lparr>bt_enabled = bc_Enabled c, bt_ticker = None, bt_stopped = False,
                bt_interval = bc_Interval c, bt_jitter = bc_JitterMs c * millisecond\<rparr>
      in if bt_enabled bt then bt_start bt e else Ok (bt, e))"

definition bt_Stop :: "BackgroundTraffic \<Rightarrow> BackgroundTraffic result" where
  "bt_Stop bt = (if bt_stopped bt then Panic else Ok (bt\<lparr>bt_stopped := True\<rparr>))"

definition sendPing :: bytes where
  "sendPing = marker ''PING''"

definition sendKeepAlive :: bytes where
  "sendKeepAlive = [0, 0, 0, 0]"

definition sendAPIRequest :: "env \<Rightarrow> (bytes \<times> env) result" where
  "sendAPIRequest e = bindR (randInt 32 128 e) (\<lambda>(n, e1).
     let (payload, e2) = draw (nat n) e1 in
     Ok (marker ''GET /api/v1/status HTTP/2.0'' @ crlf @ marker ''Host: api.google.com'' @ crlf @
         marker ''User-Agent: Mozilla/5.0'' @ crlf @ crlf @ payload, e2))"

definition sendMetrics :: "env \<Rightarrow> (bytes \<times> env) result" where
  "sendMetrics e = bindR (randInt 16 64 e) (\<lambda>(n, e1).
     let (data, e2) = draw (nat n) e1 in
     Ok (marker ''{'' @ [0x22] @ marker ''type'' @ [0x22] @ marker '':'' @ [0x22] @ marker ''telemetry'' @
         [0x22] @ marker '','' @ [0x22] @ marker ''data'' @ [0x22] @ marker '':'' @ data @ marker ''}'', e2))"

definition sendHeartbeat :: "env \<Rightarrow> (bytes option \<times> env) result" where
  "sendHeartbeat e = bindR (randInt 1 5 e) (\<lambda>(k, e1).
     if k = 1 then Ok (Some sendPing, e1)
     else if k = 2 then bindR (sendAPIRequest e1) (\<lambda>(d, e2). Ok (Some d, e2))
     else if k = 3 then Ok (Some sendKeepAlive, e1)
     else if k = 4 then bindR (sendMetrics e1) (\<lambda>(d, e2). Ok (Some d, e2))
     else Ok (None, e1))"

lemma sendAPIRequest_ok:
  "\<exists>tail e1. sendAPIRequest e = Ok (marker ''GET /api/v1/status HTTP/2.0'' @ crlf @
      marker ''Host: api.google.com'' @ crlf @ marker ''User-Agent: Mozilla/5.0'' @ crlf @ crlf @ tail, e1) \<and>
    32 \<le> length tail \<and> length tail < 128"
proof -
  obtain n e1 where "randInt 32 128 e = Ok (n, e1)" "32 \<le> n" "n < 128"
    using randInt_range [of 32 128 e] by auto
  then show ?thesis
    by (intro exI [of _ "fst (draw (nat n) e1)"] exI [of _ "snd (draw (nat n) e1)"])
      (simp add: sendAPIRequest_def case_prod_beta nat_less_iff)
qed

lemma sendMetrics_ok: "\<exists>tail e1. sendMetrics e = Ok (0x7B # tail, e1)"
proof -
  obtain n e1 where "randInt 16 64 e = Ok (n, e1)" using randInt_range [of 16 64 e] by auto
  then show ?thesis by (simp add: sendMetrics_def marker_def case_prod_beta)
qed

lemma bt_start_ok:
  assumes "bt_ticker bt = None" and "0 < bt_interval bt"
  shows "\<exists>d e1. bt_start bt e = Ok (bt\<lparr>bt_ticker := Some d\<rparr>, e1) \<and> bt_interval bt \<le> d \<and>
    d \<le> bt_interval bt + max 0 (bt_jitter bt)"
proof (cases "0 < bt_jitter bt")
  case True
  let ?m = "bt_jitter bt div millisecond"
  have m: "0 \<le> ?m" "?m * millisecond \<le> bt_jitter bt"
    using True by (simp_all add: pos_imp_zdiv_nonneg_iff)
  obtain j e1 where j: "randInt 0 ?m e = Ok (j, e1)" "0 \<le> j" "j \<le> ?m"
  proof (cases "?m = 0")
    case True
    then show ?thesis using that [of 0 e] by (simp add: randInt_def)
  next
    case False
    with m randInt_range [of 0 ?m e] that show ?thesis by force
  qed
  have "j * millisecond \<le> bt_jitter bt" using j(3) m(2) by linarith
  with assms True j show ?thesis by (auto simp: bt_start_def)
qed (use assms in \<open>auto simp: bt_start_def\<close>)

section \<open>Chaff\<close>

record ChaffScheduler =
  cs_enabled :: bool
  cs_interval :: duration
  cs_targets :: "string list"
  cs_stopped :: bool
  cs_callback :: bool

definition NewChaffScheduler :: "duration \<Rightarrow> string list \<Rightarrow> ChaffScheduler" where
  "NewChaffScheduler interval targets =
     \<lparr>cs_enabled = True, cs_interval = interval, cs_targets = targets, cs_stopped = False,
      cs_callback = False\<rparr>"

text \<open>Whether a goroutine is started; its ticker panics in the goroutine.\<close>

definition Chaff_Start :: "ChaffScheduler \<Rightarrow> bool result" where
  "Chaff_Start cs =
     (if \<not> cs_enabled cs then Ok False else if cs_interval cs \<le> 0 then Panic else Ok True)"

definition sendChaff :: "ChaffScheduler \<Rightarrow> env \<Rightarrow> (string option \<times> env) result" where
  "sendChaff cs e =
     (if \<not> cs_callback cs then Ok (None, e)
      else
        let (t, e1) = read_clock e in
        bindR (go_rem t (int (length (cs_targets cs)))) (\<lambda>i.
        if i < 0 then Panic
        else bindR (index (cs_targets cs) (nat i)) (\<lambda>target. Ok (Some target, e1))))"

definition Chaff_Stop :: "ChaffScheduler \<Rightarrow> ChaffScheduler result" where
  "Chaff_Stop cs =
     (if cs_stopped cs then Panic else Ok (cs\<lparr>cs_enabled := False, cs_stopped := True\<rparr>))"

definition SetChaffCallback :: "bool \<Rightarrow> ChaffScheduler \<Rightarrow> ChaffScheduler" where
  "SetChaffCallback fn cs = cs\<lparr>cs_callback := fn\<rparr>"

lemma sendChaff_target:
  assumes "clock_ok (clk e)" and "cs_callback cs"
  shows "if cs_targets cs = [] then sendChaff cs e = Panic
    else \<exists>t e1. sendChaff cs e = Ok (Some t, e1) \<and> t \<in> set (cs_targets cs)"
proof (cases "cs_targets cs = []")
  case True
  with assms show ?thesis by (simp add: sendChaff_def go_rem_def case_prod_beta)
next
  case False
  let ?i = "now (clk e) mod int (length (cs_targets cs))"
  have i: "\<not> ?i < 0" "nat ?i < length (cs_targets cs)" using False by (simp_all add: nat_less_iff not_less)
  with False assms show ?thesis
    by (simp add: sendChaff_def read_clock_def go_rem_pos index_def)
qed

end
