(* ===== verification/EngineProperties.thy ===== *)
theory EngineProperties
  imports EngineMixer Shredder Background TunnelProperties
begin

text \<open>
  The properties of the rest of package engine: the second mixer, the encrypting pipeline,
  and what the cover traffic does to the tunnel it runs in.
\<close>

section \<open>The second mixer\<close>

text \<open>Whatever is done to it, the mixer of package engine is in one of its modes and holds the mask
  that its factory makes for it; that mask bears the name of the mode only for the modes 0
  to 9: Minecraft is a vk mask, and TLS has a mask but no name.\<close>

theorem engine_mixer_is_in_its_mode:
  assumes "pm_reach m"
  shows "pm_currentMode m \<in> set (pm_modes m) \<and>
    Masker_ID (pm_currentMask m) = mode_String (engine_served (pm_currentMode m)) \<and>
    (Masker_ID (pm_currentMask m) = GetMaskForMode (pm_currentMode m) \<longleftrightarrow>
      0 \<le> pm_currentMode m \<and> pm_currentMode m \<le> 9)"
proof -
  let ?c = "pm_currentMode m"
  from pm_reach_inv [OF assms] have "?c \<in> set (pm_modes m)"
    and mode: "mask_mode (pm_currentMask m) = engine_served ?c"
    by (simp_all add: pm_inv_def)
  moreover have "mode_String (engine_served ?c) = GetMaskForMode ?c \<longleftrightarrow> 0 \<le> ?c \<and> ?c \<le> 9"
  proof (cases "?c \<in> {0 .. 11}")
    case True
    then have "?c \<in> {0, 1, 2, 3, 4, 5, 6, 7, 8, 9, 10, 11}" by (simp, presburger)
    then show ?thesis
      by (elim insertE emptyE)
        (simp_all add: engine_served_def mode_String_def GetMaskForMode_def Engine_mode_String_def)
  next
    case False
    then show ?thesis
      by (auto simp: engine_served_def mode_String_def GetMaskForMode_def Engine_mode_String_def)
  qed
  ultimately show ?thesis by (simp add: masker_id)
qed

lemma engine_mixer_is_in_its_mode_witness:
  "\<exists>m :: ProtocolMixer. pm_modes m = [ModeMinecraft] \<and> Masker_ID (pm_currentMask m) = ''vk''"
proof -
  obtain m e1 where m: "NewProtocolMixer env0 = Ok (m, e1)" using NewProtocolMixer_inv by blast
  obtain mk t e2 where s: "PM_SetModes [ModeMinecraft] m e1 =
      Ok (m\<lparr>pm_modes := [ModeMinecraft], pm_currentMode := ModeMinecraft, pm_currentMask := mk,
        pm_lastSwitch := t\<rparr>, e2)"
    using PM_become_ok [of ModeMinecraft "m\<lparr>pm_modes := [ModeMinecraft]\<rparr>" e1]
    by (auto simp: PM_SetModes_def)
  have "Masker_ID mk = ''vk''"
    using engine_mixer_is_in_its_mode [OF pm_reach.modes [OF pm_reach.new [OF m] s]]
    by (simp add: engine_served_def mode_String_def)
  then show ?thesis
    by (auto intro!: exI [of _ "m\<lparr>pm_modes := [ModeMinecraft], pm_currentMask := mk\<rparr>"])
qed

section \<open>The encrypting pipeline\<close>

text \<open>C26: What the shredder writes of the data it reads are packets, each opened by its cipher to a
  non-empty piece, and the pieces one after the other are the data; it ends with the error
  of its reader.\<close>

theorem shredded_data_is_recovered:
  assumes "NewAEADCipher key = Ok c" and "clock_ok (clk e)" and "k_budget k = None"
    and "\<forall>d\<in>set ds. length d \<le> 65536"
  shows "\<exists>s1 e1 k1 cts ps. Shred ds err (NewShredder sid c) e k = Some (Ok (err, s1, e1, k1)) \<and>
    k_out k1 = k_out k @ cts \<and> map (Aead_Decrypt c) cts = map Ok ps \<and>
    concat ps = concat ds \<and> [] \<notin> set ps"
proof -
  have "sh_cipher (NewShredder sid c) = c" by (simp add: NewShredder_def)
  with Shred_sealed [OF NewShredder_inv [OF assms(2)] assms(3,4), of err sid c] show ?thesis
    by (auto simp: sealed_def)
qed

lemma shredded_data_is_recovered_witness:
  "\<exists>c s1 e1 k1 cts ps. NewAEADCipher (replicate 32 7) = Ok c \<and>
    Shred [[1, 2, 3], replicate 600 4] IoEOF (NewShredder 5 c) env0 sink0 = Some (Ok (IoEOF, s1, e1, k1)) \<and>
    k_out k1 = cts \<and> map (Aead_Decrypt c) cts = map Ok ps \<and> concat ps = [1, 2, 3] @ replicate 600 4"
proof -
  obtain c where c: "NewAEADCipher (replicate 32 7) = Ok c"
    by (simp add: NewAEADCipher_def aes_key_ok_def)
  from shredded_data_is_recovered [OF c, of env0 sink0 "[[1, 2, 3], replicate 600 4]" IoEOF 5]
  obtain s1 e1 k1 cts ps where
    "Shred [[1, 2, 3], replicate 600 4] IoEOF (NewShredder 5 c) env0 sink0 = Some (Ok (IoEOF, s1, e1, k1))"
    "k_out k1 = k_out sink0 @ cts" "map (Aead_Decrypt c) cts = map Ok ps"
    "concat ps = concat [[1, 2, 3], replicate 600 4]"
    by (auto simp: env0_def clock_ok_def sink0_def)
  moreover have "k_out sink0 = []" by (simp add: sink0_def)
  ultimately show ?thesis using c by (auto simp del: Shred.simps concat.simps simp: concat.simps(2))
qed

section \<open>Cover traffic in the tunnel\<close>

lemma heartbeat_request_is_ip:
  assumes "sendAPIRequest e = Ok (d, e1)"
  shows "is_ip d \<and> length d < 300"
  using sendAPIRequest_ok [of e] assms
  by (auto simp: is_ip_def ip_version_def marker_def crlf_def)

text \<open>The heartbeat that imitates a request begins with the letter G, whose upper half is 4: sent
  through an open tunnel it comes out of the server's TUN device as if it were an IPv4
  packet. The other heartbeats are not taken for IP packets.\<close>

theorem heartbeat_request_reaches_the_tun:
  assumes "tunnel_up md c k sv" and "md \<in> plain_modes" and "sv_tun sv = Some out"
    and "sendAPIRequest e = Ok (d, e1)"
  shows "\<exists>c1 ec1. Send d c ec = Ok (Ok (), c1, ec1) \<and>
    (is_fin (last (cl_sent c1)) \<or>
     (\<exists>sv1 es1. handle_packet k (last (cl_sent c1)) sv es = Some (Ok (sv1, es1)) \<and>
       sv_tun sv1 = Some (out @ [d]))) \<and>
    \<not> is_ip sendPing \<and> \<not> is_ip sendKeepAlive \<and> (\<forall>m e2. sendMetrics e = Ok (m, e2) \<longrightarrow> \<not> is_ip m)"
proof -
  from heartbeat_request_is_ip [OF assms(4)] have d: "is_ip d" "mode_carries md d"
    by (auto simp: mode_carries_def len16_def len32_def)
  have "\<not> is_ip m" if "sendMetrics e = Ok (m, e2)" for m e2
    using sendMetrics_ok [of e] that by (auto simp: is_ip_def ip_version_def)
  moreover have "\<not> is_ip sendPing" "\<not> is_ip sendKeepAlive"
    by (simp_all add: is_ip_def sendPing_def sendKeepAlive_def marker_def)
  ultimately show ?thesis
    using send_one [OF assms(1,2) d(2,1), of ec es] assms(3) by auto
qed

lemma heartbeat_request_reaches_the_tun_witness:
  "\<exists>d e1 c1 ec1. sendAPIRequest env0 = Ok (d, e1) \<and> Send d client1 env0 = Ok (Ok (), c1, ec1)"
proof -
  obtain d e1 where d: "sendAPIRequest env0 = Ok (d, e1)" using sendAPIRequest_ok by blast
  from heartbeat_request_reaches_the_tun [OF client1_up _ _ d, of _ env0 env0] d show ?thesis
    by (auto simp: plain_modes_def codec_modes_def)
qed

end
