(* ===== verification/Transport.thy ===== *)
theory Transport
  imports Ciphers Shaping "HOL-Library.AList"
begin

text \<open>
  Package transport: the configuration of \<open>config.go\<close>, the dialer of \<open>dialer.go\<close> and the
  outbound connection of \<open>outbound.go\<close>. What the operating system and the KCP library answer
  to a dial is an argument, and a connection is a number. Of the configuration, the fields
  that some code of the repository reads or defaults are kept.
\<close>

section \<open>Configuration\<close>

record Config =
  ServerAddr :: string
  ListenAddr :: string
  Mode :: string
  Protocol :: string
  SecretKey :: bytes
  Cipher :: string
  MTU :: int
  PaddingMin :: int
  PaddingMax :: int
  JitterMeanMs :: int
  SessionTimeout :: int
  MaxSessions :: int
  FragmentMin :: int
  FragmentMax :: int
  DNSServer :: string
  TLSSNI :: string
  ReliableUDP :: bool
  MaxCwnd :: int
  WindowSize :: int
  ReadBuffer :: int
  WriteBuffer :: int

definition DefaultConfig :: Config where
  "DefaultConfig =
     \<lparr>ServerAddr = '''', ListenAddr = '':8443'', Mode = ''udp'', Protocol = ''udp'', SecretKey = [],
      Cipher = ''aes-256-gcm'', MTU = 1350, PaddingMin = 16, PaddingMax = 64, JitterMeanMs = 5,
      SessionTimeout = 300, MaxSessions = 1000, FragmentMin = 32, FragmentMax = 288,
      DNSServer = ''8.8.8.8'', TLSSNI = ''www.google.com'', ReliableUDP = True, MaxCwnd = 65535,
      WindowSize = 0, ReadBuffer = 0, WriteBuffer = 0\<rparr>"

definition or_int :: "int \<Rightarrow> int \<Rightarrow> int" where
  "or_int x dflt = (if x = 0 then dflt else x)"

definition or_string :: "string \<Rightarrow> string \<Rightarrow> string" where
  "or_string x dflt = (if x = [] then dflt else x)"

text \<open>The argument is the outcome of reading the file and unmarshalling it.\<close>

definition LoadConfig :: "Config result \<Rightarrow> Config result" where
  "LoadConfig parsed = bindR parsed (\<lambda>c.
     Ok (c\<lparr>MTU := or_int (MTU c) 1350, Cipher := or_string (Cipher c) ''aes-256-gcm'',
           SessionTimeout := or_int (SessionTimeout c) 300,
           MaxSessions := or_int (MaxSessions c) 1000,
           FragmentMin := or_int (FragmentMin c) 32, FragmentMax := or_int (FragmentMax c) 288,
           PaddingMin := or_int (PaddingMin c) 16, PaddingMax := or_int (PaddingMax c) 64,
           JitterMeanMs := or_int (JitterMeanMs c) 5,
           DNSServer := or_string (DNSServer c) ''8.8.8.8'',
           TLSSNI := or_string (TLSSNI c) ''www.google.com'',
           MaxCwnd := or_int (MaxCwnd c) 65535\<rparr>))"

text \<open>The check also corrects the protocol.\<close>

definition Validate :: "Config \<Rightarrow> unit result \<times> Config" where
  "Validate c =
     (if ListenAddr c = [] \<and> ServerAddr c = [] then (Fail ErrMissingAddress, c)
      else if MTU c < 576 \<or> 9000 < MTU c then (Fail ErrInvalidMTU, c)
      else if FragmentMin c < 32 \<or> 1500 < FragmentMin c then (Fail ErrInvalidFragmentMin, c)
      else if FragmentMax c < FragmentMin c \<or> 1500 < FragmentMax c
      then (Fail ErrInvalidFragmentMax, c)
      else if ReliableUDP c \<and> Protocol c = ''tcp'' then (Ok (), c\<lparr>Protocol := ''udp''\<rparr>)
      else (Ok (), c))"

definition GetSecretKey :: "Config \<Rightarrow> bytes" where
  "GetSecretKey c = SecretKey c"

lemma Validate_not_Panic: "fst (Validate c) \<noteq> Panic"
  by (simp add: Validate_def)

lemma Validate_Ok_iff:
  "fst (Validate c) = Ok () \<longleftrightarrow>
     (ListenAddr c \<noteq> [] \<or> ServerAddr c \<noteq> []) \<and> 576 \<le> MTU c \<and> MTU c \<le> 9000 \<and>
     32 \<le> FragmentMin c \<and> FragmentMin c \<le> FragmentMax c \<and> FragmentMax c \<le> 1500"
  by (auto simp: Validate_def)

text \<open>A fragmentor with the two bounds of a configuration, at its first packet.\<close>

lemma fragmentor_first_packet:
  assumes "clock_ok c" and "0 < mn" and "mn \<le> mx"
  shows "mn = mx \<longleftrightarrow> Fragment (NewFragmentor mn mx, c) data = Some Panic"
proof (cases "mn = mx")
  case True
  have "30 * second < now c - zero_time" using clock_ok_now [OF assms(1)] by (simp add: zero_time_def)
  with True show ?thesis
    by (simp add: Fragment_def rotateIfNeeded_def NewFragmentor_def go_rem_def)
next
  case False
  with assms have "frag_inv (NewFragmentor mn mx, c)" by (intro frag_inv_New) auto
  from Fragment_inv [OF this, of data] False show ?thesis by auto
qed

section \<open>Dialer\<close>

record Dialer =
  dl_connections :: "(string \<times> nat) list"
  dl_closed :: "nat set"

definition NewDialer :: Dialer where
  "NewDialer = \<lparr>dl_connections = [], dl_closed = {}\<rparr>"

definition dial_key :: "string \<Rightarrow> string \<Rightarrow> string" where
  "dial_key network address = network @ '':'' @ address"

text \<open>\<open>net.DialTimeout\<close> gives a connection or an error.\<close>

definition Dial :: "nat result \<Rightarrow> string \<Rightarrow> string \<Rightarrow> Dialer \<Rightarrow> nat result \<times> Dialer" where
  "Dial dialled network address d =
     (case map_of (dl_connections d) (dial_key network address) of
        Some conn \<Rightarrow> (Ok conn, d)
      | None \<Rightarrow>
          (case dialled of
             Ok conn \<Rightarrow>
               (Ok conn,
                d\<lparr>dl_connections := AList.update (dial_key network address) conn (dl_connections d)\<rparr>)
           | Fail e \<Rightarrow> (Fail e, d)
           | Panic \<Rightarrow> (Panic, d)))"

definition Dialer_Close :: "string \<Rightarrow> Dialer \<Rightarrow> Dialer" where
  "Dialer_Close address d =
     (case map_of (dl_connections d) address of
        Some conn \<Rightarrow> d\<lparr>dl_connections := AList.delete address (dl_connections d),
                        dl_closed := insert conn (dl_closed d)\<rparr>
      | None \<Rightarrow> d)"

definition CloseAll :: "Dialer \<Rightarrow> Dialer" where
  "CloseAll d = d\<lparr>dl_connections := [], dl_closed := snd ` set (dl_connections d) \<union> dl_closed d\<rparr>"

lemma dial_key_not_address: "dial_key n a \<noteq> a"
proof
  assume "dial_key n a = a"
  then have "length (dial_key n a) = length a" by simp
  then show False by (simp add: dial_key_def)
qed

section \<open>Outbound connection\<close>

text \<open>
  \<open>conn\<close> and \<open>packetConn\<close> are set together by a connection over UDP, \<open>conn\<close> alone over TCP.
  \<open>Connect\<close> of a reliable connection starts the goroutine that empties the write channel.
\<close>

record Outbound =
  ob_config :: Config
  ob_cipher :: AEADCipher
  ob_conn :: "nat option"
  ob_packetConn :: "nat option"
  ob_writeCh :: "bytes list"
  ob_closeCh :: bool
  ob_writing :: bool
  ob_sent :: "(nat \<times> bytes) list"

definition NewOutbound :: "Config \<Rightarrow> Outbound result" where
  "NewOutbound config = bindR (NewAEADCipher (SecretKey config)) (\<lambda>c.
     Ok \<lparr>ob_config = config, ob_cipher = c, ob_conn = None, ob_packetConn = None, ob_writeCh = [],
         ob_closeCh = False, ob_writing = False, ob_sent = []\<rparr>)"

definition connectTCP :: "nat result \<Rightarrow> Outbound \<Rightarrow> unit result \<times> Outbound" where
  "connectTCP dialled ob =
     (case dialled of Ok c \<Rightarrow> (Ok (), ob\<lparr>ob_conn := Some c\<rparr>) | Fail e \<Rightarrow> (Fail e, ob) | Panic \<Rightarrow> (Panic, ob))"

definition connectUDP :: "nat result \<Rightarrow> Outbound \<Rightarrow> unit result \<times> Outbound" where
  "connectUDP dialled ob =
     (case dialled of
        Ok c \<Rightarrow> (Ok (), ob\<lparr>ob_packetConn := Some c, ob_conn := Some c\<rparr>)
      | Fail e \<Rightarrow> (Fail e, ob) | Panic \<Rightarrow> (Panic, ob))"

definition connectReliableUDP :: "nat result \<Rightarrow> Outbound \<Rightarrow> unit result \<times> Outbound" where
  "connectReliableUDP dialled ob =
     (case dialled of
        Ok c \<Rightarrow> (Ok (), ob\<lparr>ob_packetConn := Some c, ob_conn := Some c, ob_writing := True\<rparr>)
      | Fail e \<Rightarrow> (Fail e, ob) | Panic \<Rightarrow> (Panic, ob))"

definition Connect :: "nat result \<Rightarrow> Outbound \<Rightarrow> unit result \<times> Outbound" where
  "Connect dialled ob =
     (if ReliableUDP (ob_config ob) then connectReliableUDP dialled ob
      else if Protocol (ob_config ob) = ''udp'' then connectUDP dialled ob
      else connectTCP dialled ob)"

text \<open>\<open>wrote\<close> is what the connection's own \<open>Write\<close> returns. A full channel drops the data.\<close>

definition Outbound_Write :: "int result \<Rightarrow> bytes \<Rightarrow> Outbound \<Rightarrow> int result \<times> Outbound" where
  "Outbound_Write wrote data ob =
     (case ob_conn ob of
        Some c \<Rightarrow> (wrote, if is_ok wrote then ob\<lparr>ob_sent := ob_sent ob @ [(c, data)]\<rparr> else ob)
      | None \<Rightarrow>
          (case ob_packetConn ob of
             Some c \<Rightarrow>
               (if length (ob_writeCh ob) < 5000
                then (Ok (int (length data)), ob\<lparr>ob_writeCh := ob_writeCh ob @ [data]\<rparr>)
                else (Ok 0, ob))
           | None \<Rightarrow> (Fail NetClosed, ob)))"

text \<open>A round of \<open>writeLoop\<close> that takes from the channel.\<close>

definition write_round :: "unit result \<Rightarrow> Outbound \<Rightarrow> Outbound" where
  "write_round wrote ob =
     (case ob_writeCh ob of
        [] \<Rightarrow> ob
      | data # q \<Rightarrow>
          (let ob1 = ob\<lparr>ob_writeCh := q\<rparr> in
           case ob_packetConn ob of
             Some c \<Rightarrow> if is_ok wrote then ob1\<lparr>ob_sent := ob_sent ob @ [(c, data)]\<rparr> else ob1
           | None \<Rightarrow> ob1))"

definition Outbound_Close :: "Outbound \<Rightarrow> Outbound result" where
  "Outbound_Close ob =
     (if ob_closeCh ob then Panic else Ok (ob\<lparr>ob_closeCh := True, ob_writing := False\<rparr>))"

definition Outbound_Conn :: "Outbound \<Rightarrow> nat option" where
  "Outbound_Conn ob = (case ob_conn ob of Some c \<Rightarrow> Some c | None \<Rightarrow> ob_packetConn ob)"

text \<open>The write channel is never used: the connection is always there when the other is.\<close>

definition outbound_inv :: "Outbound \<Rightarrow> bool" where
  "outbound_inv ob \<longleftrightarrow> ob_writeCh ob = [] \<and> (ob_conn ob = None \<longrightarrow> ob_packetConn ob = None) \<and>
     (ob_packetConn ob \<noteq> None \<longrightarrow> ob_packetConn ob = ob_conn ob)"

inductive outbound_reach :: "Outbound \<Rightarrow> bool" where
  new: "NewOutbound config = Ok ob \<Longrightarrow> outbound_reach ob"
| connect: "outbound_reach ob \<Longrightarrow> ob_conn ob = None \<Longrightarrow> outbound_reach (snd (Connect dialled ob))"
| send: "outbound_reach ob \<Longrightarrow> outbound_reach (snd (Outbound_Write wrote data ob))"
| round: "outbound_reach ob \<Longrightarrow> ob_writing ob \<Longrightarrow> outbound_reach (write_round wrote ob)"
| close: "outbound_reach ob \<Longrightarrow> Outbound_Close ob = Ok ob1 \<Longrightarrow> outbound_reach ob1"

lemma outbound_reach_inv: "outbound_reach ob \<Longrightarrow> outbound_inv ob"
proof (induction rule: outbound_reach.induct)
  case (new config ob)
  then show ?case by (auto simp: NewOutbound_def bindR_eq_Ok outbound_inv_def)
next
  case (connect ob dialled)
  then show ?case
    by (auto simp: Connect_def connectTCP_def connectUDP_def connectReliableUDP_def outbound_inv_def
        split: result.splits)
next
  case (send ob wrote data)
  then show ?case by (auto simp: Outbound_Write_def outbound_inv_def split: option.splits)
next
  case (round ob wrote)
  then have "ob_writeCh ob = []" by (simp only: outbound_inv_def)
  then have "write_round wrote ob = ob" by (simp add: write_round_def)
  with round show ?case by simp
next
  case (close ob ob1)
  then show ?case by (auto simp: Outbound_Close_def outbound_inv_def split: if_splits)
qed

end
