(* ===== verification/Inbound.thy ===== *)
theory Inbound
  imports Transport "HOL-Library.AList"
begin

text \<open>
  The inbound side of package transport, \<open>internal/transport/inbound.go\<close>: the loop that
  answers a connection by itself, and raw UDP. All packets are read into one buffer, and what
  is queued for a connection is a slice of that buffer, so the buffer is state and a queue
  holds the bounds of slices. Sockets are outside; a remote address is a string.
\<close>

section \<open>The loop that answers\<close>

datatype inbound_event = InData bytes | InError

text \<open>
  One connection of \<open>handleConnection\<close>: what it writes, and the count of the session. A read
  is at most the buffer of 65536 bytes.
\<close>

fun inbound_loop ::
  "AEADCipher \<Rightarrow> inbound_event list \<Rightarrow> u64 \<Rightarrow> env \<Rightarrow> bytes list \<Rightarrow> (bytes list \<times> u64 \<times> env) result" where
  "inbound_loop c [] n e out = Ok (out, n, e)"
| "inbound_loop c (InError # evs) n e out = Ok (out, n, e)"
| "inbound_loop c (InData data # evs) n e out =
     (let buf = take 65536 data in
      if buf = [0] then inbound_loop c evs n e out
      else case Aead_Decrypt c buf of
        Panic \<Rightarrow> Panic
      | Fail _ \<Rightarrow> inbound_loop c evs n e out
      | Ok decrypted \<Rightarrow>
          let n1 = n + of_nat (length decrypted) in
          case Aead_Encrypt c decrypted e of
            (Panic, e1) \<Rightarrow> Panic
          | (Fail _, e1) \<Rightarrow> inbound_loop c evs n1 e1 (out @ [decrypted])
          | (Ok encrypted, e1) \<Rightarrow> inbound_loop c evs n1 e1 (out @ [encrypted]))"

text \<open>What is answered: the plaintexts of the packets that the cipher opens.\<close>

fun answered :: "AEADCipher \<Rightarrow> inbound_event list \<Rightarrow> bytes list" where
  "answered c [] = []"
| "answered c (InError # evs) = []"
| "answered c (InData data # evs) =
     (case Aead_Decrypt c (take 65536 data) of Ok p \<Rightarrow> p # answered c evs | _ \<Rightarrow> answered c evs)"

lemma Aead_Decrypt_not_Panic: "Aead_Decrypt c ct \<noteq> Panic"
  by (auto simp: Aead_Decrypt_def gcm_open_not_Panic)

lemma Aead_Decrypt_shrinks: "Aead_Decrypt c ct = Ok p \<Longrightarrow> length p + 28 = length ct"
  by (auto simp: Aead_Decrypt_iff dest: gcm_seal_length)

lemma inbound_loop_answers:
  "\<exists>cts n1 e1. inbound_loop c evs n e out = Ok (out @ cts, n1, e1) \<and>
     map (Aead_Decrypt c) cts = map Ok (answered c evs)"
proof (induction c evs n e out rule: inbound_loop.induct)
  case (3 c data evs n e out)
  let ?buf = "take 65536 data"
  show ?case
  proof (cases "Aead_Decrypt c ?buf")
    case (Ok p)
    have len: "int (length p) \<le> gcm_max"
      using Aead_Decrypt_shrinks [OF Ok] by (simp add: gcm_max_def)
    have ne: "?buf \<noteq> [0]"
    proof
      assume "?buf = [0]"
      with Aead_Decrypt_shrinks [OF Ok] show False by (simp only:) simp
    qed
    from Aead_Encrypt_ok [OF len, of c e] obtain ct e1 where ct:
      "Aead_Encrypt c p e = (Ok ct, e1)" "Aead_Decrypt c ct = Ok p"
      by (metis prod.collapse)
    from "3.IH"(2) [OF refl ne Ok refl ct(1) [symmetric] refl] obtain cts n1 e2 where
      "inbound_loop c evs (n + of_nat (length p)) e1 (out @ [ct]) = Ok ((out @ [ct]) @ cts, n1, e2)"
      "map (Aead_Decrypt c) cts = map Ok (answered c evs)"
      using ct by auto
    with Ok ne ct show ?thesis by (auto simp: Let_def)
  next
    case (Fail err)
    then show ?thesis using "3.IH"(1,4) by (auto simp: Let_def)
  next
    case Panic
    with Aead_Decrypt_not_Panic show ?thesis by blast
  qed
qed auto

section \<open>Listening\<close>

text \<open>
  \<open>Start\<close> listens in one way, and starts a loop that accepts in that way. \<open>Accept\<close>, which
  the server calls, takes from the same listener.
\<close>

datatype listening = ByKCP | ByTCP | ByUDP

record Inbound =
  in_config :: Config
  in_cipher :: AEADCipher
  in_listening :: "listening option"

definition NewInbound :: "Config \<Rightarrow> Inbound result" where
  "NewInbound config = bindR (NewAEADCipher (SecretKey config)) (\<lambda>c.
     Ok \<lparr>in_config = config, in_cipher = c, in_listening = None\<rparr>)"

definition Inbound_Start :: "unit result \<Rightarrow> Inbound \<Rightarrow> unit result \<times> Inbound" where
  "Inbound_Start listen i =
     (let by = (if ReliableUDP (in_config i) then ByKCP
                else if Mode (in_config i) = ''udp'' then ByUDP else ByTCP) in
      if is_ok listen then (listen, i\<lparr>in_listening := Some by\<rparr>) else (listen, i))"

definition Accept_from :: "Inbound \<Rightarrow> listening result" where
  "Accept_from i = (case in_listening i of Some by \<Rightarrow> Ok by | None \<Rightarrow> Fail NetClosed)"

section \<open>Raw UDP\<close>

text \<open>
  The one buffer of \<open>packetLoop\<close>; the wrappers, each with a channel of at most 5000 slices;
  the map from a remote address to its wrapper; and the connections handed out, each with the
  slice it still has to give. Wrappers and connections are numbered in the order in which they
  are made, so that the map, the connections and the goroutines share them. A slice is its
  offset and its length in the buffer.
\<close>

record UDPConnWrapper =
  w_remoteAddr :: string
  w_readChan :: "(nat \<times> nat) list"
  w_closed :: bool

record UDPConn =
  u_wrapper :: nat
  u_remoteAddr :: string
  u_readData :: "(nat \<times> nat) option"
  u_closed :: bool

record udp_inbound =
  ui_buf :: bytes
  ui_wrappers :: "UDPConnWrapper list"
  ui_udpConns :: "(string \<times> nat) list"
  ui_conns :: "UDPConn list"

definition startUDP :: udp_inbound where
  "startUDP = \<lparr>ui_buf = make_buf 65536, ui_wrappers = [], ui_udpConns = [], ui_conns = []\<rparr>"

definition slice_of :: "bytes \<Rightarrow> nat \<times> nat \<Rightarrow> bytes" where
  "slice_of buf s = take (snd s) (drop (fst s) buf)"

definition set_wrapper :: "nat \<Rightarrow> UDPConnWrapper \<Rightarrow> udp_inbound \<Rightarrow> udp_inbound" where
  "set_wrapper w x ui = ui\<lparr>ui_wrappers := (ui_wrappers ui)[w := x]\<rparr>"

text \<open>\<open>ReadFrom\<close> fills the buffer from its start and cuts a longer datagram.\<close>

definition ReadFrom :: "bytes \<Rightarrow> udp_inbound \<Rightarrow> udp_inbound" where
  "ReadFrom datagram ui =
     ui\<lparr>ui_buf := splice 0 (take (length (ui_buf ui)) datagram) (ui_buf ui)\<rparr>"

text \<open>
  The goroutine \<open>handlePacket\<close> looks for the wrapper under one lock, makes one under another
  if there was none, and sends to its channel under none: three steps, between which other
  goroutines run. Sending on a closed channel panics, also in a \<open>select\<close>; a full one drops.
\<close>

definition find_wrapper :: "string \<Rightarrow> udp_inbound \<Rightarrow> nat option" where
  "find_wrapper addr ui = map_of (ui_udpConns ui) addr"

definition make_wrapper :: "string \<Rightarrow> nat option \<Rightarrow> udp_inbound \<Rightarrow> nat \<times> udp_inbound" where
  "make_wrapper addr found ui =
     (case found of
        Some w \<Rightarrow> (w, ui)
      | None \<Rightarrow>
          (length (ui_wrappers ui),
           ui\<lparr>ui_wrappers := ui_wrappers ui @ [\<lparr>w_remoteAddr = addr, w_readChan = [], w_closed = False\<rparr>],
              ui_udpConns := AList.update addr (length (ui_wrappers ui)) (ui_udpConns ui)\<rparr>))"

definition deliver :: "nat \<Rightarrow> nat \<times> nat \<Rightarrow> udp_inbound \<Rightarrow> udp_inbound result" where
  "deliver w data ui =
     (let x = ui_wrappers ui ! w in
      if w_closed x then Panic
      else if length (w_readChan x) < 5000
      then Ok (set_wrapper w (x\<lparr>w_readChan := w_readChan x @ [data]\<rparr>) ui)
      else Ok ui)"

definition handlePacket :: "string \<Rightarrow> nat \<times> nat \<Rightarrow> udp_inbound \<Rightarrow> udp_inbound result" where
  "handlePacket addr data ui =
     (let (w, ui1) = make_wrapper addr (find_wrapper addr ui) ui in deliver w data ui1)"

text \<open>One round of \<open>packetLoop\<close>, its goroutine run to the end.\<close>

definition packet_arrives :: "string \<Rightarrow> bytes \<Rightarrow> udp_inbound \<Rightarrow> udp_inbound result" where
  "packet_arrives addr datagram ui =
     handlePacket addr (0, length (take (length (ui_buf ui)) datagram)) (ReadFrom datagram ui)"

text \<open>
  \<open>acceptUDP\<close> takes a slice from some channel of the map that has one: \<open>addr\<close> is the choice the
  iteration of the map makes. The number of the connection is returned.
\<close>

definition acceptUDP :: "string \<Rightarrow> udp_inbound \<Rightarrow> (nat \<times> udp_inbound) option" where
  "acceptUDP addr ui =
     (case find_wrapper addr ui of
        None \<Rightarrow> None
      | Some w \<Rightarrow>
          (let x = ui_wrappers ui ! w in
           case w_readChan x of
             [] \<Rightarrow> None
           | data # q \<Rightarrow>
               Some (length (ui_conns ui),
                 (set_wrapper w (x\<lparr>w_readChan := q\<rparr>) ui)\<lparr>ui_conns := ui_conns ui @
                   [\<lparr>u_wrapper = w, u_remoteAddr = w_remoteAddr x, u_readData = Some data,
                     u_closed = False\<rparr>]\<rparr>)))"

text \<open>
  \<open>Read\<close> into a buffer of \<open>n\<close> bytes; it blocks (\<open>None\<close>) on an empty open channel. What is
  left of the slice the connection was made with, or kept from before, is dropped; what is
  left of a queued one is kept.
\<close>

definition UDPConn_Read :: "nat \<Rightarrow> nat \<Rightarrow> udp_inbound \<Rightarrow> (bytes result \<times> udp_inbound) option" where
  "UDPConn_Read k n ui =
     (let u = ui_conns ui ! k in
      if u_closed u then Some (Fail NetClosed, ui)
      else case u_readData u of
        Some s \<Rightarrow>
          Some (Ok (take n (slice_of (ui_buf ui) s)),
                ui\<lparr>ui_conns := (ui_conns ui)[k := u\<lparr>u_readData := None\<rparr>]\<rparr>)
      | None \<Rightarrow>
          (let x = ui_wrappers ui ! u_wrapper u in
           case w_readChan x of
             s # q \<Rightarrow>
               (let ui1 = set_wrapper (u_wrapper u) (x\<lparr>w_readChan := q\<rparr>) ui in
                Some (Ok (take n (slice_of (ui_buf ui) s)),
                  if n < snd s
                  then ui1\<lparr>ui_conns := (ui_conns ui)[k :=
                         u\<lparr>u_readData := Some (fst s + n, snd s - n)\<rparr>]\<rparr>
                  else ui1))
           | [] \<Rightarrow> if w_closed x then Some (Fail NetClosed, ui) else None))"

text \<open>\<open>wrote\<close> is what the socket's \<open>WriteTo\<close> returns.\<close>

definition UDPConn_Write :: "int result \<Rightarrow> nat \<Rightarrow> udp_inbound \<Rightarrow> int result" where
  "UDPConn_Write wrote k ui = (if u_closed (ui_conns ui ! k) then Fail NetClosed else wrote)"

definition UDPConn_Close :: "nat \<Rightarrow> udp_inbound \<Rightarrow> udp_inbound" where
  "UDPConn_Close k ui =
     ui\<lparr>ui_conns := (ui_conns ui)[k := (ui_conns ui ! k)\<lparr>u_closed := True\<rparr>]\<rparr>"

text \<open>\<open>Stop\<close> closes the channel of each wrapper of the map; closing a closed one panics.\<close>

fun close_wrappers :: "nat list \<Rightarrow> udp_inbound \<Rightarrow> udp_inbound result" where
  "close_wrappers [] ui = Ok ui"
| "close_wrappers (w # ws) ui =
     (let x = ui_wrappers ui ! w in
      if w_closed x then Panic else close_wrappers ws (set_wrapper w (x\<lparr>w_closed := True\<rparr>) ui))"

definition Inbound_Stop :: "udp_inbound \<Rightarrow> udp_inbound result" where
  "Inbound_Stop ui =
     bindR (close_wrappers (map snd (ui_udpConns ui)) ui) (\<lambda>ui1. Ok (ui1\<lparr>ui_udpConns := []\<rparr>))"

section \<open>The map and the wrappers\<close>

text \<open>The wrappers of the map exist, are open, differ, and have the address they are kept under.\<close>

definition udp_inv :: "udp_inbound \<Rightarrow> bool" where
  "udp_inv ui \<longleftrightarrow> length (ui_buf ui) = 65536 \<and> distinct (map fst (ui_udpConns ui)) \<and>
     distinct (map snd (ui_udpConns ui)) \<and>
     (\<forall>(addr, w)\<in>set (ui_udpConns ui). w < length (ui_wrappers ui) \<and>
        \<not> w_closed (ui_wrappers ui ! w) \<and> w_remoteAddr (ui_wrappers ui ! w) = addr) \<and>
     (\<forall>u\<in>set (ui_conns ui). u_wrapper u < length (ui_wrappers ui) \<and>
        u_remoteAddr u = w_remoteAddr (ui_wrappers ui ! u_wrapper u))"

lemma set_wrapper_simps [simp]:
  "ui_buf (set_wrapper w x ui) = ui_buf ui" "ui_udpConns (set_wrapper w x ui) = ui_udpConns ui"
  "ui_conns (set_wrapper w x ui) = ui_conns ui"
  "ui_wrappers (set_wrapper w x ui) = (ui_wrappers ui)[w := x]"
  by (simp_all add: set_wrapper_def)

lemma length_ReadFrom [simp]: "length (ui_buf (ReadFrom d ui)) = length (ui_buf ui)"
  by (simp add: ReadFrom_def splice_def)

lemma ReadFrom_simps [simp]:
  "ui_wrappers (ReadFrom d ui) = ui_wrappers ui" "ui_udpConns (ReadFrom d ui) = ui_udpConns ui"
  "ui_conns (ReadFrom d ui) = ui_conns ui"
  "length d \<le> length (ui_buf ui) \<Longrightarrow> ui_buf (ReadFrom d ui) = d @ drop (length d) (ui_buf ui)"
  by (simp_all add: ReadFrom_def splice_def)

text \<open>The wrapper of an address and what its channel holds, before it exists an empty one.\<close>

definition chan_of :: "string \<Rightarrow> udp_inbound \<Rightarrow> (nat \<times> nat) list" where
  "chan_of addr ui =
     (case find_wrapper addr ui of None \<Rightarrow> [] | Some w \<Rightarrow> w_readChan (ui_wrappers ui ! w))"

lemma udp_inv_find:
  "udp_inv ui \<Longrightarrow> find_wrapper addr ui = Some w \<Longrightarrow>
     w < length (ui_wrappers ui) \<and> \<not> w_closed (ui_wrappers ui ! w) \<and>
     w_remoteAddr (ui_wrappers ui ! w) = addr"
  by (auto simp: udp_inv_def find_wrapper_def dest: map_of_SomeD)

lemma nth_update_same: "f x = f (xs ! w) \<Longrightarrow> f (xs[w := x] ! i) = f (xs ! i)"
  by (cases "i = w"; cases "w < length xs") (auto simp: list_update_beyond)

lemma udp_inv_update:
  assumes "udp_inv ui" and "w_closed x = w_closed (ui_wrappers ui ! w)"
    and "w_remoteAddr x = w_remoteAddr (ui_wrappers ui ! w)"
  shows "udp_inv (set_wrapper w x ui)"
  using assms
  by (simp add: udp_inv_def nth_update_same [where f = w_closed] nth_update_same [where f = w_remoteAddr])

lemma udp_inv_start: "udp_inv startUDP"
  by (simp add: udp_inv_def startUDP_def)

lemma udp_inv_ReadFrom: "udp_inv ui \<Longrightarrow> udp_inv (ReadFrom d ui)"
  by (simp add: udp_inv_def)

lemma set_update_subset: "set (AList.update k v al) \<subseteq> insert (k, v) (set al)"
  by (induction al) auto

lemma distinct_update_fresh:
  "distinct (map snd al) \<Longrightarrow> n \<notin> set (map snd al) \<Longrightarrow> distinct (map snd (AList.update k n al))"
proof (induction al)
  case (Cons kv al)
  have "snd kv \<notin> set (map snd (AList.update k n al))"
    using Cons.prems set_update_subset [of k n al] by fastforce
  with Cons show ?case by (cases kv) auto
qed simp

lemma udp_inv_make_wrapper:
  assumes "udp_inv ui"
  shows "udp_inv (snd (make_wrapper addr found ui))"
proof (cases found)
  case None
  let ?n = "length (ui_wrappers ui)"
  have "?n \<notin> set (map snd (ui_udpConns ui))" using assms by (auto simp: udp_inv_def)
  then show ?thesis
    using assms None set_update_subset [of addr ?n "ui_udpConns ui"]
    by (fastforce simp: udp_inv_def make_wrapper_def distinct_update_fresh distinct_update nth_append)
qed (simp add: make_wrapper_def assms)

lemma udp_inv_deliver: "udp_inv ui \<Longrightarrow> deliver w data ui = Ok ui1 \<Longrightarrow> udp_inv ui1"
  by (auto simp: deliver_def Let_def udp_inv_update split: if_splits)

lemma make_wrapper_open:
  assumes "udp_inv ui" and "make_wrapper addr (find_wrapper addr ui) ui = (w, ui1)"
  shows "w < length (ui_wrappers ui1) \<and> \<not> w_closed (ui_wrappers ui1 ! w) \<and>
    find_wrapper addr ui1 = Some w \<and> w_readChan (ui_wrappers ui1 ! w) = chan_of addr ui \<and>
    ui_buf ui1 = ui_buf ui \<and> ui_conns ui1 = ui_conns ui"
  using assms udp_inv_find [OF assms(1)]
  by (auto simp: make_wrapper_def find_wrapper_def chan_of_def update_conv' split: option.splits)

lemma handlePacket_not_Panic: "udp_inv ui \<Longrightarrow> handlePacket addr data ui \<noteq> Panic"
proof -
  obtain w ui1 where w: "make_wrapper addr (find_wrapper addr ui) ui = (w, ui1)" by force
  assume "udp_inv ui"
  from make_wrapper_open [OF this w] w show ?thesis by (simp add: handlePacket_def deliver_def Let_def)
qed

lemma acceptUDP_inv:
  assumes "udp_inv ui" and "acceptUDP addr ui = Some (k, ui1)"
  shows "udp_inv ui1 \<and> k = length (ui_conns ui) \<and> length (ui_conns ui1) = Suc k"
proof -
  from assms(2) obtain w d q where w: "find_wrapper addr ui = Some w"
    "w_readChan (ui_wrappers ui ! w) = d # q" "k = length (ui_conns ui)"
    "ui1 = (set_wrapper w ((ui_wrappers ui ! w)\<lparr>w_readChan := q\<rparr>) ui)\<lparr>ui_conns := ui_conns ui @
       [\<lparr>u_wrapper = w, u_remoteAddr = w_remoteAddr (ui_wrappers ui ! w), u_readData = Some d,
         u_closed = False\<rparr>]\<rparr>"
    by (auto simp: acceptUDP_def Let_def split: option.splits list.splits)
  have "udp_inv (set_wrapper w ((ui_wrappers ui ! w)\<lparr>w_readChan := q\<rparr>) ui)"
    using assms(1) by (intro udp_inv_update) simp_all
  with w udp_inv_find [OF assms(1) w(1)] show ?thesis
    by (auto simp: udp_inv_def nth_list_update)
qed

lemma udp_inv_conn:
  assumes "udp_inv ui" and "u_wrapper u = u_wrapper (ui_conns ui ! k)"
    and "u_remoteAddr u = u_remoteAddr (ui_conns ui ! k)"
  shows "udp_inv (ui\<lparr>ui_conns := (ui_conns ui)[k := u]\<rparr>)"
proof (cases "k < length (ui_conns ui)")
  case True
  have P: "\<forall>c\<in>set (ui_conns ui). u_wrapper c < length (ui_wrappers ui) \<and>
      u_remoteAddr c = w_remoteAddr (ui_wrappers ui ! u_wrapper c)"
    using assms(1) by (simp add: udp_inv_def)
  with True assms(2,3) have "u_wrapper u < length (ui_wrappers ui) \<and>
      u_remoteAddr u = w_remoteAddr (ui_wrappers ui ! u_wrapper u)" by simp
  with P set_update_subset_insert [of "ui_conns ui" k u]
  have "\<forall>c\<in>set ((ui_conns ui)[k := u]). u_wrapper c < length (ui_wrappers ui) \<and>
      u_remoteAddr c = w_remoteAddr (ui_wrappers ui ! u_wrapper c)" by blast
  with assms(1) show ?thesis by (simp add: udp_inv_def)
qed (simp add: list_update_beyond assms)

lemma UDPConn_Read_inv:
  assumes "udp_inv ui" and "UDPConn_Read k n ui = Some (r, ui1)"
  shows "udp_inv ui1"
proof -
  have set: "udp_inv (set_wrapper w ((ui_wrappers ui ! w)\<lparr>w_readChan := q\<rparr>) ui)" for w q
    using assms(1) by (intro udp_inv_update) simp_all
  show ?thesis
    using assms(2) assms(1)
    by (auto simp: UDPConn_Read_def Let_def set udp_inv_conn udp_inv_conn [OF set, simplified]
        split: if_splits option.splits list.splits)
qed

lemma UDPConn_Close_inv: "udp_inv ui \<Longrightarrow> udp_inv (UDPConn_Close k ui)"
  unfolding UDPConn_Close_def by (rule udp_inv_conn) simp_all

lemma close_wrappers_ok:
  assumes "distinct ws" and "\<forall>w\<in>set ws. \<not> w_closed (ui_wrappers ui ! w) \<and> w < length (ui_wrappers ui)"
  shows "\<exists>ui1. close_wrappers ws ui = Ok ui1 \<and> ui_buf ui1 = ui_buf ui \<and> ui_conns ui1 = ui_conns ui \<and>
    length (ui_wrappers ui1) = length (ui_wrappers ui) \<and>
    (\<forall>w. w_remoteAddr (ui_wrappers ui1 ! w) = w_remoteAddr (ui_wrappers ui ! w)) \<and>
    (\<forall>w. w_closed (ui_wrappers ui1 ! w) \<longleftrightarrow> w_closed (ui_wrappers ui ! w) \<or> w \<in> set ws)"
  using assms
proof (induction ws arbitrary: ui)
  case (Cons w ws)
  let ?ui = "set_wrapper w ((ui_wrappers ui ! w)\<lparr>w_closed := True\<rparr>) ui"
  have "\<forall>v\<in>set ws. \<not> w_closed (ui_wrappers ?ui ! v) \<and> v < length (ui_wrappers ?ui)"
    using Cons.prems by (auto simp: nth_list_update)
  with Cons.IH [of ?ui] Cons.prems obtain ui1 where "close_wrappers ws ?ui = Ok ui1"
    "ui_buf ui1 = ui_buf ui" "ui_conns ui1 = ui_conns ui" "length (ui_wrappers ui1) = length (ui_wrappers ui)"
    "\<forall>v. w_remoteAddr (ui_wrappers ui1 ! v) = w_remoteAddr (ui_wrappers ?ui ! v)"
    "\<forall>v. w_closed (ui_wrappers ui1 ! v) \<longleftrightarrow> w_closed (ui_wrappers ?ui ! v) \<or> v \<in> set ws" by auto
  with Cons.prems show ?case
    by (intro exI [of _ ui1]) (auto simp: nth_list_update Let_def)
qed simp

lemma Inbound_Stop_ok:
  assumes "udp_inv ui"
  shows "\<exists>ui1. Inbound_Stop ui = Ok ui1 \<and> udp_inv ui1 \<and> ui_udpConns ui1 = [] \<and>
    (\<forall>addr w. find_wrapper addr ui = Some w \<longrightarrow> w_closed (ui_wrappers ui1 ! w))"
proof -
  have ws: "distinct (map snd (ui_udpConns ui))"
    "\<forall>w\<in>set (map snd (ui_udpConns ui)). \<not> w_closed (ui_wrappers ui ! w) \<and> w < length (ui_wrappers ui)"
    using assms by (auto simp: udp_inv_def)
  from close_wrappers_ok [OF ws] obtain ui1 where ui1: "close_wrappers (map snd (ui_udpConns ui)) ui = Ok ui1"
    "ui_buf ui1 = ui_buf ui" "ui_conns ui1 = ui_conns ui" "length (ui_wrappers ui1) = length (ui_wrappers ui)"
    "\<forall>w. w_remoteAddr (ui_wrappers ui1 ! w) = w_remoteAddr (ui_wrappers ui ! w)"
    "\<forall>w. w_closed (ui_wrappers ui1 ! w) \<longleftrightarrow> w_closed (ui_wrappers ui ! w) \<or> w \<in> set (map snd (ui_udpConns ui))"
    by blast
  have "udp_inv (ui1\<lparr>ui_udpConns := []\<rparr>)" using assms ui1 by (simp add: udp_inv_def)
  moreover have "find_wrapper addr ui = Some w \<Longrightarrow> w \<in> set (map snd (ui_udpConns ui))" for addr w
    by (force simp: find_wrapper_def dest: map_of_SomeD)
  ultimately show ?thesis using ui1 by (simp add: Inbound_Stop_def)
qed

section \<open>The goroutines of packets\<close>

text \<open>
  The goroutine of a packet before each of its three steps; a system of an inbound and such
  goroutines; its steps with those of whoever accepts, reads, closes and stops.
\<close>

datatype packet_goroutine =
    Looking string "nat \<times> nat"
  | Making string "nat option" "nat \<times> nat"
  | Sending nat "nat \<times> nat"

type_synonym udp_system = "udp_inbound \<times> packet_goroutine list"

inductive udp_step :: "udp_system \<Rightarrow> udp_system \<Rightarrow> bool" where
  arrive: "udp_step (ui, gs)
     (ReadFrom d ui, gs @ [Looking addr (0, length (take (length (ui_buf ui)) d))])"
| look: "udp_step (ui, gs @ Looking addr s # hs) (ui, gs @ Making addr (find_wrapper addr ui) s # hs)"
| make: "make_wrapper addr found ui = (w, ui1) \<Longrightarrow>
     udp_step (ui, gs @ Making addr found s # hs) (ui1, gs @ Sending w s # hs)"
| send: "deliver w s ui = Ok ui1 \<Longrightarrow> udp_step (ui, gs @ Sending w s # hs) (ui1, gs @ hs)"
| accept: "acceptUDP addr ui = Some (k, ui1) \<Longrightarrow> udp_step (ui, gs) (ui1, gs)"
| read: "UDPConn_Read k n ui = Some (r, ui1) \<Longrightarrow> udp_step (ui, gs) (ui1, gs)"
| close: "udp_step (ui, gs) (UDPConn_Close k ui, gs)"
| stop: "Inbound_Stop ui = Ok ui1 \<Longrightarrow> udp_step (ui, gs) (ui1, gs)"

inductive udp_reach :: "udp_system \<Rightarrow> bool" where
  start: "udp_reach (startUDP, [])"
| step: "udp_reach u \<Longrightarrow> udp_step u v \<Longrightarrow> udp_reach v"

lemma udp_step_inv: "udp_step u v \<Longrightarrow> udp_inv (fst u) \<Longrightarrow> udp_inv (fst v)"
proof (induction rule: udp_step.induct)
  case (make addr found ui w ui1 gs s hs)
  then show ?case using udp_inv_make_wrapper [of ui addr found] by simp
next
  case (stop ui ui1 gs)
  then show ?case using Inbound_Stop_ok [of ui] by auto
qed (auto intro: udp_inv_ReadFrom udp_inv_deliver UDPConn_Read_inv UDPConn_Close_inv dest: acceptUDP_inv)

lemma udp_reach_inv: "udp_reach u \<Longrightarrow> udp_inv (fst u)"
  by (induction rule: udp_reach.induct) (auto simp: udp_inv_start dest: udp_step_inv)

text \<open>What arrives from an address goes to the end of its channel, if that has room.\<close>

lemma packet_arrives_queue:
  assumes "udp_inv ui" and "length (chan_of addr ui) < 5000" and "length d \<le> 65536"
  shows "\<exists>ui1. packet_arrives addr d ui = Ok ui1 \<and> udp_inv ui1 \<and>
    ui_buf ui1 = d @ drop (length d) (ui_buf ui) \<and>
    chan_of addr ui1 = chan_of addr ui @ [(0, length d)] \<and> ui_conns ui1 = ui_conns ui \<and>
    (find_wrapper addr ui \<noteq> None \<longrightarrow> find_wrapper addr ui1 = find_wrapper addr ui) \<and>
    find_wrapper addr ui1 \<noteq> None"
proof -
  let ?r = "ReadFrom d ui"
  have len: "length (ui_buf ui) = 65536" using assms(1) by (simp add: udp_inv_def)
  have inv: "udp_inv ?r" using assms(1) by (rule udp_inv_ReadFrom)
  obtain w ui1 where w: "make_wrapper addr (find_wrapper addr ?r) ?r = (w, ui1)" by force
  have same: "find_wrapper addr ?r = find_wrapper addr ui" "chan_of addr ?r = chan_of addr ui"
    by (simp_all add: find_wrapper_def chan_of_def split: option.split)
  note o = make_wrapper_open [OF inv w, unfolded same]
  let ?x = "(ui_wrappers ui1 ! w)\<lparr>w_readChan := chan_of addr ui @ [(0, length d)]\<rparr>"
  have d: "deliver w (0, length d) ui1 = Ok (set_wrapper w ?x ui1)"
    using o assms(2) by (simp add: deliver_def)
  have "packet_arrives addr d ui = Ok (set_wrapper w ?x ui1)"
    using w d len assms(3) by (simp add: packet_arrives_def handlePacket_def)
  moreover have "udp_inv (set_wrapper w ?x ui1)"
    using udp_inv_make_wrapper [OF inv, of addr "find_wrapper addr ?r"] w by (intro udp_inv_update) simp_all
  moreover have "chan_of addr (set_wrapper w ?x ui1) = chan_of addr ui @ [(0, length d)]"
    using o by (simp add: chan_of_def find_wrapper_def)
  moreover have "find_wrapper addr ui \<noteq> None \<longrightarrow> w = the (find_wrapper addr ui)"
    using w same by (auto simp: make_wrapper_def)
  ultimately show ?thesis using o len assms(3) by (auto simp: find_wrapper_def)
qed

end
