(* ===== verification/TransportProperties.thy ===== *)
theory TransportProperties
  imports Inbound Samples
begin

text \<open>
  The properties of package transport: what the checks of a configuration are worth, which
  connections the dialer closes, what the answering loop answers, and what becomes of
  datagrams that share one buffer.
\<close>

section \<open>Configuration\<close>

text \<open>A configuration that is loaded and passes the check has an address, an MTU and fragment
  bounds in their ranges, whatever was left out of its file; but the check lets the two
  bounds be equal, and a fragmentor with those bounds divides by zero at its first packet.\<close>

theorem validated_bounds_can_panic:
  assumes "LoadConfig (Ok parsed) = Ok cfg" and "Validate cfg = (Ok (), cfg1)" and "clock_ok c"
  shows "(ListenAddr cfg1 \<noteq> [] \<or> ServerAddr cfg1 \<noteq> []) \<and> 576 \<le> MTU cfg1 \<and> MTU cfg1 \<le> 9000 \<and>
    32 \<le> FragmentMin cfg1 \<and> FragmentMin cfg1 \<le> FragmentMax cfg1 \<and> FragmentMax cfg1 \<le> 1500 \<and>
    \<not> (ReliableUDP cfg1 \<and> Protocol cfg1 = ''tcp'') \<and>
    (Fragment (NewFragmentor (FragmentMin cfg1) (FragmentMax cfg1), c) data = Some Panic \<longleftrightarrow>
      FragmentMin cfg1 = FragmentMax cfg1)"
proof -
  from assms(2) have same: "ListenAddr cfg1 = ListenAddr cfg" "ServerAddr cfg1 = ServerAddr cfg"
    "MTU cfg1 = MTU cfg" "FragmentMin cfg1 = FragmentMin cfg" "FragmentMax cfg1 = FragmentMax cfg"
    "\<not> (ReliableUDP cfg1 \<and> Protocol cfg1 = ''tcp'')"
    by (auto simp: Validate_def split: if_splits)
  from assms(2) Validate_Ok_iff [of cfg] have ok: "ListenAddr cfg \<noteq> [] \<or> ServerAddr cfg \<noteq> []"
    "576 \<le> MTU cfg" "MTU cfg \<le> 9000" "32 \<le> FragmentMin cfg" "FragmentMin cfg \<le> FragmentMax cfg"
    "FragmentMax cfg \<le> 1500"
    by simp_all
  with fragmentor_first_packet [OF assms(3), of "FragmentMin cfg" "FragmentMax cfg" data] same
  show ?thesis by simp
qed

lemma validated_bounds_can_panic_witness:
  "\<exists>cfg. LoadConfig (Ok (DefaultConfig\<lparr>MTU := 0, FragmentMax := 32\<rparr>)) = Ok cfg \<and>
    Fragment (NewFragmentor (FragmentMin cfg) (FragmentMax cfg), clk env0) [1, 2, 3] = Some Panic"
  using validated_bounds_can_panic [of "DefaultConfig\<lparr>MTU := 0, FragmentMax := 32\<rparr>"
      "DefaultConfig\<lparr>FragmentMax := 32\<rparr>" "DefaultConfig\<lparr>FragmentMax := 32\<rparr>" "clk env0" "[1, 2, 3]"]
  by (simp add: LoadConfig_def DefaultConfig_def or_int_def or_string_def Validate_def env0_def
      clock_ok_def)

section \<open>Dialer\<close>

text \<open>Connections are kept under network and address but closed by address alone: a connection
  just dialled is not closed by closing its address, unless some other connection is kept
  under that text, and the next dial returns it again.\<close>

theorem closing_an_address_closes_nothing:
  assumes "Dial (Ok conn) network address d = (Ok conn', d1)"
    and "map_of (dl_connections d) address = None"
  shows "Dialer_Close address d1 = d1 \<and> Dial r network address (Dialer_Close address d1) = (Ok conn', d1) \<and>
    conn' \<in> dl_closed (CloseAll d1)"
proof -
  from assms(1) have key: "map_of (dl_connections d1) (dial_key network address) = Some conn'"
    by (auto simp: Dial_def update_conv' split: option.splits)
  have "map_of (dl_connections d1) address = None"
    using assms dial_key_not_address [of network address]
    by (auto simp: Dial_def update_conv' split: option.splits)
  then have "Dialer_Close address d1 = d1" by (simp add: Dialer_Close_def)
  moreover have "conn' \<in> dl_closed (CloseAll d1)"
    using map_of_SomeD [OF key] by (auto simp: CloseAll_def image_iff intro: rev_bexI)
  ultimately show ?thesis using key by (simp add: Dial_def)
qed

lemma closing_an_address_closes_nothing_witness:
  "\<exists>d1. Dial (Ok 3) ''tcp'' ''host'' NewDialer = (Ok 3, d1) \<and>
    Dial (Ok 4) ''tcp'' ''host'' (Dialer_Close ''host'' d1) = (Ok 3, d1)"
proof -
  obtain d1 where d1: "Dial (Ok 3) ''tcp'' ''host'' NewDialer = (Ok 3, d1)"
    by (simp add: Dial_def NewDialer_def)
  from closing_an_address_closes_nothing [OF d1, of "Ok 4"] d1 show ?thesis
    by (auto simp: NewDialer_def)
qed

section \<open>The loop that answers\<close>

text \<open>The inbound loop sends back what it receives: for every packet its cipher opens it writes one
  that opens to the same plaintext, in order, and nothing for any other packet, such as the
  greeting of a client.\<close>

theorem inbound_loop_echoes:
  "\<exists>cts n1 e1. inbound_loop c evs n e [] = Ok (cts, n1, e1) \<and>
    map (Aead_Decrypt c) cts = map Ok (answered c evs)"
  using inbound_loop_answers [of c evs n e "[]"] by simp

section \<open>Raw UDP\<close>

fun arrive_all :: "string \<Rightarrow> bytes list \<Rightarrow> udp_inbound \<Rightarrow> udp_inbound result" where
  "arrive_all addr [] ui = Ok ui"
| "arrive_all addr (d # ds) ui = bindR (packet_arrives addr d ui) (arrive_all addr ds)"

fun read_all :: "nat \<Rightarrow> nat \<Rightarrow> nat \<Rightarrow> udp_inbound \<Rightarrow> bytes result list option" where
  "read_all 0 k n ui = Some []"
| "read_all (Suc m) k n ui =
     Option.bind (UDPConn_Read k n ui) (\<lambda>(r, ui1). map_option ((#) r) (read_all m k n ui1))"

text \<open>The buffer after datagrams that each begin at its start.\<close>

definition overlay :: "bytes list \<Rightarrow> bytes \<Rightarrow> bytes" where
  "overlay ds buf = fold (\<lambda>d b. d @ drop (length d) b) ds buf"

lemma overlay_simps [simp]:
  "overlay [] buf = buf" "overlay (d # ds) buf = overlay ds (d @ drop (length d) buf)"
  by (simp_all add: overlay_def)

lemma overlay_last: "ds \<noteq> [] \<Longrightarrow> take (length (last ds)) (overlay ds buf) = last ds"
  by (induction ds arbitrary: buf) auto

lemma overlay_within_last:
  assumes "ds \<noteq> []" and "l \<le> length (last ds)"
  shows "take l (overlay ds buf) = take l (last ds)"
  using arg_cong [OF overlay_last [OF assms(1), of buf], of "take l"] assms(2) by (simp add: min_absorb1)

lemma arrive_all_queue:
  assumes "udp_inv ui" and "length ds + length (chan_of addr ui) \<le> 5000"
    and "\<forall>d\<in>set ds. length d \<le> 65536" and "ds \<noteq> []"
  shows "\<exists>ui1. arrive_all addr ds ui = Ok ui1 \<and> udp_inv ui1 \<and> find_wrapper addr ui1 \<noteq> None \<and>
    chan_of addr ui1 = chan_of addr ui @ map (\<lambda>d. (0, length d)) ds \<and>
    ui_buf ui1 = overlay ds (ui_buf ui) \<and> ui_conns ui1 = ui_conns ui"
  using assms
proof (induction ds arbitrary: ui)
  case (Cons d ds)
  from Cons.prems have d: "length (chan_of addr ui) < 5000" "length d \<le> 65536" by simp_all
  from packet_arrives_queue [OF Cons.prems(1) d] obtain u where u: "packet_arrives addr d ui = Ok u"
    "udp_inv u" "ui_buf u = d @ drop (length d) (ui_buf ui)" "chan_of addr u = chan_of addr ui @ [(0, length d)]"
    "ui_conns u = ui_conns ui" "find_wrapper addr u \<noteq> None" by auto
  show ?case
  proof (cases "ds = []")
    case True
    with u d show ?thesis by simp
  next
    case False
    from Cons.IH [OF u(2) _ _ False] u d Cons.prems(2,3) False
    show ?thesis by simp
  qed
qed simp

lemma read_all_queue:
  assumes "k < length (ui_conns ui)" and "\<not> u_closed (ui_conns ui ! k)"
    and "u_readData (ui_conns ui ! k) = None" and "u_wrapper (ui_conns ui ! k) = w"
    and "w < length (ui_wrappers ui)"
    and "w_readChan (ui_wrappers ui ! w) = map (\<lambda>l. (0, l)) ls" and "\<forall>l\<in>set ls. l \<le> n"
  shows "read_all (length ls) k n ui = Some (map (\<lambda>l. Ok (take l (ui_buf ui))) ls)"
  using assms
proof (induction ls arbitrary: ui)
  case (Cons l ls)
  let ?ui = "set_wrapper w ((ui_wrappers ui ! w)\<lparr>w_readChan := map (\<lambda>l. (0, l)) ls\<rparr>) ui"
  have "length (take l (ui_buf ui)) \<le> n" using Cons.prems(7) by auto
  then have "UDPConn_Read k n ui = Some (Ok (take l (ui_buf ui)), ?ui)"
    using Cons.prems by (simp add: UDPConn_Read_def Let_def slice_of_def)
  moreover have "read_all (length ls) k n ?ui = Some (map (\<lambda>l. Ok (take l (ui_buf ui))) ls)"
    using Cons.IH [of ?ui] Cons.prems by simp
  ultimately show ?case by simp
qed simp

text \<open>C39: Datagrams that arrive before the first is read share the one buffer, each written over its beginning: the
  connection reads as many as have arrived, each with its own length but with the bytes that the whole burst has left
  in the buffer. Only the last is read as it was sent; one that is no longer than the last is
  read as the beginning of the last.\<close>

theorem burst_of_datagrams_is_overwritten:
  assumes "udp_inv ui" and "chan_of addr ui = []" and "ds \<noteq> []" and "length ds \<le> 5000"
    and "\<forall>d\<in>set ds. length d \<le> 65536 \<and> length d \<le> n"
  shows "\<exists>ui1 k ui2 rs. arrive_all addr ds ui = Ok ui1 \<and> acceptUDP addr ui1 = Some (k, ui2) \<and>
    read_all (length ds) k n ui2 = Some (map Ok rs) \<and>
    rs = map (\<lambda>d. take (length d) (overlay ds (ui_buf ui))) ds \<and> last rs = last ds \<and>
    (\<forall>i < length ds. length (ds ! i) \<le> length (last ds) \<longrightarrow> rs ! i = take (length (ds ! i)) (last ds))"
proof -
  let ?b = "overlay ds (ui_buf ui)" and ?q = "\<lambda>d. (0 :: nat, length d)"
  let ?rs = "map (\<lambda>d. take (length d) ?b) ds"
  from arrive_all_queue [OF assms(1) _ _ assms(3), of addr] assms(2,4,5)
  obtain u where u: "arrive_all addr ds ui = Ok u" "udp_inv u" "find_wrapper addr u \<noteq> None"
    "chan_of addr u = map ?q ds" "ui_buf u = ?b" by auto
  obtain w where w: "find_wrapper addr u = Some w" using u(3) by blast
  note wf = udp_inv_find [OF u(2) w]
  obtain d ds1 where ds: "ds = d # ds1" using assms(3) by (cases ds) auto
  let ?c = "\<lparr>u_wrapper = w, u_remoteAddr = addr, u_readData = Some (0, length d), u_closed = False\<rparr>"
  let ?s = "set_wrapper w ((ui_wrappers u ! w)\<lparr>w_readChan := map ?q ds1\<rparr>) u"
  let ?k = "length (ui_conns u)"
  have q: "w_readChan (ui_wrappers u ! w) = (0, length d) # map ?q ds1"
    using u(4) w ds by (simp add: chan_of_def)
  have acc: "acceptUDP addr u = Some (?k, ?s\<lparr>ui_conns := ui_conns u @ [?c]\<rparr>)"
    using w wf q by (simp add: acceptUDP_def Let_def)
  have "read_all (length (map length ds1)) ?k n (?s\<lparr>ui_conns := ui_conns u @ [?c\<lparr>u_readData := None\<rparr>]\<rparr>) =
      Some (map (\<lambda>l. Ok (take l (ui_buf (?s\<lparr>ui_conns := ui_conns u @ [?c\<lparr>u_readData := None\<rparr>]\<rparr>)))) (map length ds1))"
    using wf assms(5) ds by (intro read_all_queue [where w = w]) simp_all
  moreover have "length d \<le> n" using assms(5) ds by simp
  ultimately have "read_all (length ds) ?k n (?s\<lparr>ui_conns := ui_conns u @ [?c]\<rparr>) = Some (map Ok ?rs)"
    using u(5) by (simp add: ds UDPConn_Read_def slice_of_def Let_def comp_def)
  moreover have "last ?rs = last ds" using assms(3) overlay_last [OF assms(3)] by (simp add: last_map)
  moreover have "?rs ! i = take (length (ds ! i)) (last ds)" if "i < length ds" "length (ds ! i) \<le> length (last ds)" for i
    using that overlay_within_last [OF assms(3) that(2)] by simp
  ultimately show ?thesis using u(1) acc by blast
qed

lemma burst_of_datagrams_is_overwritten_witness:
  "\<exists>ui1 k ui2. arrive_all ''a'' [[1, 2, 3], [9]] startUDP = Ok ui1 \<and>
    acceptUDP ''a'' ui1 = Some (k, ui2) \<and> read_all 2 k 100 ui2 = Some [Ok [9, 2, 3], Ok [9]]"
proof -
  let ?ds = "[[1, 2, 3], [9]] :: bytes list"
  have c: "chan_of ''a'' startUDP = []" by (simp add: chan_of_def find_wrapper_def startUDP_def)
  have l: "length ?ds = 2" by simp
  obtain ui1 k ui2 rs where r: "arrive_all ''a'' ?ds startUDP = Ok ui1" "acceptUDP ''a'' ui1 = Some (k, ui2)"
    "read_all 2 k 100 ui2 = Some (map Ok rs)" "rs = map (\<lambda>d. take (length d) (overlay ?ds (ui_buf startUDP))) ?ds"
    using burst_of_datagrams_is_overwritten [OF udp_inv_start c, of ?ds 100] unfolding l by auto
  have "rs = [[9, 2, 3], [9]]" unfolding r(4) by simp
  with r(1-3) show ?thesis by simp
qed

text \<open>The accepting loop serves the same channels as the connections: when it comes first, the next
  datagram of a client goes to a second connection with the same address, and the first
  blocks.\<close>

theorem datagram_starts_another_connection:
  assumes "udp_inv ui" and "k < length (ui_conns ui)"
    and "find_wrapper addr ui = Some (u_wrapper (ui_conns ui ! k))"
    and "\<not> u_closed (ui_conns ui ! k)" and "u_readData (ui_conns ui ! k) = None"
    and "chan_of addr ui = []" and "length d \<le> 65536"
  shows "\<exists>ui1 k' ui2. packet_arrives addr d ui = Ok ui1 \<and> acceptUDP addr ui1 = Some (k', ui2) \<and>
    k' \<noteq> k \<and> u_remoteAddr (ui_conns ui2 ! k') = u_remoteAddr (ui_conns ui2 ! k) \<and>
    UDPConn_Read k n ui2 = None \<and> (\<exists>ui3. UDPConn_Read k' (length d) ui2 = Some (Ok d, ui3))"
proof -
  from packet_arrives_queue [OF assms(1) _ assms(7), of addr] assms(6) assms(3)
  obtain u where u: "packet_arrives addr d ui = Ok u" "udp_inv u" "ui_buf u = d @ drop (length d) (ui_buf ui)"
    "chan_of addr u = [(0, length d)]" "ui_conns u = ui_conns ui" "find_wrapper addr u = find_wrapper addr ui" by auto
  let ?w = "u_wrapper (ui_conns ui ! k)"
  have w: "find_wrapper addr u = Some ?w" using u(6) assms(3) by simp
  note wf = udp_inv_find [OF u(2) w]
  have "ui_conns ui ! k \<in> set (ui_conns u)" using assms(2) u(5) by simp
  then have addr: "u_remoteAddr (ui_conns ui ! k) = addr" using u(2) wf by (auto simp: udp_inv_def)
  let ?c = "\<lparr>u_wrapper = ?w, u_remoteAddr = addr, u_readData = Some (0, length d), u_closed = False\<rparr>"
  let ?u = "(set_wrapper ?w ((ui_wrappers u ! ?w)\<lparr>w_readChan := []\<rparr>) u)\<lparr>ui_conns := ui_conns u @ [?c]\<rparr>"
  have "acceptUDP addr u = Some (length (ui_conns ui), ?u)"
    using w wf u(4,5) by (simp add: acceptUDP_def chan_of_def Let_def)
  moreover have "UDPConn_Read k n ?u = None"
    using assms(2,4,5) wf u(5) by (simp add: UDPConn_Read_def nth_append Let_def)
  moreover have "\<exists>ui3. UDPConn_Read (length (ui_conns ui)) (length d) ?u = Some (Ok d, ui3)"
    using u(3,5) by (simp add: UDPConn_Read_def slice_of_def Let_def)
  moreover have "u_remoteAddr (ui_conns ?u ! length (ui_conns ui)) = u_remoteAddr (ui_conns ?u ! k)"
    using addr assms(2) u(5) by (simp add: nth_append)
  ultimately show ?thesis using u(1) assms(2) by (metis nat_neq_iff)
qed

lemma datagram_starts_another_connection_witness:
  "\<exists>ui ui1 k' ui2. ui_conns ui = [\<lparr>u_wrapper = 0, u_remoteAddr = ''a'', u_readData = None, u_closed = False\<rparr>] \<and>
    packet_arrives ''a'' [5] ui = Ok ui1 \<and> acceptUDP ''a'' ui1 = Some (k', ui2) \<and> UDPConn_Read 0 9 ui2 = None"
proof -
  let ?ui = "startUDP\<lparr>ui_wrappers := [\<lparr>w_remoteAddr = ''a'', w_readChan = [], w_closed = False\<rparr>],
    ui_udpConns := [(''a'', 0)],
    ui_conns := [\<lparr>u_wrapper = 0, u_remoteAddr = ''a'', u_readData = None, u_closed = False\<rparr>]\<rparr>"
  have "udp_inv ?ui" by (simp add: startUDP_def udp_inv_def)
  from datagram_starts_another_connection [OF this, of 0 "''a''" "[5]" 9]
  have "\<exists>ui1 k' ui2. ui_conns ?ui = [\<lparr>u_wrapper = 0, u_remoteAddr = ''a'', u_readData = None, u_closed = False\<rparr>] \<and>
    packet_arrives ''a'' [5] ?ui = Ok ui1 \<and> acceptUDP ''a'' ui1 = Some (k', ui2) \<and> UDPConn_Read 0 9 ui2 = None"
    by (auto simp: find_wrapper_def chan_of_def)
  then show ?thesis by (rule exI [of _ ?ui])
qed

text \<open>C40: Whatever the goroutines of packets, the accepting loop, the readers and \<open>Stop\<close> do, the map
  names open wrappers: \<open>Stop\<close> never panics, and neither does a packet that is handled in one
  piece. But a packet that has found its wrapper and is overtaken by \<open>Stop\<close> sends on a closed
  channel, which ends the program, and that state is reached.\<close>

theorem stop_crashes_a_packet_in_flight:
  "(udp_reach (ui, gs) \<longrightarrow> (\<exists>ui1. Inbound_Stop ui = Ok ui1) \<and> handlePacket addr data ui \<noteq> Panic) \<and>
   (\<exists>ui gs w s. udp_reach (ui, gs) \<and> Sending w s \<in> set gs \<and> deliver w s ui = Panic)"
proof (intro conjI impI)
  assume "udp_reach (ui, gs)"
  then have inv: "udp_inv ui" using udp_reach_inv by fastforce
  show "\<exists>ui1. Inbound_Stop ui = Ok ui1" using Inbound_Stop_ok [OF inv] by blast
  show "handlePacket addr data ui \<noteq> Panic" by (rule handlePacket_not_Panic [OF inv])
next
  let ?s0 = "(0, length (take (length (ui_buf startUDP)) ([7] :: bytes))) :: nat \<times> nat"
  let ?u0 = "ReadFrom [7] startUDP"
  have r1: "udp_reach (?u0, [Looking ''a'' ?s0])"
    using udp_reach.step [OF udp_reach.start udp_step.arrive [of startUDP "[]" "[7]" "''a''"]] by simp
  have r2: "udp_reach (?u0, [Making ''a'' (find_wrapper ''a'' ?u0) ?s0])"
    using udp_reach.step [OF r1] udp_step.look [of ?u0 "[]" "''a''" ?s0 "[]"] by simp
  obtain w u1 where w: "make_wrapper ''a'' (find_wrapper ''a'' ?u0) ?u0 = (w, u1)" by force
  have inv: "udp_inv ?u0" by (simp add: udp_inv_ReadFrom udp_inv_start)
  have r3: "udp_reach (u1, [Sending w ?s0])"
    using udp_reach.step [OF r2] udp_step.make [OF w, of "[]" ?s0 "[]"] by simp
  have "find_wrapper ''a'' u1 = Some w" using make_wrapper_open [OF inv w] by simp
  moreover have "udp_inv u1" using udp_reach_inv [OF r3] by simp
  ultimately obtain u2 where u2: "Inbound_Stop u1 = Ok u2" "w_closed (ui_wrappers u2 ! w)"
    using Inbound_Stop_ok by blast
  have "udp_reach (u2, [Sending w ?s0])" using udp_reach.step [OF r3 udp_step.stop [OF u2(1)]] .
  moreover have "deliver w ?s0 u2 = Panic" using u2(2) by (simp add: deliver_def)
  ultimately show "\<exists>ui gs w s. udp_reach (ui, gs) \<and> Sending w s \<in> set gs \<and> deliver w s ui = Panic"
    by (meson list.set_intros(1))
qed

lemma stop_crashes_a_packet_in_flight_witness:
  "\<exists>ui1. Inbound_Stop startUDP = Ok ui1"
  using stop_crashes_a_packet_in_flight [of startUDP "[]"] udp_reach.start by blast

end
