(* ===== verification/Exports.thy ===== *)
theory Exports
  imports EngineClient Transport
begin

text \<open>
  The interface exported to the Flutter application, \<open>exports.go\<close>: the package variables as
  one state, and each exported function as an operation on it. The functions hold one mutex
  from beginning to end, so each is one step. What lies outside is an argument: the platform,
  the parsed JSON, the TUN device, the dial, the answers of the server, the goroutines waited
  for. A reply is a constructor instead of its JSON text. Beside the variables of the
  program, the state counts the heartbeat goroutines that run.
\<close>

section \<open>State\<close>

datatype platform = Windows | Android | OtherOS

record FlutterConfig =
  fc_Server :: string
  fc_SecretKey :: bytes
  fc_Cipher :: string
  fc_MTU :: int
  fc_Modes :: "string list"
  fc_SplitTunnel :: bool

record vpn =
  v_client :: "Client option"
  v_isRunning :: bool
  v_isStopping :: bool
  v_stopChan :: bool
  v_serverIP :: string
  v_tun :: bool
  v_readerDone :: bool
  v_callback :: bool
  v_tickers :: nat

definition vpn_init :: vpn where
  "vpn_init = \<lparr>v_client = None, v_isRunning = False, v_isStopping = False, v_stopChan = False,
     v_serverIP = [], v_tun = False, v_readerDone = False, v_callback = False, v_tickers = 0\<rparr>"

datatype reply = Connected | AlreadyConnected | StopInProgress | ErrorReply | Disconnected | OkReply

text \<open>
  \<open>Client.Stop\<close> when it returns: nothing for a client that is not connected, whose heartbeats
  then go on.
\<close>

definition Client_Stop :: "Client \<Rightarrow> Client" where
  "Client_Stop c =
     (if \<not> cl_connected c \<or> cl_stopped c then c
      else c\<lparr>cl_connected := False, cl_handshakeDone := False, cl_stopped := True,
             cl_write_error := Some NetClosed\<rparr>)"

definition stop_client :: "Client option \<Rightarrow> vpn \<Rightarrow> vpn" where
  "stop_client cl v =
     (case cl of
        None \<Rightarrow> v
      | Some c \<Rightarrow> if cl_connected c \<and> \<not> cl_stopped c then v\<lparr>v_tickers := v_tickers v - 1\<rparr> else v)"

definition cleanupResources :: "vpn \<Rightarrow> vpn" where
  "cleanupResources v =
     (stop_client (v_client v) v)\<lparr>v_stopChan := False, v_tun := False, v_readerDone := False,
        v_client := None, v_isRunning := False\<rparr>"

definition Export_SetOnPacketCallback :: "bool \<Rightarrow> vpn \<Rightarrow> vpn" where
  "Export_SetOnPacketCallback cb v = v\<lparr>v_callback := cb\<rparr>"

text \<open>Whether the device can be made, and whether it takes the descriptor.\<close>

definition SetTunFileDescriptor :: "platform \<Rightarrow> bool \<Rightarrow> bool \<Rightarrow> vpn \<Rightarrow> reply \<times> vpn" where
  "SetTunFileDescriptor os device_ok fd_ok v =
     (if \<not> v_tun v \<and> \<not> device_ok then (ErrorReply, v)
      else
        let v1 = v\<lparr>v_tun := True\<rparr> in
        if os = Android \<and> \<not> fd_ok then (ErrorReply, v1) else (OkReply, v1))"

section \<open>Starting\<close>

definition parse_mode :: "string \<Rightarrow> ProtocolMode" where
  "parse_mode m =
     (if m = ''vk'' then ModeVK else if m = ''rutube'' then ModeRuTube
      else if m = ''yandex'' then ModeYandex else if m = ''ozon'' then ModeOzon
      else if m = ''wildberries'' then ModeWildberries else if m = ''sberid'' then ModeSberID
      else if m = ''gosuslugi'' then ModeGosuslugi else if m = ''webrtc'' then ModeWebRTC
      else if m = ''quic'' then ModeQUIC else if m = ''tls'' then ModeTLS else ModeVK)"

definition parse_modes :: "string list \<Rightarrow> ProtocolMode list" where
  "parse_modes names = (if names = [] then [ModeVK] else map parse_mode names)"

definition vpn_client_config :: "FlutterConfig \<Rightarrow> ClientConfig" where
  "vpn_client_config fc =
     \<lparr>cc_AuthKey = fc_SecretKey fc, cc_SwitchInterval = 86400 * second,
      cc_Modes = parse_modes (fc_Modes fc), cc_HandshakeTimeout = 10 * second,
      cc_EnableReplayProtection = True\<rparr>"

text \<open>
  What a start meets outside: \<open>si_connected\<close> is whether the wait of ten seconds sees the
  client connected, which the goroutine of the client may have changed since \<open>Start\<close>.
\<close>

record start_in =
  si_os :: platform
  si_config :: "FlutterConfig option"
  si_tun_new :: bool
  si_tun_ip :: bool
  si_dial :: "unit result"
  si_conn :: hs_conn
  si_connected :: bool

text \<open>An outbound connection needs a cipher for the key before it dials.\<close>

definition outbound_dial :: "bytes \<Rightarrow> unit result \<Rightarrow> unit result" where
  "outbound_dial key dialled = bindR (NewAEADCipher key) (\<lambda>_. dialled)"

definition vpn_run ::
  "start_in \<Rightarrow> FlutterConfig \<Rightarrow> Client \<Rightarrow> vpn \<Rightarrow> env \<Rightarrow> (reply \<times> bytes list \<times> vpn \<times> env) result" where
  "vpn_run si fc client v e =
     bindR (Start (outbound_dial (fc_SecretKey fc) (si_dial si)) (si_conn si) client e) (\<lambda>(r, sent, c1, e1).
       if \<not> is_ok r then Ok (ErrorReply, sent, cleanupResources (v\<lparr>v_tun := False\<rparr>), e1)
       else if \<not> si_connected si then
         Ok (ErrorReply, sent, cleanupResources ((stop_client (Some c1) v)\<lparr>v_tun := False\<rparr>), e1)
       else
         Ok (Connected, sent,
             v\<lparr>v_stopChan := True, v_readerDone := (si_os si = Windows \<and> v_tun v \<or> v_readerDone v),
               v_client := Some (SetOnPacket c1), v_isRunning := True, v_isStopping := False\<rparr>, e1))"

definition StartVPN :: "start_in \<Rightarrow> vpn \<Rightarrow> env \<Rightarrow> (reply \<times> bytes list \<times> vpn \<times> env) result" where
  "StartVPN si v e =
     (if v_isRunning v then Ok (AlreadyConnected, [], v, e)
      else if v_isStopping v then Ok (StopInProgress, [], v, e)
      else case si_config si of
        None \<Rightarrow> Ok (ErrorReply, [], v, e)
      | Some fc \<Rightarrow>
          if fc_Server fc = [] then Ok (ErrorReply, [], v, e)
          else if fc_SecretKey fc = [] then Ok (ErrorReply, [], v, e)
          else
            let v1 = v\<lparr>v_serverIP := fc_Server fc\<rparr> in
            bindR (NewClient (vpn_client_config fc) e) (\<lambda>(cl, e1).
            case cl of
              None \<Rightarrow> Ok (ErrorReply, [], v1, e1)
            | Some client \<Rightarrow>
                let v2 = v1\<lparr>v_tickers := v_tickers v1 + 1\<rparr> in
                if si_os si = Windows then
                  if \<not> si_tun_new si then Ok (ErrorReply, [], v2, e1)
                  else if \<not> si_tun_ip si
                  then Ok (ErrorReply, [], cleanupResources (v2\<lparr>v_tun := False\<rparr>), e1)
                  else vpn_run si fc client (v2\<lparr>v_tun := True\<rparr>) e1
                else vpn_run si fc client v2 e1))"

section \<open>Stopping\<close>

text \<open>The packet that closes the session, and its three writes.\<close>

definition fin_packet :: "Client \<Rightarrow> env \<Rightarrow> (bytes \<times> env) result" where
  "fin_packet c e =
     (let cfg = ss_MaskConfig (cl_session c);
          (h, e1) = NewHandshake HandshakeFin (SwitchInterval cfg) (Modes cfg) (CurrentMode cfg)
            (of_int (GetCurrentMode (ss_LocalMixer (cl_session c)))) e;
          finData = Encode h in
      bindR (NewHandshakeManager (cl_authKey c) (5 * second)) (\<lambda>hm.
        Ok (finData @ Sign hm finData, e1)))"

definition write_thrice :: "bytes \<Rightarrow> Client \<Rightarrow> Client" where
  "write_thrice pkt c = snd (client_write pkt (snd (client_write pkt (snd (client_write pkt c)))))"

definition send_fin :: "Client \<Rightarrow> env \<Rightarrow> (Client \<times> env) result" where
  "send_fin c e =
     (if cl_connected c \<and> cl_conn c \<and> cl_authKey c \<noteq> []
      then bindR (fin_packet c e) (\<lambda>(pkt, e1). Ok (write_thrice pkt c, e1))
      else Ok (c, e))"

text \<open>
  \<open>None\<close> is a call that waits for ever for the reader of the TUN device. The client that was
  stopped is part of the outcome.
\<close>

definition StopVPN ::
  "bool \<Rightarrow> vpn \<Rightarrow> env \<Rightarrow> (reply \<times> Client option \<times> vpn \<times> env) result option" where
  "StopVPN reader_ends v e =
     (if \<not> v_isRunning v then Some (Ok (Disconnected, None, v, e))
      else if v_isStopping v then Some Panic
      else
        bindO (Some (case v_client v of
                       None \<Rightarrow> Ok (None, e)
                     | Some c \<Rightarrow> bindR (send_fin c e) (\<lambda>(c1, e1). Ok (Some c1, e1)))) (\<lambda>(cl, e1).
        if v_readerDone v \<and> \<not> reader_ends then None
        else
          Some (Ok (Disconnected, map_option Client_Stop cl,
            (stop_client cl v)\<lparr>v_stopChan := False, v_tun := False, v_readerDone := False,
              v_client := None, v_isRunning := False, v_isStopping := False, v_serverIP := [],
              v_callback := False\<rparr>, e1))))"

definition WriteTUN :: "bytes \<Rightarrow> vpn \<Rightarrow> env \<Rightarrow> (vpn \<times> env) result" where
  "WriteTUN data v e =
     (case v_client v of
        Some c \<Rightarrow>
          if cl_connected c
          then bindR (Send data c e) (\<lambda>(_, c1, e1). Ok (v\<lparr>v_client := Some c1\<rparr>, e1))
          else Ok (v, e)
      | None \<Rightarrow> Ok (v, e))"

definition SetConfig :: reply where
  "SetConfig = OkReply"

section \<open>Status\<close>

text \<open>A value of the map of statistics; of a float, its integral part, all that is read of it.\<close>

datatype stat = StatBool bool | StatU64 u64 | StatInt int | StatFloat int | StatString string

record VPNStatus =
  vs_Status :: string
  vs_ClientIP :: string
  vs_ServerIP :: string
  vs_Ping :: int
  vs_SpeedIn :: int
  vs_SpeedOut :: int
  vs_BytesIn :: int
  vs_BytesOut :: int
  vs_Mode :: string
  vs_ConnectedAt :: "instant option"

text \<open>The client's statistics, without those of the session, which the status does not read.\<close>

definition Client_GetStats :: "Client \<Rightarrow> (string \<times> stat) list" where
  "Client_GetStats c =
     [(''connected'', StatBool (cl_connected c)),
      (''session_id'', StatU64 (ss_ID (cl_session c))),
      (''session_state'', StatString (SessionState_String (ss_State (cl_session c)))),
      (''packets_sent'', StatU64 (cl_packetsSent c)),
      (''packets_recv'', StatU64 (cl_packetsRecv c)),
      (''bytes_sent'', StatU64 (cl_bytesSent c)),
      (''bytes_recv'', StatU64 (cl_bytesRecv c)),
      (''current_mode'', StatString (mode_String (GetCurrentMode (cl_mixer c))))]"

definition stat_float :: "(string \<times> stat) list \<Rightarrow> string \<Rightarrow> int" where
  "stat_float st k = (case map_of st k of Some (StatFloat x) \<Rightarrow> x | _ \<Rightarrow> 0)"

definition stat_bytes :: "(string \<times> stat) list \<Rightarrow> string \<Rightarrow> int" where
  "stat_bytes st k =
     (case map_of st k of
        Some (StatU64 v) \<Rightarrow> sint v | Some (StatInt v) \<Rightarrow> v
      | Some (StatFloat x) \<Rightarrow> x | _ \<Rightarrow> 0)"

definition stat_string :: "(string \<times> stat) list \<Rightarrow> string \<Rightarrow> string" where
  "stat_string st k = (case map_of st k of Some (StatString s) \<Rightarrow> s | _ \<Rightarrow> [])"

definition Export_GetStats :: "vpn \<Rightarrow> env \<Rightarrow> VPNStatus \<times> env" where
  "Export_GetStats v e =
     (case (v_isRunning v, v_client v) of
        (True, Some c) \<Rightarrow>
          (let st = Client_GetStats c; (t, e1) = read_clock e in
           (\<lparr>vs_Status = ''connected'', vs_ClientIP = ''10.0.0.2'', vs_ServerIP = v_serverIP v,
             vs_Ping = stat_float st ''ping_ms'', vs_SpeedIn = stat_float st ''speed_in_mbps'',
             vs_SpeedOut = stat_float st ''speed_out_mbps'',
             vs_BytesIn = stat_bytes st ''bytes_recv'', vs_BytesOut = stat_bytes st ''bytes_sent'',
             vs_Mode = stat_string st ''current_mode'', vs_ConnectedAt = Some t\<rparr>, e1))
      | _ \<Rightarrow>
          (\<lparr>vs_Status = ''disconnected'', vs_ClientIP = [], vs_ServerIP = [], vs_Ping = 0,
            vs_SpeedIn = 0, vs_SpeedOut = 0, vs_BytesIn = 0, vs_BytesOut = 0, vs_Mode = [],
            vs_ConnectedAt = None\<rparr>, e))"

end
