(* ===== verification/VpnReader.thy ===== *)
theory VpnReader
  imports ClientStop
begin

text \<open>
  The goroutine of \<open>StartVPN\<close> that reads the TUN device on Windows, and \<open>StopVPN\<close> that waits
  for it and then stops the client, in \<open>exports.go\<close>. Both use the package variables \<open>stopChan\<close> and
  \<open>tunDevice\<close>: \<open>StopVPN\<close> closes each and sets it to nil before it waits, and the reader looks at the
  variables anew each round. The state is the place of each, the two variables, and the client with its own
  read loop as theory ClientStop has it; a step is one action, and there is none once the
  process has crashed.
\<close>

datatype chan_var = ChanOpen | ChanClosed | ChanNil

datatype device_var = DeviceOpen | DeviceClosed | DeviceNil

datatype stopvpn_pc = CloseChan | ForgetChan | CloseDevice | ForgetDevice | AwaitReader | StopClient | Stopped

datatype tunread_pc = RSelect | RCall | RInDevice | RSleep | RExit | RCrash

record reader_state =
  rs_stop :: stopvpn_pc
  rs_reader :: tunread_pc
  rs_chan :: chan_var
  rs_device :: device_var
  rs_client :: stop_state

definition reader_running :: reader_state where
  "reader_running = \<lparr>rs_stop = CloseChan, rs_reader = RSelect, rs_chan = ChanOpen,
     rs_device = DeviceOpen, rs_client = running\<rparr>"

text \<open>
  A receive from a nil channel is never ready, so \<open>select\<close> takes its default; a method of a nil
  device dereferences it. A read of a device that is closed, before it or meanwhile, fails. The
  read loop of the client runs all the time; \<open>Client.Stop\<close> is called when the reader has gone, and
  \<open>StopVPN\<close> returns after it.
\<close>

inductive reader_step :: "reader_state \<Rightarrow> reader_state \<Rightarrow> bool" where
  close_chan: "rs_stop s = CloseChan \<Longrightarrow> rs_reader s \<noteq> RCrash \<Longrightarrow>
    reader_step s (s\<lparr>rs_stop := ForgetChan, rs_chan := ChanClosed\<rparr>)"
| forget_chan: "rs_stop s = ForgetChan \<Longrightarrow> rs_reader s \<noteq> RCrash \<Longrightarrow>
    reader_step s (s\<lparr>rs_stop := CloseDevice, rs_chan := ChanNil\<rparr>)"
| close_device: "rs_stop s = CloseDevice \<Longrightarrow> rs_reader s \<noteq> RCrash \<Longrightarrow>
    reader_step s (s\<lparr>rs_stop := ForgetDevice, rs_device := DeviceClosed\<rparr>)"
| forget_device: "rs_stop s = ForgetDevice \<Longrightarrow> rs_reader s \<noteq> RCrash \<Longrightarrow>
    reader_step s (s\<lparr>rs_stop := AwaitReader, rs_device := DeviceNil\<rparr>)"
| awaited: "rs_stop s = AwaitReader \<Longrightarrow> rs_reader s = RExit \<Longrightarrow>
    reader_step s (s\<lparr>rs_stop := StopClient\<rparr>)"
| client_stopped: "rs_stop s = StopClient \<Longrightarrow> stopper (rs_client s) = StopDone \<Longrightarrow> rs_reader s \<noteq> RCrash \<Longrightarrow>
    reader_step s (s\<lparr>rs_stop := Stopped\<rparr>)"
| client: "stop_step (rs_client s) c \<Longrightarrow> stopper c = stopper (rs_client s) \<or> rs_stop s = StopClient \<Longrightarrow>
    rs_reader s \<noteq> RCrash \<Longrightarrow> reader_step s (s\<lparr>rs_client := c\<rparr>)"
| select_stop: "rs_reader s = RSelect \<Longrightarrow> rs_chan s = ChanClosed \<Longrightarrow>
    reader_step s (s\<lparr>rs_reader := RExit\<rparr>)"
| select_default: "rs_reader s = RSelect \<Longrightarrow> rs_chan s \<noteq> ChanClosed \<Longrightarrow>
    reader_step s (s\<lparr>rs_reader := RCall\<rparr>)"
| call_nil: "rs_reader s = RCall \<Longrightarrow> rs_device s = DeviceNil \<Longrightarrow>
    reader_step s (s\<lparr>rs_reader := RCrash\<rparr>)"
| call: "rs_reader s = RCall \<Longrightarrow> rs_device s \<noteq> DeviceNil \<Longrightarrow>
    reader_step s (s\<lparr>rs_reader := RInDevice\<rparr>)"
| read_data: "rs_reader s = RInDevice \<Longrightarrow> rs_device s = DeviceOpen \<Longrightarrow>
    reader_step s (s\<lparr>rs_reader := RSelect\<rparr>)"
| read_empty: "rs_reader s = RInDevice \<Longrightarrow> rs_device s = DeviceOpen \<Longrightarrow>
    reader_step s (s\<lparr>rs_reader := RSleep\<rparr>)"
| read_error: "rs_reader s = RInDevice \<Longrightarrow> reader_step s (s\<lparr>rs_reader := RExit\<rparr>)"
| wake: "rs_reader s = RSleep \<Longrightarrow> reader_step s (s\<lparr>rs_reader := RSelect\<rparr>)"

inductive_cases reader_stepE: "reader_step s t"

inductive reader_reach :: "reader_state \<Rightarrow> reader_state \<Rightarrow> bool" for s0 where
  start: "reader_reach s0 s0"
| step: "reader_reach s0 s \<Longrightarrow> reader_step s t \<Longrightarrow> reader_reach s0 t"

definition reader_inv :: "reader_state \<Rightarrow> bool" where
  "reader_inv s \<longleftrightarrow>
     rs_chan s = (case rs_stop s of CloseChan \<Rightarrow> ChanOpen | ForgetChan \<Rightarrow> ChanClosed | _ \<Rightarrow> ChanNil) \<and>
     rs_device s = (case rs_stop s of CloseChan \<Rightarrow> DeviceOpen | ForgetChan \<Rightarrow> DeviceOpen
       | CloseDevice \<Rightarrow> DeviceOpen | ForgetDevice \<Rightarrow> DeviceClosed | _ \<Rightarrow> DeviceNil) \<and>
     (rs_stop s = StopClient \<or> rs_stop s = Stopped \<longrightarrow> rs_reader s = RExit) \<and>
     (rs_reader s = RCrash \<longrightarrow> rs_stop s = AwaitReader) \<and> stop_inv (rs_client s) \<and>
     (rs_stop s = Stopped \<longrightarrow> stopper (rs_client s) = StopDone) \<and>
     (rs_stop s \<noteq> StopClient \<and> rs_stop s \<noteq> Stopped \<longrightarrow> stopper (rs_client s) = StopIdle)"

lemma done_stays: "stop_step c d \<Longrightarrow> stopper c = StopDone \<Longrightarrow> stopper d = StopDone"
  by (induction rule: stop_step.induct) auto

lemma reader_step_inv: "reader_step s t \<Longrightarrow> reader_inv s \<Longrightarrow> reader_inv t"
proof (induction rule: reader_step.induct)
  case (client s c)
  then show ?case using stop_step_inv [OF client(1)] done_stays [OF client(1)] by (auto simp: reader_inv_def)
qed (auto simp: reader_inv_def split: stopvpn_pc.splits)

lemma reader_reach_inv: "reader_reach s0 s \<Longrightarrow> reader_inv s0 \<Longrightarrow> reader_inv s"
  by (induction rule: reader_reach.induct) (auto intro: reader_step_inv)

lemma reader_running_inv: "reader_inv reader_running"
  by (simp add: reader_inv_def reader_running_def stop_inv_def running_def)

lemma reader_reach_trans: "reader_reach t u \<Longrightarrow> reader_reach s t \<Longrightarrow> reader_reach s u"
  by (induction rule: reader_reach.induct) (auto intro: reader_reach.step)

lemma reader_reach1: "reader_step s t \<Longrightarrow> reader_reach s t"
  by (blast intro: reader_reach.intros)

text \<open>
  Once the variables are nil, a reader that is not inside the device, and has not left, is
  bound to crash, and \<open>StopVPN\<close> to wait for it for ever.
\<close>

definition bound_to_crash :: "reader_state \<Rightarrow> bool" where
  "bound_to_crash s \<longleftrightarrow> rs_stop s = AwaitReader \<and> rs_reader s \<noteq> RInDevice \<and> rs_reader s \<noteq> RExit"

lemma bound_to_crash_step:
  assumes "reader_step s t" and "bound_to_crash s" and "reader_inv s"
  shows "bound_to_crash t"
  using assms by (cases rule: reader_step.cases) (auto simp: bound_to_crash_def reader_inv_def)

lemma bound_to_crash_reach:
  assumes "reader_reach s t" and "bound_to_crash s" and "reader_inv s"
  shows "bound_to_crash t"
  using assms
  by (induction rule: reader_reach.induct) (auto intro: bound_to_crash_step reader_reach_inv)

text \<open>\<open>StopVPN\<close> gets through its closing whatever the reader does.\<close>

definition closes :: "reader_state \<Rightarrow> bool" where
  "closes s \<longleftrightarrow> (\<exists>t. reader_reach s t \<and> rs_reader t = rs_reader s \<and> rs_client t = rs_client s \<and> rs_stop t = AwaitReader)"

lemma closes_step:
  assumes "reader_step s u" and "rs_reader u = rs_reader s" and "rs_client u = rs_client s" and "closes u"
  shows "closes s"
  using assms reader_reach_trans [OF _ reader_reach1 [OF assms(1)]] by (auto simp: closes_def)

lemma closes_now: "rs_stop s = AwaitReader \<Longrightarrow> closes s"
  unfolding closes_def by (blast intro: reader_reach.start)

lemma stop_closes:
  assumes "rs_reader s \<noteq> RCrash" and "rs_stop s \<noteq> StopClient" and "rs_stop s \<noteq> Stopped"
  shows "closes s"
proof -
  have 4: "closes s" if "rs_stop s = ForgetDevice" "rs_reader s \<noteq> RCrash" for s
    by (rule closes_step [OF reader_step.forget_device [OF that]]) (simp_all add: closes_now)
  have 3: "closes s" if "rs_stop s = CloseDevice" "rs_reader s \<noteq> RCrash" for s
    by (rule closes_step [OF reader_step.close_device [OF that]]) (simp_all add: 4 that)
  have 2: "closes s" if "rs_stop s = ForgetChan" "rs_reader s \<noteq> RCrash" for s
    by (rule closes_step [OF reader_step.forget_chan [OF that]]) (simp_all add: 3 that)
  have 1: "closes s" if "rs_stop s = CloseChan" "rs_reader s \<noteq> RCrash" for s
    by (rule closes_step [OF reader_step.close_chan [OF that]]) (simp_all add: 2 that)
  show ?thesis using assms by (cases "rs_stop s") (simp_all add: 1 2 3 4 closes_now)
qed

text \<open>Unless the crash is bound to come, the reader can leave and \<open>StopVPN\<close> come to the client.\<close>

definition comes_through :: "reader_state \<Rightarrow> bool" where
  "comes_through s \<longleftrightarrow> (\<exists>t. reader_reach s t \<and> rs_client t = rs_client s \<and> rs_reader t = RExit \<and> rs_stop t = StopClient)"

lemma comes_step:
  assumes "reader_step s u" and "rs_client u = rs_client s" and "comes_through u"
  shows "comes_through s"
  using assms reader_reach_trans [OF _ reader_reach1 [OF assms(1)]] by (auto simp: comes_through_def)

lemma comes_from_exit:
  assumes "rs_reader s = RExit" and "rs_stop s \<noteq> Stopped"
  shows "comes_through s"
proof (cases "rs_stop s = StopClient")
  case True
  with assms show ?thesis unfolding comes_through_def by (blast intro: reader_reach.start)
next
  case False
  with assms stop_closes [of s] obtain u where u: "reader_reach s u" "rs_reader u = RExit"
    "rs_client u = rs_client s" "rs_stop u = AwaitReader" by (auto simp: closes_def)
  then have "reader_reach s (u\<lparr>rs_stop := StopClient\<rparr>)"
    using reader_reach.step [OF u(1) reader_step.awaited [OF u(4,2)]] by blast
  with u show ?thesis unfolding comes_through_def by (intro exI [of _ "u\<lparr>rs_stop := StopClient\<rparr>"]) simp
qed

lemma crash_or_through:
  assumes "reader_inv s" and "\<not> bound_to_crash s" and "rs_stop s \<noteq> Stopped"
  shows "comes_through s"
proof -
  have in_device: "comes_through s" if "rs_reader s = RInDevice" "rs_stop s \<noteq> Stopped" for s
    by (rule comes_step [OF reader_step.read_error [OF that(1)]]) (simp_all add: comes_from_exit that)
  have call: "comes_through s" if "rs_reader s = RCall" "rs_device s \<noteq> DeviceNil" "rs_stop s \<noteq> Stopped" for s
    by (rule comes_step [OF reader_step.call [OF that(1,2)]]) (simp_all add: in_device that)
  have select: "comes_through s" if "rs_reader s = RSelect" "rs_device s \<noteq> DeviceNil" "rs_stop s \<noteq> Stopped" for s
  proof (cases "rs_chan s = ChanClosed")
    case True
    show ?thesis
      by (rule comes_step [OF reader_step.select_stop [OF that(1) True]]) (simp_all add: comes_from_exit that)
  next
    case False
    show ?thesis
      by (rule comes_step [OF reader_step.select_default [OF that(1) False]]) (simp_all add: call that)
  qed
  have sleep: "comes_through s" if "rs_reader s = RSleep" "rs_device s \<noteq> DeviceNil" "rs_stop s \<noteq> Stopped" for s
    by (rule comes_step [OF reader_step.wake [OF that(1)]]) (simp_all add: select that)
  show ?thesis
  proof (cases "rs_reader s = RExit")
    case True
    then show ?thesis using comes_from_exit assms(3) by blast
  next
    case False
    with assms have "rs_stop s \<noteq> StopClient" by (auto simp: reader_inv_def)
    then have "rs_device s \<noteq> DeviceNil \<or> rs_stop s = AwaitReader"
      using assms(1,3) by (cases "rs_stop s") (auto simp: reader_inv_def)
    with False assms show ?thesis
      using in_device call select sleep by (cases "rs_reader s") (auto simp: bound_to_crash_def reader_inv_def)
  qed
qed

section \<open>Then the client\<close>

lemma client_steps:
  assumes "stop_reach c d" and "rs_stop s = StopClient" and "rs_reader s \<noteq> RCrash" and "rs_client s = c"
  shows "reader_reach s (s\<lparr>rs_client := d\<rparr>)"
  using assms
proof (induction rule: stop_reach.induct)
  case start
  then have "s\<lparr>rs_client := c\<rparr> = s" by simp
  then show ?case by (simp add: reader_reach.start)
next
  case (step d1 d2)
  have "reader_step (s\<lparr>rs_client := d1\<rparr>) (s\<lparr>rs_client := d1\<rparr>\<lparr>rs_client := d2\<rparr>)"
    by (rule reader_step.client) (use step in simp_all)
  with step show ?case using reader_reach.step by simp
qed

lemma through_then_stopped:
  assumes "comes_through s" and "reader_inv s" and "\<not> doomed (rs_client s)"
  shows "\<exists>t. reader_reach s t \<and> rs_stop t = Stopped"
proof -
  from assms(1) obtain t where t: "reader_reach s t" "rs_client t = rs_client s" "rs_reader t = RExit" "rs_stop t = StopClient"
    by (auto simp: comes_through_def)
  have "stop_inv (rs_client s)" using assms(2) by (simp add: reader_inv_def)
  then obtain d where d: "stop_reach (rs_client s) d" "stopper d = StopDone"
    using to_exit assms(3) from_exit stop_reach_inv stop_reach_trans by meson
  have c: "reader_reach t (t\<lparr>rs_client := d\<rparr>)" by (rule client_steps [OF d(1)]) (use t in simp_all)
  have "reader_step (t\<lparr>rs_client := d\<rparr>) (t\<lparr>rs_client := d\<rparr>\<lparr>rs_stop := Stopped\<rparr>)"
    by (rule reader_step.client_stopped) (use t d in simp_all)
  from reader_reach.step [OF reader_reach_trans [OF c t(1)] this] show ?thesis by auto
qed

lemma doomed_client_step: "reader_step s t \<Longrightarrow> doomed (rs_client s) \<Longrightarrow> doomed (rs_client t)"
  by (induction rule: reader_step.induct) (auto intro: doomed_step)

lemma doomed_client_reach: "reader_reach s t \<Longrightarrow> doomed (rs_client s) \<Longrightarrow> doomed (rs_client t)"
  by (induction rule: reader_reach.induct) (auto intro: doomed_client_step)

lemma stop_returns_iff:
  assumes "reader_inv s"
  shows "(\<exists>t. reader_reach s t \<and> rs_stop t = Stopped) \<longleftrightarrow> \<not> bound_to_crash s \<and> \<not> doomed (rs_client s)"
proof
  assume "\<exists>t. reader_reach s t \<and> rs_stop t = Stopped"
  then obtain t where t: "reader_reach s t" "rs_stop t = Stopped" by blast
  have inv: "reader_inv t" using reader_reach_inv [OF t(1) assms] .
  have "\<not> doomed (rs_client t)" using inv t(2) by (auto simp: reader_inv_def stop_inv_def doomed_def)
  then have "\<not> doomed (rs_client s)" using doomed_client_reach [OF t(1)] by blast
  moreover have "\<not> bound_to_crash s"
    using bound_to_crash_reach [OF t(1) _ assms] t(2) by (auto simp: bound_to_crash_def)
  ultimately show "\<not> bound_to_crash s \<and> \<not> doomed (rs_client s)" by simp
next
  assume a: "\<not> bound_to_crash s \<and> \<not> doomed (rs_client s)"
  show "\<exists>t. reader_reach s t \<and> rs_stop t = Stopped"
  proof (cases "rs_stop s = Stopped")
    case True
    then show ?thesis by (blast intro: reader_reach.start)
  next
    case False
    with a show ?thesis using through_then_stopped [OF crash_or_through [OF assms] assms] by blast
  qed
qed

lemma nothing_after_a_crash: "rs_reader s = RCrash \<Longrightarrow> \<not> reader_step s t"
  by (auto elim: reader_stepE)

lemma bound_crashes:
  assumes "bound_to_crash s" and "reader_inv s"
  shows "\<exists>t. reader_reach s t \<and> rs_reader t = RCrash"
proof -
  from assms have nil: "rs_device s = DeviceNil" "rs_chan s = ChanNil"
    by (auto simp: bound_to_crash_def reader_inv_def)
  have call: "\<exists>t. reader_reach s t \<and> rs_reader t = RCrash" if "rs_reader s = RCall" "rs_device s = DeviceNil" for s
    using reader_reach1 [OF reader_step.call_nil [OF that]] by auto
  have select: "\<exists>t. reader_reach s t \<and> rs_reader t = RCrash"
    if "rs_reader s = RSelect" "rs_device s = DeviceNil" "rs_chan s \<noteq> ChanClosed" for s
    using call [of "s\<lparr>rs_reader := RCall\<rparr>"] that(2) reader_reach_trans
      reader_reach1 [OF reader_step.select_default [OF that(1,3)]] by fastforce
  have sleep: "\<exists>t. reader_reach s t \<and> rs_reader t = RCrash"
    if "rs_reader s = RSleep" "rs_device s = DeviceNil" "rs_chan s \<noteq> ChanClosed" for s
    using select [of "s\<lparr>rs_reader := RSelect\<rparr>"] that(2,3) reader_reach_trans
      reader_reach1 [OF reader_step.wake [OF that(1)]] by fastforce
  show ?thesis
    by (cases "rs_reader s")
      (use assms(1) nil call select sleep in \<open>auto simp: bound_to_crash_def intro: reader_reach.start\<close>)
qed

text \<open>The unlucky moment is reached when the reader sleeps through the closing.\<close>

lemma bound_to_crash_reachable: "\<exists>s. reader_reach reader_running s \<and> bound_to_crash s"
proof -
  from stop_closes [of reader_running] obtain t where t: "reader_reach reader_running t"
    "rs_reader t = RSelect" "rs_stop t = AwaitReader"
    by (auto simp: closes_def reader_running_def)
  then have "bound_to_crash t" by (simp add: bound_to_crash_def)
  with t(1) show ?thesis by blast
qed

text \<open>And the client's own deadlock, when the reader has gone.\<close>

lemma doomed_client_reachable: "\<exists>s. reader_reach reader_running s \<and> doomed (rs_client s)"
proof -
  have "\<not> bound_to_crash reader_running" by (simp add: bound_to_crash_def reader_running_def)
  then have "comes_through reader_running"
    using crash_or_through [OF reader_running_inv] by (simp add: reader_running_def)
  then obtain t where t: "reader_reach reader_running t" "rs_client t = running" "rs_reader t = RExit" "rs_stop t = StopClient"
    by (auto simp: comes_through_def reader_running_def)
  obtain d where d: "stop_reach running d" "doomed d" using doomed_reachable by blast
  have "reader_reach t (t\<lparr>rs_client := d\<rparr>)" by (rule client_steps [OF d(1)]) (use t in simp_all)
  with reader_reach_trans t(1) d(2) show ?thesis by fastforce
qed

end
