(* ===== verification/ExportProperties.thy ===== *)
theory ExportProperties
  imports Exports VpnReader TunnelProperties
begin

text \<open>
  The properties of the exported interface: its state machine, what a start from the
  application brings about at the server, what a stop does there, what a failed start leaves
  behind, and when a stop does not return.
\<close>

section \<open>The state machine\<close>

text \<open>The goroutine of a running client may change it at any time.\<close>

inductive vpn_reach :: "vpn \<Rightarrow> bool" where
  init: "vpn_reach vpn_init"
| startvpn: "vpn_reach v \<Longrightarrow> StartVPN si v e = Ok (r, sent, v1, e1) \<Longrightarrow> vpn_reach v1"
| stopvpn: "vpn_reach v \<Longrightarrow> StopVPN b v e = Some (Ok (r, cl, v1, e1)) \<Longrightarrow> vpn_reach v1"
| tun_fd: "vpn_reach v \<Longrightarrow> vpn_reach (snd (SetTunFileDescriptor os ok1 ok2 v))"
| callback: "vpn_reach v \<Longrightarrow> vpn_reach (Export_SetOnPacketCallback cb v)"
| write_tun: "vpn_reach v \<Longrightarrow> WriteTUN d v e = Ok (v1, e1) \<Longrightarrow> vpn_reach v1"
| goroutine: "vpn_reach v \<Longrightarrow> v_client v = Some c \<Longrightarrow> vpn_reach (v\<lparr>v_client := Some c1\<rparr>)"

definition vpn_inv :: "vpn \<Rightarrow> bool" where
  "vpn_inv v \<longleftrightarrow> \<not> v_isStopping v \<and> (v_client v \<noteq> None \<longleftrightarrow> v_isRunning v) \<and>
     (v_stopChan v \<longleftrightarrow> v_isRunning v) \<and> (v_readerDone v \<longrightarrow> v_isRunning v)"

lemma stop_client_simps [simp]:
  "v_isStopping (stop_client cl v) = v_isStopping v" "v_client (stop_client cl v) = v_client v"
  "v_isRunning (stop_client cl v) = v_isRunning v" "v_stopChan (stop_client cl v) = v_stopChan v"
  "v_readerDone (stop_client cl v) = v_readerDone v"
  by (auto simp: stop_client_def split: option.splits)

lemma vpn_inv_other [simp]:
  "vpn_inv (v\<lparr>v_tun := x\<rparr>) = vpn_inv v" "vpn_inv (v\<lparr>v_callback := y\<rparr>) = vpn_inv v"
  by (simp_all add: vpn_inv_def)

lemma cleanup_inv: "\<not> v_isStopping v \<Longrightarrow> vpn_inv (cleanupResources v)"
  by (simp add: cleanupResources_def vpn_inv_def)

lemma vpn_run_outcome:
  assumes "vpn_run si fc c v e = Ok (r, sent, v1, e1)" and "\<not> v_isStopping v"
  shows "vpn_inv v1 \<and> (r = ErrorReply \<or> r = Connected \<and> v_isRunning v1)"
proof -
  from assms(1) obtain r0 s0 c1 e0 where
    "Start (outbound_dial (fc_SecretKey fc) (si_dial si)) (si_conn si) c e = Ok (r0, s0, c1, e0)"
    by (auto simp: vpn_run_def bindR_eq_Ok)
  with assms show ?thesis
    by (auto simp: vpn_run_def vpn_inv_def intro: cleanup_inv split: if_splits)
      (simp_all add: cleanupResources_def)
qed

lemma StartVPN_outcome:
  assumes "StartVPN si v e = Ok (r, sent, v1, e1)" and "vpn_inv v"
  shows "vpn_inv v1 \<and> r \<in> {ErrorReply, Connected, AlreadyConnected} \<and>
    (r = Connected \<longrightarrow> \<not> v_isRunning v \<and> v_isRunning v1) \<and> (r = AlreadyConnected \<longleftrightarrow> v_isRunning v)"
proof (cases "v_isRunning v")
  case True
  with assms show ?thesis by (auto simp: StartVPN_def vpn_inv_def)
next
  case False
  then have stop: "\<not> v_isStopping v" using assms(2) by (simp add: vpn_inv_def)
  show ?thesis
  proof (cases "si_config si")
    case None
    with False stop assms show ?thesis by (auto simp: StartVPN_def)
  next
    case (Some fc)
    show ?thesis
    proof (cases "fc_Server fc = [] \<or> fc_SecretKey fc = []")
      case True
      with False stop Some assms show ?thesis by (auto simp: StartVPN_def split: if_splits)
    next
      case ne: False
      with False stop Some assms(1) obtain cl e0 where
        new: "NewClient (vpn_client_config fc) e = Ok (cl, e0)"
        by (cases "NewClient (vpn_client_config fc) e") (auto simp: StartVPN_def Let_def)
      show ?thesis
      proof (cases cl)
        case None
        with new ne False stop Some assms show ?thesis
          by (auto simp: StartVPN_def vpn_inv_def)
      next
        case (Some c)
        let ?v = "v\<lparr>v_serverIP := fc_Server fc, v_tickers := v_tickers v + 1\<rparr>"
        have inv: "vpn_inv ?v" using assms(2) by (simp add: vpn_inv_def)
        from assms(1) False stop \<open>si_config si = Some fc\<close> ne new Some consider
            "v1 = ?v" "r = ErrorReply"
          | "v1 = cleanupResources (?v\<lparr>v_tun := False\<rparr>)" "r = ErrorReply"
          | u where "vpn_run si fc c u e0 = Ok (r, sent, v1, e1)" "u = ?v \<or> u = ?v\<lparr>v_tun := True\<rparr>"
          by (auto simp: StartVPN_def Let_def split: if_splits)
        then show ?thesis
        proof cases
          case 1
          with inv False show ?thesis by simp
        next
          case 2
          with False stop show ?thesis by (simp add: cleanup_inv)
        next
          case 3
          then have "\<not> v_isStopping u" using stop by auto
          from vpn_run_outcome [OF 3(1) this] False show ?thesis by auto
        qed
      qed
    qed
  qed
qed

lemma StopVPN_outcome:
  assumes "StopVPN b v e = Some (Ok (r, cl, v1, e1))" and "vpn_inv v"
  shows "vpn_inv v1 \<and> \<not> v_isRunning v1 \<and> r = Disconnected"
proof (cases "v_isRunning v")
  case True
  with assms show ?thesis
    by (auto simp: StopVPN_def vpn_inv_def bindO_eq_Ok split: if_splits)
qed (use assms in \<open>auto simp: StopVPN_def\<close>)

lemma vpn_reach_inv: "vpn_reach v \<Longrightarrow> vpn_inv v"
proof (induction rule: vpn_reach.induct)
  case init
  then show ?case by (simp add: vpn_init_def vpn_inv_def)
next
  case (startvpn v si e r sent v1 e1)
  then show ?case using StartVPN_outcome by blast
next
  case (stopvpn v b e r cl v1 e1)
  then show ?case using StopVPN_outcome by blast
next
  case (tun_fd v os ok1 ok2)
  then show ?case by (auto simp: SetTunFileDescriptor_def Let_def)
next
  case (callback v cb)
  then show ?case by (simp add: Export_SetOnPacketCallback_def)
next
  case (write_tun v d e v1 e1)
  then show ?case
    by (auto simp: WriteTUN_def vpn_inv_def bindR_eq_Ok split: option.splits if_splits)
qed (simp add: vpn_inv_def)

text \<open>C11: Whatever the application calls, the interface is running exactly when it has a client and a
  stop channel; it never answers that a stop is in progress, and a stop that returns leaves
  it stopped: the flag that guards against overlapping stops is never seen set.\<close>

theorem vpn_state_is_consistent:
  assumes "vpn_reach v"
  shows "(v_isRunning v \<longleftrightarrow> v_client v \<noteq> None) \<and> (v_isRunning v \<longleftrightarrow> v_stopChan v) \<and>
    \<not> v_isStopping v \<and>
    (\<forall>si e r sent v1 e1. StartVPN si v e = Ok (r, sent, v1, e1) \<longrightarrow>
      r \<noteq> StopInProgress \<and> (r = AlreadyConnected \<longleftrightarrow> v_isRunning v) \<and>
      (r = Connected \<longrightarrow> v_isRunning v1)) \<and>
    (\<forall>b e r cl v1 e1. StopVPN b v e = Some (Ok (r, cl, v1, e1)) \<longrightarrow> \<not> v_isRunning v1)"
proof -
  from vpn_reach_inv [OF assms] have inv: "vpn_inv v" .
  have "r \<noteq> StopInProgress \<and> (r = AlreadyConnected \<longleftrightarrow> v_isRunning v) \<and> (r = Connected \<longrightarrow> v_isRunning v1)"
    if "StartVPN si v e = Ok (r, sent, v1, e1)" for si e r sent v1 e1
    using StartVPN_outcome [OF that inv] by auto
  moreover have "\<not> v_isRunning v1" if "StopVPN b v e = Some (Ok (r, cl, v1, e1))" for b e r cl v1 e1
    using StopVPN_outcome [OF that inv] by blast
  ultimately show ?thesis using inv unfolding vpn_inv_def by blast
qed

lemma vpn_state_is_consistent_witness:
  "\<not> v_isStopping (snd (SetTunFileDescriptor Android True True vpn_init))"
  using vpn_state_is_consistent [OF vpn_reach.tun_fd [OF vpn_reach.init, of Android True True]]
  by blast

section \<open>From the application to the server\<close>

lemma parse_mode_range: "0 \<le> parse_mode m \<and> parse_mode m < 4294967296"
  by (simp add: parse_mode_def)

lemma vpn_config_tunnel_ok:
  assumes "hd (parse_modes (fc_Modes fc)) \<in> plain_modes" and "length (fc_Modes fc) < 256"
  shows "tunnel_ok (vpn_client_config fc)"
proof -
  have "0 < md \<and> md < 4294967296" if "md \<in> plain_modes" for md
    using that by (auto simp: plain_modes_def codec_modes_def)
  then show ?thesis
    using assms parse_mode_range
    by (auto simp: tunnel_ok_def params_ok_def vpn_client_config_def parse_modes_def list_all_iff
        intro: exI [of _ 86400])
qed

lemma StartVPN_runs:
  assumes "vpn_inv v" and "\<not> v_isRunning v" and "fc_Server fc \<noteq> []" and "aes_key_ok (fc_SecretKey fc)"
    and "NewClient (vpn_client_config fc) e = Ok (Some c, e0)"
    and "Start (Ok ()) conn c e0 = Ok (Ok (), sent, c1, e1)"
  shows "\<exists>v1. StartVPN \<lparr>si_os = os, si_config = Some fc, si_tun_new = True, si_tun_ip = True,
        si_dial = Ok (), si_conn = conn, si_connected = True\<rparr> v e = Ok (Connected, sent, v1, e1) \<and>
    v_client v1 = Some (SetOnPacket c1)"
proof -
  from assms(4) have "fc_SecretKey fc \<noteq> []" "outbound_dial (fc_SecretKey fc) (Ok ()) = Ok ()"
    by (auto simp: aes_key_ok_def outbound_dial_def NewAEADCipher_def)
  with assms show ?thesis
    by (cases "os = Windows") (simp_all add: StartVPN_def vpn_run_def vpn_inv_def Let_def)
qed

text \<open>C12: A start with a key of AES length and a first mode that carries payloads is answered by a
  server that has the same key and has seen nothing yet: the reply is that it is connected,
  and client and server then stand at the two ends of an open tunnel.\<close>

theorem startvpn_opens_the_tunnel:
  assumes "vpn_reach v" and "\<not> v_isRunning v" and "fc_Server fc \<noteq> []" and "aes_key_ok (fc_SecretKey fc)"
    and "hd (parse_modes (fc_Modes fc)) \<in> plain_modes" and "length (fc_Modes fc) < 256"
    and "hm_authKey (sv_handshake sv) = fc_SecretKey fc" and "s_LastSeen (hm_state (sv_handshake sv)) = []"
  shows "\<exists>a b v1 e1 c sv1 e2.
    StartVPN \<lparr>si_os = os, si_config = Some fc, si_tun_new = True, si_tun_ip = True, si_dial = Ok (),
        si_conn = direct b, si_connected = True\<rparr> v e = Ok (Connected, replicate 3 a, v1, e1) \<and>
    handleConnection (direct a) sv es = Ok (Some (length (sv_objects sv)), replicate 3 b, sv1, e2) \<and>
    v_client v1 = Some c \<and> tunnel_up (hd (parse_modes (fc_Modes fc))) c (length (sv_objects sv)) sv1"
proof -
  let ?cfg = "vpn_client_config fc" and ?k = "length (sv_objects sv)"
  let ?md = "hd (parse_modes (fc_Modes fc))"
  have "cc_AuthKey ?cfg \<noteq> []" using assms(4) by (auto simp: vpn_client_config_def aes_key_ok_def)
  then obtain c e0 where c: "NewClient ?cfg e = Ok (Some c, e0)" using NewClient_total by blast
  have cfg: "cc_AuthKey ?cfg = fc_SecretKey fc" "cc_Modes ?cfg = parse_modes (fc_Modes fc)"
    by (simp_all add: vpn_client_config_def)
  from tunnel_opens [OF c vpn_config_tunnel_ok [OF assms(5,6)], of sv e0 es] assms(7,8)
  obtain a b c1 e2 sv1 e3 where o:
    "Start (Ok ()) (direct b) c e0 = Ok (Ok (), replicate 3 a, c1, e2)"
    "handleConnection (direct a) sv es = Ok (Some ?k, replicate 3 b, sv1, e3)"
    "cl_connected c1" "cl_conn c1" "cl_write_error c1 = None" "in_step ?md (cl_session c1)"
    "length (sv_objects sv1) = Suc ?k" "in_step ?md (sc_Session (sv_objects sv1 ! ?k))"
    by (auto simp: cfg Let_def)
  note StartVPN_runs [OF vpn_reach_inv [OF assms(1)] assms(2-4) c o(1), of os]
  moreover have "tunnel_up ?md (SetOnPacket c1) ?k sv1"
    using o by (simp add: tunnel_up_def SetOnPacket_def)
  ultimately show ?thesis using o(2) by blast
qed

lemma startvpn_opens_the_tunnel_witness:
  "\<exists>a b v1 e1 c sv1 e2. StartVPN \<lparr>si_os = Windows,
        si_config = Some \<lparr>fc_Server = ''host'', fc_SecretKey = replicate 32 7, fc_Cipher = [], fc_MTU = 0,
          fc_Modes = [], fc_SplitTunnel = False\<rparr>,
        si_tun_new = True, si_tun_ip = True, si_dial = Ok (), si_conn = direct b, si_connected = True\<rparr>
      vpn_init env0 = Ok (Connected, replicate 3 a, v1, e1) \<and>
    handleConnection (direct a) (server0\<lparr>sv_handshake := manager0\<lparr>hm_authKey := replicate 32 7\<rparr>\<rparr>) env0 =
      Ok (Some 0, replicate 3 b, sv1, e2) \<and> v_client v1 = Some c \<and> tunnel_up ModeVK c 0 sv1"
  using startvpn_opens_the_tunnel [OF vpn_reach.init, of "\<lparr>fc_Server = ''host'',
      fc_SecretKey = replicate 32 7, fc_Cipher = [], fc_MTU = 0, fc_Modes = [], fc_SplitTunnel = False\<rparr>"
      "server0\<lparr>sv_handshake := manager0\<lparr>hm_authKey := replicate 32 7\<rparr>\<rparr>" Windows env0 env0]
  by (simp add: vpn_init_def aes_key_ok_def parse_modes_def plain_modes_def codec_modes_def server0_def)

text \<open>C13: A stop of a connected client, when the waits in it end, writes one packet three times, and that packet,
  whatever its signature, ends the connection of any server that reads it: the connection is closed and
  taken out of the table. It leaves the client stopped, neither connected nor past its handshake and with its
  connection closed, and the interface without a client and not running. Whether the waits end is a property of its own, at the end of this theory.\<close>

theorem stopvpn_ends_the_connection:
  assumes "vpn_reach v" and "v_client v = Some c" and "cl_connected c" and "cl_conn c"
    and "\<not> cl_stopped c" and "cl_write_error c = None" and "cl_authKey c \<noteq> []" and "v_readerDone v \<longrightarrow> reader_ends"
  shows "\<exists>pkt c1 v1 e1. StopVPN reader_ends v e = Some (Ok (Disconnected, Some c1, v1, e1)) \<and>
    cl_sent c1 = cl_sent c @ [pkt, pkt, pkt] \<and>
    cl_stopped c1 \<and> \<not> cl_connected c1 \<and> \<not> cl_handshakeDone c1 \<and> cl_write_error c1 = Some NetClosed \<and>
    v_client v1 = None \<and> \<not> v_isRunning v1 \<and>
    (\<forall>k sv es. handle_packet k pkt sv es = Some (Ok (end_connection k sv, es)))"
proof -
  from vpn_reach_inv [OF assms(1)] assms(2) have v: "v_isRunning v" "\<not> v_isStopping v"
    by (auto simp: vpn_inv_def)
  let ?cfg = "ss_MaskConfig (cl_session c)"
  obtain h e1 where h: "NewHandshake HandshakeFin (SwitchInterval ?cfg) (Modes ?cfg) (CurrentMode ?cfg)
      (of_int (GetCurrentMode (ss_LocalMixer (cl_session c)))) e = (h, e1)"
    by (metis prod.collapse)
  then have head: "h_Magic h = [0xDE, 0xAD, 0xBE, 0xEF]" "h_Type h = 3"
    by (auto simp: NewHandshake_def Let_def split: prod.splits)
  obtain hm where hm: "NewHandshakeManager (cl_authKey c) (5 * second) = Ok hm"
    using NewHandshakeManager_total by blast
  let ?pkt = "Encode h @ Sign hm (Encode h)"
  have "is_fin ?pkt" using head by (simp add: is_fin_def Encode_def encode_head_def)
  then have fin: "handle_packet k ?pkt sv es = Some (Ok (end_connection k sv, es))" for k sv es
    by (auto simp: handle_packet_def is_fin_def)
  have "send_fin c e = Ok (write_thrice ?pkt c, e1)"
    using assms(3,4,7) h hm by (auto simp: send_fin_def fin_packet_def Let_def)
  moreover have "Client_Stop (write_thrice ?pkt c) = c\<lparr>cl_sent := cl_sent c @ [?pkt, ?pkt, ?pkt], cl_connected := False,
      cl_handshakeDone := False, cl_stopped := True, cl_write_error := Some NetClosed\<rparr>"
    using assms(3-6) by (simp add: write_thrice_def client_write_def Client_Stop_def)
  ultimately show ?thesis
    using v assms(2,8) fin by (auto simp: StopVPN_def)
qed

lemma vpn_can_run: "\<exists>v. vpn_reach v \<and> v_client v = Some c \<and> (v_readerDone v \<longrightarrow> False)"
proof -
  let ?fc = "\<lparr>fc_Server = ''host'', fc_SecretKey = replicate 32 7, fc_Cipher = [], fc_MTU = 0,
    fc_Modes = [], fc_SplitTunnel = False\<rparr>"
  let ?sv = "server0\<lparr>sv_handshake := manager0\<lparr>hm_authKey := replicate 32 7\<rparr>\<rparr>"
  have ok: "tunnel_ok (vpn_client_config ?fc)"
    by (rule vpn_config_tunnel_ok) (simp_all add: parse_modes_def plain_modes_def codec_modes_def)
  obtain c0 e0 where c0: "NewClient (vpn_client_config ?fc) env0 = Ok (Some c0, e0)"
    using NewClient_total [of "vpn_client_config ?fc" env0] by (auto simp: vpn_client_config_def)
  from tunnel_opens [OF c0 ok, of ?sv e0 env0] obtain a b c1 e2 where
    "Start (Ok ()) (direct b) c0 e0 = Ok (Ok (), replicate 3 a, c1, e2)"
    by (auto simp: vpn_client_config_def)
  from StartVPN_runs [OF vpn_reach_inv [OF vpn_reach.init] _ _ _ c0 this, of Android] obtain v1 where
    run: "StartVPN \<lparr>si_os = Android, si_config = Some ?fc, si_tun_new = True, si_tun_ip = True,
        si_dial = Ok (), si_conn = direct b, si_connected = True\<rparr> vpn_init env0 =
      Ok (Connected, replicate 3 a, v1, e2)" "v_client v1 = Some (SetOnPacket c1)"
    by (auto simp: vpn_init_def aes_key_ok_def)
  then have "\<not> v_readerDone v1"
    by (auto simp: StartVPN_def vpn_run_def vpn_init_def bindR_eq_Ok cleanupResources_def Let_def
        stop_client_def split: option.splits if_splits)
  with vpn_reach.goroutine [OF vpn_reach.startvpn [OF vpn_reach.init run(1)] run(2), of c]
  show ?thesis by (intro exI [of _ "v1\<lparr>v_client := Some c\<rparr>"]) simp
qed

lemma stopvpn_ends_the_connection_witness:
  "\<exists>v c1 v1 e1. v_client v = Some (client1\<lparr>cl_authKey := key0\<rparr>) \<and>
    StopVPN True v env0 = Some (Ok (Disconnected, Some c1, v1, e1)) \<and> cl_stopped c1 \<and> \<not> v_isRunning v1"
proof -
  obtain v where v: "vpn_reach v" "v_client v = Some (client1\<lparr>cl_authKey := key0\<rparr>)"
    using vpn_can_run by blast
  from stopvpn_ends_the_connection [OF v, of True env0] client1_up v(2) show ?thesis
    by (auto simp: tunnel_up_def key0_def client1_def)
qed

section \<open>What is left behind\<close>

text \<open>A start that fails to connect leaves a heartbeat goroutine running that nothing stops: the
  client it belongs to is forgotten, a later stop finds nothing to do, and every further
  failure adds another.\<close>

theorem failed_start_leaves_a_heartbeat:
  assumes "vpn_reach v" and "\<not> v_isRunning v" and "si_config si = Some fc" and "fc_Server fc \<noteq> []"
    and "fc_SecretKey fc \<noteq> []" and "si_dial si = Fail err"
  shows "\<exists>v1 e1. StartVPN si v e = Ok (ErrorReply, [], v1, e1) \<and> v_tickers v1 = v_tickers v + 1 \<and>
    v_client v1 = None \<and> StopVPN b v1 e2 = Some (Ok (Disconnected, None, v1, e2))"
proof -
  from vpn_reach_inv [OF assms(1)] assms(2) have v: "\<not> v_isStopping v" "v_client v = None"
    by (auto simp: vpn_inv_def)
  obtain c e0 where c: "NewClient (vpn_client_config fc) e = Ok (Some c, e0)"
    using NewClient_total [of "vpn_client_config fc" e] assms(5) by (auto simp: vpn_client_config_def)
  have nc: "\<not> cl_connected c"
    using c by (auto simp: NewClient_def bindR_eq_Ok split: if_splits prod.splits)
  obtain err1 where dial: "outbound_dial (fc_SecretKey fc) (si_dial si) = Fail err1"
    using assms(6) by (cases "aes_key_ok (fc_SecretKey fc)") (simp_all add: outbound_dial_def NewAEADCipher_def)
  have key: "fc_SecretKey fc \<noteq> []" by fact
  have start: "StartVPN si v e = (if si_os si = Windows \<and> \<not> si_tun_new si
      then Ok (ErrorReply, [], v\<lparr>v_serverIP := fc_Server fc, v_tickers := v_tickers v + 1\<rparr>, e0)
      else Ok (ErrorReply, [], cleanupResources (v\<lparr>v_serverIP := fc_Server fc,
        v_tickers := v_tickers v + 1, v_tun := False\<rparr>), e0))"
    using assms(2-4) v c nc dial key
    by (simp add: StartVPN_def vpn_run_def Start_def Let_def cleanupResources_def)
  show ?thesis
    unfolding start using v assms(2)
    by (auto simp: cleanupResources_def stop_client_def StopVPN_def)
qed

lemma failed_start_leaves_a_heartbeat_witness:
  "\<exists>v1 e1. StartVPN \<lparr>si_os = OtherOS, si_config = Some \<lparr>fc_Server = ''host'', fc_SecretKey = key0,
        fc_Cipher = [], fc_MTU = 0, fc_Modes = [], fc_SplitTunnel = False\<rparr>, si_tun_new = True,
        si_tun_ip = True, si_dial = Fail OtherError, si_conn = direct [], si_connected = False\<rparr>
      vpn_init env0 = Ok (ErrorReply, [], v1, e1) \<and> v_tickers v1 = 1"
  using failed_start_leaves_a_heartbeat [OF vpn_reach.init, of "\<lparr>si_os = OtherOS,
      si_config = Some \<lparr>fc_Server = ''host'', fc_SecretKey = key0, fc_Cipher = [], fc_MTU = 0,
        fc_Modes = [], fc_SplitTunnel = False\<rparr>, si_tun_new = True, si_tun_ip = True,
      si_dial = Fail OtherError, si_conn = direct [], si_connected = False\<rparr>"
      "\<lparr>fc_Server = ''host'', fc_SecretKey = key0, fc_Cipher = [], fc_MTU = 0, fc_Modes = [],
        fc_SplitTunnel = False\<rparr>" OtherError env0 True env0]
  by (auto simp: vpn_init_def key0_def)

section \<open>What a stop waits for\<close>

text \<open>C16: StopVPN waits for two goroutines: on Windows for the reader of the TUN device, then, in the client's Stop,
  for the client's read loop. From any state of the three the stop can still return exactly when neither wait is lost:
  the reader is not bound to crash, that is, the two variables have not become nil while it was neither inside the
  device nor gone; and Stop does not hold the client's lock when the read loop is about to take it. Both losses can be reached from a
  running tunnel; the first ends with the reader using a nil device, which takes down the application.\<close>

theorem stopvpn_returns_unless_a_wait_is_lost:
  assumes "reader_reach reader_running s"
  shows "((\<exists>t. reader_reach s t \<and> rs_stop t = Stopped) \<longleftrightarrow> \<not> bound_to_crash s \<and> \<not> doomed (rs_client s)) \<and>
    (bound_to_crash s \<longrightarrow> (\<exists>t. reader_reach s t \<and> rs_reader t = RCrash \<and> (\<forall>u. \<not> reader_step t u))) \<and>
    (\<exists>t. reader_reach reader_running t \<and> bound_to_crash t) \<and>
    (\<exists>t. reader_reach reader_running t \<and> doomed (rs_client t))"
proof -
  have inv: "reader_inv s" by (rule reader_reach_inv [OF assms reader_running_inv])
  show ?thesis
    using stop_returns_iff [OF inv] bound_crashes [OF _ inv] nothing_after_a_crash
      bound_to_crash_reachable doomed_client_reachable by blast
qed

lemma stopvpn_returns_unless_a_wait_is_lost_witness:
  "\<exists>t. reader_reach reader_running t \<and> rs_stop t = Stopped"
proof -
  have "\<not> bound_to_crash reader_running" "\<not> doomed (rs_client reader_running)"
    by (simp_all add: bound_to_crash_def reader_running_def doomed_def running_def)
  with stopvpn_returns_unless_a_wait_is_lost [OF reader_reach.start] show ?thesis by blast
qed

end
