(* ===== verification/Subnets.thy ===== *)
theory Subnets
  imports HttpMasks
begin

text \<open>
  The table \<open>RussianSubnets\<close> of \<open>internal/tun/routes.go\<close>, in eight parts: each entry is the
  text of the four numbers of an address and the length of a prefix.
\<close>

type_synonym subnet = "nat \<times> nat \<times> nat \<times> nat \<times> nat"

fun cidr :: "subnet \<Rightarrow> string" where
  "cidr (a, b, c, d, l) =
     decimal a @ ''.'' @ decimal b @ ''.'' @ decimal c @ ''.'' @ decimal d @ ''/'' @ decimal l"

definition subnets1 :: "subnet list" where
  "subnets1 =
    [(5, 44, 0, 0, 14), (5, 136, 0, 0, 13), (5, 228, 0, 0, 15), (31, 13, 0, 0, 16),
     (31, 28, 0, 0, 17), (31, 41, 0, 0, 16), (31, 44, 0, 0, 16), (31, 130, 0, 0, 15),
     (31, 162, 0, 0, 15), (31, 170, 0, 0, 15), (31, 180, 0, 0, 14), (31, 184, 0, 0, 16),
     (37, 0, 0, 0, 15), (37, 8, 0, 0, 13), (37, 16, 0, 0, 15), (37, 18, 0, 0, 15),
     (37, 20, 0, 0, 14), (37, 24, 0, 0, 13), (37, 32, 0, 0, 13), (37, 44, 0, 0, 15),
     (37, 46, 0, 0, 15), (37, 48, 0, 0, 14), (37, 52, 0, 0, 14), (37, 56, 0, 0, 13),
     (37, 72, 0, 0, 13), (37, 98, 0, 0, 15), (37, 99, 0, 0, 16), (37, 110, 0, 0, 15),
     (37, 112, 0, 0, 12), (37, 139, 0, 0, 16), (37, 140, 0, 0, 14), (37, 144, 0, 0, 13),
     (37, 153, 0, 0, 16), (37, 157, 0, 0, 16), (37, 190, 0, 0, 15), (37, 192, 0, 0, 12),
     (37, 208, 0, 0, 12), (37, 220, 0, 0, 14), (37, 228, 0, 0, 14), (37, 232, 0, 0, 14),
     (37, 252, 0, 0, 14), (46, 0, 0, 0, 14), (46, 8, 0, 0, 13), (46, 16, 0, 0, 13),
     (46, 28, 0, 0, 14), (46, 32, 0, 0, 13), (46, 40, 0, 0, 13), (46, 48, 0, 0, 12),
     (46, 72, 0, 0, 13), (46, 80, 0, 0, 12), (46, 96, 0, 0, 11), (46, 138, 0, 0, 15),
     (46, 146, 0, 0, 15), (46, 148, 0, 0, 14), (46, 152, 0, 0, 13), (46, 160, 0, 0, 12),
     (46, 180, 0, 0, 14), (46, 188, 0, 0, 14), (46, 200, 0, 0, 13), (46, 211, 0, 0, 16),
     (46, 226, 0, 0, 16), (46, 242, 0, 0, 15), (46, 250, 0, 0, 15), (46, 254, 0, 0, 15),
     (62, 16, 0, 0, 12), (62, 32, 0, 0, 12), (62, 48, 0, 0, 12), (62, 64, 0, 0, 11),
     (62, 96, 0, 0, 14), (62, 105, 0, 0, 16), (62, 106, 0, 0, 15), (62, 109, 0, 0, 16),
     (62, 112, 0, 0, 14), (62, 118, 0, 0, 15), (62, 122, 0, 0, 15), (62, 140, 0, 0, 14),
     (62, 148, 0, 0, 14), (62, 152, 0, 0, 13), (62, 176, 0, 0, 12), (62, 192, 0, 0, 12),
     (62, 205, 0, 0, 16), (62, 213, 0, 0, 16), (62, 217, 0, 0, 16), (62, 231, 0, 0, 16),
     (62, 249, 0, 0, 16), (77, 34, 0, 0, 15), (77, 36, 0, 0, 14), (77, 40, 0, 0, 13),
     (77, 48, 0, 0, 12), (77, 65, 0, 0, 16), (77, 66, 0, 0, 15), (77, 72, 0, 0, 14),
     (77, 79, 0, 0, 16), (77, 82, 0, 0, 15), (77, 84, 0, 0, 14), (77, 88, 0, 0, 14),
     (77, 92, 0, 0, 15), (77, 94, 0, 0, 15), (77, 106, 0, 0, 15), (77, 108, 0, 0, 14),
     (77, 120, 0, 0, 13), (77, 222, 0, 0, 14), (77, 232, 0, 0, 14), (77, 236, 0, 0, 15),
     (77, 238, 0, 0, 15), (77, 239, 0, 0, 16), (77, 240, 0, 0, 14), (77, 244, 0, 0, 14),
     (77, 248, 0, 0, 13), (78, 24, 0, 0, 13), (78, 36, 0, 0, 15), (78, 40, 0, 0, 14),
     (78, 80, 0, 0, 12), (78, 106, 0, 0, 15), (78, 108, 0, 0, 14), (78, 110, 0, 0, 15),
     (78, 132, 0, 0, 15), (78, 138, 0, 0, 15), (78, 140, 0, 0, 14), (78, 142, 0, 0, 15),
     (78, 153, 0, 0, 16), (78, 155, 0, 0, 16), (78, 157, 0, 0, 16), (79, 98, 0, 0, 15),
     (79, 104, 0, 0, 13), (79, 120, 0, 0, 14), (79, 124, 0, 0, 14), (79, 133, 0, 0, 16),
     (79, 134, 0, 0, 15), (79, 136, 0, 0, 13), (79, 164, 0, 0, 14), (79, 168, 0, 0, 12),
     (79, 184, 0, 0, 13), (80, 64, 0, 0, 12)]"

definition subnets2 :: "subnet list" where
  "subnets2 =
    [(80, 80, 0, 0, 14), (80, 84, 0, 0, 14), (80, 88, 0, 0, 13), (80, 96, 0, 0, 11),
     (80, 128, 0, 0, 10), (80, 192, 0, 0, 11), (80, 224, 0, 0, 12), (80, 240, 0, 0, 14),
     (81, 1, 0, 0, 16), (81, 2, 0, 0, 15), (81, 4, 0, 0, 14), (81, 9, 0, 0, 16),
     (81, 11, 0, 0, 16), (81, 13, 0, 0, 16), (81, 16, 0, 0, 13), (81, 24, 0, 0, 13),
     (81, 88, 0, 0, 14), (81, 94, 0, 0, 14), (81, 95, 0, 0, 16), (81, 161, 0, 0, 16),
     (81, 162, 0, 0, 15), (81, 163, 0, 0, 16), (81, 176, 0, 0, 12), (81, 192, 0, 0, 12),
     (81, 222, 0, 0, 15), (82, 96, 0, 0, 12), (82, 112, 0, 0, 13), (82, 140, 0, 0, 14),
     (82, 144, 0, 0, 13), (82, 162, 0, 0, 15), (82, 179, 0, 0, 16), (82, 194, 0, 0, 15),
     (82, 200, 0, 0, 13), (82, 208, 0, 0, 12), (83, 69, 0, 0, 16), (83, 102, 0, 0, 15),
     (83, 136, 0, 0, 13), (83, 146, 0, 0, 15), (83, 149, 0, 0, 16), (83, 150, 0, 0, 15),
     (83, 166, 0, 0, 15), (83, 169, 0, 0, 16), (83, 170, 0, 0, 15), (83, 172, 0, 0, 14),
     (83, 219, 0, 0, 16), (83, 220, 0, 0, 14), (83, 234, 0, 0, 15), (83, 237, 0, 0, 16),
     (83, 239, 0, 0, 16), (83, 242, 0, 0, 15), (84, 16, 0, 0, 13), (84, 42, 0, 0, 15),
     (84, 47, 0, 0, 16), (84, 51, 0, 0, 16), (84, 52, 0, 0, 12), (84, 201, 0, 0, 16),
     (84, 204, 0, 0, 14), (84, 234, 0, 0, 15), (84, 237, 0, 0, 16), (84, 242, 0, 0, 15),
     (84, 252, 0, 0, 14), (85, 12, 0, 0, 14), (85, 26, 0, 0, 15), (85, 28, 0, 0, 14),
     (85, 88, 0, 0, 13), (85, 113, 0, 0, 16), (85, 114, 0, 0, 15), (85, 118, 0, 0, 14),
     (85, 140, 0, 0, 14), (85, 172, 0, 0, 15), (85, 174, 0, 0, 15), (85, 192, 0, 0, 12),
     (85, 232, 0, 0, 13), (85, 249, 0, 0, 16), (85, 254, 0, 0, 15), (87, 76, 0, 0, 14),
     (87, 103, 0, 0, 16), (87, 110, 0, 0, 15), (87, 117, 0, 0, 16), (87, 119, 0, 0, 16),
     (87, 224, 0, 0, 14), (87, 228, 0, 0, 14), (87, 240, 0, 0, 13), (87, 249, 0, 0, 16),
     (88, 80, 0, 0, 13), (88, 147, 0, 0, 16), (88, 200, 0, 0, 13), (88, 210, 0, 0, 15),
     (88, 212, 0, 0, 15), (88, 214, 0, 0, 15), (89, 16, 0, 0, 12), (89, 32, 0, 0, 12),
     (89, 64, 0, 0, 12), (89, 104, 0, 0, 13), (89, 110, 0, 0, 15), (89, 112, 0, 0, 13),
     (89, 169, 0, 0, 16), (89, 175, 0, 0, 16), (89, 178, 0, 0, 15), (89, 188, 0, 0, 14),
     (89, 208, 0, 0, 13), (89, 222, 0, 0, 15), (89, 223, 0, 0, 16), (90, 150, 0, 0, 15),
     (90, 156, 0, 0, 14), (91, 76, 0, 0, 14), (91, 102, 0, 0, 16), (91, 103, 0, 0, 16),
     (91, 105, 0, 0, 16), (91, 106, 0, 0, 15), (91, 108, 0, 0, 15), (91, 122, 0, 0, 15),
     (91, 124, 0, 0, 15), (91, 126, 0, 0, 15), (91, 142, 0, 0, 15), (91, 144, 0, 0, 12),
     (91, 185, 0, 0, 16), (91, 186, 0, 0, 15), (91, 188, 0, 0, 14), (91, 192, 0, 0, 12),
     (91, 210, 0, 0, 14), (91, 214, 0, 0, 15), (91, 216, 0, 0, 14), (91, 220, 0, 0, 14),
     (91, 224, 0, 0, 13), (91, 232, 0, 0, 14), (91, 236, 0, 0, 15), (91, 238, 0, 0, 15),
     (91, 239, 0, 0, 16), (91, 240, 0, 0, 13), (92, 36, 0, 0, 14), (92, 38, 0, 0, 15),
     (92, 39, 0, 0, 16), (92, 40, 0, 0, 13)]"

definition subnets3 :: "subnet list" where
  "subnets3 =
    [(92, 48, 0, 0, 14), (92, 50, 0, 0, 15), (92, 52, 0, 0, 14), (92, 60, 0, 0, 14),
     (92, 63, 0, 0, 16), (92, 100, 0, 0, 15), (92, 124, 0, 0, 14), (92, 240, 0, 0, 14),
     (92, 242, 0, 0, 15), (92, 244, 0, 0, 14), (92, 248, 0, 0, 13), (93, 80, 0, 0, 12),
     (93, 100, 0, 0, 14), (93, 120, 0, 0, 13), (93, 153, 0, 0, 16), (93, 157, 0, 0, 16),
     (93, 158, 0, 0, 15), (93, 170, 0, 0, 15), (93, 171, 0, 0, 16), (93, 172, 0, 0, 14),
     (93, 176, 0, 0, 12), (93, 191, 0, 0, 16), (94, 19, 0, 0, 16), (94, 25, 0, 0, 16),
     (94, 28, 0, 0, 14), (94, 41, 0, 0, 16), (94, 50, 0, 0, 15), (94, 72, 0, 0, 13),
     (94, 124, 0, 0, 15), (94, 126, 0, 0, 15), (94, 140, 0, 0, 14), (94, 180, 0, 0, 15),
     (94, 188, 0, 0, 15), (94, 190, 0, 0, 15), (94, 228, 0, 0, 14), (94, 232, 0, 0, 15),
     (94, 237, 0, 0, 16), (94, 241, 0, 0, 16), (94, 242, 0, 0, 15), (94, 244, 0, 0, 14),
     (94, 248, 0, 0, 13), (95, 24, 0, 0, 13), (95, 32, 0, 0, 12), (95, 52, 0, 0, 13),
     (95, 64, 0, 0, 12), (95, 78, 0, 0, 15), (95, 82, 0, 0, 15), (95, 84, 0, 0, 14),
     (95, 104, 0, 0, 13), (95, 128, 0, 0, 12), (95, 142, 0, 0, 15), (95, 146, 0, 0, 15),
     (95, 152, 0, 0, 13), (95, 158, 0, 0, 15), (95, 160, 0, 0, 12), (95, 176, 0, 0, 12),
     (95, 208, 0, 0, 12), (128, 68, 0, 0, 14), (128, 72, 0, 0, 13), (128, 140, 0, 0, 14),
     (130, 193, 0, 0, 16), (176, 8, 0, 0, 13), (176, 14, 0, 0, 15), (176, 32, 0, 0, 12),
     (176, 48, 0, 0, 13), (176, 56, 0, 0, 14), (176, 60, 0, 0, 14), (176, 64, 0, 0, 12),
     (176, 97, 0, 0, 16), (176, 99, 0, 0, 16), (176, 100, 0, 0, 14), (176, 104, 0, 0, 13),
     (176, 112, 0, 0, 12), (176, 208, 0, 0, 12), (176, 222, 0, 0, 15), (176, 224, 0, 0, 13),
     (176, 240, 0, 0, 14), (176, 244, 0, 0, 15), (178, 16, 0, 0, 12), (178, 32, 0, 0, 13),
     (178, 45, 0, 0, 16), (178, 46, 0, 0, 15), (178, 48, 0, 0, 12), (178, 64, 0, 0, 12),
     (178, 88, 0, 0, 14), (178, 128, 0, 0, 13), (178, 136, 0, 0, 13), (178, 144, 0, 0, 13),
     (178, 154, 0, 0, 15), (178, 159, 0, 0, 16), (178, 160, 0, 0, 12), (178, 176, 0, 0, 12),
     (178, 204, 0, 0, 14), (178, 208, 0, 0, 14), (178, 212, 0, 0, 14), (178, 216, 0, 0, 13),
     (178, 234, 0, 0, 15), (178, 236, 0, 0, 15), (178, 237, 0, 0, 16), (178, 238, 0, 0, 15),
     (178, 248, 0, 0, 14), (178, 252, 0, 0, 14), (185, 1, 0, 0, 16), (185, 3, 0, 0, 16),
     (185, 4, 0, 0, 16), (185, 5, 0, 0, 16), (185, 7, 0, 0, 16), (185, 8, 0, 0, 16),
     (185, 9, 0, 0, 16), (185, 10, 0, 0, 16), (185, 11, 0, 0, 16), (185, 12, 0, 0, 16),
     (185, 13, 0, 0, 16), (185, 14, 0, 0, 16), (185, 15, 0, 0, 16), (185, 16, 0, 0, 15),
     (185, 18, 0, 0, 16), (185, 19, 0, 0, 16), (185, 20, 0, 0, 16), (185, 21, 0, 0, 16),
     (185, 22, 0, 0, 16), (185, 23, 0, 0, 16), (185, 24, 0, 0, 16), (185, 25, 0, 0, 16),
     (185, 26, 0, 0, 16), (185, 27, 0, 0, 16), (185, 28, 0, 0, 16), (185, 29, 0, 0, 16),
     (185, 30, 0, 0, 16), (185, 31, 0, 0, 16), (185, 34, 0, 0, 16), (185, 35, 0, 0, 16),
     (185, 36, 0, 0, 16), (185, 37, 0, 0, 16)]"

definition subnets4 :: "subnet list" where
  "subnets4 =
    [(185, 38, 0, 0, 16), (185, 39, 0, 0, 16), (185, 40, 0, 0, 16), (185, 41, 0, 0, 16),
     (185, 42, 0, 0, 16), (185, 43, 0, 0, 16), (185, 44, 0, 0, 16), (185, 45, 0, 0, 16),
     (185, 46, 0, 0, 16), (185, 47, 0, 0, 16), (185, 48, 0, 0, 16), (185, 49, 0, 0, 16),
     (185, 50, 0, 0, 16), (185, 51, 0, 0, 16), (185, 52, 0, 0, 16), (185, 53, 0, 0, 16),
     (185, 54, 0, 0, 16), (185, 55, 0, 0, 16), (185, 56, 0, 0, 16), (185, 57, 0, 0, 16),
     (185, 58, 0, 0, 16), (185, 59, 0, 0, 16), (185, 60, 0, 0, 16), (185, 61, 0, 0, 16),
     (185, 62, 0, 0, 16), (185, 63, 0, 0, 16), (185, 64, 0, 0, 16), (185, 65, 0, 0, 16),
     (185, 66, 0, 0, 16), (185, 67, 0, 0, 16), (185, 68, 0, 0, 16), (185, 69, 0, 0, 16),
     (185, 70, 0, 0, 16), (185, 71, 0, 0, 16), (185, 72, 0, 0, 16), (185, 73, 0, 0, 16),
     (185, 74, 0, 0, 16), (185, 75, 0, 0, 16), (185, 76, 0, 0, 16), (185, 77, 0, 0, 16),
     (185, 78, 0, 0, 16), (185, 79, 0, 0, 16), (185, 80, 0, 0, 16), (185, 81, 0, 0, 16),
     (185, 82, 0, 0, 16), (185, 83, 0, 0, 16), (185, 84, 0, 0, 16), (185, 85, 0, 0, 16),
     (185, 86, 0, 0, 16), (185, 87, 0, 0, 16), (185, 88, 0, 0, 16), (185, 89, 0, 0, 16),
     (185, 90, 0, 0, 16), (185, 91, 0, 0, 16), (185, 92, 0, 0, 16), (185, 93, 0, 0, 16),
     (185, 94, 0, 0, 16), (185, 95, 0, 0, 16), (185, 96, 0, 0, 16), (185, 97, 0, 0, 16),
     (185, 98, 0, 0, 16), (185, 99, 0, 0, 16), (185, 100, 0, 0, 16), (185, 101, 0, 0, 16),
     (185, 102, 0, 0, 16), (185, 103, 0, 0, 16), (185, 104, 0, 0, 16), (185, 105, 0, 0, 16),
     (185, 106, 0, 0, 16), (185, 107, 0, 0, 16), (185, 108, 0, 0, 16), (185, 109, 0, 0, 16),
     (185, 110, 0, 0, 16), (185, 111, 0, 0, 16), (185, 112, 0, 0, 16), (185, 113, 0, 0, 16),
     (185, 114, 0, 0, 16), (185, 115, 0, 0, 16), (185, 116, 0, 0, 16), (185, 117, 0, 0, 16),
     (185, 118, 0, 0, 16), (185, 119, 0, 0, 16), (185, 120, 0, 0, 16), (185, 121, 0, 0, 16),
     (185, 122, 0, 0, 16), (185, 123, 0, 0, 16), (185, 124, 0, 0, 16), (185, 125, 0, 0, 16),
     (185, 126, 0, 0, 16), (185, 127, 0, 0, 16), (185, 128, 0, 0, 16), (185, 129, 0, 0, 16),
     (185, 130, 0, 0, 16), (185, 131, 0, 0, 16), (185, 132, 0, 0, 16), (185, 133, 0, 0, 16),
     (185, 134, 0, 0, 16), (185, 135, 0, 0, 16), (185, 136, 0, 0, 16), (185, 137, 0, 0, 16),
     (185, 138, 0, 0, 16), (185, 139, 0, 0, 16), (185, 140, 0, 0, 16), (185, 141, 0, 0, 16),
     (185, 142, 0, 0, 16), (185, 143, 0, 0, 16), (185, 144, 0, 0, 16), (185, 145, 0, 0, 16),
     (185, 146, 0, 0, 16), (185, 147, 0, 0, 16), (185, 148, 0, 0, 16), (185, 149, 0, 0, 16),
     (185, 150, 0, 0, 16), (185, 151, 0, 0, 16), (185, 152, 0, 0, 16), (185, 153, 0, 0, 16),
     (185, 154, 0, 0, 16), (185, 155, 0, 0, 16), (185, 156, 0, 0, 16), (185, 157, 0, 0, 16),
     (185, 158, 0, 0, 16), (185, 159, 0, 0, 16), (185, 160, 0, 0, 16), (185, 161, 0, 0, 16),
     (185, 162, 0, 0, 16), (185, 163, 0, 0, 16), (185, 164, 0, 0, 16), (185, 165, 0, 0, 16),
     (185, 166, 0, 0, 16), (185, 167, 0, 0, 16), (185, 168, 0, 0, 16), (185, 169, 0, 0, 16),
     (185, 170, 0, 0, 16), (185, 171, 0, 0, 16)]"

definition subnets5 :: "subnet list" where
  "subnets5 =
    [(185, 172, 0, 0, 16), (185, 173, 0, 0, 16), (185, 174, 0, 0, 16), (185, 175, 0, 0, 16),
     (185, 176, 0, 0, 16), (185, 177, 0, 0, 16), (185, 178, 0, 0, 16), (185, 179, 0, 0, 16),
     (185, 180, 0, 0, 16), (185, 181, 0, 0, 16), (185, 182, 0, 0, 16), (185, 183, 0, 0, 16),
     (185, 184, 0, 0, 16), (185, 185, 0, 0, 16), (185, 186, 0, 0, 16), (185, 187, 0, 0, 16),
     (185, 188, 0, 0, 16), (185, 189, 0, 0, 16), (185, 190, 0, 0, 16), (185, 191, 0, 0, 16),
     (185, 192, 0, 0, 14), (185, 196, 0, 0, 14), (185, 200, 0, 0, 14), (185, 204, 0, 0, 14),
     (185, 208, 0, 0, 14), (185, 212, 0, 0, 14), (185, 216, 0, 0, 14), (185, 220, 0, 0, 14),
     (185, 224, 0, 0, 14), (185, 228, 0, 0, 14), (185, 232, 0, 0, 14), (185, 236, 0, 0, 14),
     (185, 240, 0, 0, 14), (185, 244, 0, 0, 14), (185, 248, 0, 0, 14), (185, 252, 0, 0, 14),
     (188, 16, 0, 0, 14), (188, 32, 0, 0, 13), (188, 40, 0, 0, 14), (188, 44, 0, 0, 14),
     (188, 48, 0, 0, 12), (188, 64, 0, 0, 12), (188, 92, 0, 0, 14), (188, 96, 0, 0, 12),
     (188, 112, 0, 0, 13), (188, 120, 0, 0, 13), (188, 128, 0, 0, 11), (188, 162, 0, 0, 15),
     (188, 168, 0, 0, 13), (188, 186, 0, 0, 15), (188, 190, 0, 0, 15), (188, 192, 0, 0, 11),
     (188, 232, 0, 0, 13), (188, 242, 0, 0, 15), (188, 244, 0, 0, 14), (188, 254, 0, 0, 15),
     (193, 8, 0, 0, 16), (193, 16, 0, 0, 15), (193, 19, 0, 0, 16), (193, 23, 0, 0, 16),
     (193, 25, 0, 0, 16), (193, 27, 0, 0, 16), (193, 28, 0, 0, 16), (193, 29, 0, 0, 16),
     (193, 30, 0, 0, 16), (193, 31, 0, 0, 16), (193, 32, 0, 0, 15), (193, 34, 0, 0, 16),
     (193, 38, 0, 0, 16), (193, 39, 0, 0, 16), (193, 41, 0, 0, 16), (193, 47, 0, 0, 16),
     (193, 58, 0, 0, 16), (193, 84, 0, 0, 16), (193, 104, 0, 0, 16), (193, 105, 0, 0, 16),
     (193, 106, 0, 0, 16), (193, 107, 0, 0, 16), (193, 108, 0, 0, 16), (193, 109, 0, 0, 16),
     (193, 110, 0, 0, 16), (193, 111, 0, 0, 16), (193, 124, 0, 0, 16), (193, 148, 0, 0, 16),
     (193, 150, 0, 0, 16), (193, 151, 0, 0, 16), (193, 168, 0, 0, 16), (193, 169, 0, 0, 16),
     (193, 178, 0, 0, 16), (193, 179, 0, 0, 16), (193, 186, 0, 0, 16), (193, 188, 0, 0, 16),
     (193, 189, 0, 0, 16), (193, 192, 0, 0, 14), (193, 196, 0, 0, 16), (193, 200, 0, 0, 15),
     (193, 202, 0, 0, 16), (193, 203, 0, 0, 16), (193, 204, 0, 0, 16), (193, 218, 0, 0, 16),
     (193, 219, 0, 0, 16), (193, 222, 0, 0, 16), (193, 227, 0, 0, 16), (193, 228, 0, 0, 16),
     (193, 232, 0, 0, 16), (193, 233, 0, 0, 16), (193, 238, 0, 0, 16), (193, 239, 0, 0, 16),
     (193, 242, 0, 0, 16), (193, 243, 0, 0, 16), (193, 245, 0, 0, 16), (193, 246, 0, 0, 16),
     (193, 247, 0, 0, 16), (193, 249, 0, 0, 16), (193, 251, 0, 0, 16), (193, 253, 0, 0, 16),
     (193, 254, 0, 0, 16), (194, 8, 0, 0, 16), (194, 24, 0, 0, 16), (194, 26, 0, 0, 16),
     (194, 28, 0, 0, 15), (194, 31, 0, 0, 16), (194, 50, 0, 0, 16), (194, 54, 0, 0, 16),
     (194, 58, 0, 0, 15), (194, 60, 0, 0, 16), (194, 61, 0, 0, 16), (194, 62, 0, 0, 16),
     (194, 63, 0, 0, 16), (194, 67, 0, 0, 16), (194, 68, 0, 0, 16), (194, 69, 0, 0, 16),
     (194, 84, 0, 0, 16), (194, 85, 0, 0, 16)]"

definition subnets6 :: "subnet list" where
  "subnets6 =
    [(194, 87, 0, 0, 16), (194, 88, 0, 0, 16), (194, 90, 0, 0, 16), (194, 93, 0, 0, 16),
     (194, 99, 0, 0, 16), (194, 105, 0, 0, 16), (194, 106, 0, 0, 16), (194, 107, 0, 0, 16),
     (194, 109, 0, 0, 16), (194, 110, 0, 0, 16), (194, 112, 0, 0, 16), (194, 113, 0, 0, 16),
     (194, 114, 0, 0, 16), (194, 116, 0, 0, 16), (194, 117, 0, 0, 16), (194, 119, 0, 0, 16),
     (194, 120, 0, 0, 16), (194, 125, 0, 0, 16), (194, 126, 0, 0, 16), (194, 135, 0, 0, 16),
     (194, 142, 0, 0, 16), (194, 143, 0, 0, 16), (194, 145, 0, 0, 16), (194, 146, 0, 0, 16),
     (194, 147, 0, 0, 16), (194, 149, 0, 0, 16), (194, 150, 0, 0, 16), (194, 151, 0, 0, 16),
     (194, 152, 0, 0, 16), (194, 153, 0, 0, 16), (194, 154, 0, 0, 16), (194, 155, 0, 0, 16),
     (194, 156, 0, 0, 16), (194, 158, 0, 0, 16), (194, 159, 0, 0, 16), (194, 163, 0, 0, 16),
     (194, 164, 0, 0, 16), (194, 165, 0, 0, 16), (194, 166, 0, 0, 16), (194, 167, 0, 0, 16),
     (194, 168, 0, 0, 16), (194, 169, 0, 0, 16), (194, 170, 0, 0, 16), (194, 171, 0, 0, 16),
     (194, 172, 0, 0, 16), (194, 173, 0, 0, 16), (194, 174, 0, 0, 16), (194, 176, 0, 0, 16),
     (194, 177, 0, 0, 16), (194, 178, 0, 0, 16), (194, 179, 0, 0, 16), (194, 180, 0, 0, 16),
     (194, 181, 0, 0, 16), (194, 182, 0, 0, 16), (194, 183, 0, 0, 16), (194, 184, 0, 0, 16),
     (194, 185, 0, 0, 16), (194, 186, 0, 0, 16), (194, 187, 0, 0, 16), (194, 188, 0, 0, 16),
     (194, 189, 0, 0, 16), (194, 190, 0, 0, 16), (194, 193, 0, 0, 16), (194, 195, 0, 0, 16),
     (194, 196, 0, 0, 16), (194, 197, 0, 0, 16), (194, 199, 0, 0, 16), (194, 204, 0, 0, 16),
     (194, 205, 0, 0, 16), (194, 207, 0, 0, 16), (194, 213, 0, 0, 16), (194, 214, 0, 0, 16),
     (194, 215, 0, 0, 16), (194, 216, 0, 0, 16), (194, 218, 0, 0, 16), (194, 219, 0, 0, 16),
     (194, 220, 0, 0, 16), (194, 221, 0, 0, 16), (194, 222, 0, 0, 16), (194, 223, 0, 0, 16),
     (194, 224, 0, 0, 16), (194, 225, 0, 0, 16), (194, 226, 0, 0, 16), (194, 228, 0, 0, 16),
     (194, 229, 0, 0, 16), (194, 230, 0, 0, 16), (194, 231, 0, 0, 16), (194, 232, 0, 0, 16),
     (194, 233, 0, 0, 16), (194, 236, 0, 0, 16), (194, 237, 0, 0, 16), (194, 239, 0, 0, 16),
     (194, 240, 0, 0, 16), (194, 241, 0, 0, 16), (194, 242, 0, 0, 16), (194, 243, 0, 0, 16),
     (194, 244, 0, 0, 16), (194, 245, 0, 0, 16), (194, 246, 0, 0, 16), (194, 247, 0, 0, 16),
     (194, 248, 0, 0, 16), (194, 249, 0, 0, 16), (194, 250, 0, 0, 16), (194, 251, 0, 0, 16),
     (194, 252, 0, 0, 16), (194, 253, 0, 0, 16), (194, 254, 0, 0, 16), (195, 2, 0, 0, 16),
     (195, 5, 0, 0, 16), (195, 7, 0, 0, 16), (195, 8, 0, 0, 16), (195, 9, 0, 0, 16),
     (195, 10, 0, 0, 16), (195, 12, 0, 0, 16), (195, 13, 0, 0, 16), (195, 14, 0, 0, 16),
     (195, 16, 0, 0, 15), (195, 18, 0, 0, 16), (195, 19, 0, 0, 16), (195, 20, 0, 0, 16),
     (195, 21, 0, 0, 16), (195, 22, 0, 0, 16), (195, 23, 0, 0, 16), (195, 24, 0, 0, 15),
     (195, 26, 0, 0, 16), (195, 28, 0, 0, 15), (195, 30, 0, 0, 16), (195, 31, 0, 0, 16),
     (195, 33, 0, 0, 16), (195, 34, 0, 0, 16), (195, 35, 0, 0, 16), (195, 36, 0, 0, 16),
     (195, 37, 0, 0, 16), (195, 38, 0, 0, 16)]"

definition subnets7 :: "subnet list" where
  "subnets7 =
    [(195, 39, 0, 0, 16), (195, 40, 0, 0, 16), (195, 41, 0, 0, 16), (195, 42, 0, 0, 16),
     (195, 43, 0, 0, 16), (195, 44, 0, 0, 16), (195, 45, 0, 0, 16), (195, 46, 0, 0, 16),
     (195, 47, 0, 0, 16), (195, 49, 0, 0, 16), (195, 50, 0, 0, 16), (195, 52, 0, 0, 16),
     (195, 54, 0, 0, 16), (195, 56, 0, 0, 16), (195, 58, 0, 0, 16), (195, 60, 0, 0, 16),
     (195, 62, 0, 0, 16), (195, 64, 0, 0, 15), (195, 66, 0, 0, 16), (195, 68, 0, 0, 16),
     (195, 69, 0, 0, 16), (195, 70, 0, 0, 16), (195, 71, 0, 0, 16), (195, 72, 0, 0, 16),
     (195, 74, 0, 0, 16), (195, 75, 0, 0, 16), (195, 76, 0, 0, 16), (195, 77, 0, 0, 16),
     (195, 78, 0, 0, 16), (195, 80, 0, 0, 16), (195, 81, 0, 0, 16), (195, 82, 0, 0, 16),
     (195, 83, 0, 0, 16), (195, 84, 0, 0, 16), (195, 85, 0, 0, 16), (195, 86, 0, 0, 16),
     (195, 87, 0, 0, 16), (195, 88, 0, 0, 16), (195, 89, 0, 0, 16), (195, 90, 0, 0, 16),
     (195, 91, 0, 0, 16), (195, 93, 0, 0, 16), (195, 94, 0, 0, 16), (195, 95, 0, 0, 16),
     (195, 96, 0, 0, 16), (195, 97, 0, 0, 16), (195, 98, 0, 0, 16), (195, 99, 0, 0, 16),
     (195, 101, 0, 0, 16), (195, 102, 0, 0, 16), (195, 103, 0, 0, 16), (195, 104, 0, 0, 16),
     (195, 105, 0, 0, 16), (195, 106, 0, 0, 16), (195, 107, 0, 0, 16), (195, 108, 0, 0, 16),
     (195, 109, 0, 0, 16), (195, 110, 0, 0, 16), (195, 111, 0, 0, 16), (195, 112, 0, 0, 16),
     (195, 113, 0, 0, 16), (195, 114, 0, 0, 16), (195, 115, 0, 0, 16), (195, 116, 0, 0, 16),
     (195, 117, 0, 0, 16), (195, 118, 0, 0, 16), (195, 119, 0, 0, 16), (195, 120, 0, 0, 16),
     (195, 121, 0, 0, 16), (195, 122, 0, 0, 16), (195, 123, 0, 0, 16), (195, 124, 0, 0, 16),
     (195, 125, 0, 0, 16), (195, 126, 0, 0, 16), (195, 127, 0, 0, 16), (195, 128, 0, 0, 16),
     (195, 129, 0, 0, 16), (195, 130, 0, 0, 16), (195, 131, 0, 0, 16), (195, 132, 0, 0, 16),
     (195, 133, 0, 0, 16), (195, 134, 0, 0, 16), (195, 135, 0, 0, 16), (195, 136, 0, 0, 16),
     (195, 137, 0, 0, 16), (195, 138, 0, 0, 16), (195, 139, 0, 0, 16), (195, 140, 0, 0, 16),
     (195, 141, 0, 0, 16), (195, 142, 0, 0, 16), (195, 143, 0, 0, 16), (195, 144, 0, 0, 16),
     (195, 145, 0, 0, 16), (195, 146, 0, 0, 16), (195, 147, 0, 0, 16), (195, 148, 0, 0, 16),
     (195, 149, 0, 0, 16), (195, 150, 0, 0, 16), (195, 151, 0, 0, 16), (195, 152, 0, 0, 16),
     (195, 153, 0, 0, 16), (195, 154, 0, 0, 16), (195, 155, 0, 0, 16), (195, 156, 0, 0, 16),
     (195, 157, 0, 0, 16), (195, 158, 0, 0, 16), (195, 159, 0, 0, 16), (195, 160, 0, 0, 16),
     (195, 161, 0, 0, 16), (195, 162, 0, 0, 16), (195, 163, 0, 0, 16), (195, 164, 0, 0, 16),
     (195, 165, 0, 0, 16), (195, 166, 0, 0, 16), (195, 167, 0, 0, 16), (195, 168, 0, 0, 16),
     (195, 169, 0, 0, 16), (195, 170, 0, 0, 16), (195, 171, 0, 0, 16), (195, 172, 0, 0, 16),
     (195, 173, 0, 0, 16), (195, 174, 0, 0, 16), (195, 175, 0, 0, 16), (195, 176, 0, 0, 16),
     (195, 177, 0, 0, 16), (195, 178, 0, 0, 16), (195, 179, 0, 0, 16), (195, 180, 0, 0, 16),
     (195, 181, 0, 0, 16), (195, 182, 0, 0, 16), (195, 183, 0, 0, 16), (195, 184, 0, 0, 16),
     (195, 185, 0, 0, 16), (195, 186, 0, 0, 16)]"

definition subnets8 :: "subnet list" where
  "subnets8 =
    [(195, 187, 0, 0, 16), (195, 188, 0, 0, 16), (195, 189, 0, 0, 16), (195, 190, 0, 0, 16),
     (195, 191, 0, 0, 16), (195, 192, 0, 0, 16), (195, 193, 0, 0, 16), (195, 194, 0, 0, 16),
     (195, 195, 0, 0, 16), (195, 196, 0, 0, 16), (195, 197, 0, 0, 16), (195, 198, 0, 0, 16),
     (195, 199, 0, 0, 16), (195, 200, 0, 0, 16), (195, 201, 0, 0, 16), (195, 202, 0, 0, 16),
     (195, 203, 0, 0, 16), (195, 204, 0, 0, 16), (195, 205, 0, 0, 16), (195, 206, 0, 0, 16),
     (195, 207, 0, 0, 16), (195, 208, 0, 0, 15), (195, 210, 0, 0, 16), (195, 211, 0, 0, 16),
     (195, 212, 0, 0, 16), (195, 213, 0, 0, 16), (195, 214, 0, 0, 16), (195, 215, 0, 0, 16),
     (195, 216, 0, 0, 16), (195, 217, 0, 0, 16), (195, 218, 0, 0, 16), (195, 219, 0, 0, 16),
     (195, 220, 0, 0, 16), (195, 221, 0, 0, 16), (195, 222, 0, 0, 16), (195, 223, 0, 0, 16),
     (195, 224, 0, 0, 16), (195, 225, 0, 0, 16), (195, 226, 0, 0, 16), (195, 227, 0, 0, 16),
     (195, 228, 0, 0, 16), (195, 229, 0, 0, 16), (195, 230, 0, 0, 16), (195, 231, 0, 0, 16),
     (195, 234, 0, 0, 16), (195, 235, 0, 0, 16), (195, 238, 0, 0, 16), (195, 239, 0, 0, 16),
     (195, 240, 0, 0, 16), (195, 241, 0, 0, 16), (195, 242, 0, 0, 16), (195, 243, 0, 0, 16),
     (195, 244, 0, 0, 16), (195, 245, 0, 0, 16), (195, 246, 0, 0, 16), (195, 247, 0, 0, 16),
     (195, 248, 0, 0, 16), (195, 249, 0, 0, 16), (195, 250, 0, 0, 16), (195, 251, 0, 0, 16),
     (195, 252, 0, 0, 16), (195, 253, 0, 0, 16), (195, 254, 0, 0, 16), (212, 1, 0, 0, 16),
     (212, 3, 0, 0, 16), (212, 5, 0, 0, 16), (212, 7, 0, 0, 16), (212, 8, 0, 0, 16),
     (212, 11, 0, 0, 16), (212, 12, 0, 0, 16), (212, 14, 0, 0, 16), (212, 15, 0, 0, 16),
     (212, 16, 0, 0, 12), (212, 32, 0, 0, 12), (212, 48, 0, 0, 13), (212, 57, 0, 0, 16),
     (212, 58, 0, 0, 15), (212, 60, 0, 0, 14), (212, 64, 0, 0, 12), (212, 80, 0, 0, 12),
     (212, 96, 0, 0, 12), (212, 112, 0, 0, 13), (212, 119, 0, 0, 16), (212, 120, 0, 0, 14),
     (212, 124, 0, 0, 15), (212, 158, 0, 0, 15), (212, 164, 0, 0, 15), (212, 168, 0, 0, 13),
     (212, 176, 0, 0, 12), (212, 192, 0, 0, 12), (212, 220, 0, 0, 15), (212, 222, 0, 0, 15),
     (212, 224, 0, 0, 12), (212, 248, 0, 0, 14), (213, 21, 0, 0, 16), (213, 24, 0, 0, 13),
     (213, 33, 0, 0, 16), (213, 35, 0, 0, 16), (213, 39, 0, 0, 16), (213, 42, 0, 0, 16),
     (213, 43, 0, 0, 16), (213, 59, 0, 0, 16), (213, 79, 0, 0, 16), (213, 80, 0, 0, 12),
     (213, 96, 0, 0, 12), (213, 128, 0, 0, 12), (213, 146, 0, 0, 15), (213, 148, 0, 0, 14),
     (213, 152, 0, 0, 14), (213, 156, 0, 0, 14), (213, 160, 0, 0, 13), (213, 168, 0, 0, 13),
     (213, 176, 0, 0, 12), (213, 192, 0, 0, 12), (213, 208, 0, 0, 14), (213, 212, 0, 0, 14),
     (213, 216, 0, 0, 13), (213, 224, 0, 0, 12), (213, 240, 0, 0, 13), (213, 248, 0, 0, 13),
     (217, 8, 0, 0, 13), (217, 16, 0, 0, 12), (217, 64, 0, 0, 11), (217, 107, 0, 0, 16),
     (217, 112, 0, 0, 13), (217, 118, 0, 0, 15), (217, 144, 0, 0, 12), (217, 168, 0, 0, 13),
     (217, 195, 0, 0, 16), (217, 196, 0, 0, 15), (217, 197, 0, 0, 16), (217, 198, 0, 0, 15),
     (217, 199, 0, 0, 16), (217, 200, 0, 0, 14)]"

definition subnets :: "subnet list" where
  "subnets = subnets1 @ subnets2 @ subnets3 @ subnets4 @ subnets5 @ subnets6 @ subnets7 @ subnets8"

definition RussianSubnets :: "string list" where
  "RussianSubnets = map cidr subnets"

section \<open>Well-formed and aligned entries\<close>

text \<open>The address as a number, and what is left of it after the prefix.\<close>

fun subnet_address :: "subnet \<Rightarrow> nat" where
  "subnet_address (a, b, c, d, l) = ((a * 256 + b) * 256 + c) * 256 + d"

fun subnet_ok :: "subnet \<Rightarrow> bool" where
  "subnet_ok (a, b, c, d, l) \<longleftrightarrow> a < 256 \<and> b < 256 \<and> c < 256 \<and> d < 256 \<and> l \<le> 32"

fun aligned :: "subnet \<Rightarrow> bool" where
  "aligned (a, b, c, d, l) \<longleftrightarrow> subnet_address (a, b, c, d, l) mod 2 ^ (32 - l) = 0"

definition misaligned :: "subnet list" where
  "misaligned = [(77, 222, 0, 0, 14), (79, 168, 0, 0, 12), (81, 94, 0, 0, 14), (84, 52, 0, 0, 12),
     (85, 118, 0, 0, 14), (91, 210, 0, 0, 14), (95, 52, 0, 0, 13)]"

lemma subnets1_checked:
  "list_all subnet_ok subnets1 \<and> filter (\<lambda>s. \<not> aligned s) subnets1 = [(77, 222, 0, 0, 14), (79, 168, 0, 0, 12)]"
  by (simp add: subnets1_def)

lemma subnets2_checked:
  "list_all subnet_ok subnets2 \<and> filter (\<lambda>s. \<not> aligned s) subnets2 = [(81, 94, 0, 0, 14), (84, 52, 0, 0, 12), (85, 118, 0, 0, 14), (91, 210, 0, 0, 14)]"
  by (simp add: subnets2_def)

lemma subnets3_checked:
  "list_all subnet_ok subnets3 \<and> filter (\<lambda>s. \<not> aligned s) subnets3 = [(95, 52, 0, 0, 13)]"
  by (simp add: subnets3_def)

lemma subnets4_checked:
  "list_all subnet_ok subnets4 \<and> filter (\<lambda>s. \<not> aligned s) subnets4 = []"
  by (simp add: subnets4_def)

lemma subnets5_checked:
  "list_all subnet_ok subnets5 \<and> filter (\<lambda>s. \<not> aligned s) subnets5 = []"
  by (simp add: subnets5_def)

lemma subnets6_checked:
  "list_all subnet_ok subnets6 \<and> filter (\<lambda>s. \<not> aligned s) subnets6 = []"
  by (simp add: subnets6_def)

lemma subnets7_checked:
  "list_all subnet_ok subnets7 \<and> filter (\<lambda>s. \<not> aligned s) subnets7 = []"
  by (simp add: subnets7_def)

lemma subnets8_checked:
  "list_all subnet_ok subnets8 \<and> filter (\<lambda>s. \<not> aligned s) subnets8 = []"
  by (simp add: subnets8_def)

lemma subnets_checked:
  "list_all subnet_ok subnets \<and> filter (\<lambda>s. \<not> aligned s) subnets = misaligned \<and> length subnets = 1072"
  using subnets1_checked subnets2_checked subnets3_checked subnets4_checked subnets5_checked
    subnets6_checked subnets7_checked subnets8_checked
  by (simp add: subnets_def misaligned_def) (simp add: subnets1_def subnets2_def subnets3_def
      subnets4_def subnets5_def subnets6_def subnets7_def subnets8_def)

end
