(* ===== verification/Routing.thy ===== *)
theory Routing
  imports Subnets Prelude
begin

text \<open>
  The routing of \<open>internal/engine/client.go\<close>: what it reads from the output of the system's
  commands, and the commands it issues. Text is split as \<open>strings.Split\<close> and \<open>strings.Fields\<close>
  do. A command is a value with what matters of its arguments; the system that runs them is a
  parameter, its routing table seen as the pairs of a destination and a metric.
\<close>

section \<open>Reading the output of commands\<close>

definition is_space :: "char \<Rightarrow> bool" where
  "is_space c \<longleftrightarrow> c \<in> {CHR '' '', CHR 0x09, CHR 0x0A, CHR 0x0B, CHR 0x0C, CHR 0x0D}"

fun fields_from :: "string \<Rightarrow> string \<Rightarrow> string list" where
  "fields_from w [] = (if w = [] then [] else [w])"
| "fields_from w (c # cs) =
     (if is_space c then (if w = [] then fields_from [] cs else w # fields_from [] cs)
      else fields_from (w @ [c]) cs)"

definition string_fields :: "string \<Rightarrow> string list" where
  "string_fields s = fields_from [] s"

fun split_lines :: "string \<Rightarrow> string \<Rightarrow> string list" where
  "split_lines w [] = [w]"
| "split_lines w (c # cs) =
     (if c = CHR 0x0A then w # split_lines [] cs else split_lines (w @ [c]) cs)"

fun string_contains :: "string \<Rightarrow> string \<Rightarrow> bool" where
  "string_contains [] p = (p = [])"
| "string_contains (c # cs) p = (take (length p) (c # cs) = p \<or> string_contains cs p)"

text \<open>\<open>strconv.Atoi\<close>: an optional sign, then digits, within the range of an int.\<close>

definition digit_value :: "char \<Rightarrow> int option" where
  "digit_value c =
     (let n = of_char c :: nat in if 48 \<le> n \<and> n \<le> 57 then Some (int n - 48) else None)"

fun digits_value :: "int \<Rightarrow> string \<Rightarrow> int option" where
  "digits_value acc [] = Some acc"
| "digits_value acc (c # cs) =
     (case digit_value c of None \<Rightarrow> None | Some d \<Rightarrow> digits_value (10 * acc + d) cs)"

definition atoi :: "string \<Rightarrow> int option" where
  "atoi s =
     (let neg = (s \<noteq> [] \<and> hd s = CHR ''-'');
          ds = (if s \<noteq> [] \<and> (hd s = CHR ''-'' \<or> hd s = CHR ''+'') then tl s else s) in
      if ds = [] then None
      else case digits_value 0 ds of
        None \<Rightarrow> None
      | Some n \<Rightarrow>
          let v = (if neg then - n else n) in
          if - (2 ^ 63) \<le> v \<and> v < 2 ^ 63 then Some v else None)"

record routing =
  rt_gateway :: string
  rt_interface :: string
  rt_tunIndex :: int

datatype goos = GoWindows | GoLinux | GoDarwin | GoOther

text \<open>\<open>None\<close> is a command that failed.\<close>

fun gateway_line :: "string list \<Rightarrow> string option" where
  "gateway_line [] = None"
| "gateway_line (line # lines) =
     (if string_contains line ''0.0.0.0'' \<and> 3 \<le> length (string_fields line)
      then Some (string_fields line ! 2) else gateway_line lines)"

definition saveDefaultRoute :: "goos \<Rightarrow> string option \<Rightarrow> routing \<Rightarrow> unit result \<times> routing" where
  "saveDefaultRoute os cmd_out r =
     (case os of
        GoWindows \<Rightarrow>
          (case cmd_out of
             None \<Rightarrow> (Fail OtherError, r)
           | Some s \<Rightarrow>
               (case gateway_line (split_lines [] s) of
                  Some g \<Rightarrow> (Ok (), r\<lparr>rt_gateway := g\<rparr>) | None \<Rightarrow> (Ok (), r)))
      | GoOther \<Rightarrow> (Ok (), r)
      | _ \<Rightarrow>
          (case cmd_out of
             None \<Rightarrow> (Fail OtherError, r)
           | Some s \<Rightarrow>
               let fs = string_fields s in
               if 3 \<le> length fs then
                 let r1 = r\<lparr>rt_gateway := fs ! 2\<rparr> in
                 (case index fs 4 of Ok i \<Rightarrow> (Ok (), r1\<lparr>rt_interface := i\<rparr>) | _ \<Rightarrow> (Panic, r1))
               else (Ok (), r)))"

fun tun_index :: "string list \<Rightarrow> int option" where
  "tun_index [] = None"
| "tun_index (f # fs) =
     (case atoi f of Some i \<Rightarrow> if 0 < i \<and> i < 1000 then Some i else tun_index fs | None \<Rightarrow> tun_index fs)"

fun tun_line :: "string \<Rightarrow> string list \<Rightarrow> int option" where
  "tun_line iface [] = None"
| "tun_line iface (line # lines) =
     (if string_contains line iface \<or> string_contains line ''l7shred'' then
        (case tun_index (string_fields line) of Some i \<Rightarrow> Some i | None \<Rightarrow> tun_line iface lines)
      else tun_line iface lines)"

definition getTUNInterfaceIndex :: "string \<Rightarrow> string option \<Rightarrow> routing \<Rightarrow> unit result \<times> routing" where
  "getTUNInterfaceIndex iface cmd_out r =
     (case cmd_out of
        None \<Rightarrow> (Fail OtherError, r)
      | Some s \<Rightarrow>
          (case tun_line iface (split_lines [] s) of
             Some i \<Rightarrow> (Ok (), r\<lparr>rt_tunIndex := i\<rparr>)
           | None \<Rightarrow> (Fail OtherError, r)))"

section \<open>Commands\<close>

datatype dest = DefaultRoute | ToHost string | ToNet string

datatype cmd =
    RouteDel dest "string option"
  | RouteAdd dest string "string option" "nat option" "int option"

text \<open>
  Linux: \<open>ip route del\<close> and \<open>ip route add D via G dev I metric M\<close>. The split tunnel sends the
  table of subnets past the tunnel.
\<close>

definition setupLinuxRouting :: "bool \<Rightarrow> string \<Rightarrow> routing \<Rightarrow> cmd list" where
  "setupLinuxRouting splitTunnel serverIP r =
     [RouteDel DefaultRoute None,
      RouteAdd (ToHost serverIP) (rt_gateway r) (Some (rt_interface r)) None None,
      RouteAdd DefaultRoute ''10.0.0.1'' (Some ''tun0'') (Some 1) None] @
     (if splitTunnel
      then map (\<lambda>s. RouteAdd (ToNet s) (rt_gateway r) (Some (rt_interface r)) (Some 1000) None)
             RussianSubnets
      else [])"

definition setupDarwinRouting :: "bool \<Rightarrow> string \<Rightarrow> routing \<Rightarrow> cmd list" where
  "setupDarwinRouting splitTunnel serverIP r =
     [RouteDel DefaultRoute None, RouteAdd (ToHost serverIP) (rt_gateway r) None None None,
      RouteAdd DefaultRoute ''10.0.0.1'' None None None] @
     (if splitTunnel
      then map (\<lambda>s. RouteAdd (ToNet s) (rt_gateway r) None None None) RussianSubnets else [])"

definition addRussianSubnetRoutes :: "routing \<Rightarrow> cmd list" where
  "addRussianSubnetRoutes r =
     map (\<lambda>s. RouteAdd (ToNet s) (rt_gateway r) None (Some 1000) None) RussianSubnets"

text \<open>Windows: the index of the interface is looked for first, and its failure ignored.\<close>

definition setupWindowsRouting ::
  "bool \<Rightarrow> string \<Rightarrow> string \<Rightarrow> string option \<Rightarrow> routing \<Rightarrow> cmd list \<times> routing" where
  "setupWindowsRouting splitTunnel serverIP iface cmd_out r =
     (let r1 = snd (getTUNInterfaceIndex iface cmd_out r) in
      ([RouteDel DefaultRoute None, RouteDel (ToHost serverIP) None,
        RouteAdd (ToHost serverIP) (rt_gateway r1) None (Some 1) None,
        RouteAdd DefaultRoute ''10.0.0.1'' None (Some 1)
          (if 0 < rt_tunIndex r1 then Some (rt_tunIndex r1) else None)] @
       (if splitTunnel then addRussianSubnetRoutes r1 else []), r1))"

definition setupRouting ::
  "goos \<Rightarrow> bool \<Rightarrow> string \<Rightarrow> string \<Rightarrow> string option \<Rightarrow> routing \<Rightarrow> (cmd list \<times> routing) result" where
  "setupRouting os splitTunnel serverIP iface cmd_out r =
     (case os of
        GoWindows \<Rightarrow> Ok (setupWindowsRouting splitTunnel serverIP iface cmd_out r)
      | GoLinux \<Rightarrow> Ok (setupLinuxRouting splitTunnel serverIP r, r)
      | GoDarwin \<Rightarrow> Ok (setupDarwinRouting splitTunnel serverIP r, r)
      | GoOther \<Rightarrow> Fail OtherError)"

definition removeRoutes :: "goos \<Rightarrow> string \<Rightarrow> routing \<Rightarrow> cmd list" where
  "removeRoutes os serverIP r =
     (case os of
        GoWindows \<Rightarrow>
          [RouteDel (ToHost serverIP) None, RouteDel DefaultRoute None] @
          (if rt_gateway r \<noteq> [] then [RouteAdd DefaultRoute (rt_gateway r) None (Some 35) None] else [])
      | GoLinux \<Rightarrow>
          [RouteDel (ToHost serverIP) None, RouteDel DefaultRoute (Some ''10.0.0.1'')] @
          (if rt_gateway r \<noteq> [] \<and> rt_interface r \<noteq> []
           then [RouteAdd DefaultRoute (rt_gateway r) (Some (rt_interface r)) None None] else [])
      | GoDarwin \<Rightarrow>
          [RouteDel (ToHost serverIP) None, RouteDel DefaultRoute (Some ''10.0.0.1'')] @
          (if rt_gateway r \<noteq> [] then [RouteAdd DefaultRoute (rt_gateway r) None None None] else [])
      | GoOther \<Rightarrow> [])"

section \<open>What the system does with them\<close>

fun run_all :: "(cmd \<Rightarrow> 'os \<Rightarrow> 'os) \<Rightarrow> cmd list \<Rightarrow> 'os \<Rightarrow> 'os" where
  "run_all run [] s = s"
| "run_all run (c # cs) s = run_all run cs (run c s)"

fun cmd_dest :: "cmd \<Rightarrow> dest" where
  "cmd_dest (RouteDel d _) = d"
| "cmd_dest (RouteAdd d _ _ _ _) = d"

text \<open>
  What iproute2 documents, for the networks of the table: a command touches the routes of its
  own destination alone; adding a network whose address has bits behind its prefix is refused;
  any other network is there after it was added through a gateway and device that are up.
\<close>

definition ip_route :: "(cmd \<Rightarrow> 'os \<Rightarrow> 'os) \<Rightarrow> ('os \<Rightarrow> (dest \<times> nat option) set) \<Rightarrow> string \<Rightarrow> string \<Rightarrow> bool" where
  "ip_route run routes gw dev \<longleftrightarrow>
     (\<forall>c s d m. d \<noteq> cmd_dest c \<longrightarrow> ((d, m) \<in> routes (run c s) \<longleftrightarrow> (d, m) \<in> routes s)) \<and>
     (\<forall>n\<in>set subnets. \<forall>m s.
        (if aligned n
         then (ToNet (cidr n), m) \<in> routes (run (RouteAdd (ToNet (cidr n)) gw (Some dev) m None) s)
         else routes (run (RouteAdd (ToNet (cidr n)) gw (Some dev) m None) s) = routes s))"

lemma ip_route_other:
  "ip_route run routes gw dev \<Longrightarrow> d \<noteq> cmd_dest c \<Longrightarrow> (d, m) \<in> routes (run c s) \<longleftrightarrow> (d, m) \<in> routes s"
  unfolding ip_route_def by blast

lemma ip_route_adds:
  "ip_route run routes gw dev \<Longrightarrow> n \<in> set subnets \<Longrightarrow> aligned n \<Longrightarrow>
    (ToNet (cidr n), m) \<in> routes (run (RouteAdd (ToNet (cidr n)) gw (Some dev) m None) s)"
  unfolding ip_route_def by (metis (full_types))

lemma ip_route_refuses:
  "ip_route run routes gw dev \<Longrightarrow> n \<in> set subnets \<Longrightarrow> \<not> aligned n \<Longrightarrow>
    routes (run (RouteAdd (ToNet (cidr n)) gw (Some dev) m None) s) = routes s"
  unfolding ip_route_def by (metis (full_types))

lemma run_all_append: "run_all run (xs @ ys) s = run_all run ys (run_all run xs s)"
  by (induction xs arbitrary: s) auto

lemma run_all_other:
  assumes "ip_route run routes gw dev" and "\<forall>c\<in>set cs. cmd_dest c \<noteq> d"
  shows "(d, m) \<in> routes (run_all run cs s) \<longleftrightarrow> (d, m) \<in> routes s"
  using assms(2) by (induction cs arbitrary: s) (auto simp: ip_route_other [OF assms(1)])

section \<open>Different networks have different texts\<close>

declare cidr.simps [simp del] aligned.simps [simp del]

lemma digits_value_append:
  "digits_value acc (xs @ ys) =
     (case digits_value acc xs of None \<Rightarrow> None | Some v \<Rightarrow> digits_value v ys)"
  by (induction xs arbitrary: acc) (auto split: option.split)

lemma digit_value_digit: "d < 10 \<Longrightarrow> digit_value (char_of (48 + d)) = Some (int d)"
  by (simp add: digit_value_def)

lemma digits_value_decimal: "digits_value 0 (decimal n) = Some (int n)"
proof (induction n rule: decimal.induct)
  case (1 n)
  have "10 * int (n div 10) + int (n mod 10) = int n" by presburger
  with 1 show ?case
    by (subst decimal.simps) (simp add: digits_value_append digit_value_digit)
qed

lemma decimal_inj: "decimal m = decimal n \<longleftrightarrow> m = n"
  by (metis digits_value_decimal of_nat_eq_iff option.inject)

lemma decimal_digits: "c \<in> set (decimal n) \<Longrightarrow> digit_value c \<noteq> None"
  by (induction n rule: decimal.induct)
    (subst (asm) (2) decimal.simps, auto simp: digit_value_digit split: if_splits)

lemma decimal_separated:
  assumes "digit_value c = None"
  shows "decimal m @ c # xs = decimal n @ c # ys \<longleftrightarrow> m = n \<and> xs = ys"
proof
  have no: "c \<notin> set (decimal k)" for k using decimal_digits assms by blast
  assume eq: "decimal m @ c # xs = decimal n @ c # ys"
  have tw: "takeWhile (\<lambda>x. x \<noteq> c) (decimal k @ c # zs) = decimal k" for k zs
    using no by (metis (mono_tags, lifting) append_Nil2 takeWhile.simps(2) takeWhile_append2)
  have "decimal m = decimal n" using tw [of m xs] tw [of n ys] eq by simp
  then show "m = n \<and> xs = ys" using eq by (simp add: decimal_inj)
qed simp

lemma cidr_inj: "cidr x = cidr y \<longleftrightarrow> x = y"
  by (cases x; cases y) (simp add: cidr.simps decimal_separated digit_value_def decimal_inj)

section \<open>A list of networks is added\<close>

abbreviation add_nets :: "string \<Rightarrow> string \<Rightarrow> nat option \<Rightarrow> subnet list \<Rightarrow> cmd list" where
  "add_nets gw dev m ns \<equiv> map (\<lambda>n. RouteAdd (ToNet (cidr n)) gw (Some dev) m None) ns"

lemma run_nets_there:
  assumes "ip_route run routes gw dev" and "n \<in> set subnets" and "aligned n"
    and "n \<in> set ns \<or> (ToNet (cidr n), m) \<in> routes s"
  shows "(ToNet (cidr n), m) \<in> routes (run_all run (add_nets gw dev m ns) s)"
  using assms(4)
proof (induction ns arbitrary: s)
  case (Cons x ns)
  let ?s = "run (RouteAdd (ToNet (cidr x)) gw (Some dev) m None) s"
  have "n \<in> set ns \<or> (ToNet (cidr n), m) \<in> routes ?s"
  proof (cases "n = x")
    case True
    then show ?thesis using ip_route_adds [OF assms(1-3), of m s] by simp
  next
    case False
    then show ?thesis
      using Cons.prems ip_route_other [OF assms(1), of "ToNet (cidr n)" _ m s] by (simp add: cidr_inj)
  qed
  then show ?case using Cons.IH [of ?s] by simp
qed simp

lemma run_nets_not_there:
  assumes "ip_route run routes gw dev" and "n \<in> set subnets" and "\<not> aligned n"
    and "(ToNet (cidr n), m) \<notin> routes s"
  shows "(ToNet (cidr n), m) \<notin> routes (run_all run (add_nets gw dev m ns) s)"
  using assms(4)
proof (induction ns arbitrary: s)
  case (Cons x ns)
  let ?s = "run (RouteAdd (ToNet (cidr x)) gw (Some dev) m None) s"
  have "(ToNet (cidr n), m) \<notin> routes ?s"
  proof (cases "n = x")
    case True
    then show ?thesis using Cons.prems ip_route_refuses [OF assms(1-3), of m s] by simp
  next
    case False
    then show ?thesis
      using Cons.prems ip_route_other [OF assms(1), of "ToNet (cidr n)" _ m s] by (simp add: cidr_inj)
  qed
  then show ?case using Cons.IH [of ?s] by simp
qed simp

end
