(* ===== verification/RoutingProperties.thy ===== *)
theory RoutingProperties
  imports Routing EngineClient
begin

text \<open>
  Properties of the routing of the client: what is left of the split tunnel's routes, and what
  is read of the default route.
\<close>

lemma subnets_ok: "n \<in> set subnets \<Longrightarrow> subnet_ok n"
  using subnets_checked by (auto simp: list_all_iff)

lemma misaligned_iff: "n \<in> set subnets \<Longrightarrow> n \<in> set misaligned \<longleftrightarrow> \<not> aligned n"
proof -
  have "filter (\<lambda>s. \<not> aligned s) subnets = misaligned" using subnets_checked by blast
  then have "set misaligned = {n \<in> set subnets. \<not> aligned n}" by (metis set_filter)
  then show "n \<in> set subnets \<Longrightarrow> ?thesis" by blast
qed

text \<open>
  The networks of the table that the split tunnel has routed past the tunnel after the client
  has stopped: every network but the seven whose address has bits behind its prefix, which are
  never added. The others are not removed by \<open>removeRoutes\<close>.
\<close>

theorem split_routes_are_all_but_seven_and_stay:
  assumes "ip_route run routes (rt_gateway r) (rt_interface r)" and "n \<in> set subnets"
    and "(ToNet (cidr n), Some 1000) \<notin> routes s"
    and "started = run_all run (setupLinuxRouting True serverIP r) s"
    and "stopped = run_all run (removeRoutes GoLinux serverIP r) started"
  shows "((ToNet (cidr n), Some 1000) \<in> routes started \<longleftrightarrow> n \<notin> set misaligned) \<and>
    ((ToNet (cidr n), Some 1000) \<in> routes stopped \<longleftrightarrow> n \<notin> set misaligned)"
proof -
  let ?first = "[RouteDel DefaultRoute None,
      RouteAdd (ToHost serverIP) (rt_gateway r) (Some (rt_interface r)) None None,
      RouteAdd DefaultRoute ''10.0.0.1'' (Some ''tun0'') (Some 1) None]"
  define s1 where "s1 = run_all run ?first s"
  have before: "(ToNet (cidr n), Some 1000) \<notin> routes s1"
    using run_all_other [OF assms(1), of ?first "ToNet (cidr n)"] assms(3) by (simp add: s1_def)
  have started: "started = run_all run (add_nets (rt_gateway r) (rt_interface r) (Some 1000) subnets) s1"
    unfolding assms(4) setupLinuxRouting_def RussianSubnets_def s1_def
    by (simp only: run_all_append if_True map_map comp_def)
  have in_table: "n \<in> set subnets \<or> (ToNet (cidr n), Some 1000) \<in> routes s1" using assms(2) ..
  have yes: "aligned n \<Longrightarrow> (ToNet (cidr n), Some 1000) \<in> routes started"
    unfolding started by (rule run_nets_there [OF assms(1,2) _ in_table])
  have no: "\<not> aligned n \<Longrightarrow> (ToNet (cidr n), Some 1000) \<notin> routes started"
    unfolding started by (rule run_nets_not_there [OF assms(1,2) _ before])
  have "(ToNet (cidr n), Some 1000) \<in> routes started \<longleftrightarrow> aligned n" using yes no by blast
  moreover have "(ToNet (cidr n), Some 1000) \<in> routes stopped \<longleftrightarrow> (ToNet (cidr n), Some 1000) \<in> routes started"
    unfolding assms(5) by (rule run_all_other [OF assms(1)]) (simp add: removeRoutes_def)
  ultimately show ?thesis using misaligned_iff [OF assms(2)] by simp
qed

text \<open>A table of routes with one entry for a destination and a metric.\<close>

fun table_run :: "cmd \<Rightarrow> (dest \<times> nat option) set \<Rightarrow> (dest \<times> nat option) set" where
  "table_run (RouteDel d g) s = {x \<in> s. fst x \<noteq> d}"
| "table_run (RouteAdd d g i m k) s =
     (if d \<in> set (map (\<lambda>n. ToNet (cidr n)) misaligned) then s else insert (d, m) s)"

lemma table_run_ip_route: "ip_route table_run (\<lambda>s. s) g d"
  unfolding ip_route_def
proof (intro conjI allI impI ballI)
  fix c s d m assume "d \<noteq> cmd_dest c"
  then show "(d, m) \<in> table_run c s \<longleftrightarrow> (d, m) \<in> s" by (cases c) auto
next
  fix n m s assume "n \<in> set subnets"
  moreover have "ToNet (cidr n) \<in> set (map (\<lambda>n. ToNet (cidr n)) misaligned) \<longleftrightarrow> n \<in> set misaligned"
    by (auto simp: cidr_inj)
  ultimately show "if aligned n
      then (ToNet (cidr n), m) \<in> table_run (RouteAdd (ToNet (cidr n)) g (Some d) m None) s
      else table_run (RouteAdd (ToNet (cidr n)) g (Some d) m None) s = s"
    using misaligned_iff by simp
qed

lemma some_subnets: "(5, 44, 0, 0, 14) \<in> set subnets \<and> (77, 222, 0, 0, 14) \<in> set subnets"
proof -
  have "(5, 44, 0, 0, 14) \<in> set subnets1" by (simp add: subnets1_def)
  moreover have "(77, 222, 0, 0, 14) \<in> set (filter (\<lambda>s. \<not> aligned s) subnets1)"
    using subnets1_checked by simp
  ultimately show ?thesis by (auto simp: subnets_def)
qed

theorem split_routes_are_all_but_seven_and_stay_witness:
  "let r = \<lparr>rt_gateway = ''192.168.0.1'', rt_interface = ''eth0'', rt_tunIndex = 0\<rparr>;
       stopped = run_all table_run (removeRoutes GoLinux ''1.2.3.4'' r)
         (run_all table_run (setupLinuxRouting True ''1.2.3.4'' r) {(DefaultRoute, None)}) in
   (ToNet (cidr (5, 44, 0, 0, 14)), Some 1000) \<in> stopped \<and>
   (ToNet (cidr (77, 222, 0, 0, 14)), Some 1000) \<notin> stopped"
  using split_routes_are_all_but_seven_and_stay [where n = "(5, 44, 0, 0, 14)" and
      r = "\<lparr>rt_gateway = ''192.168.0.1'', rt_interface = ''eth0'', rt_tunIndex = 0\<rparr>" and s = "{(DefaultRoute, None)}",
      OF table_run_ip_route some_subnets [THEN conjunct1] _ refl refl, of "''1.2.3.4''"]
    split_routes_are_all_but_seven_and_stay [where n = "(77, 222, 0, 0, 14)" and
      r = "\<lparr>rt_gateway = ''192.168.0.1'', rt_interface = ''eth0'', rt_tunIndex = 0\<rparr>" and s = "{(DefaultRoute, None)}",
      OF table_run_ip_route some_subnets [THEN conjunct2] _ refl refl, of "''1.2.3.4''"]
  by (simp add: Let_def misaligned_def)

text \<open>
  Under Linux and macOS the default route is read from the words of a command's output: with
  three or four words the client panics after it has set the gateway; with less it keeps what
  it had; with more, the third word is the gateway and the fifth the device, whatever they are.
\<close>

theorem saved_route_panics_on_a_short_line:
  assumes "os = GoLinux \<or> os = GoDarwin" and "n = length (string_fields out)"
  shows "saveDefaultRoute os (Some out) r =
    (if n < 3 then (Ok (), r)
     else if n < 5 then (Panic, r\<lparr>rt_gateway := string_fields out ! 2\<rparr>)
     else (Ok (), r\<lparr>rt_gateway := string_fields out ! 2, rt_interface := string_fields out ! 4\<rparr>))"
  using assms by (auto simp: saveDefaultRoute_def index_def Let_def)

theorem saved_route_panics_on_a_short_line_witness:
  "saveDefaultRoute GoLinux (Some ''default dev tun0'')
     \<lparr>rt_gateway = '''', rt_interface = '''', rt_tunIndex = 0\<rparr> =
   (Panic, \<lparr>rt_gateway = ''tun0'', rt_interface = '''', rt_tunIndex = 0\<rparr>)"
  using saved_route_panics_on_a_short_line [of GoLinux 3 "''default dev tun0''"]
  by (simp add: string_fields_def is_space_def)

section \<open>The whole of Start\<close>

text \<open>
  \<open>Client.Start\<close> with its routes: \<open>out\<close> and \<open>out_if\<close> are the outputs of the commands that are read. An error of either
  step about routes is only reported; the commands are part of the outcome.
\<close>

definition Start_routed ::
  "goos \<Rightarrow> string option \<Rightarrow> string option \<Rightarrow> bool \<Rightarrow> string \<Rightarrow> string \<Rightarrow> unit result \<Rightarrow> hs_conn \<Rightarrow>
     routing \<Rightarrow> Client \<Rightarrow> env \<Rightarrow> (unit result \<times> bytes list \<times> cmd list \<times> routing \<times> Client \<times> env) result" where
  "Start_routed os out out_if splitTunnel serverIP iface dial conn r c e =
     (if cl_connected c then Ok (Ok (), [], [], r, c, e)
      else case saveDefaultRoute os out r of
        (Panic, _) \<Rightarrow> Panic
      | (_, r1) \<Rightarrow>
          bindR (Start dial conn c e) (\<lambda>(res, sent, c1, e1).
            case res of
              Ok _ \<Rightarrow>
                (case setupRouting os splitTunnel serverIP iface out_if r1 of
                   Ok (cmds, r2) \<Rightarrow> Ok (Ok (), sent, cmds, r2, c1, e1)
                 | _ \<Rightarrow> Ok (Ok (), sent, [], r1, c1, e1))
            | _ \<Rightarrow> Ok (res, sent, [], r1, c1, e1)))"

text \<open>A start does with its routes what it does without: the same packets, the same client, the same
  error. Only the default route of a short line, under Linux and macOS, makes it panic before it dials.\<close>

theorem routes_do_not_change_a_start:
  assumes "\<not> cl_connected c" and "Start dial conn c e = Ok (res, sent, c1, e1)" and "res \<noteq> Panic"
  shows "(if os \<in> {GoLinux, GoDarwin} \<and> (\<exists>s. out = Some s \<and> length (string_fields s) \<in> {3, 4})
    then Start_routed os out out_if splitTunnel serverIP iface dial conn r c e = Panic
    else \<exists>cmds r1. Start_routed os out out_if splitTunnel serverIP iface dial conn r c e = Ok (res, sent, cmds, r1, c1, e1) \<and>
      (res \<noteq> Ok () \<longrightarrow> cmds = []))"
proof -
  have p: "fst (saveDefaultRoute os out r) = Panic \<longleftrightarrow>
      os \<in> {GoLinux, GoDarwin} \<and> (\<exists>s. out = Some s \<and> length (string_fields s) \<in> {3, 4})"
    by (cases os; cases out) (auto simp: saveDefaultRoute_def index_def Let_def split: option.splits)
  obtain q r1 where q: "saveDefaultRoute os out r = (q, r1)" by (metis surj_pair)
  show ?thesis
  proof (cases "q = Panic")
    case True
    with q assms(1) show ?thesis unfolding p [symmetric] by (simp add: Start_routed_def)
  next
    case False
    then have "\<exists>cmds r2. Start_routed os out out_if splitTunnel serverIP iface dial conn r c e = Ok (res, sent, cmds, r2, c1, e1) \<and>
        (res \<noteq> Ok () \<longrightarrow> cmds = [])"
      using q assms by (cases q; cases res; cases os)
        (auto simp: Start_routed_def setupRouting_def split: prod.split)
    with q False show ?thesis unfolding p [symmetric] by simp
  qed
qed

end
