(* ===== verification/Accounts.thy ===== *)
theory Accounts
  imports Prelude
begin

text \<open>
  The accounts of the web site: the handlers of \<open>internal/api/auth.go\<close>, the middleware and
  the routes of the same package, the tokens of \<open>internal/auth\<close> and the rows of
  \<open>internal/database/models.go\<close>. The libraries (gorm with its database, bcrypt, jwt, uuid) are
  a record of functions over a state of the database, whose tables are observed as sets of
  rows. Each request is one step. Of the rows, the columns the code reads or sets are kept.
\<close>

section \<open>Rows\<close>

type_synonym uuid = "128 word"

record User =
  us_ID :: uuid
  us_Email :: string
  us_PasswordHash :: string
  us_Name :: string
  us_CreatedAt :: instant
  us_EmailVerified :: bool
  us_TrialStartedAt :: "instant option"
  us_TrialEndsAt :: "instant option"
  us_Status :: string
  us_VerificationCode :: string
  us_VerificationCodeExpires :: "instant option"

record DBSession =
  ds_ID :: uuid
  ds_UserID :: uuid
  ds_RefreshToken :: string
  ds_ExpiresAt :: instant
  ds_IPAddress :: string
  ds_UserAgent :: string

record Subscription =
  sb_ID :: uuid
  sb_UserID :: string
  sb_LavaSubscriptionID :: string
  sb_ProductID :: string
  sb_Status :: string
  sb_ExpiresAt :: instant
  sb_CreatedAt :: instant

section \<open>Libraries\<close>

text \<open>The claims of a token, as the JSON object has them; times are in seconds.\<close>

record jwt_claims =
  jc_user_id :: "string option"
  jc_email :: "string option"
  jc_sub :: "string option"
  jc_exp :: int
  jc_iat :: int

text \<open>
  The tables, and the calls of gorm the code makes: \<open>First\<close> with a condition, \<open>Save\<close>,
  \<open>Create\<close>, which gives the row with what the database filled in, \<open>Delete\<close> of a row (whose
  error the code ignores) and \<open>Delete\<close> with a condition. Then uuid, bcrypt with its salt, and
  jwt with the secret and the time of parsing.
\<close>

record 'db backend =
  users :: "'db \<Rightarrow> User set"
  sessions :: "'db \<Rightarrow> DBSession set"
  subscriptions :: "'db \<Rightarrow> Subscription set"
  first_user_email :: "string \<Rightarrow> 'db \<Rightarrow> User result"
  first_user_id :: "uuid \<Rightarrow> 'db \<Rightarrow> User result"
  save_user :: "User \<Rightarrow> 'db \<Rightarrow> unit result \<times> 'db"
  create_user :: "User \<Rightarrow> 'db \<Rightarrow> User result \<times> 'db"
  delete_user :: "User \<Rightarrow> 'db \<Rightarrow> 'db"
  delete_user_id :: "uuid \<Rightarrow> 'db \<Rightarrow> unit result \<times> 'db"
  first_session :: "string \<Rightarrow> 'db \<Rightarrow> DBSession result"
  create_session :: "DBSession \<Rightarrow> 'db \<Rightarrow> unit result \<times> 'db"
  delete_session :: "DBSession \<Rightarrow> 'db \<Rightarrow> 'db"
  delete_sessions_token :: "string \<Rightarrow> 'db \<Rightarrow> unit result \<times> 'db"
  delete_sessions_user :: "uuid \<Rightarrow> 'db \<Rightarrow> unit result \<times> 'db"
  first_subscription :: "string \<Rightarrow> 'db \<Rightarrow> Subscription result"
  latest_subscription :: "string \<Rightarrow> 'db \<Rightarrow> Subscription result"
  create_subscription :: "Subscription \<Rightarrow> 'db \<Rightarrow> unit result \<times> 'db"
  save_subscription :: "Subscription \<Rightarrow> 'db \<Rightarrow> unit result \<times> 'db"
  uuid_String :: "uuid \<Rightarrow> string"
  uuid_Parse :: "string \<Rightarrow> uuid option"
  bcrypt :: "bytes \<Rightarrow> string \<Rightarrow> string result"
  bcrypt_matches :: "string \<Rightarrow> string \<Rightarrow> bool"
  jwt_signed :: "string \<Rightarrow> jwt_claims \<Rightarrow> string result"
  jwt_parsed :: "string \<Rightarrow> string \<Rightarrow> instant \<Rightarrow> jwt_claims option"

text \<open>
  The state of the site: the database, the environment, the secret of the tokens, the mail
  client (nothing before \<open>InitSMTP\<close>, else whether each message to come can be sent), and
  the messages sent, as address and code.
\<close>

record 'db site =
  st_db :: 'db
  st_env :: env
  jwtSecret :: string
  smtpClient :: "(nat \<Rightarrow> bool) option"
  st_mails :: "(string \<times> string) list"

definition site_clock :: "'db site \<Rightarrow> instant \<times> 'db site" where
  "site_clock s = (let (t, e) = read_clock (st_env s) in (t, s\<lparr>st_env := e\<rparr>))"

definition site_draw :: "nat \<Rightarrow> 'db site \<Rightarrow> bytes \<times> 'db site" where
  "site_draw n s = (let (b, e) = draw n (st_env s) in (b, s\<lparr>st_env := e\<rparr>))"

definition on_db :: "('db \<Rightarrow> 'a result \<times> 'db) \<Rightarrow> 'db site \<Rightarrow> 'a result \<times> 'db site" where
  "on_db f s = (let (r, db) = f (st_db s) in (r, s\<lparr>st_db := db\<rparr>))"

definition InitJWT :: "string \<Rightarrow> 'db site \<Rightarrow> 'db site" where
  "InitJWT secret s = s\<lparr>jwtSecret := secret\<rparr>"

definition InitSMTP :: "(nat \<Rightarrow> bool) \<Rightarrow> 'db site \<Rightarrow> 'db site" where
  "InitSMTP outcomes s = s\<lparr>smtpClient := Some outcomes\<rparr>"

section \<open>Passwords, codes and tokens\<close>

definition HashPassword :: "'db backend \<Rightarrow> string \<Rightarrow> 'db site \<Rightarrow> string result \<times> 'db site" where
  "HashPassword w password s = (let (salt, s1) = site_draw 16 s in (bcrypt w salt password, s1))"

definition CheckPasswordHash :: "'db backend \<Rightarrow> string \<Rightarrow> string \<Rightarrow> bool" where
  "CheckPasswordHash w password hash = bcrypt_matches w hash password"

text \<open>\<open>rand.Intn(10)\<close> is some digit for each byte of the source.\<close>

definition GenerateVerificationCode :: "'db site \<Rightarrow> string \<times> 'db site" where
  "GenerateVerificationCode s =
     (let (b, s1) = site_draw 6 s in (map (\<lambda>x. ''0123456789'' ! (unat x mod 10)) b, s1))"

text \<open>A mail client that is there sends, or fails to.\<close>

definition SendVerificationCodeWithHTML ::
  "(nat \<Rightarrow> bool) \<Rightarrow> string \<Rightarrow> string \<Rightarrow> 'db site \<Rightarrow> unit result \<times> 'db site" where
  "SendVerificationCodeWithHTML client toEmail code s =
     (let s1 = s\<lparr>smtpClient := Some (\<lambda>i. client (i + 1))\<rparr> in
      if client 0 then (Ok (), s1\<lparr>st_mails := st_mails s1 @ [(toEmail, code)]\<rparr>) else (Fail OtherError, s1))"

definition GenerateAccessToken ::
  "'db backend \<Rightarrow> uuid \<Rightarrow> string \<Rightarrow> 'db site \<Rightarrow> string result \<times> 'db site" where
  "GenerateAccessToken w userID email s =
     (let (t1, s1) = site_clock s; (t2, s2) = site_clock s1 in
      (jwt_signed w (jwtSecret s2)
         \<lparr>jc_user_id = Some (uuid_String w userID), jc_email = Some email, jc_sub = None,
          jc_exp = (t1 + 15 * minute) div second, jc_iat = t2 div second\<rparr>, s2))"

abbreviation week :: duration where "week \<equiv> 604800000000000"

definition GenerateRefreshToken :: "'db backend \<Rightarrow> uuid \<Rightarrow> 'db site \<Rightarrow> string result \<times> 'db site" where
  "GenerateRefreshToken w userID s =
     (let (t1, s1) = site_clock s; (t2, s2) = site_clock s1 in
      (jwt_signed w (jwtSecret s2)
         \<lparr>jc_user_id = None, jc_email = None, jc_sub = Some (uuid_String w userID),
          jc_exp = (t1 + week) div second, jc_iat = t2 div second\<rparr>, s2))"

record Claims =
  cm_UserID :: string
  cm_Email :: string

definition or_empty :: "string option \<Rightarrow> string" where
  "or_empty x = (case x of Some v \<Rightarrow> v | None \<Rightarrow> '''')"

definition ValidateAccessToken :: "'db backend \<Rightarrow> string \<Rightarrow> 'db site \<Rightarrow> Claims result \<times> 'db site" where
  "ValidateAccessToken w token s =
     (let (t, s1) = site_clock s in
      (case jwt_parsed w (jwtSecret s) token t of
         Some c \<Rightarrow> Ok \<lparr>cm_UserID = or_empty (jc_user_id c), cm_Email = or_empty (jc_email c)\<rparr>
       | None \<Rightarrow> Fail OtherError, s1))"

definition ValidateRefreshToken :: "'db backend \<Rightarrow> string \<Rightarrow> 'db site \<Rightarrow> string result \<times> 'db site" where
  "ValidateRefreshToken w token s =
     (let (t, s1) = site_clock s in
      (case jwt_parsed w (jwtSecret s) token t of
         Some c \<Rightarrow> (case jc_sub c of Some sub \<Rightarrow> Ok sub | None \<Rightarrow> Fail OtherError)
       | None \<Rightarrow> Fail OtherError, s1))"

section \<open>Requests and replies\<close>

record RegisterRequest =
  rg_Email :: string
  rg_Password :: string
  rg_Name :: string

record VerifyCodeRequest =
  vc_Email :: string
  vc_Code :: string

record LoginRequest =
  li_Email :: string
  li_Password :: string

record UpdatePasswordRequest =
  up_CurrentPassword :: string
  up_NewPassword :: string

record AuthResponse =
  ar_AccessToken :: string
  ar_RefreshToken :: string
  ar_UserID :: string
  ar_Email :: string
  ar_Status :: string

record UserResponse =
  ur_ID :: string
  ur_Email :: string
  ur_Name :: string
  ur_EmailVerified :: bool
  ur_Status :: string
  ur_TrialStartedAt :: "instant option"
  ur_TrialEndsAt :: "instant option"
  ur_CreatedAt :: instant

datatype body =
    ErrorBody string
  | CodeSent string string
  | AuthBody AuthResponse
  | UserBody UserResponse
  | MessageBody string

type_synonym http_reply = "nat \<times> body"

definition sendJSONError :: "string \<Rightarrow> nat \<Rightarrow> http_reply" where
  "sendJSONError message status = (status, ErrorBody message)"

section \<open>Registering\<close>

text \<open>
  The rest of \<open>RegisterHandler\<close>, with the user that was found, if any: the row is written,
  the code is sent, and without a mail the row is deleted again.
\<close>

definition register_row ::
  "'db backend \<Rightarrow> User option \<Rightarrow> RegisterRequest \<Rightarrow> string \<Rightarrow> string \<Rightarrow> instant \<Rightarrow> 'db site \<Rightarrow>
     User result \<times> 'db site" where
  "register_row w existing req hashed code expiresAt s =
     (let name = (if rg_Name req = [] then rg_Email req else rg_Name req) in
      case existing of
        Some u \<Rightarrow>
          (let user = u\<lparr>us_PasswordHash := hashed, us_Name := name, us_VerificationCode := code,
                        us_VerificationCodeExpires := Some expiresAt\<rparr>;
               (r, s1) = on_db (save_user w user) s in
           (bindR r (\<lambda>_. Ok user), s1))
      | None \<Rightarrow>
          on_db (create_user w
            \<lparr>us_ID = 0, us_Email = rg_Email req, us_PasswordHash = hashed, us_Name = name,
             us_CreatedAt = zero_time, us_EmailVerified = False, us_TrialStartedAt = None,
             us_TrialEndsAt = None, us_Status = ''pending_verification'',
             us_VerificationCode = code, us_VerificationCodeExpires = Some expiresAt\<rparr>) s)"

definition register_new ::
  "'db backend \<Rightarrow> User option \<Rightarrow> RegisterRequest \<Rightarrow> 'db site \<Rightarrow> http_reply \<times> 'db site" where
  "register_new w existing req s =
     (case HashPassword w (rg_Password req) s of
        (Ok hashed, s1) \<Rightarrow>
          (let (code, s2) = GenerateVerificationCode s1; (t, s3) = site_clock s2 in
           case register_row w existing req hashed code (t + 10 * minute) s3 of
             (Ok user, s4) \<Rightarrow>
               (case smtpClient s4 of
                  None \<Rightarrow>
                    (sendJSONError ''email service not configured'' 500,
                     s4\<lparr>st_db := delete_user w user (st_db s4)\<rparr>)
                | Some client \<Rightarrow>
                    (case SendVerificationCodeWithHTML client (rg_Email req) code s4 of
                       (Ok _, s5) \<Rightarrow> ((200, CodeSent ''Verification code sent to email'' (rg_Email req)), s5)
                     | (_, s5) \<Rightarrow>
                         (sendJSONError ''failed to send verification email'' 500,
                          s5\<lparr>st_db := delete_user w user (st_db s5)\<rparr>)))
           | (_, s4) \<Rightarrow>
               (sendJSONError (if existing = None then ''failed to create user''
                               else ''failed to update user'') 500, s4))
      | (_, s1) \<Rightarrow> (sendJSONError ''failed to hash password'' 500, s1))"

definition resend_code :: "User \<Rightarrow> string \<Rightarrow> 'db site \<Rightarrow> http_reply \<times> 'db site" where
  "resend_code u email s =
     ((200, CodeSent ''Verification code resent'' email),
      (case smtpClient s of
         None \<Rightarrow> s
       | Some client \<Rightarrow> snd (SendVerificationCodeWithHTML client email (us_VerificationCode u) s)))"

definition RegisterHandler ::
  "'db backend \<Rightarrow> RegisterRequest option \<Rightarrow> 'db site \<Rightarrow> http_reply \<times> 'db site" where
  "RegisterHandler w body s =
     (case body of
        None \<Rightarrow> (sendJSONError ''invalid request body'' 400, s)
      | Some req \<Rightarrow>
          if rg_Email req = [] \<or> rg_Password req = []
          then (sendJSONError ''email and password are required'' 400, s)
          else if length (rg_Password req) < 6
          then (sendJSONError ''password must be at least 6 characters'' 400, s)
          else case first_user_email w (rg_Email req) (st_db s) of
            Ok u \<Rightarrow>
              if us_EmailVerified u then (sendJSONError ''user already exists'' 409, s)
              else
                let again = (if us_ID u = 0 then None else Some u) in
                (case us_VerificationCodeExpires u of
                   None \<Rightarrow> register_new w again req s
                 | Some expires \<Rightarrow>
                     (let (t, s1) = site_clock s in
                      if t < expires then resend_code u (rg_Email req) s1
                      else register_new w again req s1))
          | _ \<Rightarrow> register_new w None req s)"

section \<open>Sessions\<close>

text \<open>What verification, login and refresh end with: two tokens and a row for the second.\<close>

definition issue_tokens ::
  "'db backend \<Rightarrow> User \<Rightarrow> string \<times> string \<Rightarrow> 'db site \<Rightarrow> http_reply \<times> 'db site" where
  "issue_tokens w user remote s =
     (case GenerateAccessToken w (us_ID user) (us_Email user) s of
        (Ok access, s1) \<Rightarrow>
          (case GenerateRefreshToken w (us_ID user) s1 of
             (Ok refresh, s2) \<Rightarrow>
               (let (t, s3) = site_clock s2;
                    row = \<lparr>ds_ID = 0, ds_UserID = us_ID user, ds_RefreshToken = refresh,
                           ds_ExpiresAt = t + week, ds_IPAddress = fst remote,
                           ds_UserAgent = snd remote\<rparr> in
                case on_db (create_session w row) s3 of
                  (Ok _, s4) \<Rightarrow>
                    ((200, AuthBody \<lparr>ar_AccessToken = access, ar_RefreshToken = refresh,
                                     ar_UserID = uuid_String w (us_ID user),
                                     ar_Email = us_Email user, ar_Status = us_Status user\<rparr>), s4)
                | (_, s4) \<Rightarrow> (sendJSONError ''failed to create session'' 500, s4))
           | (_, s2) \<Rightarrow> (sendJSONError ''failed to generate refresh token'' 500, s2))
      | (_, s1) \<Rightarrow> (sendJSONError ''failed to generate access token'' 500, s1))"

definition verify_row :: "'db backend \<Rightarrow> User \<Rightarrow> 'db site \<Rightarrow> User result \<times> 'db site" where
  "verify_row w u s =
     (let (t, s1) = site_clock s;
          user = u\<lparr>us_EmailVerified := True, us_Status := ''active'', us_TrialStartedAt := Some t,
                   us_TrialEndsAt := Some (t + week), us_VerificationCode := '''',
                   us_VerificationCodeExpires := None\<rparr>;
          (r, s2) = on_db (save_user w user) s1 in
      (bindR r (\<lambda>_. Ok user), s2))"

definition VerifyCodeHandler ::
  "'db backend \<Rightarrow> VerifyCodeRequest option \<Rightarrow> string \<times> string \<Rightarrow> 'db site \<Rightarrow> http_reply \<times> 'db site" where
  "VerifyCodeHandler w body remote s =
     (case body of
        None \<Rightarrow> (sendJSONError ''invalid request body'' 400, s)
      | Some req \<Rightarrow>
          if vc_Email req = [] \<or> vc_Code req = []
          then (sendJSONError ''email and code are required'' 400, s)
          else case first_user_email w (vc_Email req) (st_db s) of
            Ok u \<Rightarrow>
              if us_EmailVerified u then (sendJSONError ''email already verified'' 400, s)
              else (case us_VerificationCodeExpires u of
                 None \<Rightarrow> (sendJSONError ''verification code expired'' 400, s)
               | Some expires \<Rightarrow>
                   (let (t, s1) = site_clock s in
                    if expires < t then (sendJSONError ''verification code expired'' 400, s1)
                    else if us_VerificationCode u \<noteq> vc_Code req
                    then (sendJSONError ''invalid verification code'' 400, s1)
                    else case verify_row w u s1 of
                      (Ok user, s2) \<Rightarrow> issue_tokens w user remote s2
                    | (_, s2) \<Rightarrow> (sendJSONError ''failed to verify email'' 500, s2)))
          | _ \<Rightarrow> (sendJSONError ''user not found'' 404, s))"

definition LoginHandler ::
  "'db backend \<Rightarrow> LoginRequest option \<Rightarrow> string \<times> string \<Rightarrow> 'db site \<Rightarrow> http_reply \<times> 'db site" where
  "LoginHandler w body remote s =
     (case body of
        None \<Rightarrow> (sendJSONError ''invalid request body'' 400, s)
      | Some req \<Rightarrow>
          if li_Email req = [] \<or> li_Password req = []
          then (sendJSONError ''email and password are required'' 400, s)
          else case first_user_email w (li_Email req) (st_db s) of
            Ok u \<Rightarrow>
              if \<not> us_EmailVerified u then (sendJSONError ''please verify your email first'' 403, s)
              else if \<not> CheckPasswordHash w (li_Password req) (us_PasswordHash u)
              then (sendJSONError ''invalid credentials'' 401, s)
              else issue_tokens w u remote s
          | Fail RecordNotFound \<Rightarrow> (sendJSONError ''invalid credentials'' 401, s)
          | _ \<Rightarrow> (sendJSONError ''database error'' 500, s))"

text \<open>The request of refresh and logout is the token alone.\<close>

definition RefreshHandler ::
  "'db backend \<Rightarrow> string option \<Rightarrow> string \<times> string \<Rightarrow> 'db site \<Rightarrow> http_reply \<times> 'db site" where
  "RefreshHandler w body remote s =
     (case body of
        None \<Rightarrow> (sendJSONError ''invalid request body'' 400, s)
      | Some token \<Rightarrow>
          if token = [] then (sendJSONError ''refresh token is required'' 400, s)
          else case first_session w token (st_db s) of
            Ok session \<Rightarrow>
              (let (t, s1) = site_clock s in
               if ds_ExpiresAt session < t
               then (sendJSONError ''refresh token expired'' 401,
                     s1\<lparr>st_db := delete_session w session (st_db s1)\<rparr>)
               else case ValidateRefreshToken w token s1 of
                 (Ok userID, s2) \<Rightarrow>
                   (case uuid_Parse w userID of
                      None \<Rightarrow> (sendJSONError ''invalid user id'' 500, s2)
                    | Some parsedID \<Rightarrow>
                        (case first_user_id w parsedID (st_db s2) of
                           Ok user \<Rightarrow>
                             issue_tokens w user remote
                               (s2\<lparr>st_db := delete_session w session (st_db s2)\<rparr>)
                         | _ \<Rightarrow> (sendJSONError ''user not found'' 401, s2)))
               | (_, s2) \<Rightarrow> (sendJSONError ''invalid refresh token'' 401, s2))
          | _ \<Rightarrow> (sendJSONError ''invalid refresh token'' 401, s))"

definition LogoutHandler ::
  "'db backend \<Rightarrow> string option \<Rightarrow> 'db site \<Rightarrow> http_reply \<times> 'db site" where
  "LogoutHandler w body s =
     (case body of
        None \<Rightarrow> (sendJSONError ''invalid request body'' 400, s)
      | Some token \<Rightarrow>
          if token = [] then (sendJSONError ''refresh token is required'' 400, s)
          else case on_db (delete_sessions_token w token) s of
            (Ok _, s1) \<Rightarrow> ((200, MessageBody ''logged out successfully''), s1)
          | (_, s1) \<Rightarrow> (sendJSONError ''failed to delete session'' 500, s1))"

section \<open>The account of a token\<close>

definition user_reply :: "'db backend \<Rightarrow> User \<Rightarrow> http_reply" where
  "user_reply w u =
     (200, UserBody \<lparr>ur_ID = uuid_String w (us_ID u), ur_Email = us_Email u, ur_Name = us_Name u,
        ur_EmailVerified = us_EmailVerified u, ur_Status = us_Status u,
        ur_TrialStartedAt = us_TrialStartedAt u, ur_TrialEndsAt = us_TrialEndsAt u,
        ur_CreatedAt = us_CreatedAt u\<rparr>)"

text \<open>The user a token names; the handlers below all begin with it, after their own checks.\<close>

definition token_user :: "'db backend \<Rightarrow> Claims \<Rightarrow> 'db site \<Rightarrow> http_reply + User" where
  "token_user w claims s =
     (case uuid_Parse w (cm_UserID claims) of
        None \<Rightarrow> Inl (sendJSONError ''invalid user id'' 500)
      | Some userID \<Rightarrow>
          (case first_user_id w userID (st_db s) of
             Ok u \<Rightarrow> Inr u
           | _ \<Rightarrow> Inl (sendJSONError ''user not found'' 404)))"

definition MeHandler :: "'db backend \<Rightarrow> Claims \<Rightarrow> 'db site \<Rightarrow> http_reply \<times> 'db site" where
  "MeHandler w claims s =
     (case token_user w claims s of Inl r \<Rightarrow> (r, s) | Inr u \<Rightarrow> (user_reply w u, s))"

definition UpdateNameHandler ::
  "'db backend \<Rightarrow> string option \<Rightarrow> Claims \<Rightarrow> 'db site \<Rightarrow> http_reply \<times> 'db site" where
  "UpdateNameHandler w body claims s =
     (case body of
        None \<Rightarrow> (sendJSONError ''invalid request body'' 400, s)
      | Some name \<Rightarrow>
          if name = [] then (sendJSONError ''name is required'' 400, s)
          else case token_user w claims s of
            Inl r \<Rightarrow> (r, s)
          | Inr u \<Rightarrow>
              (let user = u\<lparr>us_Name := name\<rparr> in
               case on_db (save_user w user) s of
                 (Ok _, s1) \<Rightarrow> (user_reply w user, s1)
               | (_, s1) \<Rightarrow> (sendJSONError ''failed to update name'' 500, s1)))"

definition UpdatePasswordHandler ::
  "'db backend \<Rightarrow> UpdatePasswordRequest option \<Rightarrow> Claims \<Rightarrow> 'db site \<Rightarrow> http_reply \<times> 'db site" where
  "UpdatePasswordHandler w body claims s =
     (case body of
        None \<Rightarrow> (sendJSONError ''invalid request body'' 400, s)
      | Some req \<Rightarrow>
          if up_CurrentPassword req = [] \<or> up_NewPassword req = []
          then (sendJSONError ''current and new password are required'' 400, s)
          else if length (up_NewPassword req) < 6
          then (sendJSONError ''new password must be at least 6 characters'' 400, s)
          else case token_user w claims s of
            Inl r \<Rightarrow> (r, s)
          | Inr u \<Rightarrow>
              if \<not> CheckPasswordHash w (up_CurrentPassword req) (us_PasswordHash u)
              then (sendJSONError ''current password is incorrect'' 401, s)
              else (case HashPassword w (up_NewPassword req) s of
                 (Ok hashed, s1) \<Rightarrow>
                   (let user = u\<lparr>us_PasswordHash := hashed\<rparr> in
                    case on_db (save_user w user) s1 of
                      (Ok _, s2) \<Rightarrow> (user_reply w user, s2)
                    | (_, s2) \<Rightarrow> (sendJSONError ''failed to update password'' 500, s2))
               | (_, s1) \<Rightarrow> (sendJSONError ''failed to hash password'' 500, s1)))"

definition DeleteAccountHandler :: "'db backend \<Rightarrow> Claims \<Rightarrow> 'db site \<Rightarrow> http_reply \<times> 'db site" where
  "DeleteAccountHandler w claims s =
     (case uuid_Parse w (cm_UserID claims) of
        None \<Rightarrow> (sendJSONError ''invalid user id'' 500, s)
      | Some userID \<Rightarrow>
          (case on_db (delete_sessions_user w userID) s of
             (Ok _, s1) \<Rightarrow>
               (case on_db (delete_user_id w userID) s1 of
                  (Ok _, s2) \<Rightarrow> ((200, MessageBody ''account deleted successfully''), s2)
                | (_, s2) \<Rightarrow> (sendJSONError ''failed to delete user'' 500, s2))
           | (_, s1) \<Rightarrow> (sendJSONError ''failed to delete sessions'' 500, s1)))"

section \<open>Routes\<close>

text \<open>\<open>strings.Split\<close> at spaces.\<close>

fun split_spaces :: "string \<Rightarrow> string \<Rightarrow> string list" where
  "split_spaces acc [] = [acc]"
| "split_spaces acc (c # cs) =
     (if c = CHR '' '' then acc # split_spaces [] cs else split_spaces (acc @ [c]) cs)"

definition AuthMiddleware ::
  "'db backend \<Rightarrow> (Claims \<Rightarrow> 'db site \<Rightarrow> http_reply \<times> 'db site) \<Rightarrow> string \<Rightarrow> 'db site \<Rightarrow> http_reply \<times> 'db site" where
  "AuthMiddleware w continue authHeader s =
     (if authHeader = [] then (sendJSONError ''missing authorization header'' 401, s)
      else case split_spaces [] authHeader of
        [scheme, token] \<Rightarrow>
          if scheme \<noteq> ''Bearer'' then (sendJSONError ''invalid authorization header format'' 401, s)
          else (case ValidateAccessToken w token s of
             (Ok claims, s1) \<Rightarrow> continue claims s1
           | (_, s1) \<Rightarrow> (sendJSONError ''invalid or expired token'' 401, s1))
      | _ \<Rightarrow> (sendJSONError ''invalid authorization header format'' 401, s))"

datatype request =
    Register "RegisterRequest option"
  | VerifyCode "VerifyCodeRequest option" "string \<times> string"
  | Login "LoginRequest option" "string \<times> string"
  | Refresh "string option" "string \<times> string"
  | Logout "string option"
  | Me string
  | UpdateName string "string option"
  | UpdatePassword string "UpdatePasswordRequest option"
  | DeleteAccount string

fun SetupRoutes :: "'db backend \<Rightarrow> request \<Rightarrow> 'db site \<Rightarrow> http_reply \<times> 'db site" where
  "SetupRoutes w (Register b) s = RegisterHandler w b s"
| "SetupRoutes w (VerifyCode b r) s = VerifyCodeHandler w b r s"
| "SetupRoutes w (Login b r) s = LoginHandler w b r s"
| "SetupRoutes w (Refresh b r) s = RefreshHandler w b r s"
| "SetupRoutes w (Logout b) s = LogoutHandler w b s"
| "SetupRoutes w (Me h) s = AuthMiddleware w (MeHandler w) h s"
| "SetupRoutes w (UpdateName h b) s = AuthMiddleware w (UpdateNameHandler w b) h s"
| "SetupRoutes w (UpdatePassword h b) s = AuthMiddleware w (UpdatePasswordHandler w b) h s"
| "SetupRoutes w (DeleteAccount h) s = AuthMiddleware w (DeleteAccountHandler w) h s"

end
