(* ===== verification/AccountLaws.thy ===== *)
theory AccountLaws
  imports Accounts
begin

text \<open>
  What the handlers of the accounts do to the tables, under what gorm and its database
  promise: the laws of the backend, what the tables keep, and that each request keeps it. At
  the end, a backend in memory that has the laws.
\<close>

section \<open>The laws of the backend\<close>

text \<open>
  \<open>First\<close> returns a row of the table that meets the condition, and the error for a missing
  record only when there is none. What fails changes nothing. \<open>Save\<close> of a row replaces the one
  with its key; \<open>Create\<close> adds a row with a fresh key, and refuses an email that is taken and
  a session of a user that does not exist. Deleting a user deletes the user's sessions.
\<close>

definition first_ok :: "('db \<Rightarrow> 'r set) \<Rightarrow> ('r \<Rightarrow> 'k) \<Rightarrow> ('k \<Rightarrow> 'db \<Rightarrow> 'r result) \<Rightarrow> bool" where
  "first_ok table key first \<longleftrightarrow>
     (\<forall>k db r. first k db = Ok r \<longrightarrow> r \<in> table db \<and> key r = k) \<and>
     (\<forall>k db. first k db = Fail RecordNotFound \<longrightarrow> (\<forall>r\<in>table db. key r \<noteq> k))"

definition users_ok :: "'db backend \<Rightarrow> bool" where
  "users_ok w \<longleftrightarrow>
     first_ok (users w) us_Email (first_user_email w) \<and> first_ok (users w) us_ID (first_user_id w) \<and>
     (\<forall>u db r db1. save_user w u db = (r, db1) \<longrightarrow>
        sessions w db1 = sessions w db \<and>
        users w db1 = (if r = Ok () then insert u {v \<in> users w db. us_ID v \<noteq> us_ID u} else users w db)) \<and>
     (\<forall>u db r db1. create_user w u db = (r, db1) \<longrightarrow>
        sessions w db1 = sessions w db \<and>
        (case r of
           Ok v \<Rightarrow> users w db1 = insert v (users w db) \<and> us_ID v \<noteq> 0 \<and> us_ID v \<notin> us_ID ` users w db \<and>
             us_Email u \<notin> us_Email ` users w db \<and>
             v = u\<lparr>us_ID := us_ID v, us_CreatedAt := us_CreatedAt v\<rparr>
         | _ \<Rightarrow> users w db1 = users w db)) \<and>
     (\<forall>u db. let db1 = delete_user w u db in
        users w db1 = users w db \<and> sessions w db1 = sessions w db \<or>
        users w db1 = {v \<in> users w db. us_ID v \<noteq> us_ID u} \<and>
        sessions w db1 = {d \<in> sessions w db. ds_UserID d \<noteq> us_ID u}) \<and>
     (\<forall>i db r db1. delete_user_id w i db = (r, db1) \<longrightarrow>
        (if r = Ok ()
         then users w db1 = {v \<in> users w db. us_ID v \<noteq> i} \<and>
              sessions w db1 = {d \<in> sessions w db. ds_UserID d \<noteq> i}
         else users w db1 = users w db \<and> sessions w db1 = sessions w db))"

definition sessions_ok :: "'db backend \<Rightarrow> bool" where
  "sessions_ok w \<longleftrightarrow>
     first_ok (sessions w) ds_RefreshToken (first_session w) \<and>
     (\<forall>d db r db1. create_session w d db = (r, db1) \<longrightarrow>
        users w db1 = users w db \<and>
        (if r = Ok ()
         then \<exists>i. i \<noteq> 0 \<and> i \<notin> ds_ID ` sessions w db \<and> ds_UserID d \<in> us_ID ` users w db \<and>
              sessions w db1 = insert (d\<lparr>ds_ID := i\<rparr>) (sessions w db)
         else sessions w db1 = sessions w db)) \<and>
     (\<forall>d db. let db1 = delete_session w d db in users w db1 = users w db \<and>
        (sessions w db1 = sessions w db \<or> sessions w db1 = {x \<in> sessions w db. ds_ID x \<noteq> ds_ID d})) \<and>
     (\<forall>t db r db1. delete_sessions_token w t db = (r, db1) \<longrightarrow>
        users w db1 = users w db \<and>
        sessions w db1 =
          (if r = Ok () then {x \<in> sessions w db. ds_RefreshToken x \<noteq> t} else sessions w db)) \<and>
     (\<forall>i db r db1. delete_sessions_user w i db = (r, db1) \<longrightarrow>
        users w db1 = users w db \<and>
        sessions w db1 =
          (if r = Ok () then {x \<in> sessions w db. ds_UserID x \<noteq> i} else sessions w db))"

section \<open>What the tables keep\<close>

text \<open>
  An account is pending, with a code of six digits that expires, or active, with no code and a
  trial of a week.
\<close>

definition user_ok :: "User \<Rightarrow> bool" where
  "user_ok u \<longleftrightarrow> us_ID u \<noteq> 0 \<and> us_Email u \<noteq> [] \<and> us_Name u \<noteq> [] \<and>
     (if us_EmailVerified u
      then us_Status u = ''active'' \<and> us_VerificationCode u = [] \<and>
        us_VerificationCodeExpires u = None \<and>
        (\<exists>t. us_TrialStartedAt u = Some t \<and> us_TrialEndsAt u = Some (t + week))
      else us_Status u = ''pending_verification'' \<and> length (us_VerificationCode u) = 6 \<and>
        set (us_VerificationCode u) \<subseteq> set ''0123456789'' \<and> us_VerificationCodeExpires u \<noteq> None \<and>
        us_TrialStartedAt u = None \<and> us_TrialEndsAt u = None)"

text \<open>The refresh token of a session names its user and is signed with the site's secret.\<close>

definition token_for :: "'db backend \<Rightarrow> string \<Rightarrow> DBSession \<Rightarrow> bool" where
  "token_for w secret d \<longleftrightarrow>
     (\<exists>x i. jwt_signed w secret
        \<lparr>jc_user_id = None, jc_email = None, jc_sub = Some (uuid_String w (ds_UserID d)),
         jc_exp = x, jc_iat = i\<rparr> = Ok (ds_RefreshToken d))"

definition tables_ok :: "'db backend \<Rightarrow> string \<Rightarrow> User set \<Rightarrow> DBSession set \<Rightarrow> bool" where
  "tables_ok w secret us ds \<longleftrightarrow> inj_on us_ID us \<and> inj_on us_Email us \<and> (\<forall>u\<in>us. user_ok u) \<and>
     ds_UserID ` ds \<subseteq> us_ID ` us \<and> inj_on ds_ID ds \<and> (\<forall>d\<in>ds. token_for w secret d)"

definition site_ok :: "'db backend \<Rightarrow> 'db site \<Rightarrow> bool" where
  "site_ok w s \<longleftrightarrow> tables_ok w (jwtSecret s) (users w (st_db s)) (sessions w (st_db s))"

lemma tables_ok_save:
  assumes "tables_ok w k us ds" and "u \<in> us" and "us_ID v = us_ID u" and "us_Email v = us_Email u"
    and "user_ok v"
  shows "tables_ok w k (insert v {x \<in> us. us_ID x \<noteq> us_ID v}) ds"
proof -
  let ?us = "insert v {x \<in> us. us_ID x \<noteq> us_ID v}"
  have inj: "inj_on us_ID us" "inj_on us_Email us" using assms(1) by (auto simp: tables_ok_def)
  have "inj_on us_ID ?us" using inj(1) by (auto simp: inj_on_def)
  moreover have "inj_on us_Email ?us"
    using inj assms(2-4) by (auto simp: inj_on_def)
  moreover have "us_ID ` ?us = us_ID ` us" using assms(2,3) by force
  ultimately show ?thesis using assms(1,5) by (auto simp: tables_ok_def)
qed

lemma tables_ok_create:
  assumes "tables_ok w k us ds" and "us_ID v \<notin> us_ID ` us" and "us_Email v \<notin> us_Email ` us"
    and "user_ok v"
  shows "tables_ok w k (insert v us) ds"
  using assms by (auto simp: tables_ok_def)

lemma tables_ok_delete_user:
  "tables_ok w k us ds \<Longrightarrow>
     tables_ok w k {v \<in> us. us_ID v \<noteq> i} {d \<in> ds. ds_UserID d \<noteq> i}"
  by (auto simp: tables_ok_def inj_on_def)

lemma tables_ok_sessions: "tables_ok w k us ds \<Longrightarrow> tables_ok w k us {d \<in> ds. P d}"
  by (auto simp: tables_ok_def inj_on_def)

lemma tables_ok_new_session:
  "tables_ok w k us ds \<Longrightarrow> ds_ID d \<notin> ds_ID ` ds \<Longrightarrow> ds_UserID d \<in> us_ID ` us \<Longrightarrow>
     token_for w k d \<Longrightarrow> tables_ok w k us (insert d ds)"
  by (auto simp: tables_ok_def)

section \<open>Steps that only read\<close>

text \<open>Steps that leave the tables and the secret alone.\<close>

definition same_tables :: "'db site \<Rightarrow> 'db site \<Rightarrow> bool" where
  "same_tables s t \<longleftrightarrow> st_db t = st_db s \<and> jwtSecret t = jwtSecret s"

lemma same_tables_refl [simp]: "same_tables s s"
  by (simp add: same_tables_def)

lemma same_tables_ok: "same_tables s t \<Longrightarrow> site_ok w t = site_ok w s"
  by (simp add: same_tables_def site_ok_def)

lemma site_clock_same [simp]:
  "st_db (snd (site_clock s)) = st_db s" "jwtSecret (snd (site_clock s)) = jwtSecret s"
  "smtpClient (snd (site_clock s)) = smtpClient s" "st_mails (snd (site_clock s)) = st_mails s"
  by (simp_all add: site_clock_def Let_def split: prod.splits)

lemma site_draw_same [simp]:
  "st_db (snd (site_draw n s)) = st_db s" "jwtSecret (snd (site_draw n s)) = jwtSecret s"
  "smtpClient (snd (site_draw n s)) = smtpClient s" "st_mails (snd (site_draw n s)) = st_mails s"
  by (simp_all add: site_draw_def Let_def split: prod.splits)

lemma SendVerificationCode_same [simp]:
  "st_db (snd (SendVerificationCodeWithHTML c a k s)) = st_db s"
  "jwtSecret (snd (SendVerificationCodeWithHTML c a k s)) = jwtSecret s"
  by (simp_all add: SendVerificationCodeWithHTML_def Let_def)

lemma HashPassword_same [simp]:
  "st_db (snd (HashPassword w p s)) = st_db s" "jwtSecret (snd (HashPassword w p s)) = jwtSecret s"
  "smtpClient (snd (HashPassword w p s)) = smtpClient s"
  by (simp_all add: HashPassword_def case_prod_beta)

lemma GenerateVerificationCode_same [simp]:
  "st_db (snd (GenerateVerificationCode s)) = st_db s"
  "jwtSecret (snd (GenerateVerificationCode s)) = jwtSecret s"
  "smtpClient (snd (GenerateVerificationCode s)) = smtpClient s"
  by (simp_all add: GenerateVerificationCode_def case_prod_beta)

lemma GenerateVerificationCode_digits:
  "length (fst (GenerateVerificationCode s)) = 6 \<and>
     set (fst (GenerateVerificationCode s)) \<subseteq> set ''0123456789''"
proof -
  have "''0123456789'' ! (unat x mod 10) \<in> set ''0123456789''" for x :: byte
    by (rule nth_mem) simp
  then show ?thesis
    by (auto simp: GenerateVerificationCode_def site_draw_def draw_def case_prod_beta simp del: list.set)
qed

lemma tokens_same [simp]:
  "st_db (snd (GenerateAccessToken w i m s)) = st_db s"
  "jwtSecret (snd (GenerateAccessToken w i m s)) = jwtSecret s"
  "st_db (snd (GenerateRefreshToken w i s)) = st_db s"
  "jwtSecret (snd (GenerateRefreshToken w i s)) = jwtSecret s"
  "st_db (snd (ValidateAccessToken w t s)) = st_db s"
  "jwtSecret (snd (ValidateAccessToken w t s)) = jwtSecret s"
  "st_db (snd (ValidateRefreshToken w t s)) = st_db s"
  "jwtSecret (snd (ValidateRefreshToken w t s)) = jwtSecret s"
  by (simp_all add: GenerateAccessToken_def GenerateRefreshToken_def ValidateAccessToken_def
      ValidateRefreshToken_def case_prod_beta)

lemma on_db_same [simp]:
  "fst (on_db f s) = fst (f (st_db s))" "st_db (snd (on_db f s)) = snd (f (st_db s))"
  "jwtSecret (snd (on_db f s)) = jwtSecret s" "smtpClient (snd (on_db f s)) = smtpClient s"
  "st_env (snd (on_db f s)) = st_env s" "st_mails (snd (on_db f s)) = st_mails s"
  by (simp_all add: on_db_def case_prod_beta)

section \<open>Each step on the tables\<close>

definition backend_ok :: "'db backend \<Rightarrow> bool" where
  "backend_ok w \<longleftrightarrow> users_ok w \<and> sessions_ok w"

lemma first_user_row:
  "backend_ok w \<Longrightarrow> first_user_email w m db = Ok u \<Longrightarrow> u \<in> users w db \<and> us_Email u = m"
  "backend_ok w \<Longrightarrow> first_user_id w i db = Ok u \<Longrightarrow> u \<in> users w db \<and> us_ID u = i"
  by (auto simp: backend_ok_def users_ok_def first_ok_def)

lemma save_user_row:
  assumes "backend_ok w"
  shows "sessions w (snd (save_user w u db)) = sessions w db"
    and "users w (snd (save_user w u db)) =
      (if fst (save_user w u db) = Ok () then insert u {v \<in> users w db. us_ID v \<noteq> us_ID u} else users w db)"
  using assms by (cases "save_user w u db"; auto simp: backend_ok_def users_ok_def)+

lemma save_user_ok:
  assumes "backend_ok w" and "site_ok w s" and "u \<in> users w (st_db s)" and "us_ID v = us_ID u"
    and "us_Email v = us_Email u" and "user_ok v"
  shows "site_ok w (snd (on_db (save_user w v) s))"
  using assms(2) tables_ok_save [OF _ assms(3-6)] by (auto simp: site_ok_def save_user_row [OF assms(1)])

lemma create_user_row:
  assumes "backend_ok w" and "create_user w u db = (Ok v, db1)"
  shows "sessions w db1 = sessions w db \<and> users w db1 = insert v (users w db) \<and> us_ID v \<noteq> 0 \<and>
    us_ID v \<notin> us_ID ` users w db \<and> us_Email u \<notin> us_Email ` users w db \<and>
    v = u\<lparr>us_ID := us_ID v, us_CreatedAt := us_CreatedAt v\<rparr>"
  using assms unfolding backend_ok_def users_ok_def by fastforce

lemma create_user_fails:
  assumes "backend_ok w" and "create_user w u db = (r, db1)" and "\<not> is_ok r"
  shows "sessions w db1 = sessions w db \<and> users w db1 = users w db"
  using assms unfolding backend_ok_def users_ok_def by (cases r) fastforce+

lemma delete_user_row:
  "backend_ok w \<Longrightarrow>
     users w (delete_user w u db) = users w db \<and> sessions w (delete_user w u db) = sessions w db \<or>
     users w (delete_user w u db) = {v \<in> users w db. us_ID v \<noteq> us_ID u} \<and>
     sessions w (delete_user w u db) = {d \<in> sessions w db. ds_UserID d \<noteq> us_ID u}"
  unfolding backend_ok_def users_ok_def Let_def by blast

lemma delete_user_ok:
  "backend_ok w \<Longrightarrow> site_ok w s \<Longrightarrow> site_ok w (s\<lparr>st_db := delete_user w u (st_db s)\<rparr>)"
  using delete_user_row [of w u "st_db s"] tables_ok_delete_user by (auto simp: site_ok_def)

lemma delete_user_id_row:
  assumes "backend_ok w"
  shows "if fst (delete_user_id w i db) = Ok ()
    then users w (snd (delete_user_id w i db)) = {v \<in> users w db. us_ID v \<noteq> i} \<and>
         sessions w (snd (delete_user_id w i db)) = {d \<in> sessions w db. ds_UserID d \<noteq> i}
    else users w (snd (delete_user_id w i db)) = users w db \<and>
         sessions w (snd (delete_user_id w i db)) = sessions w db"
proof (cases "delete_user_id w i db")
  case (Pair r db1)
  then have "if r = Ok ()
      then users w db1 = {v \<in> users w db. us_ID v \<noteq> i} \<and> sessions w db1 = {d \<in> sessions w db. ds_UserID d \<noteq> i}
      else users w db1 = users w db \<and> sessions w db1 = sessions w db"
    using assms unfolding backend_ok_def users_ok_def by blast
  with Pair show ?thesis by simp
qed

lemma delete_user_id_ok:
  assumes "backend_ok w" and "site_ok w s"
  shows "site_ok w (snd (on_db (delete_user_id w i) s))"
  using delete_user_id_row [OF assms(1), of i "st_db s"] assms(2) tables_ok_delete_user
  by (auto simp: site_ok_def split: if_splits)

lemma create_session_row:
  assumes "backend_ok w" and "create_session w d db = (r, db1)"
  shows "users w db1 = users w db \<and>
    (if r = Ok ()
     then \<exists>i. i \<noteq> 0 \<and> i \<notin> ds_ID ` sessions w db \<and> ds_UserID d \<in> us_ID ` users w db \<and>
          sessions w db1 = insert (d\<lparr>ds_ID := i\<rparr>) (sessions w db)
     else sessions w db1 = sessions w db)"
  using assms unfolding backend_ok_def sessions_ok_def by blast

lemma delete_session_row:
  "backend_ok w \<Longrightarrow> users w (delete_session w d db) = users w db \<and>
     (sessions w (delete_session w d db) = sessions w db \<or>
      sessions w (delete_session w d db) = {x \<in> sessions w db. ds_ID x \<noteq> ds_ID d})"
  unfolding backend_ok_def sessions_ok_def Let_def by blast

lemma delete_session_ok:
  "backend_ok w \<Longrightarrow> site_ok w s \<Longrightarrow> site_ok w (s\<lparr>st_db := delete_session w d (st_db s)\<rparr>)"
  using delete_session_row [of w d "st_db s"] tables_ok_sessions by (auto simp: site_ok_def)

lemma delete_sessions_row:
  assumes "backend_ok w"
  shows "users w (snd (delete_sessions_token w t db)) = users w db"
    and "sessions w (snd (delete_sessions_token w t db)) =
      (if fst (delete_sessions_token w t db) = Ok () then {x \<in> sessions w db. ds_RefreshToken x \<noteq> t}
       else sessions w db)"
    and "users w (snd (delete_sessions_user w i db)) = users w db"
    and "sessions w (snd (delete_sessions_user w i db)) =
      (if fst (delete_sessions_user w i db) = Ok () then {x \<in> sessions w db. ds_UserID x \<noteq> i}
       else sessions w db)"
  using assms
  by (cases "delete_sessions_token w t db"; cases "delete_sessions_user w i db";
      auto simp: backend_ok_def sessions_ok_def)+

lemma delete_sessions_ok:
  assumes "backend_ok w" and "site_ok w s"
  shows "site_ok w (snd (on_db (delete_sessions_token w t) s))"
    and "site_ok w (snd (on_db (delete_sessions_user w i) s))"
  using assms(2) tables_ok_sessions
  by (auto simp: site_ok_def delete_sessions_row [OF assms(1)])

lemma site_ok_same:
  "site_ok w s \<Longrightarrow> st_db t = st_db s \<Longrightarrow> jwtSecret t = jwtSecret s \<Longrightarrow> site_ok w t"
  by (simp add: site_ok_def)

section \<open>Each request on the tables\<close>

text \<open>The token of a new session is the one that was signed for its user.\<close>

lemma GenerateRefreshToken_signed:
  assumes "GenerateRefreshToken w i s = (Ok refresh, s1)"
  shows "\<exists>x y. jwt_signed w (jwtSecret s)
    \<lparr>jc_user_id = None, jc_email = None, jc_sub = Some (uuid_String w i), jc_exp = x, jc_iat = y\<rparr> =
    Ok refresh"
  using assms by (fastforce simp: GenerateRefreshToken_def case_prod_beta)

text \<open>What \<open>issue_tokens\<close> comes to: a session of the user, or no change of the tables.\<close>

lemma issue_tokens_effect:
  assumes "backend_ok w" and "issue_tokens w user remote s = (reply, s1)"
  shows "jwtSecret s1 = jwtSecret s \<and> users w (st_db s1) = users w (st_db s) \<and>
    (if fst reply = 200
     then \<exists>d a. sessions w (st_db s1) = insert d (sessions w (st_db s)) \<and>
       snd reply = AuthBody a \<and> ar_RefreshToken a = ds_RefreshToken d \<and> ds_UserID d = us_ID user \<and>
       ds_ID d \<notin> ds_ID ` sessions w (st_db s) \<and> us_ID user \<in> us_ID ` users w (st_db s) \<and>
       token_for w (jwtSecret s) d
     else sessions w (st_db s1) = sessions w (st_db s))"
proof -
  obtain ra sa where A: "GenerateAccessToken w (us_ID user) (us_Email user) s = (ra, sa)" by force
  have sa: "st_db sa = st_db s" "jwtSecret sa = jwtSecret s"
    using tokens_same(1,2) [of w "us_ID user" "us_Email user" s] A by simp_all
  obtain rr sr where R: "GenerateRefreshToken w (us_ID user) sa = (rr, sr)" by force
  have sr: "st_db sr = st_db s" "jwtSecret sr = jwtSecret s"
    using tokens_same(3,4) [of w "us_ID user" sa] R sa by simp_all
  obtain t sc where C: "site_clock sr = (t, sc)" by force
  have sc: "st_db sc = st_db s" "jwtSecret sc = jwtSecret s"
    using site_clock_same(1,2) [of sr] C sr by simp_all
  show ?thesis
  proof (cases ra)
    case (Ok access)
    note ra = this
    show ?thesis
    proof (cases rr)
      case (Ok refresh)
      let ?row = "\<lparr>ds_ID = 0, ds_UserID = us_ID user, ds_RefreshToken = refresh,
        ds_ExpiresAt = t + week, ds_IPAddress = fst remote, ds_UserAgent = snd remote\<rparr>"
      obtain rc db1 where D: "create_session w ?row (st_db s) = (rc, db1)" by force
      note row = create_session_row [OF assms(1) D]
      have signed: "token_for w (jwtSecret s) (?row\<lparr>ds_ID := i\<rparr>)" for i
        using GenerateRefreshToken_signed R Ok sa(2) by (fastforce simp: token_for_def)
      show ?thesis
      proof (cases "rc = Ok ()")
        case True
        from row True obtain i where i: "i \<notin> ds_ID ` sessions w (st_db s)"
          "us_ID user \<in> us_ID ` users w (st_db s)"
          "sessions w db1 = insert (?row\<lparr>ds_ID := i\<rparr>) (sessions w (st_db s))" "users w db1 = users w (st_db s)"
          by auto
        have "snd reply = AuthBody \<lparr>ar_AccessToken = access, ar_RefreshToken = refresh,
            ar_UserID = uuid_String w (us_ID user), ar_Email = us_Email user, ar_Status = us_Status user\<rparr>"
          "st_db s1 = db1" "jwtSecret s1 = jwtSecret s" "fst reply = 200"
          using assms(2) A R C D True ra Ok sc by (auto simp: issue_tokens_def on_db_def)
        with i signed [of i] show ?thesis by (auto intro!: exI [of _ "?row\<lparr>ds_ID := i\<rparr>"])
      next
        case False
        then have "fst reply = 500" "st_db s1 = db1" "jwtSecret s1 = jwtSecret s"
          using assms(2) A R C D ra Ok sc
          by (auto simp: issue_tokens_def on_db_def sendJSONError_def split: result.splits)
        with row False show ?thesis by simp
      qed
    qed (use assms(2) A R sa sr ra in \<open>auto simp: issue_tokens_def sendJSONError_def\<close>)
  qed (use assms(2) A sa in \<open>auto simp: issue_tokens_def sendJSONError_def\<close>)
qed

lemma issue_tokens_ok:
  assumes "backend_ok w" and "site_ok w s"
  shows "site_ok w (snd (issue_tokens w user remote s))"
proof -
  obtain reply s1 where i: "issue_tokens w user remote s = (reply, s1)" by (metis surj_pair)
  note effect = issue_tokens_effect [OF assms(1) i]
  show ?thesis
  proof (cases "fst reply = 200")
    case True
    with effect obtain d where "sessions w (st_db s1) = insert d (sessions w (st_db s))"
      "ds_ID d \<notin> ds_ID ` sessions w (st_db s)" "ds_UserID d \<in> us_ID ` users w (st_db s)"
      "token_for w (jwtSecret s) d" by auto
    with effect assms(2) tables_ok_new_session show ?thesis by (simp add: site_ok_def i)
  next
    case False
    with effect assms(2) show ?thesis by (simp add: site_ok_def i)
  qed
qed

lemma user_ok_pending:
  assumes "user_ok u" and "\<not> us_EmailVerified u" and "nm \<noteq> []" and "length code = 6"
    and "set code \<subseteq> set ''0123456789''"
  shows "user_ok (u\<lparr>us_PasswordHash := h, us_Name := nm, us_VerificationCode := code,
    us_VerificationCodeExpires := Some t\<rparr>)"
  using assms by (simp add: user_ok_def)

lemma user_ok_verified:
  "user_ok u \<Longrightarrow> user_ok (u\<lparr>us_EmailVerified := True, us_Status := ''active'',
     us_TrialStartedAt := Some t, us_TrialEndsAt := Some (t + week), us_VerificationCode := '''',
     us_VerificationCodeExpires := None\<rparr>)"
  by (simp add: user_ok_def)

lemma user_ok_edited:
  "user_ok u \<Longrightarrow> name \<noteq> [] \<Longrightarrow> user_ok (u\<lparr>us_Name := name\<rparr>)"
  "user_ok u \<Longrightarrow> user_ok (u\<lparr>us_PasswordHash := h\<rparr>)"
  by (cases "us_EmailVerified u"; simp add: user_ok_def)+

lemma site_user_ok: "site_ok w s \<Longrightarrow> u \<in> users w (st_db s) \<Longrightarrow> user_ok u"
  by (simp add: site_ok_def tables_ok_def)

lemma register_row_ok:
  assumes "backend_ok w" and "site_ok w s" and "rg_Email req \<noteq> []"
    and "length code = 6" and "set code \<subseteq> set ''0123456789''"
    and "\<And>u. existing = Some u \<Longrightarrow> u \<in> users w (st_db s) \<and> \<not> us_EmailVerified u"
  shows "site_ok w (snd (register_row w existing req h code t s))"
proof (cases existing)
  case (Some u)
  let ?nm = "if rg_Name req = [] then rg_Email req else rg_Name req"
  let ?v = "u\<lparr>us_PasswordHash := h, us_Name := ?nm, us_VerificationCode := code,
    us_VerificationCodeExpires := Some t\<rparr>"
  have u: "u \<in> users w (st_db s)" "\<not> us_EmailVerified u" using assms(6) Some by auto
  have "?nm \<noteq> []" using assms(3) by simp
  then have "user_ok ?v" using user_ok_pending [OF site_user_ok [OF assms(2) u(1)] u(2) _ assms(4,5)] by simp
  then have "site_ok w (snd (on_db (save_user w ?v) s))"
    by (intro save_user_ok [OF assms(1,2) u(1)]) simp_all
  then show ?thesis by (simp add: register_row_def Some case_prod_beta Let_def)
next
  case None
  let ?nm = "if rg_Name req = [] then rg_Email req else rg_Name req"
  let ?u = "\<lparr>us_ID = 0, us_Email = rg_Email req, us_PasswordHash = h, us_Name = ?nm,
    us_CreatedAt = zero_time, us_EmailVerified = False, us_TrialStartedAt = None,
    us_TrialEndsAt = None, us_Status = ''pending_verification'',
    us_VerificationCode = code, us_VerificationCodeExpires = Some t\<rparr>"
  obtain r db1 where c: "create_user w ?u (st_db s) = (r, db1)" by (metis surj_pair)
  show ?thesis
  proof (cases r)
    case (Ok v)
    note row = create_user_row [OF assms(1) c [unfolded Ok]]
    then obtain i y where v: "v = ?u\<lparr>us_ID := i, us_CreatedAt := y\<rparr>" by blast
    have "user_ok v" using row v assms(3-5) by (simp add: user_ok_def)
    moreover have "us_Email v \<notin> us_Email ` users w (st_db s)" using row v by simp
    moreover have "us_ID v \<notin> us_ID ` users w (st_db s)" using row by blast
    ultimately have "tables_ok w (jwtSecret s) (insert v (users w (st_db s))) (sessions w (st_db s))"
      using assms(2) tables_ok_create by (simp add: site_ok_def)
    then show ?thesis using None c row by (simp add: register_row_def site_ok_def Let_def)
  next
    case (Fail e)
    with create_user_fails [OF assms(1) c] None c assms(2) show ?thesis
      by (simp add: register_row_def site_ok_def Let_def)
  next
    case Panic
    with create_user_fails [OF assms(1) c] None c assms(2) show ?thesis
      by (simp add: register_row_def site_ok_def Let_def)
  qed
qed

lemma register_new_ok:
  assumes "backend_ok w" and "site_ok w s" and "rg_Email req \<noteq> []"
    and "\<And>u. existing = Some u \<Longrightarrow> u \<in> users w (st_db s) \<and> \<not> us_EmailVerified u"
  shows "site_ok w (snd (register_new w existing req s))"
proof -
  obtain h s1 where H: "HashPassword w (rg_Password req) s = (h, s1)" by (metis surj_pair)
  have s1: "st_db s1 = st_db s" "jwtSecret s1 = jwtSecret s"
    using HashPassword_same(1,2) [of w "rg_Password req" s] H by simp_all
  show ?thesis
  proof (cases h)
    case (Ok hashed)
    obtain code s2 where G: "GenerateVerificationCode s1 = (code, s2)" by (metis surj_pair)
    obtain t s3 where C: "site_clock s2 = (t, s3)" by (metis surj_pair)
    have s3: "st_db s3 = st_db s" "jwtSecret s3 = jwtSecret s"
      using GenerateVerificationCode_same(1,2) [of s1] site_clock_same(1,2) [of s2] G C s1 by simp_all
    have ok3: "site_ok w s3" using site_ok_same [OF assms(2) s3] .
    have digits: "length code = 6" "set code \<subseteq> set ''0123456789''"
      using GenerateVerificationCode_digits [of s1] G by simp_all
    obtain r s4 where R: "register_row w existing req hashed code (t + 10 * minute) s3 = (r, s4)"
      by (metis surj_pair)
    have ok4: "site_ok w s4"
      using register_row_ok [OF assms(1) ok3 assms(3) digits, of existing hashed "t + 10 * minute"] assms(4) R s3
      by simp
    have mail: "site_ok w (snd (SendVerificationCodeWithHTML c (rg_Email req) code s4))" for c
      by (rule site_ok_same [OF ok4]) simp_all
    show ?thesis
      using H Ok G C R ok4 mail delete_user_ok [OF assms(1)]
      by (auto simp: register_new_def split: result.splits option.splits prod.splits)
        (metis mail delete_user_ok [OF assms(1)] snd_conv)+
  qed (use site_ok_same [OF assms(2) s1] H in \<open>auto simp: register_new_def\<close>)
qed

lemma RegisterHandler_ok:
  assumes "backend_ok w" and "site_ok w s"
  shows "site_ok w (snd (RegisterHandler w body s))"
proof (cases body)
  case (Some req)
  have new: "rg_Email req \<noteq> [] \<Longrightarrow> site_ok w (snd (register_new w None req t))" if "site_ok w t" for t
    using register_new_ok [OF assms(1) that, of req None] by simp
  have clock: "site_ok w (snd (site_clock s))" by (rule site_ok_same [OF assms(2)]) simp_all
  have again: "rg_Email req \<noteq> [] \<Longrightarrow>
      site_ok w (snd (register_new w (Some u) req t))"
    if "first_user_email w (rg_Email req) (st_db s) = Ok u" "\<not> us_EmailVerified u" "site_ok w t"
      "st_db t = st_db s" for u t
    using register_new_ok [OF assms(1) that(3), of req "Some u"] first_user_row(1) [OF assms(1) that(1)] that by simp
  have resend: "site_ok w (snd (resend_code u m t))" if "site_ok w t" for u m t
    by (rule site_ok_same [OF that]) (simp_all add: resend_code_def split: option.splits)
  show ?thesis
    using Some assms(2) new [OF assms(2)] new [OF clock] again clock resend
    by (auto simp: RegisterHandler_def case_prod_beta Let_def split: result.splits option.splits)
qed (simp add: RegisterHandler_def assms)

lemma VerifyCodeHandler_ok:
  assumes "backend_ok w" and "site_ok w s"
  shows "site_ok w (snd (VerifyCodeHandler w body remote s))"
proof -
  have clock: "site_ok w (snd (site_clock t))" if "site_ok w t" for t
    by (rule site_ok_same [OF that]) simp_all
  have row: "site_ok w (snd (verify_row w u t))"
    if "site_ok w t" "u \<in> users w (st_db t)" for u and t :: "'a site"
  proof -
    obtain x s1 where C: "site_clock t = (x, s1)" by (metis surj_pair)
    have s1: "site_ok w s1" "st_db s1 = st_db t" using clock [OF that(1)] site_clock_same [of t] C by simp_all
    show ?thesis
      using save_user_ok [OF assms(1) s1(1), of u] that(2) s1 user_ok_verified [OF site_user_ok [OF that]] C
      by (simp add: verify_row_def case_prod_beta Let_def)
  qed
  have verify: "site_ok w (snd (verify_row w u (snd (site_clock s))))"
    if "first_user_email w m (st_db s) = Ok u" for m u
    using row [OF clock [OF assms(2)]] first_user_row(1) [OF assms(1) that] by simp
  show ?thesis
    using assms(2) clock [OF assms(2)] verify issue_tokens_ok [OF assms(1)]
    by (auto simp: VerifyCodeHandler_def case_prod_beta Let_def split: result.splits option.splits prod.splits)
qed

lemma LoginHandler_ok:
  assumes "backend_ok w" and "site_ok w s"
  shows "site_ok w (snd (LoginHandler w body remote s))"
  using assms(2) issue_tokens_ok [OF assms]
  by (simp add: LoginHandler_def split: result.splits option.splits go_error.splits)

lemma RefreshHandler_ok:
  assumes "backend_ok w" and "site_ok w s"
  shows "site_ok w (snd (RefreshHandler w body remote s))"
proof (cases body)
  case (Some token)
  let ?s1 = "snd (site_clock s)"
  let ?s2 = "snd (ValidateRefreshToken w token ?s1)"
  have s1: "site_ok w ?s1" by (rule site_ok_same [OF assms(2)]) simp_all
  have s2: "site_ok w ?s2" by (rule site_ok_same [OF s1]) simp_all
  have expired: "site_ok w (?s1\<lparr>st_db := delete_session w d (st_db s)\<rparr>)" for d
    using delete_session_ok [OF assms(1) s1, of d] by simp
  have issued: "site_ok w (snd (issue_tokens w u remote (?s2\<lparr>st_db := delete_session w d (st_db s)\<rparr>)))" for u d
    using issue_tokens_ok [OF assms(1) delete_session_ok [OF assms(1) s2, of d]] by simp
  show ?thesis
    using Some assms(2) s1 s2 expired issued
    by (auto simp: RefreshHandler_def case_prod_beta Let_def split: result.splits option.splits)
qed (simp add: RefreshHandler_def assms)

lemma LogoutHandler_ok:
  assumes "backend_ok w" and "site_ok w s"
  shows "site_ok w (snd (LogoutHandler w body s))"
  using assms(2) delete_sessions_ok(1) [OF assms]
  by (auto simp: LogoutHandler_def case_prod_beta split: result.splits option.splits)

lemma token_user_row:
  assumes "backend_ok w" and "token_user w claims s = Inr u"
  shows "u \<in> users w (st_db s) \<and> uuid_Parse w (cm_UserID claims) = Some (us_ID u)"
  using assms(2) first_user_row(2) [OF assms(1)]
  by (auto simp: token_user_def split: option.splits result.splits)

lemma MeHandler_ok: "site_ok w s \<Longrightarrow> site_ok w (snd (MeHandler w claims s))"
  by (simp add: MeHandler_def split: sum.splits)

lemma UpdateNameHandler_ok:
  assumes "backend_ok w" and "site_ok w s"
  shows "site_ok w (snd (UpdateNameHandler w body claims s))"
proof -
  have saved: "site_ok w (snd (on_db (save_user w (u\<lparr>us_Name := name\<rparr>)) s))"
    if "token_user w claims s = Inr u" "name \<noteq> []" for u name
  proof -
    have u: "u \<in> users w (st_db s)" using token_user_row [OF assms(1) that(1)] by simp
    with site_user_ok [OF assms(2)] that(2) have "user_ok (u\<lparr>us_Name := name\<rparr>)" by (blast intro: user_ok_edited)
    with u show ?thesis by (intro save_user_ok [OF assms]) simp_all
  qed
  show ?thesis
    using assms(2) saved
    by (auto simp: UpdateNameHandler_def case_prod_beta Let_def split: result.splits option.splits sum.splits)
qed

lemma UpdatePasswordHandler_ok:
  assumes "backend_ok w" and "site_ok w s"
  shows "site_ok w (snd (UpdatePasswordHandler w body claims s))"
proof -
  have hashed: "site_ok w (snd (HashPassword w p s))" for p
    by (rule site_ok_same [OF assms(2)]) simp_all
  have saved: "site_ok w (snd (on_db (save_user w (u\<lparr>us_PasswordHash := h\<rparr>)) (snd (HashPassword w p s))))"
    if "token_user w claims s = Inr u" for u h p
  proof -
    have u: "u \<in> users w (st_db s)" using token_user_row [OF assms(1) that(1)] by simp
    with site_user_ok [OF assms(2)] have "user_ok (u\<lparr>us_PasswordHash := h\<rparr>)" by (blast intro: user_ok_edited)
    with u show ?thesis by (intro save_user_ok [OF assms(1) hashed]) simp_all
  qed
  show ?thesis
    using assms(2) hashed saved
    by (auto simp: UpdatePasswordHandler_def case_prod_beta Let_def
        split: result.splits option.splits sum.splits)
qed

lemma DeleteAccountHandler_ok:
  assumes "backend_ok w" and "site_ok w s"
  shows "site_ok w (snd (DeleteAccountHandler w claims s))"
  using assms(2) delete_sessions_ok(2) [OF assms] delete_user_id_ok [OF assms(1) delete_sessions_ok(2) [OF assms]]
  by (auto simp: DeleteAccountHandler_def case_prod_beta split: result.splits option.splits)

lemma AuthMiddleware_ok:
  assumes "\<And>claims t. site_ok w t \<Longrightarrow> site_ok w (snd (f claims t))" and "site_ok w s"
  shows "site_ok w (snd (AuthMiddleware w f h s))"
proof -
  have valid: "site_ok w (snd (ValidateAccessToken w t s))" for t
    by (rule site_ok_same [OF assms(2)]) simp_all
  then show ?thesis
    using assms
    by (auto simp: AuthMiddleware_def case_prod_beta split: list.splits result.splits)
qed

lemma SetupRoutes_ok:
  assumes "backend_ok w" and "site_ok w s"
  shows "site_ok w (snd (SetupRoutes w req s))"
  using assms
  by (cases req)
    (simp_all add: RegisterHandler_ok VerifyCodeHandler_ok LoginHandler_ok RefreshHandler_ok LogoutHandler_ok
      AuthMiddleware_ok MeHandler_ok UpdateNameHandler_ok UpdatePasswordHandler_ok DeleteAccountHandler_ok)

text \<open>A sequence of requests.\<close>

fun serve_all :: "'db backend \<Rightarrow> request list \<Rightarrow> 'db site \<Rightarrow> http_reply list \<times> 'db site" where
  "serve_all w [] s = ([], s)"
| "serve_all w (r # rs) s =
     (let (reply, s1) = SetupRoutes w r s; (replies, s2) = serve_all w rs s1 in (reply # replies, s2))"

lemma serve_all_ok: "backend_ok w \<Longrightarrow> site_ok w s \<Longrightarrow> site_ok w (snd (serve_all w rs s))"
  by (induction rs arbitrary: s) (simp_all add: case_prod_beta SetupRoutes_ok)

section \<open>A backend in memory\<close>

record mem_db =
  mem_users :: "User list"
  mem_sessions :: "DBSession list"
  mem_subscriptions :: "Subscription list"

definition mem_first :: "('r \<Rightarrow> 'k) \<Rightarrow> 'k \<Rightarrow> 'r list \<Rightarrow> 'r result" where
  "mem_first key k rows =
     (case filter (\<lambda>r. key r = k) rows of r # _ \<Rightarrow> Ok r | [] \<Rightarrow> Fail RecordNotFound)"

definition fresh_id :: "uuid list \<Rightarrow> uuid result" where
  "fresh_id ids =
     (case filter (\<lambda>i. i \<noteq> 0 \<and> i \<notin> set ids) (map of_nat [1..<length ids + 2]) of
        i # _ \<Rightarrow> Ok i | [] \<Rightarrow> Fail OtherError)"

definition mem_save_user :: "User \<Rightarrow> mem_db \<Rightarrow> unit result \<times> mem_db" where
  "mem_save_user u db =
     (Ok (), db\<lparr>mem_users := u # filter (\<lambda>v. us_ID v \<noteq> us_ID u) (mem_users db)\<rparr>)"

definition mem_create_user :: "User \<Rightarrow> mem_db \<Rightarrow> User result \<times> mem_db" where
  "mem_create_user u db =
     (if us_Email u \<in> us_Email ` set (mem_users db) then (Fail OtherError, db)
      else case fresh_id (map us_ID (mem_users db)) of
        Ok i \<Rightarrow> (let v = u\<lparr>us_ID := i, us_CreatedAt := 0\<rparr> in (Ok v, db\<lparr>mem_users := v # mem_users db\<rparr>))
      | _ \<Rightarrow> (Fail OtherError, db))"

definition mem_delete_user_id :: "uuid \<Rightarrow> mem_db \<Rightarrow> unit result \<times> mem_db" where
  "mem_delete_user_id i db =
     (Ok (), db\<lparr>mem_users := filter (\<lambda>v. us_ID v \<noteq> i) (mem_users db),
                mem_sessions := filter (\<lambda>d. ds_UserID d \<noteq> i) (mem_sessions db)\<rparr>)"

definition mem_create_session :: "DBSession \<Rightarrow> mem_db \<Rightarrow> unit result \<times> mem_db" where
  "mem_create_session d db =
     (if ds_UserID d \<notin> us_ID ` set (mem_users db) then (Fail OtherError, db)
      else case fresh_id (map ds_ID (mem_sessions db)) of
        Ok i \<Rightarrow> (Ok (), db\<lparr>mem_sessions := d\<lparr>ds_ID := i\<rparr> # mem_sessions db\<rparr>)
      | _ \<Rightarrow> (Fail OtherError, db))"

definition mem_filter_sessions :: "(DBSession \<Rightarrow> bool) \<Rightarrow> mem_db \<Rightarrow> mem_db" where
  "mem_filter_sessions P db = db\<lparr>mem_sessions := filter P (mem_sessions db)\<rparr>"

definition mem_create_subscription :: "Subscription \<Rightarrow> mem_db \<Rightarrow> unit result \<times> mem_db" where
  "mem_create_subscription b db =
     (case fresh_id (map sb_ID (mem_subscriptions db)) of
        Ok i \<Rightarrow> (Ok (), db\<lparr>mem_subscriptions := mem_subscriptions db @ [b\<lparr>sb_ID := i\<rparr>]\<rparr>)
      | _ \<Rightarrow> (Fail OtherError, db))"

definition mem_save_subscription :: "Subscription \<Rightarrow> mem_db \<Rightarrow> unit result \<times> mem_db" where
  "mem_save_subscription b db =
     (Ok (), db\<lparr>mem_subscriptions := b # filter (\<lambda>x. sb_ID x \<noteq> sb_ID b) (mem_subscriptions db)\<rparr>)"

text \<open>Passwords are their own hashes; a token is the decimal text of its claims, never expired.\<close>

definition mem_uuid_String :: "uuid \<Rightarrow> string" where
  "mem_uuid_String u = replicate (unat u) (CHR ''x'')"

definition mem_backend :: "mem_db backend" where
  "mem_backend =
     \<lparr>users = (\<lambda>db. set (mem_users db)), sessions = (\<lambda>db. set (mem_sessions db)),
      subscriptions = (\<lambda>db. set (mem_subscriptions db)),
      first_user_email = (\<lambda>m db. mem_first us_Email m (mem_users db)),
      first_user_id = (\<lambda>i db. mem_first us_ID i (mem_users db)),
      save_user = mem_save_user, create_user = mem_create_user,
      delete_user = (\<lambda>u db. snd (mem_delete_user_id (us_ID u) db)), delete_user_id = mem_delete_user_id,
      first_session = (\<lambda>t db. mem_first ds_RefreshToken t (mem_sessions db)),
      create_session = mem_create_session,
      delete_session = (\<lambda>d. mem_filter_sessions (\<lambda>x. ds_ID x \<noteq> ds_ID d)),
      delete_sessions_token = (\<lambda>t db. (Ok (), mem_filter_sessions (\<lambda>x. ds_RefreshToken x \<noteq> t) db)),
      delete_sessions_user = (\<lambda>i db. (Ok (), mem_filter_sessions (\<lambda>x. ds_UserID x \<noteq> i) db)),
      first_subscription = (\<lambda>l db. mem_first sb_LavaSubscriptionID l (mem_subscriptions db)),
      latest_subscription = (\<lambda>u db. mem_first sb_UserID u (rev (mem_subscriptions db))),
      create_subscription = mem_create_subscription, save_subscription = mem_save_subscription,
      uuid_String = mem_uuid_String, uuid_Parse = (\<lambda>s. Some (of_nat (length s))),
      bcrypt = (\<lambda>salt p. Ok p), bcrypt_matches = (\<lambda>h p. h = p),
      jwt_signed = (\<lambda>k c. Ok (k @ or_empty (jc_user_id c) @ or_empty (jc_sub c))),
      jwt_parsed = (\<lambda>k s t. Some \<lparr>jc_user_id = Some (drop (length k) s), jc_email = None,
        jc_sub = Some (drop (length k) s), jc_exp = 0, jc_iat = 0\<rparr>)\<rparr>"

lemma fresh_id_fresh: "fresh_id ids = Ok i \<Longrightarrow> i \<noteq> 0 \<and> i \<notin> set ids"
proof -
  assume "fresh_id ids = Ok i"
  then obtain rest where "filter (\<lambda>i. i \<noteq> 0 \<and> i \<notin> set ids) (map of_nat [1..<length ids + 2]) = i # rest"
    by (auto simp: fresh_id_def split: list.splits)
  then have "i \<in> set (filter (\<lambda>i. i \<noteq> 0 \<and> i \<notin> set ids) (map of_nat [1..<length ids + 2]))"
    by (simp only: list.set_intros)
  then show ?thesis unfolding set_filter by blast
qed

lemma mem_first_ok: "first_ok (\<lambda>db. set (table db)) key (\<lambda>k db. mem_first key k (table db))"
proof -
  have "mem_first key k rows = Ok r \<Longrightarrow> r \<in> set rows \<and> key r = k" for k rows r
    by (auto simp: mem_first_def split: list.splits dest: filter_eq_ConsD)
  moreover have "mem_first key k rows = Fail RecordNotFound \<Longrightarrow> \<forall>r\<in>set rows. key r \<noteq> k" for k rows
    by (auto simp: mem_first_def filter_empty_conv split: list.splits)
  ultimately show ?thesis by (auto simp: first_ok_def)
qed

lemma mem_users_ok: "users_ok mem_backend"
  unfolding users_ok_def mem_backend_def
  by (auto simp: mem_first_ok mem_save_user_def mem_create_user_def mem_delete_user_id_def Let_def
      split: result.splits if_splits dest: fresh_id_fresh)

lemma mem_create_session_row:
  assumes "mem_create_session d db = (r, db1)"
  shows "mem_users db1 = mem_users db \<and>
    (if r = Ok ()
     then \<exists>i. i \<noteq> 0 \<and> i \<notin> ds_ID ` set (mem_sessions db) \<and> ds_UserID d \<in> us_ID ` set (mem_users db) \<and>
          set (mem_sessions db1) = insert (d\<lparr>ds_ID := i\<rparr>) (set (mem_sessions db))
     else mem_sessions db1 = mem_sessions db)"
proof (cases "fresh_id (map ds_ID (mem_sessions db))")
  case (Ok i)
  with assms fresh_id_fresh [OF Ok] show ?thesis
    by (auto simp: mem_create_session_def split: if_splits intro!: exI [of _ i])
qed (use assms in \<open>auto simp: mem_create_session_def split: if_splits\<close>)

lemma mem_sessions_ok: "sessions_ok mem_backend"
  unfolding sessions_ok_def mem_backend_def
  using mem_create_session_row by (simp add: mem_first_ok mem_filter_sessions_def Let_def)

lemma mem_backend_ok: "backend_ok mem_backend"
  by (simp add: backend_ok_def mem_users_ok mem_sessions_ok)

end
