(* ===== verification/AccountProperties.thy ===== *)
theory AccountProperties
  imports AccountLaws Samples
begin

text \<open>
  Properties of the accounts of the web site: what the tables keep through any requests, whose
  password an account ends up with, what guessing codes costs, and which sessions share a
  token.
\<close>

section \<open>Sample sites\<close>

definition site0 :: "mem_db site" where
  "site0 = \<lparr>st_db = \<lparr>mem_users = [], mem_sessions = [], mem_subscriptions = []\<rparr>, st_env = env0,
     jwtSecret = ''k'', smtpClient = Some (\<lambda>_. True), st_mails = []\<rparr>"

lemma site0_ok: "site_ok mem_backend site0"
  by (simp add: site_ok_def tables_ok_def site0_def mem_backend_def)

section \<open>The tables\<close>

text \<open>C14: Whatever requests are served: no two accounts share an id or an email; an account is pending,
  with a code of six digits and its expiry, or active, with no code and a trial of a week; and
  every session is of an existing account, with a refresh token that was signed for it.\<close>

theorem accounts_stay_well_formed:
  assumes "backend_ok w" and "site_ok w s" and "serve_all w requests s = (replies, s1)"
  shows "inj_on us_ID (users w (st_db s1)) \<and> inj_on us_Email (users w (st_db s1)) \<and>
    (\<forall>u\<in>users w (st_db s1). user_ok u) \<and>
    (\<forall>d\<in>sessions w (st_db s1). ds_UserID d \<in> us_ID ` users w (st_db s1) \<and> token_for w (jwtSecret s1) d)"
  using serve_all_ok [OF assms(1,2), of requests] assms(3)
  by (auto simp: site_ok_def tables_ok_def)

lemma accounts_stay_well_formed_witness:
  "\<exists>replies s1. serve_all mem_backend
      [Register (Some \<lparr>rg_Email = ''a'', rg_Password = ''secret'', rg_Name = []\<rparr>), Logout (Some ''t'')] site0 =
      (replies, s1) \<and> (\<forall>u\<in>users mem_backend (st_db s1). user_ok u)"
proof -
  obtain replies s1 where r: "serve_all mem_backend
      [Register (Some \<lparr>rg_Email = ''a'', rg_Password = ''secret'', rg_Name = []\<rparr>), Logout (Some ''t'')] site0 =
      (replies, s1)" by (metis surj_pair)
  from accounts_stay_well_formed [OF mem_backend_ok site0_ok r] r show ?thesis by blast
qed

section \<open>Whose password\<close>

lemma register_new_200:
  assumes "backend_ok w" and "register_new w None req s = ((200, b), s1)"
  shows "\<exists>salt h v. bcrypt w salt (rg_Password req) = Ok h \<and>
    users w (st_db s1) = insert v (users w (st_db s)) \<and> us_Email v = rg_Email req \<and>
    us_PasswordHash v = h \<and> \<not> us_EmailVerified v \<and>
    us_VerificationCodeExpires v = Some (now (clk (st_env s)) + 10 * minute) \<and>
    rg_Email req \<notin> us_Email ` users w (st_db s) \<and>
    st_mails s1 = st_mails s @ [(rg_Email req, us_VerificationCode v)]"
proof -
  obtain salt s0 where D: "site_draw 16 s = (salt, s0)" by (metis surj_pair)
  obtain code s2 where G: "GenerateVerificationCode s0 = (code, s2)" by (metis surj_pair)
  obtain t s3 where C: "site_clock s2 = (t, s3)" by (metis surj_pair)
  have same: "st_db s3 = st_db s" "st_mails s3 = st_mails s"
    using D G C by (auto simp: site_draw_def GenerateVerificationCode_def site_clock_def Let_def split: prod.splits)
  have t: "t = now (clk (st_env s))"
    using D G C by (auto simp: site_draw_def GenerateVerificationCode_def site_clock_def draw_def
        read_clock_def Let_def)
  show ?thesis
  proof (cases "bcrypt w salt (rg_Password req)")
    case (Ok h)
    have H: "HashPassword w (rg_Password req) s = (Ok h, s0)" using D Ok by (simp add: HashPassword_def)
    obtain r s4 where R: "register_row w None req h code (t + 10 * minute) s3 = (r, s4)" by (metis surj_pair)
    with assms(2) H G C obtain v where r: "r = Ok v"
      by (cases r) (auto simp: register_new_def sendJSONError_def)
    let ?u = "\<lparr>us_ID = 0, us_Email = rg_Email req, us_PasswordHash = h,
      us_Name = if rg_Name req = [] then rg_Email req else rg_Name req,
      us_CreatedAt = zero_time, us_EmailVerified = False, us_TrialStartedAt = None,
      us_TrialEndsAt = None, us_Status = ''pending_verification'',
      us_VerificationCode = code, us_VerificationCodeExpires = Some (t + 10 * minute)\<rparr>"
    have "create_user w ?u (st_db s) = (Ok v, st_db s4)" "st_mails s4 = st_mails s"
      using R r same by (auto simp: register_row_def on_db_def Let_def split: prod.splits)
    from create_user_row [OF assms(1) this(1)] this(2)
    have v: "users w (st_db s4) = insert v (users w (st_db s))" "st_mails s4 = st_mails s"
      "rg_Email req \<notin> us_Email ` users w (st_db s)"
      and shape: "v = ?u\<lparr>us_ID := us_ID v, us_CreatedAt := us_CreatedAt v\<rparr>" by simp_all
    have cols: "us_Email v = rg_Email req" "us_PasswordHash v = h" "\<not> us_EmailVerified v"
      "us_VerificationCodeExpires v = Some (t + 10 * minute)" "us_VerificationCode v = code"
      by (subst shape, simp)+
    have "st_db s1 = st_db s4 \<and> st_mails s1 = st_mails s4 @ [(rg_Email req, code)]"
      using assms(2) H G C R r
      by (auto simp: register_new_def sendJSONError_def SendVerificationCodeWithHTML_def Let_def
          split: option.splits if_splits)
    with v cols t Ok show ?thesis by (intro exI [of _ salt] exI [of _ h] exI [of _ v]) simp
  qed (use assms(2) D in \<open>auto simp: register_new_def HashPassword_def sendJSONError_def\<close>)
qed

lemma users_by_email:
  assumes "site_ok w s" and "u \<in> users w (st_db s)" and "v \<in> users w (st_db s)" and "us_Email u = us_Email v"
  shows "u = v"
  using assms by (auto simp: site_ok_def tables_ok_def inj_on_def)

lemma verify_200:
  assumes "backend_ok w" and "site_ok w s"
    and "VerifyCodeHandler w (Some \<lparr>vc_Email = m, vc_Code = code\<rparr>) remote s = ((200, b), s1)"
  shows "\<exists>u v. u \<in> users w (st_db s) \<and> us_Email u = m \<and> us_VerificationCode u = code \<and>
    v \<in> users w (st_db s1) \<and> us_Email v = m \<and> us_EmailVerified v \<and> us_PasswordHash v = us_PasswordHash u"
proof -
  from assms(3) obtain u t where u: "first_user_email w m (st_db s) = Ok u" "us_VerificationCode u = code"
    "us_VerificationCodeExpires u = Some t"
    by (auto simp: VerifyCodeHandler_def sendJSONError_def case_prod_beta Let_def
        split: if_splits result.splits option.splits)
  obtain x s2 where C: "site_clock s = (x, s2)" by (metis surj_pair)
  have s2: "st_db s2 = st_db s" using site_clock_same(1) [of s] C by simp
  obtain r s3 where V: "verify_row w u s2 = (r, s3)" by (metis surj_pair)
  from assms(3) u C V obtain v where r: "r = Ok v" and I: "issue_tokens w v remote s3 = ((200, b), s1)"
    by (cases r) (auto simp: VerifyCodeHandler_def sendJSONError_def split: if_splits)
  obtain y s4 where C2: "site_clock s2 = (y, s4)" by (metis surj_pair)
  have s4: "st_db s4 = st_db s" using site_clock_same(1) [of s2] C2 s2 by simp
  have v: "v = u\<lparr>us_EmailVerified := True, us_Status := ''active'', us_TrialStartedAt := Some y,
      us_TrialEndsAt := Some (y + week), us_VerificationCode := '''', us_VerificationCodeExpires := None\<rparr>"
    and saved: "fst (save_user w v (st_db s)) = Ok ()" "st_db s3 = snd (save_user w v (st_db s))"
    using V C2 r s4 by (auto simp: verify_row_def case_prod_beta bindR_eq_Ok Let_def)
  have "v \<in> users w (st_db s3)" using saved save_user_row(2) [OF assms(1), of v "st_db s"] by simp
  moreover have "users w (st_db s1) = users w (st_db s3)" using issue_tokens_effect [OF assms(1) I] by simp
  ultimately show ?thesis
    using first_user_row(1) [OF assms(1) u(1)] u(2) v by (intro exI [of _ u] exI [of _ v]) simp
qed

text \<open>C15: Who registers an email first chooses the password for good: when the owner of the address
  registers within ten minutes, with another password, the pending code is sent again, and the
  code that the owner then confirms activates the account with the first password. It lets the
  first one in, and refuses the owner.\<close>

theorem account_keeps_the_first_password:
  assumes "backend_ok w" and "site_ok w s" and "\<forall>u\<in>users w (st_db s). us_Email u \<noteq> m"
    and "RegisterHandler w (Some \<lparr>rg_Email = m, rg_Password = pA, rg_Name = nA\<rparr>) s = ((200, b1), s1)"
    and "RegisterHandler w (Some \<lparr>rg_Email = m, rg_Password = pB, rg_Name = nB\<rparr>) s1 = ((200, b2), s2)"
    and "now (clk (st_env s1)) < now (clk (st_env s)) + 10 * minute"
    and "VerifyCodeHandler w (Some \<lparr>vc_Email = m, vc_Code = code\<rparr>) remote s2 = ((200, b3), s3)"
    and "\<forall>salt p h. bcrypt w salt p = Ok h \<longrightarrow> bcrypt_matches w h p"
    and "first_user_email w m (st_db s3) = Ok u" and "pB \<noteq> []" and "\<not> bcrypt_matches w (us_PasswordHash u) pB"
  shows "b2 = CodeSent ''Verification code resent'' m \<and>
    LoginHandler w (Some \<lparr>li_Email = m, li_Password = pA\<rparr>) r s3 = issue_tokens w u r s3 \<and>
    LoginHandler w (Some \<lparr>li_Email = m, li_Password = pB\<rparr>) r s3 =
      (sendJSONError ''invalid credentials'' 401, s3)"
proof -
  from assms(4) have pA: "m \<noteq> []" "pA \<noteq> []"
    by (auto simp: RegisterHandler_def sendJSONError_def split: if_splits)
  have "\<not> (\<exists>x. first_user_email w m (st_db s) = Ok x)"
    using first_user_row(1) [OF assms(1)] assms(3) by blast
  then have "register_new w None \<lparr>rg_Email = m, rg_Password = pA, rg_Name = nA\<rparr> s = ((200, b1), s1)"
    using assms(4) by (auto simp: RegisterHandler_def sendJSONError_def split: if_splits result.splits)
  from register_new_200 [OF assms(1) this] obtain salt h v where v: "bcrypt w salt pA = Ok h"
    "users w (st_db s1) = insert v (users w (st_db s))" "us_Email v = m" "us_PasswordHash v = h"
    "\<not> us_EmailVerified v" "us_VerificationCodeExpires v = Some (now (clk (st_env s)) + 10 * minute)" by auto
  have ok1: "site_ok w s1" using RegisterHandler_ok [OF assms(1,2)] assms(4) by (metis snd_conv)
  have ok2: "site_ok w s2" using RegisterHandler_ok [OF assms(1) ok1] assms(5) by (metis snd_conv)
  have "m \<in> us_Email ` users w (st_db s1)" using v(2,3) by auto
  then have taken: "register_new w None \<lparr>rg_Email = m, rg_Password = pB, rg_Name = nB\<rparr> s1 \<noteq> ((200, b2), s2)"
    using register_new_200 [OF assms(1)] by fastforce
  have found: "first_user_email w m (st_db s1) = Ok v"
  proof (cases "first_user_email w m (st_db s1)")
    case (Ok x)
    then show ?thesis
      using first_user_row(1) [OF assms(1) Ok] users_by_email [OF ok1, of x v] v(2,3) by simp
  qed (use assms(5) taken in \<open>auto simp: RegisterHandler_def sendJSONError_def split: if_splits\<close>)
  obtain s1' where "site_clock s1 = (now (clk (st_env s1)), s1')"
    by (auto simp: site_clock_def read_clock_def)
  with found v(5,6) assms(5,6) have resent: "((200, b2), s2) = resend_code v m s1'"
    by (auto simp: RegisterHandler_def sendJSONError_def split: if_splits)
  have db2: "st_db s2 = st_db s1"
    using resent site_clock_same(1) [of s1] \<open>site_clock s1 = (now (clk (st_env s1)), s1')\<close>
    by (auto simp: resend_code_def split: option.splits)
  from verify_200 [OF assms(1) ok2 assms(7)] obtain x y where x: "x \<in> users w (st_db s2)" "us_Email x = m"
    "y \<in> users w (st_db s3)" "us_Email y = m" "us_EmailVerified y" "us_PasswordHash y = us_PasswordHash x" by blast
  have ok3: "site_ok w s3" using VerifyCodeHandler_ok [OF assms(1) ok2] assms(7) by (metis snd_conv)
  have "x = v" using users_by_email [OF ok2 x(1), of v] v(2,3) x(2) db2 by simp
  moreover have "u = y"
    using first_user_row(1) [OF assms(1,9)] users_by_email [OF ok3, of u y] x(3,4) by simp
  ultimately have "us_EmailVerified u" "bcrypt_matches w (us_PasswordHash u) pA"
    using x v(1,4) assms(8) by auto
  with assms(9-11) pA resent show ?thesis
    by (simp add: LoginHandler_def CheckPasswordHash_def resend_code_def)
qed

lemma upt_six: "[0..<6] = [0, 1, 2, 3, 4, 5]"
  by (simp add: upt_rec)

lemmas run_site = Let_def upt_six RegisterHandler_def register_new_def register_row_def HashPassword_def
  site_draw_def site_clock_def draw_def read_clock_def rbytes_def rskip_def tick_def now_def on_db_def
  GenerateVerificationCode_def SendVerificationCodeWithHTML_def resend_code_def VerifyCodeHandler_def
  verify_row_def issue_tokens_def GenerateAccessToken_def GenerateRefreshToken_def or_empty_def
  mem_backend_def mem_first_def mem_create_user_def mem_save_user_def mem_create_session_def
  mem_uuid_String_def fresh_id_def env0_def

definition pending0 :: User where
  "pending0 = \<lparr>us_ID = 1, us_Email = ''m'', us_PasswordHash = ''attacker'', us_Name = ''m'',
     us_CreatedAt = 0, us_EmailVerified = False, us_TrialStartedAt = None, us_TrialEndsAt = None,
     us_Status = ''pending_verification'', us_VerificationCode = ''000000'',
     us_VerificationCodeExpires = Some (1700000000000000000 + 10 * minute)\<rparr>"

definition site1 :: "mem_db site" where
  "site1 = site0\<lparr>st_db := \<lparr>mem_users = [pending0], mem_sessions = [], mem_subscriptions = []\<rparr>,
     st_mails := [(''m'', ''000000'')]\<rparr>"

lemma site1_registered:
  "RegisterHandler mem_backend (Some \<lparr>rg_Email = ''m'', rg_Password = ''attacker'', rg_Name = []\<rparr>) site0 =
    ((200, CodeSent ''Verification code sent to email'' ''m''), site1)"
  by (simp add: run_site site0_def site1_def pending0_def)

lemma site1_resent:
  "RegisterHandler mem_backend (Some \<lparr>rg_Email = ''m'', rg_Password = ''victim'', rg_Name = []\<rparr>) site1 =
    ((200, CodeSent ''Verification code resent'' ''m''), site1\<lparr>st_mails := [(''m'', ''000000''), (''m'', ''000000'')]\<rparr>)"
  by (simp add: run_site site0_def site1_def pending0_def)

lemma account_keeps_the_first_password_witness:
  "\<exists>s2 s3 b3. RegisterHandler mem_backend (Some \<lparr>rg_Email = ''m'', rg_Password = ''victim'', rg_Name = []\<rparr>) site1 =
      ((200, CodeSent ''Verification code resent'' ''m''), s2) \<and>
    VerifyCodeHandler mem_backend (Some \<lparr>vc_Email = ''m'', vc_Code = ''000000''\<rparr>) (''ip'', ''ua'') s2 = ((200, b3), s3) \<and>
    LoginHandler mem_backend (Some \<lparr>li_Email = ''m'', li_Password = ''victim''\<rparr>) (''ip'', ''ua'') s3 =
      (sendJSONError ''invalid credentials'' 401, s3)"
proof -
  let ?s2 = "site1\<lparr>st_mails := [(''m'', ''000000''), (''m'', ''000000'')]\<rparr>"
  let ?verify = "VerifyCodeHandler mem_backend (Some \<lparr>vc_Email = ''m'', vc_Code = ''000000''\<rparr>) (''ip'', ''ua'') ?s2"
  have status: "fst (fst ?verify) = 200" and
    row: "mem_users (st_db (snd ?verify)) = [pending0\<lparr>us_EmailVerified := True, us_Status := ''active'',
      us_TrialStartedAt := Some 1700000000000000000, us_TrialEndsAt := Some (1700000000000000000 + week),
      us_VerificationCode := [], us_VerificationCodeExpires := None\<rparr>]"
    by (simp_all add: run_site site0_def site1_def pending0_def)
  obtain b3 s3 where v: "?verify = ((200, b3), s3)" using status by (metis prod.collapse)
  let ?u = "hd (mem_users (st_db (snd ?verify)))"
  have u: "first_user_email mem_backend ''m'' (st_db s3) = Ok ?u" "us_PasswordHash ?u = ''attacker''"
    using row v by (simp_all add: mem_backend_def mem_first_def pending0_def)
  have "LoginHandler mem_backend (Some \<lparr>li_Email = ''m'', li_Password = ''victim''\<rparr>) (''ip'', ''ua'') s3 =
      (sendJSONError ''invalid credentials'' 401, s3)"
    using account_keeps_the_first_password [OF mem_backend_ok site0_ok _ site1_registered site1_resent _ v _ u(1),
        of "(''ip'', ''ua'')"] u(2)
    by (simp add: site0_def site1_def mem_backend_def env0_def now_def)
  with site1_resent v show ?thesis by blast
qed

section \<open>Guessing codes\<close>

text \<open>Wrong codes are not counted: any number of them leaves the database as it was, each with the
  same answer, and the right code, which is one of a million, is still taken after them.\<close>

theorem guessing_a_code_is_never_stopped:
  assumes "first_user_email w m (st_db s) = Ok u" and "m \<noteq> []"
    and "site_ok w s" and "backend_ok w" and "\<not> us_EmailVerified u"
    and "us_VerificationCodeExpires u = Some t" and "\<forall>i. clk (st_env s) i \<le> t"
    and "us_VerificationCode u \<notin> set codes" and "[] \<notin> set codes"
    and "serve_all w (map (\<lambda>c. VerifyCode (Some \<lparr>vc_Email = m, vc_Code = c\<rparr>) remote) codes) s = (replies, s1)"
  shows "replies = replicate (length codes) (sendJSONError ''invalid verification code'' 400) \<and>
    st_db s1 = st_db s \<and>
    length (us_VerificationCode u) = 6 \<and> set (us_VerificationCode u) \<subseteq> set ''0123456789'' \<and>
    (\<exists>s2. st_db s2 = st_db s \<and>
       VerifyCodeHandler w (Some \<lparr>vc_Email = m, vc_Code = us_VerificationCode u\<rparr>) remote s1 =
         (case verify_row w u s2 of
            (Ok user, s3) \<Rightarrow> issue_tokens w user remote s3
          | (_, s3) \<Rightarrow> (sendJSONError ''failed to verify email'' 500, s3)))"
proof -
  have code: "length (us_VerificationCode u) = 6" "set (us_VerificationCode u) \<subseteq> set ''0123456789''"
    using site_user_ok [OF assms(3)] first_user_row(1) [OF assms(4,1)] assms(5)
    unfolding user_ok_def by presburger+
  have step: "\<exists>y. site_clock z = (y, z\<lparr>st_env := (st_env z)\<lparr>clk := tick 1 (clk (st_env z))\<rparr>\<rparr>) \<and> y \<le> t \<and>
      (\<forall>i. clk (st_env (z\<lparr>st_env := (st_env z)\<lparr>clk := tick 1 (clk (st_env z))\<rparr>\<rparr>)) i \<le> t)"
    if "\<forall>i. clk (st_env z) i \<le> t" for z :: "'a site"
    using that by (simp add: site_clock_def read_clock_def now_def tick_def)
  have "replies = replicate (length codes) (sendJSONError ''invalid verification code'' 400) \<and>
      st_db s1 = st_db s \<and> (\<forall>i. clk (st_env s1) i \<le> t)"
    using assms(1,7-10)
  proof (induction codes arbitrary: s replies)
    case (Cons c cs)
    let ?s = "s\<lparr>st_env := (st_env s)\<lparr>clk := tick 1 (clk (st_env s))\<rparr>\<rparr>"
    from step [OF Cons.prems(2)] obtain y where y: "site_clock s = (y, ?s)" "y \<le> t"
      "\<forall>i. clk (st_env ?s) i \<le> t" by blast
    have reply: "VerifyCodeHandler w (Some \<lparr>vc_Email = m, vc_Code = c\<rparr>) remote s =
        (sendJSONError ''invalid verification code'' 400, ?s)"
      using Cons.prems(1,3,4) assms(2,5,6) y by (auto simp: VerifyCodeHandler_def)
    obtain rs where rs: "serve_all w (map (\<lambda>c. VerifyCode (Some \<lparr>vc_Email = m, vc_Code = c\<rparr>) remote) cs) ?s = (rs, s1)"
      "replies = sendJSONError ''invalid verification code'' 400 # rs"
      using Cons.prems(5) reply by (auto split: prod.splits)
    from Cons.IH [OF _ y(3) _ _ rs(1)] Cons.prems(1,3,4) rs(2) show ?case by simp
  qed simp
  moreover from this step [of s1] obtain y s2 where "site_clock s1 = (y, s2)" "y \<le> t" "st_db s2 = st_db s" by auto
  ultimately show ?thesis
    using code assms(1,2,5,6) by (intro conjI exI [of _ s2]) (auto simp: VerifyCodeHandler_def)
qed

lemma guessing_a_code_is_never_stopped_witness:
  "\<exists>s1. serve_all mem_backend (map (\<lambda>c. VerifyCode (Some \<lparr>vc_Email = ''m'', vc_Code = c\<rparr>) (''ip'', ''ua''))
      [''111111'', ''222222'']) site1 =
    (replicate 2 (sendJSONError ''invalid verification code'' 400), s1) \<and> st_db s1 = st_db site1"
proof -
  obtain rs s1 where r: "serve_all mem_backend (map (\<lambda>c. VerifyCode (Some \<lparr>vc_Email = ''m'', vc_Code = c\<rparr>) (''ip'', ''ua''))
      [''111111'', ''222222'']) site1 = (rs, s1)" by (metis surj_pair)
  have "site_ok mem_backend site1"
    using RegisterHandler_ok [OF mem_backend_ok site0_ok] site1_registered by (metis snd_conv)
  from guessing_a_code_is_never_stopped [OF _ _ this mem_backend_ok, of "''m''" pending0
      "1700000000000000000 + 10 * minute", OF _ _ _ _ _ _ _ r] r
  show ?thesis
    by (simp add: mem_backend_def mem_first_def site1_def pending0_def site0_def env0_def numeral_2_eq_2)
qed

section \<open>Tokens of one second\<close>

lemma issue_tokens_token:
  assumes "issue_tokens w user remote s = ((200, AuthBody a), s1)"
  shows "ar_UserID a = uuid_String w (us_ID user)" and "jwtSecret s1 = jwtSecret s"
    and "clk (st_env s1) = tick 5 (clk (st_env s))"
    and "jwt_signed w (jwtSecret s)
      \<lparr>jc_user_id = None, jc_email = None, jc_sub = Some (ar_UserID a),
       jc_exp = (clk (st_env s) 2 + week) div second, jc_iat = clk (st_env s) 3 div second\<rparr> =
      Ok (ar_RefreshToken a)"
  using assms
  by (auto simp: issue_tokens_def GenerateAccessToken_def GenerateRefreshToken_def site_clock_def
      read_clock_def now_def tick_def on_db_def sendJSONError_def Let_def eval_nat_numeral
      split: result.splits prod.splits)

lemma login_200:
  assumes "LoginHandler w b remote s = ((200, AuthBody a), s1)"
  shows "\<exists>user. issue_tokens w user remote s = ((200, AuthBody a), s1)"
  using assms
  by (auto simp: LoginHandler_def sendJSONError_def split: option.splits if_splits result.splits go_error.splits)

text \<open>A refresh token is determined by its account and its second: two logins of an account within
  one second give two sessions with one token, and logging out of one ends both.\<close>

theorem sessions_of_one_second_share_a_token:
  assumes "backend_ok w"
    and "LoginHandler w b1 r1 s = ((200, AuthBody a1), s1)"
    and "LoginHandler w b2 r2 s1 = ((200, AuthBody a2), s2)"
    and "ar_UserID a1 = ar_UserID a2" and "\<forall>i. clk (st_env s) i div second = k"
    and "LogoutHandler w (Some (ar_RefreshToken a1)) s2 = ((200, msg), s3)"
  shows "ar_RefreshToken a2 = ar_RefreshToken a1 \<and>
    (\<exists>d1\<in>sessions w (st_db s2). \<exists>d2\<in>sessions w (st_db s2). ds_ID d1 \<noteq> ds_ID d2 \<and>
       ds_RefreshToken d1 = ar_RefreshToken a1 \<and> ds_RefreshToken d2 = ar_RefreshToken a1) \<and>
    (\<forall>d\<in>sessions w (st_db s3). ds_RefreshToken d \<noteq> ar_RefreshToken a1)"
proof -
  from login_200 [OF assms(2)] obtain u1 where i1: "issue_tokens w u1 r1 s = ((200, AuthBody a1), s1)" ..
  from login_200 [OF assms(3)] obtain u2 where i2: "issue_tokens w u2 r2 s1 = ((200, AuthBody a2), s2)" ..
  have week: "(x + week) div second = x div second + 604800" for x :: int by simp
  have k: "clk (st_env s) i div second = k" for i using assms(5) by simp
  let ?claims = "\<lparr>jc_user_id = None, jc_email = None, jc_sub = Some (ar_UserID a1), jc_exp = k + 604800, jc_iat = k\<rparr>"
  have "jwt_signed w (jwtSecret s) ?claims = Ok (ar_RefreshToken a1)"
    using issue_tokens_token(4) [OF i1] by (simp only: k week)
  moreover have "jwt_signed w (jwtSecret s) ?claims = Ok (ar_RefreshToken a2)"
    using issue_tokens_token(4) [OF i2] issue_tokens_token(2,3) [OF i1] by (simp only: k week assms(4) tick_def)
  ultimately have same: "ar_RefreshToken a2 = ar_RefreshToken a1" by simp
  from issue_tokens_effect [OF assms(1) i1] obtain d1 where d1:
    "sessions w (st_db s1) = insert d1 (sessions w (st_db s))" "ds_RefreshToken d1 = ar_RefreshToken a1" by auto
  from issue_tokens_effect [OF assms(1) i2] obtain d2 where d2:
    "sessions w (st_db s2) = insert d2 (sessions w (st_db s1))" "ds_RefreshToken d2 = ar_RefreshToken a2"
    "ds_ID d2 \<notin> ds_ID ` sessions w (st_db s1)" by auto
  have "sessions w (st_db s3) = {x \<in> sessions w (st_db s2). ds_RefreshToken x \<noteq> ar_RefreshToken a1}"
  proof -
    obtain r db where del: "delete_sessions_token w (ar_RefreshToken a1) (st_db s2) = (r, db)" by (metis surj_pair)
    then have "r = Ok ()" and "st_db s3 = db"
      using assms(6) by (cases r; auto simp: LogoutHandler_def on_db_def sendJSONError_def split: if_splits)+
    with delete_sessions_row(2) [OF assms(1), of "ar_RefreshToken a1" "st_db s2"] del show ?thesis by simp
  qed
  moreover have "ds_ID d1 \<noteq> ds_ID d2" using d1(1) d2(3) by auto
  ultimately show ?thesis using same d1 d2 by (intro conjI bexI [of _ d1] bexI [of _ d2]) simp_all
qed

definition active0 :: User where
  "active0 = pending0\<lparr>us_EmailVerified := True, us_Status := ''active'', us_TrialStartedAt := Some 0,
     us_TrialEndsAt := Some week, us_VerificationCode := [], us_VerificationCodeExpires := None\<rparr>"

definition site2 :: "mem_db site" where
  "site2 = site0\<lparr>st_db := \<lparr>mem_users = [active0], mem_sessions = [], mem_subscriptions = []\<rparr>\<rparr>"

lemma sessions_of_one_second_share_a_token_witness:
  "\<exists>a1 a2 s1 s2 s3 msg. LoginHandler mem_backend (Some \<lparr>li_Email = ''m'', li_Password = ''attacker''\<rparr>) (''ip1'', ''ua1'') site2 =
      ((200, AuthBody a1), s1) \<and>
    LoginHandler mem_backend (Some \<lparr>li_Email = ''m'', li_Password = ''attacker''\<rparr>) (''ip2'', ''ua2'') s1 =
      ((200, AuthBody a2), s2) \<and>
    LogoutHandler mem_backend (Some (ar_RefreshToken a1)) s2 = ((200, msg), s3) \<and>
    (\<forall>d\<in>sessions mem_backend (st_db s3). ds_RefreshToken d \<noteq> ar_RefreshToken a2)"
proof -
  let ?login = "\<lambda>r. LoginHandler mem_backend (Some \<lparr>li_Email = ''m'', li_Password = ''attacker''\<rparr>) r"
  let ?a = "\<lparr>ar_AccessToken = ''kx'', ar_RefreshToken = ''kx'', ar_UserID = ''x'', ar_Email = ''m'', ar_Status = ''active''\<rparr>"
  let ?d = "\<lambda>i ip ua. \<lparr>ds_ID = i, ds_UserID = 1, ds_RefreshToken = ''kx'', ds_ExpiresAt = 1700000000000000000 + week,
    ds_IPAddress = ip, ds_UserAgent = ua\<rparr>"
  let ?s = "\<lambda>ds. site2\<lparr>st_db := \<lparr>mem_users = [active0], mem_sessions = ds, mem_subscriptions = []\<rparr>\<rparr>"
  have l1: "?login (''ip1'', ''ua1'') site2 = ((200, AuthBody ?a), ?s [?d 1 ''ip1'' ''ua1''])"
    by (simp add: run_site LoginHandler_def CheckPasswordHash_def site2_def site0_def active0_def pending0_def)
  have l2: "?login (''ip2'', ''ua2'') (?s [?d 1 ''ip1'' ''ua1'']) =
      ((200, AuthBody ?a), ?s [?d 2 ''ip2'' ''ua2'', ?d 1 ''ip1'' ''ua1''])"
    by (simp add: run_site LoginHandler_def CheckPasswordHash_def site2_def site0_def active0_def pending0_def upt_rec)
  have out: "LogoutHandler mem_backend (Some (ar_RefreshToken ?a)) (?s [?d 2 ''ip2'' ''ua2'', ?d 1 ''ip1'' ''ua1'']) =
      ((200, MessageBody ''logged out successfully''), ?s [])"
    by (simp add: LogoutHandler_def on_db_def mem_backend_def mem_filter_sessions_def)
  have "\<forall>i. clk (st_env site2) i div second = 1700000000" by (simp add: site2_def site0_def env0_def)
  from sessions_of_one_second_share_a_token [OF mem_backend_ok l1 l2 refl this out] l1 l2 out show ?thesis
    by blast
qed


section \<open>What a changed password and a lost mail leave\<close>

text \<open>A change of the password replaces the hash of the row and nothing else: the sessions that
  were opened with the old one are all there.\<close>

lemma password_change_keeps_sessions:
  assumes "backend_ok w" and "UpdatePasswordHandler w (Some req) claims s = ((200, b), s1)"
  shows "sessions w (st_db s1) = sessions w (st_db s)" and
    "\<exists>u\<in>users w (st_db s). \<exists>salt h. bcrypt w salt (up_NewPassword req) = Ok h \<and>
       bcrypt_matches w (us_PasswordHash u) (up_CurrentPassword req) \<and>
       users w (st_db s1) = insert (u\<lparr>us_PasswordHash := h\<rparr>) {v \<in> users w (st_db s). us_ID v \<noteq> us_ID u}"
proof -
  obtain u where u: "token_user w claims s = Inr u"
    using assms(2) by (auto simp: UpdatePasswordHandler_def token_user_def sendJSONError_def split: if_splits option.splits result.splits)
  obtain salt s0 where D: "site_draw 16 s = (salt, s0)" by (metis surj_pair)
  have db: "st_db s0 = st_db s" using D by (metis site_draw_same(1) snd_conv)
  obtain h where h: "bcrypt w salt (up_NewPassword req) = Ok h"
    and m: "bcrypt_matches w (us_PasswordHash u) (up_CurrentPassword req)"
    and saved: "fst (save_user w (u\<lparr>us_PasswordHash := h\<rparr>) (st_db s)) = Ok ()"
      "st_db s1 = snd (save_user w (u\<lparr>us_PasswordHash := h\<rparr>) (st_db s))"
    using assms(2) u D db
    by (auto simp: UpdatePasswordHandler_def HashPassword_def CheckPasswordHash_def sendJSONError_def on_db_def
        Let_def case_prod_beta split: if_splits result.splits)
  note row = save_user_row [OF assms(1), of "u\<lparr>us_PasswordHash := h\<rparr>" "st_db s"]
  show "sessions w (st_db s1) = sessions w (st_db s)" using row(1) saved by simp
  show "\<exists>u\<in>users w (st_db s). \<exists>salt h. bcrypt w salt (up_NewPassword req) = Ok h \<and>
       bcrypt_matches w (us_PasswordHash u) (up_CurrentPassword req) \<and>
       users w (st_db s1) = insert (u\<lparr>us_PasswordHash := h\<rparr>) {v \<in> users w (st_db s). us_ID v \<noteq> us_ID u}"
    using token_user_row [OF assms(1) u] h m row(2) saved
    by (intro bexI [of _ u] exI [of _ salt] exI [of _ h]) simp_all
qed

text \<open>Registering again once the code has expired writes the new password into the pending row
  and, when the mail then cannot be sent, deletes that row, the account of the earlier
  registration; only a failure of the deletion, which is not looked at, keeps it.\<close>

lemma lost_mail_deletes_the_pending_account:
  assumes "backend_ok w" and "register_new w (Some u) req s =
      (sendJSONError ''failed to send verification email'' 500, s1)"
  shows "users w (st_db s1) = {v \<in> users w (st_db s). us_ID v \<noteq> us_ID u} \<or>
    (\<exists>v. us_ID v = us_ID u \<and> users w (st_db s1) = insert v {v \<in> users w (st_db s). us_ID v \<noteq> us_ID u})"
proof -
  obtain salt s0 where D: "site_draw 16 s = (salt, s0)" by (metis surj_pair)
  obtain code s2 where G: "GenerateVerificationCode s0 = (code, s2)" by (metis surj_pair)
  obtain t s3 where C: "site_clock s2 = (t, s3)" by (metis surj_pair)
  have db: "st_db s2 = st_db s" "st_db s3 = st_db s"
    using D G C by (auto simp: site_draw_def GenerateVerificationCode_def site_clock_def Let_def split: prod.splits)
  define v where "v h = u\<lparr>us_PasswordHash := h, us_Name := if rg_Name req = [] then rg_Email req else rg_Name req,
    us_VerificationCode := code, us_VerificationCodeExpires := Some (t + 10 * minute)\<rparr>" for h
  obtain h where saved: "fst (save_user w (v h) (st_db s)) = Ok ()"
      and out: "st_db s1 = delete_user w (v h) (snd (save_user w (v h) (st_db s)))"
    using assms(2) D G C db
    by (auto simp: register_new_def HashPassword_def register_row_def SendVerificationCodeWithHTML_def
        sendJSONError_def on_db_def Let_def case_prod_beta bindR_eq_Ok v_def cong: if_cong split: option.splits result.splits if_splits)
  have v: "us_ID (v h) = us_ID u" by (simp add: v_def)
  show ?thesis
    using save_user_row(2) [OF assms(1), of "v h" "st_db s"] v saved out
      delete_user_row [OF assms(1), of "v h" "snd (save_user w (v h) (st_db s))"]
    by (auto intro!: exI [of _ "v h"])
qed

end
