(* ===== verification/Payments.thy ===== *)
theory Payments
  imports AccountLaws
begin

text \<open>
  Payments, \<open>internal/payment\<close>: the client of the payment service, the invoice handler, the
  webhook and the status of a subscription. What the service answers to a request is an
  argument; the table of subscriptions is that of the backend of theory Accounts. Of the
  payload, the fields the code reads are kept.
\<close>

section \<open>Invoices\<close>

record LavaCreateInvoiceResponse =
  lr_ID :: string
  lr_Status :: string
  lr_PaymentURL :: string

record CreateInvoiceResponse =
  ci_Success :: bool
  ci_InvoiceID :: string
  ci_PaymentURL :: string
  ci_Error :: bool

text \<open>
  The request may fail; else there is a status and a body that is or is not the JSON of a
  response. The body is parsed before the status is looked at.
\<close>

definition CreateInvoice ::
  "(nat \<times> LavaCreateInvoiceResponse option) result \<Rightarrow> LavaCreateInvoiceResponse result" where
  "CreateInvoice answer = bindR answer (\<lambda>(status, parsed).
     case parsed of
       None \<Rightarrow> Fail OtherError
     | Some r \<Rightarrow> if status \<noteq> 200 \<and> status \<noteq> 201 then Fail OtherError else Ok r)"

definition CreateInvoiceHandler ::
  "string option \<Rightarrow> (nat \<times> LavaCreateInvoiceResponse option) result \<Rightarrow> (CreateInvoiceResponse, nat) sum" where
  "CreateInvoiceHandler email answer =
     (case email of
        None \<Rightarrow> Inr 400
      | Some m \<Rightarrow>
          if m = [] then Inr 400
          else case CreateInvoice answer of
            Ok r \<Rightarrow>
              Inl (if lr_ID r \<noteq> []
                   then \<lparr>ci_Success = True, ci_InvoiceID = lr_ID r, ci_PaymentURL = lr_PaymentURL r,
                         ci_Error = False\<rparr>
                   else \<lparr>ci_Success = False, ci_InvoiceID = [], ci_PaymentURL = [], ci_Error = True\<rparr>)
          | _ \<Rightarrow> Inl \<lparr>ci_Success = False, ci_InvoiceID = [], ci_PaymentURL = [], ci_Error = True\<rparr>)"

section \<open>The webhook\<close>

record WebhookPayload =
  wp_EventType :: string
  wp_SubscriptionID :: string
  wp_ProductID :: string
  wp_BuyerID :: string

definition webhookSecret :: string where
  "webhookSecret = ''ObeliskWebhookKey2026''"

abbreviation month :: duration where "month \<equiv> 2592000000000000"

text \<open>The errors of the database are ignored.\<close>

definition handlePaymentSuccess :: "'db backend \<Rightarrow> WebhookPayload \<Rightarrow> 'db site \<Rightarrow> 'db site" where
  "handlePaymentSuccess w p s =
     (if wp_BuyerID p = [] then s
      else
        let (t, s1) = site_clock s in
        snd (on_db (create_subscription w
          \<lparr>sb_ID = 0, sb_UserID = wp_BuyerID p, sb_LavaSubscriptionID = wp_SubscriptionID p,
           sb_ProductID = wp_ProductID p, sb_Status = ''active'', sb_ExpiresAt = t + month,
           sb_CreatedAt = zero_time\<rparr>) s1))"

definition handleSubscriptionRenewal :: "'db backend \<Rightarrow> WebhookPayload \<Rightarrow> 'db site \<Rightarrow> 'db site" where
  "handleSubscriptionRenewal w p s =
     (case first_subscription w (wp_SubscriptionID p) (st_db s) of
        Ok sub \<Rightarrow>
          (let (t, s1) = site_clock s in
           snd (on_db (save_subscription w (sub\<lparr>sb_ExpiresAt := t + month, sb_Status := ''active''\<rparr>)) s1))
      | _ \<Rightarrow> s)"

definition set_status :: "'db backend \<Rightarrow> string \<Rightarrow> WebhookPayload \<Rightarrow> 'db site \<Rightarrow> 'db site" where
  "set_status w status p s =
     (case first_subscription w (wp_SubscriptionID p) (st_db s) of
        Ok sub \<Rightarrow> snd (on_db (save_subscription w (sub\<lparr>sb_Status := status\<rparr>)) s)
      | _ \<Rightarrow> s)"

definition handleSubscriptionFailed :: "'db backend \<Rightarrow> WebhookPayload \<Rightarrow> 'db site \<Rightarrow> 'db site" where
  "handleSubscriptionFailed w = set_status w ''expired''"

definition handleSubscriptionCancelled :: "'db backend \<Rightarrow> WebhookPayload \<Rightarrow> 'db site \<Rightarrow> 'db site" where
  "handleSubscriptionCancelled w = set_status w ''cancelled''"

definition handle_event :: "'db backend \<Rightarrow> WebhookPayload \<Rightarrow> 'db site \<Rightarrow> 'db site" where
  "handle_event w p s =
     (if wp_EventType p = ''payment.success'' then handlePaymentSuccess w p s
      else if wp_EventType p = ''payment.failed'' then s
      else if wp_EventType p = ''subscription.recurring.payment.success'' then handleSubscriptionRenewal w p s
      else if wp_EventType p = ''subscription.recurring.payment.failed'' then handleSubscriptionFailed w p s
      else if wp_EventType p = ''subscription.cancelled'' then handleSubscriptionCancelled w p s
      else s)"

text \<open>The method, the key, and the body if it could be read: then the payload it is JSON of, if it is.\<close>

definition HandleWebhook ::
  "'db backend \<Rightarrow> string \<Rightarrow> string \<Rightarrow> WebhookPayload option option \<Rightarrow> 'db site \<Rightarrow> nat \<times> 'db site" where
  "HandleWebhook w verb key body s =
     (if verb \<noteq> ''POST'' then (405, s)
      else if key \<noteq> webhookSecret then (401, s)
      else case body of
        None \<Rightarrow> (400, s)
      | Some None \<Rightarrow> (400, s)
      | Some (Some p) \<Rightarrow> (200, handle_event w p s))"

section \<open>The status\<close>

text \<open>Status, whether it is active, and when it expires.\<close>

definition GetSubscriptionStatus ::
  "'db backend \<Rightarrow> string \<Rightarrow> 'db site \<Rightarrow> (string \<times> bool \<times> instant option) option" where
  "GetSubscriptionStatus w userID s =
     (if userID = [] then None
      else case latest_subscription w userID (st_db s) of
        Ok sub \<Rightarrow> Some (sb_Status sub, sb_Status sub = ''active'', Some (sb_ExpiresAt sub))
      | _ \<Rightarrow> Some (''none'', False, None))"

section \<open>The table\<close>

text \<open>The laws of the table of subscriptions; the latest row of a user is one of the user's rows.\<close>

definition subscriptions_ok :: "'db backend \<Rightarrow> bool" where
  "subscriptions_ok w \<longleftrightarrow>
     first_ok (subscriptions w) sb_LavaSubscriptionID (first_subscription w) \<and>
     first_ok (subscriptions w) sb_UserID (latest_subscription w) \<and>
     (\<forall>b db r db1. create_subscription w b db = (r, db1) \<longrightarrow>
        (if r = Ok ()
         then \<exists>i t. i \<notin> sb_ID ` subscriptions w db \<and>
              subscriptions w db1 = insert (b\<lparr>sb_ID := i, sb_CreatedAt := t\<rparr>) (subscriptions w db)
         else subscriptions w db1 = subscriptions w db)) \<and>
     (\<forall>b db r db1. save_subscription w b db = (r, db1) \<longrightarrow>
        subscriptions w db1 =
          (if r = Ok () then insert b {x \<in> subscriptions w db. sb_ID x \<noteq> sb_ID b} else subscriptions w db))"

lemma create_subscription_row:
  assumes "subscriptions_ok w" and "create_subscription w b db = (r, db1)"
  shows "if r = Ok ()
    then \<exists>i t. i \<notin> sb_ID ` subscriptions w db \<and>
         subscriptions w db1 = insert (b\<lparr>sb_ID := i, sb_CreatedAt := t\<rparr>) (subscriptions w db)
    else subscriptions w db1 = subscriptions w db"
  using assms unfolding subscriptions_ok_def by blast

lemma save_subscription_row:
  assumes "subscriptions_ok w"
  shows "subscriptions w (snd (save_subscription w b db)) =
    (if fst (save_subscription w b db) = Ok () then insert b {x \<in> subscriptions w db. sb_ID x \<noteq> sb_ID b}
     else subscriptions w db)"
  using assms unfolding subscriptions_ok_def by (cases "save_subscription w b db") auto

text \<open>A cancellation or a failed payment touches one row of its subscription id at most.\<close>

lemma set_status_effect:
  assumes "subscriptions_ok w"
  shows "subscriptions w (st_db (set_status w status p s)) = subscriptions w (st_db s) \<or>
    (\<exists>b\<in>subscriptions w (st_db s). sb_LavaSubscriptionID b = wp_SubscriptionID p \<and>
       subscriptions w (st_db (set_status w status p s)) =
         insert (b\<lparr>sb_Status := status\<rparr>) {x \<in> subscriptions w (st_db s). sb_ID x \<noteq> sb_ID b})"
proof (cases "first_subscription w (wp_SubscriptionID p) (st_db s)")
  case (Ok b)
  then have "b \<in> subscriptions w (st_db s)" "sb_LavaSubscriptionID b = wp_SubscriptionID p"
    using assms by (auto simp: subscriptions_ok_def first_ok_def)
  with Ok show ?thesis
    by (auto simp: set_status_def save_subscription_row [OF assms] intro!: bexI [of _ b])
qed (simp_all add: set_status_def)

lemma mem_create_subscription_row:
  assumes "mem_create_subscription b db = (r, db1)"
  shows "if r = Ok ()
    then \<exists>i t. i \<notin> sb_ID ` set (mem_subscriptions db) \<and>
         set (mem_subscriptions db1) = insert (b\<lparr>sb_ID := i, sb_CreatedAt := t\<rparr>) (set (mem_subscriptions db))
    else set (mem_subscriptions db1) = set (mem_subscriptions db)"
proof (cases "fresh_id (map sb_ID (mem_subscriptions db))")
  case (Ok i)
  with assms fresh_id_fresh [OF Ok] show ?thesis
    by (auto simp: mem_create_subscription_def intro!: exI [of _ i] exI [of _ "sb_CreatedAt b"])
qed (use assms in \<open>auto simp: mem_create_subscription_def\<close>)

lemma mem_subscriptions_ok: "subscriptions_ok mem_backend"
proof -
  have "first_ok (\<lambda>db. set (mem_subscriptions db)) sb_UserID (\<lambda>u db. mem_first sb_UserID u (rev (mem_subscriptions db)))"
    using mem_first_ok [of "\<lambda>db. rev (mem_subscriptions db)" sb_UserID] by simp
  moreover have "first_ok (\<lambda>db. set (mem_subscriptions db)) sb_LavaSubscriptionID
      (\<lambda>i db. mem_first sb_LavaSubscriptionID i (mem_subscriptions db))"
    by (rule mem_first_ok)
  moreover have "\<forall>b db r db1. mem_create_subscription b db = (r, db1) \<longrightarrow>
      (if r = Ok ()
       then \<exists>i t. i \<notin> sb_ID ` set (mem_subscriptions db) \<and>
            set (mem_subscriptions db1) = insert (b\<lparr>sb_ID := i, sb_CreatedAt := t\<rparr>) (set (mem_subscriptions db))
       else set (mem_subscriptions db1) = set (mem_subscriptions db))"
    using mem_create_subscription_row by blast
  moreover have "\<forall>b db r db1. mem_save_subscription b db = (r, db1) \<longrightarrow>
      set (mem_subscriptions db1) =
        (if r = Ok () then insert b {x \<in> set (mem_subscriptions db). sb_ID x \<noteq> sb_ID b} else set (mem_subscriptions db))"
    by (auto simp: mem_save_subscription_def)
  ultimately show ?thesis
    unfolding subscriptions_ok_def mem_backend_def backend.simps by blast
qed

end
