(* ===== verification/PaymentProperties.thy ===== *)
theory PaymentProperties
  imports Payments AccountProperties
begin

text \<open>
  The properties of the webhook of the payments: what one event does to the table of
  subscriptions, and what an event that is delivered twice does.
\<close>

section \<open>What an event does\<close>

text \<open>The row an event rewrites, and how.\<close>

definition rewriting :: "WebhookPayload \<Rightarrow> bool" where
  "rewriting p \<longleftrightarrow> wp_EventType p = ''subscription.recurring.payment.success'' \<or>
     wp_EventType p = ''subscription.recurring.payment.failed'' \<or> wp_EventType p = ''subscription.cancelled''"

definition rewritten :: "WebhookPayload \<Rightarrow> instant \<Rightarrow> Subscription \<Rightarrow> Subscription" where
  "rewritten p t b =
     (if wp_EventType p = ''subscription.recurring.payment.success''
      then b\<lparr>sb_ExpiresAt := t + month, sb_Status := ''active''\<rparr>
      else if wp_EventType p = ''subscription.recurring.payment.failed'' then b\<lparr>sb_Status := ''expired''\<rparr>
      else b\<lparr>sb_Status := ''cancelled''\<rparr>)"

lemma rewritten_keys [simp]:
  "sb_ID (rewritten p t b) = sb_ID b" "sb_LavaSubscriptionID (rewritten p t b) = sb_LavaSubscriptionID b"
  by (simp_all add: rewritten_def)

text \<open>
  A database that does what this event needs: it takes a row of the buyer, finds the rows of the
  subscription when there are any, and takes a rewritten one. It may refuse others.
\<close>

definition database_takes :: "'db backend \<Rightarrow> WebhookPayload \<Rightarrow> 'db \<Rightarrow> bool" where
  "database_takes w p db \<longleftrightarrow>
     (\<forall>b. sb_UserID b = wp_BuyerID p \<longrightarrow> fst (create_subscription w b db) = Ok ()) \<and>
     (\<forall>b. sb_LavaSubscriptionID b = wp_SubscriptionID p \<longrightarrow> fst (save_subscription w b db) = Ok ()) \<and>
     (is_ok (first_subscription w (wp_SubscriptionID p) db) \<or>
      first_subscription w (wp_SubscriptionID p) db = Fail RecordNotFound)"

text \<open>
  What an event makes of the table: a payment for a buyer adds one row; one of the other three events rewrites
  one row of the subscription it names, when there is one; without a row for it, and for any other event, the table
  stays. Where a row is to be written the table may also stay, but only when the database did not
  do its part (\<open>ok\<close> false).
\<close>

definition event_rows :: "bool \<Rightarrow> WebhookPayload \<Rightarrow> instant \<Rightarrow> Subscription set \<Rightarrow> Subscription set \<Rightarrow> bool" where
  "event_rows ok p t old new \<longleftrightarrow>
     (if wp_EventType p = ''payment.success'' \<and> wp_BuyerID p \<noteq> [] then
        \<not> ok \<and> new = old \<or>
        (\<exists>b. sb_UserID b = wp_BuyerID p \<and> sb_LavaSubscriptionID b = wp_SubscriptionID p \<and>
           sb_ProductID b = wp_ProductID p \<and> sb_Status b = ''active'' \<and> sb_ExpiresAt b = t + month \<and>
           sb_ID b \<notin> sb_ID ` old \<and> new = insert b old)
      else if rewriting p \<and> (\<exists>b\<in>old. sb_LavaSubscriptionID b = wp_SubscriptionID p) then
        \<not> ok \<and> new = old \<or>
        (\<exists>b\<in>old. sb_LavaSubscriptionID b = wp_SubscriptionID p \<and>
           new = insert (rewritten p t b) {x \<in> old. sb_ID x \<noteq> sb_ID b})
      else new = old)"

lemma payment_rows:
  assumes "subscriptions_ok w" and "wp_EventType p = ''payment.success''"
  shows "event_rows (database_takes w p (st_db s)) p (fst (site_clock s)) (subscriptions w (st_db s))
    (subscriptions w (st_db (handlePaymentSuccess w p s)))"
proof (cases "wp_BuyerID p = []")
  case True
  then show ?thesis by (simp add: event_rows_def rewriting_def assms(2) handlePaymentSuccess_def)
next
  case False
  obtain t s1 where t: "site_clock s = (t, s1)" by (metis surj_pair)
  then have db: "st_db s1 = st_db s" by (metis site_clock_same(1) snd_conv)
  let ?b = "\<lparr>sb_ID = 0, sb_UserID = wp_BuyerID p, sb_LavaSubscriptionID = wp_SubscriptionID p,
    sb_ProductID = wp_ProductID p, sb_Status = ''active'', sb_ExpiresAt = t + month, sb_CreatedAt = zero_time\<rparr>"
  obtain r db1 where c: "create_subscription w ?b (st_db s) = (r, db1)" by (metis surj_pair)
  then have after: "st_db (handlePaymentSuccess w p s) = db1"
    using False t db by (simp add: handlePaymentSuccess_def)
  show ?thesis
  proof (cases "r = Ok ()")
    case True
    with create_subscription_row [OF assms(1) c] obtain i c0 where
      "i \<notin> sb_ID ` subscriptions w (st_db s)"
      "subscriptions w db1 = insert (?b\<lparr>sb_ID := i, sb_CreatedAt := c0\<rparr>) (subscriptions w (st_db s))" by auto
    with after t False assms(2) show ?thesis
      by (auto simp: event_rows_def intro!: exI [of _ "?b\<lparr>sb_ID := i, sb_CreatedAt := c0\<rparr>"])
  next
    case no: False
    have "fst (create_subscription w ?b (st_db s)) = Ok ()" if "database_takes w p (st_db s)"
      using that by (simp add: database_takes_def)
    with c no have "\<not> database_takes w p (st_db s)" by auto
    with no create_subscription_row [OF assms(1) c] after False assms(2) show ?thesis by (simp add: event_rows_def)
  qed
qed

lemma rewriting_rows:
  assumes "subscriptions_ok w" and "rewriting p"
    and "st_db s1 = (case first_subscription w (wp_SubscriptionID p) (st_db s) of
        Ok b \<Rightarrow> snd (save_subscription w (rewritten p t b) (st_db s)) | _ \<Rightarrow> st_db s)"
  shows "event_rows (database_takes w p (st_db s)) p t (subscriptions w (st_db s)) (subscriptions w (st_db s1))"
proof -
  have e: "wp_EventType p \<noteq> ''payment.success''" using assms(2) by (auto simp: rewriting_def)
  show ?thesis
  proof (cases "first_subscription w (wp_SubscriptionID p) (st_db s)")
    case (Ok b)
    then have b: "b \<in> subscriptions w (st_db s)" "sb_LavaSubscriptionID b = wp_SubscriptionID p"
      using assms(1) by (auto simp: subscriptions_ok_def first_ok_def)
    have s1: "subscriptions w (st_db s1) = (if fst (save_subscription w (rewritten p t b) (st_db s)) = Ok ()
        then insert (rewritten p t b) {x \<in> subscriptions w (st_db s). sb_ID x \<noteq> sb_ID b} else subscriptions w (st_db s))"
      using assms(3) Ok save_subscription_row [OF assms(1), of "rewritten p t b" "st_db s"] by simp
    have "fst (save_subscription w (rewritten p t b) (st_db s)) = Ok ()" if "database_takes w p (st_db s)"
      using that b(2) by (simp add: database_takes_def)
    with s1 b e assms(2) show ?thesis unfolding event_rows_def by auto
  next
    case (Fail err)
    have "\<not> database_takes w p (st_db s)" if "b \<in> subscriptions w (st_db s)" "sb_LavaSubscriptionID b = wp_SubscriptionID p" for b
      using assms(1) Fail that by (auto simp: subscriptions_ok_def first_ok_def database_takes_def)
    with Fail assms(3) e show ?thesis by (auto simp: event_rows_def)
  next
    case Panic
    then have "\<not> database_takes w p (st_db s)" by (simp add: database_takes_def)
    with Panic assms(3) e show ?thesis by (simp add: event_rows_def)
  qed
qed

lemma handle_event_rows:
  assumes "subscriptions_ok w"
  shows "event_rows (database_takes w p (st_db s)) p (fst (site_clock s)) (subscriptions w (st_db s))
    (subscriptions w (st_db (handle_event w p s)))"
proof -
  consider (payment) "wp_EventType p = ''payment.success''" | (rewrite) "rewriting p"
    | (other) "wp_EventType p \<noteq> ''payment.success''" "\<not> rewriting p" by blast
  then show ?thesis
  proof cases
    case payment
    with payment_rows [OF assms payment] show ?thesis by (simp add: handle_event_def)
  next
    case rewrite
    then show ?thesis
      by (intro rewriting_rows [OF assms rewrite])
        (auto simp: handle_event_def rewriting_def rewritten_def handleSubscriptionRenewal_def handleSubscriptionFailed_def
          handleSubscriptionCancelled_def set_status_def case_prod_beta split: result.splits)
  next
    case other
    then have "handle_event w p s = s" by (auto simp: handle_event_def rewriting_def)
    with other show ?thesis by (simp add: event_rows_def)
  qed
qed

text \<open>C34: A request changes the table only with the method and the key, and then exactly as its event says, when the
  database does its part: a payment for a buyer adds one active row for him, good for thirty days; a renewal, a
  failed renewal or a cancellation rewrites one row of the subscription it names, whoever owns that row, to active for thirty
  days, to expired or to cancelled; and any other event, and one that has no row to rewrite, leaves the
  table as it was, as does one whose write the database refuses.\<close>

theorem webhook_changes_one_subscription:
  assumes "subscriptions_ok w" and "HandleWebhook w verb key b s = (status, s1)"
  shows "if status = 200
    then verb = ''POST'' \<and> key = webhookSecret \<and> (\<exists>p. b = Some (Some p) \<and>
      event_rows (database_takes w p (st_db s)) p (fst (site_clock s)) (subscriptions w (st_db s)) (subscriptions w (st_db s1)))
    else s1 = s \<and> status \<in> {400, 401, 405}"
  using assms(2) handle_event_rows [OF assms(1), of _ s]
  by (auto simp: HandleWebhook_def split: if_splits option.splits)

definition paid0 :: WebhookPayload where
  "paid0 = \<lparr>wp_EventType = ''payment.success'', wp_SubscriptionID = ''sub'', wp_ProductID = ''vpn'',
     wp_BuyerID = ''buyer''\<rparr>"

lemma mem_takes:
  assumes "fresh_id (map sb_ID (mem_subscriptions db)) = Ok i"
  shows "database_takes mem_backend p db"
  using assms by (auto simp: database_takes_def mem_backend_def mem_create_subscription_def mem_save_subscription_def
      mem_first_def split: list.split)

lemma webhook_changes_one_subscription_witness:
  "\<exists>s1 b. HandleWebhook mem_backend ''POST'' webhookSecret (Some (Some paid0)) site0 = (200, s1) \<and>
    sb_UserID b = ''buyer'' \<and> sb_Status b = ''active'' \<and> subscriptions mem_backend (st_db s1) = {b}"
proof -
  obtain s1 where h: "HandleWebhook mem_backend ''POST'' webhookSecret (Some (Some paid0)) site0 = (200, s1)"
    by (simp add: HandleWebhook_def)
  have "subscriptions mem_backend (st_db site0) = {}" by (simp add: mem_backend_def site0_def)
  moreover have "database_takes mem_backend paid0 (st_db site0)"
    by (rule mem_takes [where i = 1]) (simp add: site0_def fresh_id_def)
  ultimately have "event_rows True paid0 (fst (site_clock site0)) {} (subscriptions mem_backend (st_db s1))"
    using webhook_changes_one_subscription [OF mem_subscriptions_ok h] by simp
  then have "\<exists>b. sb_UserID b = ''buyer'' \<and> sb_Status b = ''active'' \<and> subscriptions mem_backend (st_db s1) = {b}"
    by (auto simp: event_rows_def paid0_def)
  with h show ?thesis by blast
qed

section \<open>An event delivered twice\<close>

lemma active_row_survives:
  assumes "event_rows ok p t S T" and "wp_EventType p = ''subscription.cancelled''"
    and "b1 \<in> S" and "b2 \<in> S" and "sb_ID b1 \<noteq> sb_ID b2"
  shows "b1 \<in> T \<or> b2 \<in> T"
  using assms by (auto simp: event_rows_def split: if_splits)

text \<open>The service delivers events again when it has no answer. A payment that is delivered twice
  leaves two active rows, and the cancellation of the subscription leaves one of them active.\<close>

theorem repeated_payment_survives_cancellation:
  assumes "subscriptions_ok w" and "wp_EventType p = ''payment.success''"
    and "HandleWebhook w ''POST'' webhookSecret (Some (Some p)) s = (200, s1)"
    and "HandleWebhook w ''POST'' webhookSecret (Some (Some p)) s1 = (200, s2)"
    and "subscriptions w (st_db s1) \<noteq> subscriptions w (st_db s)"
    and "subscriptions w (st_db s2) \<noteq> subscriptions w (st_db s1)"
    and "wp_EventType c = ''subscription.cancelled''"
    and "HandleWebhook w ''POST'' webhookSecret (Some (Some c)) s2 = (200, s3)"
  shows "\<exists>b\<in>subscriptions w (st_db s3). sb_UserID b = wp_BuyerID p \<and>
    sb_LavaSubscriptionID b = wp_SubscriptionID p \<and> sb_Status b = ''active''"
proof -
  let ?paid = "\<lambda>b. sb_UserID b = wp_BuyerID p \<and> sb_LavaSubscriptionID b = wp_SubscriptionID p \<and> sb_Status b = ''active''"
  have row: "\<exists>b. sb_ID b \<notin> sb_ID ` subscriptions w (st_db x) \<and> ?paid b \<and>
      subscriptions w (st_db y) = insert b (subscriptions w (st_db x))"
    if "HandleWebhook w ''POST'' webhookSecret (Some (Some p)) x = (200, y)"
      and "subscriptions w (st_db y) \<noteq> subscriptions w (st_db x)" for x y
    using handle_event_rows [OF assms(1), of p x] that assms(2)
    by (auto simp: event_rows_def rewriting_def HandleWebhook_def split: if_splits)
  from row [OF assms(3,5)] obtain b1 where b1: "?paid b1" "subscriptions w (st_db s1) = insert b1 (subscriptions w (st_db s))"
    by blast
  from row [OF assms(4,6)] obtain b2 where b2: "sb_ID b2 \<notin> sb_ID ` subscriptions w (st_db s1)" "?paid b2"
    "subscriptions w (st_db s2) = insert b2 (subscriptions w (st_db s1))" by blast
  have "event_rows (database_takes w c (st_db s2)) c (fst (site_clock s2)) (subscriptions w (st_db s2)) (subscriptions w (st_db s3))"
    using handle_event_rows [OF assms(1), of c s2] assms(8) by (simp add: HandleWebhook_def)
  then have "b1 \<in> subscriptions w (st_db s3) \<or> b2 \<in> subscriptions w (st_db s3)"
    by (rule active_row_survives [OF _ assms(7)]) (use b1 b2 in auto)
  with b1 b2 show ?thesis by blast
qed

lemma paid0_adds_a_row:
  assumes "fresh_id (map sb_ID (mem_subscriptions (st_db s))) = Ok i"
  shows "map sb_ID (mem_subscriptions (st_db (handle_event mem_backend paid0 s))) =
    map sb_ID (mem_subscriptions (st_db s)) @ [i]"
  using assms
  by (simp add: handle_event_def handlePaymentSuccess_def paid0_def on_db_def site_clock_def
      read_clock_def mem_backend_def mem_create_subscription_def Let_def)

lemma mem_subscriptions_set: "subscriptions mem_backend db = set (mem_subscriptions db)"
  by (simp add: mem_backend_def)

lemma repeated_payment_survives_cancellation_witness:
  "\<exists>s1 s2 s3. HandleWebhook mem_backend ''POST'' webhookSecret (Some (Some paid0)) site0 = (200, s1) \<and>
    HandleWebhook mem_backend ''POST'' webhookSecret (Some (Some paid0)) s1 = (200, s2) \<and>
    HandleWebhook mem_backend ''POST'' webhookSecret (Some (Some (paid0\<lparr>wp_EventType := ''subscription.cancelled''\<rparr>))) s2 =
      (200, s3) \<and>
    (\<exists>b\<in>subscriptions mem_backend (st_db s3). sb_UserID b = ''buyer'' \<and> sb_Status b = ''active'')"
proof -
  let ?hook = "\<lambda>p. HandleWebhook mem_backend ''POST'' webhookSecret (Some (Some p))"
  obtain s1 where s1: "?hook paid0 site0 = (200, s1)" by (simp add: HandleWebhook_def)
  obtain s2 where s2: "?hook paid0 s1 = (200, s2)" by (simp add: HandleWebhook_def)
  obtain s3 where s3: "?hook (paid0\<lparr>wp_EventType := ''subscription.cancelled''\<rparr>) s2 = (200, s3)"
    by (simp add: HandleWebhook_def)
  have i0: "map sb_ID (mem_subscriptions (st_db site0)) = []" by (simp add: site0_def)
  have i1: "map sb_ID (mem_subscriptions (st_db s1)) = [1]"
    using paid0_adds_a_row [of site0 1] s1 i0 by (simp add: HandleWebhook_def fresh_id_def)
  have i2: "map sb_ID (mem_subscriptions (st_db s2)) = [1, 2]"
    using paid0_adds_a_row [of s1 2] s2 i1 by (simp add: HandleWebhook_def fresh_id_def upt_rec)
  have n1: "subscriptions mem_backend (st_db s1) \<noteq> subscriptions mem_backend (st_db site0)"
    using i0 i1 by (auto simp: mem_subscriptions_set)
  have "2 \<in> sb_ID ` subscriptions mem_backend (st_db s2)" "2 \<notin> sb_ID ` subscriptions mem_backend (st_db s1)"
    unfolding mem_subscriptions_set set_map [symmetric] i1 i2 by simp_all
  then have n2: "subscriptions mem_backend (st_db s2) \<noteq> subscriptions mem_backend (st_db s1)" by metis
  have "\<exists>b\<in>subscriptions mem_backend (st_db s3). sb_UserID b = wp_BuyerID paid0 \<and>
      sb_LavaSubscriptionID b = wp_SubscriptionID paid0 \<and> sb_Status b = ''active''"
    by (rule repeated_payment_survives_cancellation [OF mem_subscriptions_ok _ s1 s2 n1 n2 _ s3])
      (simp_all add: paid0_def)
  then have "\<exists>b\<in>subscriptions mem_backend (st_db s3). sb_UserID b = ''buyer'' \<and> sb_Status b = ''active''"
    by (auto simp: paid0_def)
  with s1 s2 s3 show ?thesis by blast
qed

end
