(* ===== verification/Commands.thy ===== *)
theory Commands
  imports Exports Inbound Payments
begin

text \<open>
  The two commands, \<open>cmd/client\<close> and \<open>cmd/server\<close>: reading and checking the configuration, how
  they put the parts together, and the loops they start. What the operating system and the
  network answer is an argument. A command that calls \<open>log.Fatalf\<close> ends at once.
\<close>

section \<open>Configuration file\<close>

text \<open>The fields of the file beside those of theory Transport.\<close>

record command_file =
  lf_config :: Config
  lf_Modes :: "string list"
  lf_SwitchInterval :: int
  lf_SplitTunnel :: bool

definition load_file :: "command_file result \<Rightarrow> command_file result" where
  "load_file parsed = bindR parsed (\<lambda>f.
     bindR (LoadConfig (Ok (lf_config f))) (\<lambda>c. Ok (f\<lparr>lf_config := c\<rparr>)))"

datatype command_end = ShownVersion | Fatal | Running

section \<open>The client\<close>

definition client_validateConfig :: "Config \<Rightarrow> unit result" where
  "client_validateConfig c =
     (if ServerAddr c = [] then Fail OtherError
      else if SecretKey c = [] then Fail OtherError
      else Ok ())"

definition command_modes :: "string list \<Rightarrow> ProtocolMode list" where
  "command_modes names =
     (if names \<noteq> [] then map parse_mode names
      else [ModeVK, ModeRuTube, ModeYandex, ModeOzon, ModeWildberries, ModeSberID, ModeGosuslugi,
        ModeWebRTC, ModeQUIC, ModeTLS])"

text \<open>The product of 64-bit integers wraps round.\<close>

definition command_interval :: "int \<Rightarrow> duration" where
  "command_interval n = (if 0 < n then sint (of_int (n * second) :: u64) else 5 * minute)"

text \<open>
  The transport of the client: what the command copies of the file, and what \<open>NewClient\<close> then
  sets. The other fields are zero values.
\<close>

definition client_transport :: "Config \<Rightarrow> Config" where
  "client_transport c =
     \<lparr>ServerAddr = ServerAddr c, ListenAddr = [], Mode = [], Protocol = ''udp'',
      SecretKey = SecretKey c, Cipher = or_string (Cipher c) ''aes-256-gcm'', MTU = MTU c,
      PaddingMin = 0, PaddingMax = 0, JitterMeanMs = 0, SessionTimeout = 0, MaxSessions = 0,
      FragmentMin = FragmentMin c, FragmentMax = FragmentMax c, DNSServer = DNSServer c,
      TLSSNI = TLSSNI c, ReliableUDP = ReliableUDP c, MaxCwnd = 0, WindowSize = 0, ReadBuffer = 0,
      WriteBuffer = 0\<rparr>"

definition command_client_config :: "command_file \<Rightarrow> ClientConfig" where
  "command_client_config f =
     \<lparr>cc_AuthKey = SecretKey (lf_config f), cc_SwitchInterval = command_interval (lf_SwitchInterval f),
      cc_Modes = command_modes (lf_Modes f), cc_HandshakeTimeout = 10 * second,
      cc_EnableReplayProtection = True\<rparr>"

record client_in =
  ci_version :: bool
  ci_file :: "command_file result"
  ci_tun :: "unit result"
  ci_dial :: "unit result"
  ci_conn :: hs_conn

text \<open>
  Up to the loops; the callback is set when the client is connected already. An address that
  cannot be given to the device is only reported.
\<close>

definition client_main ::
  "client_in \<Rightarrow> env \<Rightarrow> (command_end \<times> bytes list \<times> Client option \<times> env) result" where
  "client_main ci e =
     (if ci_version ci then Ok (ShownVersion, [], None, e)
      else case load_file (ci_file ci) of
        Ok f \<Rightarrow>
          if \<not> is_ok (client_validateConfig (lf_config f)) then Ok (Fatal, [], None, e)
          else bindR (NewClient (command_client_config f) e) (\<lambda>(cl, e1).
            if \<not> is_ok (ci_tun ci) then Ok (Fatal, [], cl, e1)
            else case cl of
              None \<Rightarrow> Panic
            | Some c \<Rightarrow>
                bindR (Start (outbound_dial (SecretKey (lf_config f)) (ci_dial ci)) (ci_conn ci) c e1)
                  (\<lambda>(r, sent, c1, e2).
                     if is_ok r then Ok (Running, sent, Some (SetOnPacket c1), e2)
                     else Ok (Fatal, sent, Some c1, e2)))
      | _ \<Rightarrow> Ok (Fatal, [], None, e))"

text \<open>
  The goroutine that reads the device, given what the reads return: it ends at the first error,
  and the command goes on without it.
\<close>

fun tun_pump :: "bytes result list \<Rightarrow> Client \<Rightarrow> env \<Rightarrow> (Client \<times> env) result" where
  "tun_pump [] c e = Ok (c, e)"
| "tun_pump (Ok data # rs) c e =
     (if data = [] then tun_pump rs c e
      else bindR (Send data c e) (\<lambda>(_, c1, e1). tun_pump rs c1 e1))"
| "tun_pump (Fail err # rs) c e = Ok (c, e)"
| "tun_pump (Panic # rs) c e = Panic"

section \<open>The server\<close>

definition server_validateConfig :: "Config \<Rightarrow> unit result" where
  "server_validateConfig c =
     (if ListenAddr c = [] then Fail OtherError
      else if length (SecretKey c) = 0 then Fail OtherError
      else if Mode c \<noteq> ''tcp'' \<and> Mode c \<noteq> ''udp'' \<and> Mode c \<noteq> ''dual'' then Fail OtherError
      else Ok ())"

definition jwt_constant :: string where
  "jwt_constant = ''your-super-secret-jwt-key-change-me-in-production''"

record server_in =
  sm_version :: bool
  sm_db :: "unit result"
  sm_migrate :: "unit result"
  sm_mails :: "nat \<Rightarrow> bool"
  sm_file :: "command_file result"
  sm_tun_made :: bool
  sm_listen :: "unit result"

text \<open>The server made, its inbound side, and the web site, as far as the command comes.\<close>

definition server_main ::
  "server_in \<Rightarrow> 'db site \<Rightarrow> env \<Rightarrow>
     (command_end \<times> (Server \<times> Inbound option) option \<times> 'db site \<times> env) result" where
  "server_main sm s e =
     (if sm_version sm then Ok (ShownVersion, None, s, e)
      else if \<not> is_ok (sm_db sm) \<or> \<not> is_ok (sm_migrate sm) then Ok (Fatal, None, s, e)
      else
        let s1 = InitSMTP (sm_mails sm) (InitJWT jwt_constant s) in
        case load_file (sm_file sm) of
          Ok f \<Rightarrow>
            if \<not> is_ok (server_validateConfig (lf_config f)) then Ok (Fatal, None, s1, e)
            else bindR (NewServer (SecretKey (lf_config f)) e) (\<lambda>(sv, e1).
              case NewInbound (lf_config f) of
                Ok i \<Rightarrow>
                  (let (r, i1) = Inbound_Start (sm_listen sm) i; (r1, sv1) = Server_Start (sm_tun_made sm) r sv in
                   Ok (if is_ok r1 then Running else Fatal, Some (sv1, Some i1), s1, e1))
              | err \<Rightarrow>
                  (let (r1, sv1) = Server_Start (sm_tun_made sm) (bindR err (\<lambda>_. Ok ())) sv in
                   Ok (Fatal, Some (sv1, None), s1, e1)))
        | _ \<Rightarrow> Ok (Fatal, None, s1, e))"

text \<open>The routes of the web server: those of the accounts, and the three of the payments.\<close>

datatype web_request =
    Account request
  | NewInvoice "string option" "(nat \<times> LavaCreateInvoiceResponse option) result"
  | Event string "WebhookPayload option option"
  | Status string

datatype web_reply =
    AccountReply http_reply
  | InvoiceReply "(CreateInvoiceResponse, nat) sum"
  | EventReply nat
  | StatusReply "(string \<times> bool \<times> instant option) option"

fun serve_web :: "'db backend \<Rightarrow> web_request \<Rightarrow> 'db site \<Rightarrow> web_reply \<times> 'db site" where
  "serve_web w (Account r) s = (let (reply, s1) = SetupRoutes w r s in (AccountReply reply, s1))"
| "serve_web w (NewInvoice email answer) s = (InvoiceReply (CreateInvoiceHandler email answer), s)"
| "serve_web w (Event key payload) s =
     (let (status, s1) = HandleWebhook w ''POST'' key payload s in (EventReply status, s1))"
| "serve_web w (Status userID) s = (StatusReply (GetSubscriptionStatus w userID s), s)"

section \<open>Laws\<close>

lemma load_file_cases: "load_file (Ok f) = Ok (f\<lparr>lf_config := lf_config f\<lparr>MTU := or_int (MTU (lf_config f)) 1350,
    Cipher := or_string (Cipher (lf_config f)) ''aes-256-gcm'',
    SessionTimeout := or_int (SessionTimeout (lf_config f)) 300,
    MaxSessions := or_int (MaxSessions (lf_config f)) 1000,
    FragmentMin := or_int (FragmentMin (lf_config f)) 32, FragmentMax := or_int (FragmentMax (lf_config f)) 288,
    PaddingMin := or_int (PaddingMin (lf_config f)) 16, PaddingMax := or_int (PaddingMax (lf_config f)) 64,
    JitterMeanMs := or_int (JitterMeanMs (lf_config f)) 5,
    DNSServer := or_string (DNSServer (lf_config f)) ''8.8.8.8'',
    TLSSNI := or_string (TLSSNI (lf_config f)) ''www.google.com'',
    MaxCwnd := or_int (MaxCwnd (lf_config f)) 65535\<rparr>\<rparr>)"
  by (simp add: load_file_def LoadConfig_def)

lemma load_file_keeps:
  assumes "load_file (Ok f) = Ok g"
  shows "SecretKey (lf_config g) = SecretKey (lf_config f)" and "ServerAddr (lf_config g) = ServerAddr (lf_config f)"
    and "ListenAddr (lf_config g) = ListenAddr (lf_config f)" and "Mode (lf_config g) = Mode (lf_config f)"
    and "ReliableUDP (lf_config g) = ReliableUDP (lf_config f)" and "lf_Modes g = lf_Modes f"
    and "lf_SwitchInterval g = lf_SwitchInterval f"
  using assms by (auto simp: load_file_cases)

lemma load_file_total: "\<exists>g. load_file (Ok f) = Ok g"
  by (simp add: load_file_cases)

text \<open>An interval of at most 292 years is kept as it is.\<close>

lemma command_interval_small:
  assumes "0 < n" and "n < 4294967296"
  shows "command_interval n = n * second"
proof -
  have "sint (of_int m :: u64) = signed_take_bit 63 m" for m :: int
    by (simp add: signed_of_int)
  then have "sint (of_int (n * second) :: u64) = signed_take_bit 63 (n * second)" .
  also have "\<dots> = n * second"
    using assms by (intro signed_take_bit_int_eq_self) auto
  finally show ?thesis using assms(1) by (simp add: command_interval_def)
qed

end
