(* ===== verification/CommandProperties.thy ===== *)
theory CommandProperties
  imports Commands AnswerProperties AccountProperties ExportProperties
begin

text \<open>
  The properties of the two commands together: which transports they speak, the tunnel they
  open from two configuration files, and what the constants of the server command give away.
\<close>

section \<open>From two files to a tunnel\<close>

lemma command_modes_range: "list_all (\<lambda>m. 0 \<le> m \<and> m < 4294967296) (command_modes names)"
  using parse_mode_range by (simp add: command_modes_def list_all_iff)

lemma command_tunnel_ok:
  assumes "hd (command_modes (lf_Modes f)) \<in> plain_modes" and "length (lf_Modes f) < 256"
    and "lf_SwitchInterval f < 4294967296"
  shows "tunnel_ok (command_client_config f)"
proof -
  have "0 < md \<and> md < 4294967296" if "md \<in> plain_modes" for md
    using that by (auto simp: plain_modes_def codec_modes_def)
  moreover have "\<exists>k. 0 \<le> k \<and> k < 4294967296 \<and> command_interval (lf_SwitchInterval f) = k * second"
  proof (cases "0 < lf_SwitchInterval f")
    case True
    with command_interval_small [OF True assms(3)] assms(3) show ?thesis
      by (intro exI [of _ "lf_SwitchInterval f"]) simp
  next
    case False
    then show ?thesis by (intro exI [of _ 300]) (simp add: command_interval_def)
  qed
  moreover have "command_modes (lf_Modes f) \<noteq> []" "length (command_modes (lf_Modes f)) < 256"
    using assms(2) by (simp_all add: command_modes_def)
  ultimately show ?thesis
    using assms(1) command_modes_range by (simp add: tunnel_ok_def params_ok_def command_client_config_def)
qed

lemma NewServer_fresh:
  assumes "NewServer k e = Ok (sv, e1)" and "k \<noteq> []"
  shows "hm_authKey (sv_handshake sv) = k" and "s_LastSeen (hm_state (sv_handshake sv)) = []"
    and "sv_objects sv = []"
  using assms
  by (auto simp: NewServer_def NewHandshakeManager_total NewHandshakeState_def bindR_eq_Ok)

lemma server_main_runs:
  assumes "server_main sm s e = Ok (Running, Some (sv, i), s1, e1)" and "sm_file sm = Ok f"
  shows "hm_authKey (sv_handshake sv) = SecretKey (lf_config f)"
    and "s_LastSeen (hm_state (sv_handshake sv)) = []" and "aes_key_ok (SecretKey (lf_config f))"
    and "sv_tun sv = (if sm_tun_made sm then Some [] else None)" and "jwtSecret s1 = jwt_constant"
    and "st_db s1 = st_db s" and "st_env s1 = st_env s"
    and "in_listening (the i) =
      Some (if ReliableUDP (lf_config f) then ByKCP else if Mode (lf_config f) = ''udp'' then ByUDP else ByTCP)"
proof -
  obtain g where g: "load_file (Ok f) = Ok g" using load_file_total by blast
  note keep = load_file_keeps [OF g]
  from assms g obtain sv0 e0 in0 where
    new: "NewServer (SecretKey (lf_config g)) e = Ok (sv0, e0)"
    and key: "SecretKey (lf_config g) \<noteq> []"
    and inb: "NewInbound (lf_config g) = Ok in0"
    and i: "i = Some (snd (Inbound_Start (sm_listen sm) in0))" "is_ok (sm_listen sm)"
    and sv: "sv = snd (Server_Start (sm_tun_made sm) (sm_listen sm) sv0)"
    and s1: "s1 = InitSMTP (sm_mails sm) (InitJWT jwt_constant s)"
    by (auto simp: server_main_def bindR_eq_Ok case_prod_beta Let_def server_validateConfig_def
        Inbound_Start_def Server_Start_def split: if_splits result.splits)
  have "in_config in0 = lf_config g" "in_listening in0 = None" and aes: "aes_key_ok (SecretKey (lf_config g))"
    using inb by (auto simp: NewInbound_def NewAEADCipher_def split: if_splits)
  then show "in_listening (the i) =
      Some (if ReliableUDP (lf_config f) then ByKCP else if Mode (lf_config f) = ''udp'' then ByUDP else ByTCP)"
    using i keep by (simp add: Inbound_Start_def)
  show "hm_authKey (sv_handshake sv) = SecretKey (lf_config f)" "s_LastSeen (hm_state (sv_handshake sv)) = []"
    using NewServer_fresh [OF new key] sv keep by (simp_all add: Server_Start_def)
  show "sv_tun sv = (if sm_tun_made sm then Some [] else None)"
    using new sv key by (auto simp: NewServer_def Server_Start_def bindR_eq_Ok)
  show "aes_key_ok (SecretKey (lf_config f))" using aes keep by simp
  show "jwtSecret s1 = jwt_constant" "st_db s1 = st_db s" "st_env s1 = st_env s"
    using s1 by (simp_all add: InitSMTP_def InitJWT_def)
qed

text \<open>How an outbound connection that is connected speaks.\<close>

definition spoken_by :: "Outbound \<Rightarrow> listening" where
  "spoken_by ob = (if ob_writing ob then ByKCP else if ob_packetConn ob \<noteq> None then ByUDP else ByTCP)"

text \<open>C2: The two commands, each with its file, open a tunnel over KCP: when the server command is running with a
  TUN device, both files ask for reliable UDP, and the client's file names the same key, an address, and a first mode
  of VK, Wildberries, Ozon, SberID, Gosuslugi or Yandex, then the client command, once the server has taken its
  connection, comes to run against that server, its callback set. Whatever the client then does, the server reads the
  two copies of the SYN that are left and all that the client wrote, and the IP packets come out of its TUN device, each once,
  in order and unchanged, up to the first packet, if any, whose masked form looks like a FIN; before them come only the remains
  of the copies, where these are IP packets.\<close>

theorem commands_open_the_tunnel:
  assumes "server_main sm s e0 = Ok (Running, Some (sv, Some i), s1, e1)" and "sm_file sm = Ok sf" and "sm_tun_made sm"
    and "ReliableUDP (lf_config sf)" and "ReliableUDP (lf_config cf)"
    and "SecretKey (lf_config cf) = SecretKey (lf_config sf)" and "ServerAddr (lf_config cf) \<noteq> []"
    and "hd (command_modes (lf_Modes cf)) \<in> taking_modes" and "length (lf_Modes cf) < 256"
    and "lf_SwitchInterval cf < 4294967296"
    and "list_all (act_ok (hd (command_modes (lf_Modes cf)))) acts"
  shows "(\<exists>g ob ob1. load_file (Ok cf) = Ok g \<and> NewOutbound (client_transport (lf_config g)) = Ok ob \<and>
      Connect (Ok conv) ob = (Ok (), ob1) \<and> in_listening i = Some ByKCP \<and> spoken_by ob1 = ByKCP) \<and>
    (\<exists>a b c e2 k sv1 e3 c1 ec1 sv2 es3 n.
    client_main \<lparr>ci_version = False, ci_file = Ok cf, ci_tun = Ok (), ci_dial = Ok (), ci_conn = direct b\<rparr> e =
      Ok (Running, replicate 3 a, Some c, e2) \<and> cl_delivered c \<noteq> None \<and>
    handleConnection (direct a) sv es = Ok (Some k, replicate 3 b, sv1, e3) \<and>
    client_acts acts c ec = Ok (c1, ec1) \<and>
    server_reads k (tl (replicate 3 a) @ cl_sent c1) sv1 es2 = Some (Ok (sv2, es3)) \<and>
    (let rest = drop (header_len (hd (command_modes (lf_Modes cf)))) a in
      sv_tun sv2 = Some ((if is_ip rest then [rest, rest] else []) @ take n (ip_packets acts))) \<and>
    (list_all (\<lambda>pkt. \<not> is_fin pkt) (cl_sent c1) \<longrightarrow> length (ip_packets acts) \<le> n))"
proof (rule conjI)
  obtain g where g: "load_file (Ok cf) = Ok g" using load_file_total by blast
  note keep = load_file_keeps [OF g]
  note srv = server_main_runs [OF assms(1,2)]
  let ?md = "hd (command_modes (lf_Modes cf))" and ?k = "length (sv_objects sv)"
  have aes: "aes_key_ok (SecretKey (lf_config g))" using srv(3) assms(6) keep by simp
  then obtain ob where ob: "NewOutbound (client_transport (lf_config g)) = Ok ob" "ob_config ob = client_transport (lf_config g)"
    by (auto simp: NewOutbound_def NewAEADCipher_def client_transport_def)
  have "in_listening i = Some ByKCP" using srv(8) assms(4) by simp
  with g ob assms(5) keep show "\<exists>g ob ob1. load_file (Ok cf) = Ok g \<and> NewOutbound (client_transport (lf_config g)) = Ok ob \<and>
      Connect (Ok conv) ob = (Ok (), ob1) \<and> in_listening i = Some ByKCP \<and> spoken_by ob1 = ByKCP"
    by (auto simp: Connect_def connectReliableUDP_def client_transport_def spoken_by_def)
  from aes have key: "SecretKey (lf_config g) \<noteq> []" "outbound_dial (SecretKey (lf_config g)) (Ok ()) = Ok ()"
    by (auto simp: aes_key_ok_def outbound_dial_def NewAEADCipher_def)
  have md: "?md \<in> plain_modes" using assms(8) by (auto simp: taking_modes_def plain_modes_def codec_modes_def)
  have ok: "tunnel_ok (command_client_config g)"
    by (rule command_tunnel_ok) (use md assms(9,10) keep in simp_all)
  obtain c e2 where c: "NewClient (command_client_config g) e = Ok (Some c, e2)"
    using NewClient_total [of "command_client_config g" e] key(1) by (auto simp: command_client_config_def)
  have hd: "hd (cc_Modes (command_client_config g)) = ?md" by (simp add: command_client_config_def keep)
  have mgr: "hm_authKey (sv_handshake sv) = cc_AuthKey (command_client_config g)"
    using srv(1) assms(6) keep by (simp add: command_client_config_def)
  have fresh: "map_of (s_LastSeen (hm_state (sv_handshake sv))) n = None" for n using srv(2) by simp
  from tunnel_opens [OF c ok mgr fresh, of e2 es] obtain a b c1 e3 sv1 e4 where
    o: "Start (Ok ()) (direct b) c e2 = Ok (Ok (), replicate 3 a, c1, e3)"
    "handleConnection (direct a) sv es = Ok (Some ?k, replicate 3 b, sv1, e4)"
    "client_up ?md c1" "server_up (in_step ?md) ?k sv1" "sv_tun sv1 = sv_tun sv"
    by (auto simp: client_up_def server_up_def Let_def hd)
  note a = Start_writes [OF o(1) c ok]
  have main: "client_main \<lparr>ci_version = False, ci_file = Ok cf, ci_tun = Ok (), ci_dial = Ok (), ci_conn = direct b\<rparr> e =
      Ok (Running, replicate 3 a, Some (SetOnPacket c1), e3)"
    using g c o(1) key assms(7) keep by (simp add: client_main_def client_validateConfig_def)
  have up: "client_up ?md (SetOnPacket c1)" "cl_sent (SetOnPacket c1) = []" "cl_delivered (SetOnPacket c1) \<noteq> None"
    using o(3) a(2) by (simp_all add: client_up_def SetOnPacket_def)
  have "sv_tun sv1 = Some []" using o(5) srv(4) assms(3) by simp
  from run_after_handshake [OF o(4) assms(8) md this up(1) assms(11) syn_copy_no_fin [OF a(1) ok] up(2), of ec es2]
  have "\<exists>c2 ec2 sv2 es3 n. client_acts acts (SetOnPacket c1) ec = Ok (c2, ec2) \<and>
      server_reads ?k (tl (replicate 3 a) @ cl_sent c2) sv1 es2 = Some (Ok (sv2, es3)) \<and>
      sv_tun sv2 = Some ((let j = drop (header_len ?md) a in if is_ip j then [j, j] else []) @ take n (ip_packets acts)) \<and>
      (list_all (\<lambda>d. \<not> is_fin d) (cl_sent c2) \<longrightarrow> length (ip_packets acts) \<le> n)"
    by (simp add: numeral_3_eq_3)
  with main up(3) o(2) show "\<exists>a b c e2 k sv1 e3 c1 ec1 sv2 es3 n.
    client_main \<lparr>ci_version = False, ci_file = Ok cf, ci_tun = Ok (), ci_dial = Ok (), ci_conn = direct b\<rparr> e =
      Ok (Running, replicate 3 a, Some c, e2) \<and> cl_delivered c \<noteq> None \<and>
    handleConnection (direct a) sv es = Ok (Some k, replicate 3 b, sv1, e3) \<and>
    client_acts acts c ec = Ok (c1, ec1) \<and>
    server_reads k (tl (replicate 3 a) @ cl_sent c1) sv1 es2 = Some (Ok (sv2, es3)) \<and>
    (let rest = drop (header_len ?md) a in
      sv_tun sv2 = Some ((if is_ip rest then [rest, rest] else []) @ take n (ip_packets acts))) \<and>
    (list_all (\<lambda>pkt. \<not> is_fin pkt) (cl_sent c1) \<longrightarrow> length (ip_packets acts) \<le> n)"
    unfolding Let_def by blast
qed

definition sample_config :: Config where
  "sample_config = DefaultConfig\<lparr>ServerAddr := ''host:8443'', SecretKey := replicate 32 7\<rparr>"

definition sample_file :: command_file where
  "sample_file = \<lparr>lf_config = sample_config, lf_Modes = [''vk'', ''ozon''], lf_SwitchInterval = 300,
     lf_SplitTunnel = False\<rparr>"

definition sample_server :: server_in where
  "sample_server = \<lparr>sm_version = False, sm_db = Ok (), sm_migrate = Ok (), sm_mails = (\<lambda>_. True),
     sm_file = Ok sample_file, sm_tun_made = True, sm_listen = Ok ()\<rparr>"

lemma sample_server_runs:
  "\<exists>sv i s1 e1. server_main sample_server site0 env0 = Ok (Running, Some (sv, Some i), s1, e1)"
  by (simp add: server_main_def sample_server_def sample_file_def sample_config_def load_file_cases
      server_validateConfig_def DefaultConfig_def NewServer_def NewHandshakeManager_total
      Prelude.slice_def NewInbound_def NewAEADCipher_def aes_key_ok_def Inbound_Start_def
      Server_Start_def Let_def numeral_eq_Suc)

theorem commands_open_the_tunnel_witness:
  "\<exists>sv i s1 e1 a b c e2 k sv1 e3 c1 ec1 sv2 es3. server_main sample_server site0 env0 = Ok (Running, Some (sv, Some i), s1, e1) \<and>
    client_main \<lparr>ci_version = False, ci_file = Ok sample_file, ci_tun = Ok (), ci_dial = Ok (), ci_conn = direct b\<rparr> env0 =
      Ok (Running, replicate 3 a, Some c, e2) \<and>
    handleConnection (direct a) sv env0 = Ok (Some k, replicate 3 b, sv1, e3) \<and>
    client_acts [Packet ip0] c env0 = Ok (c1, ec1) \<and>
    server_reads k (tl (replicate 3 a) @ cl_sent c1) sv1 env0 = Some (Ok (sv2, es3))"
proof -
  obtain sv i s1 e1 where m: "server_main sample_server site0 env0 = Ok (Running, Some (sv, Some i), s1, e1)"
    using sample_server_runs by blast
  have f: "sm_file sample_server = Ok sample_file" "sm_tun_made sample_server"
    by (simp_all add: sample_server_def)
  have md: "hd (command_modes (lf_Modes sample_file)) = ModeVK"
    by (simp add: sample_file_def command_modes_def parse_mode_def)
  have c: "ReliableUDP (lf_config sample_file)" "ServerAddr (lf_config sample_file) \<noteq> []"
    "length (lf_Modes sample_file) < 256" "lf_SwitchInterval sample_file < 4294967296"
    by (simp_all add: sample_file_def sample_config_def DefaultConfig_def)
  have t: "hd (command_modes (lf_Modes sample_file)) \<in> taking_modes" by (simp add: md taking_modes_def)
  have l: "list_all (act_ok (hd (command_modes (lf_Modes sample_file)))) [Packet ip0]"
    using is_ip_not_hello [OF ip0_ip] by (simp add: md mode_carries_def)
  from commands_open_the_tunnel [OF m f c(1,1) refl c(2) t c(3,4) l, of 0 env0 env0 env0 env0] m show ?thesis
    by blast
qed

section \<open>Transports\<close>

text \<open>C33: The client command speaks KCP or plain UDP and never TCP, whatever its file says: it is heard
  by the server command exactly when both files agree on reliable UDP and, without it, the
  mode of the server is udp. A server in the modes tcp or dual without reliable UDP, which the
  server command accepts, is reached by no client.\<close>

theorem commands_meet_iff:
  assumes "server_main sm s e = Ok (Running, Some (sv, Some i), s1, e1)" and "sm_file sm = Ok sf"
    and "load_file (Ok cf) = Ok g" and "NewOutbound (client_transport (lf_config g)) = Ok ob"
    and "Connect (Ok n) ob = (r, ob1)"
  shows "r = Ok () \<and> spoken_by ob1 \<noteq> ByTCP \<and>
    (in_listening i = Some (spoken_by ob1) \<longleftrightarrow>
      ReliableUDP (lf_config cf) = ReliableUDP (lf_config sf) \<and>
      (ReliableUDP (lf_config sf) \<or> Mode (lf_config sf) = ''udp''))"
proof -
  have "ob_config ob = client_transport (lf_config g)" "\<not> ob_writing ob"
    using assms(4) by (auto simp: NewOutbound_def bindR_eq_Ok)
  then have "r = Ok () \<and> spoken_by ob1 = (if ReliableUDP (lf_config cf) then ByKCP else ByUDP)"
    using assms(5) load_file_keeps(5) [OF assms(3)]
    by (auto simp: Connect_def connectReliableUDP_def connectUDP_def client_transport_def spoken_by_def)
  then show ?thesis using server_main_runs(8) [OF assms(1,2)] by simp
qed

text \<open>The file of a server in TCP mode, and that of a client for it.\<close>

definition tcp_server :: server_in where
  "tcp_server = sample_server\<lparr>sm_file := Ok (sample_file\<lparr>lf_config :=
     sample_config\<lparr>Mode := ''tcp'', Protocol := ''tcp'', ReliableUDP := False\<rparr>\<rparr>)\<rparr>"

theorem commands_meet_iff_witness:
  "\<exists>sv i s1 e1 g ob ob1. server_main tcp_server site0 env0 = Ok (Running, Some (sv, Some i), s1, e1) \<and>
    load_file (Ok sample_file) = Ok g \<and> NewOutbound (client_transport (lf_config g)) = Ok ob \<and>
    Connect (Ok 0) ob = (Ok (), ob1) \<and> in_listening i \<noteq> Some (spoken_by ob1)"
proof -
  have "\<exists>sv i s1 e1. server_main tcp_server site0 env0 = Ok (Running, Some (sv, Some i), s1, e1)"
    by (simp add: server_main_def tcp_server_def sample_server_def sample_file_def sample_config_def
        load_file_cases server_validateConfig_def DefaultConfig_def NewServer_def NewHandshakeManager_total
        Prelude.slice_def NewInbound_def NewAEADCipher_def aes_key_ok_def Inbound_Start_def
        Server_Start_def Let_def numeral_eq_Suc)
  then obtain sv i s1 e1 where m: "server_main tcp_server site0 env0 = Ok (Running, Some (sv, Some i), s1, e1)" by blast
  obtain g where g: "load_file (Ok sample_file) = Ok g" using load_file_total by blast
  have "\<exists>ob. NewOutbound (client_transport (lf_config g)) = Ok ob"
    using g by (auto simp: load_file_cases NewOutbound_def NewAEADCipher_def aes_key_ok_def
        client_transport_def sample_file_def sample_config_def)
  then obtain ob where ob: "NewOutbound (client_transport (lf_config g)) = Ok ob" by blast
  obtain r ob1 where c: "Connect (Ok 0) ob = (r, ob1)" by (metis surj_pair)
  from commands_meet_iff [OF m _ g ob c] m g ob c show ?thesis
    by (simp add: tcp_server_def sample_server_def sample_file_def sample_config_def DefaultConfig_def)
qed

section \<open>The constants of the server command\<close>

lemma split_spaces_none: "CHR '' '' \<notin> set t \<Longrightarrow> split_spaces acc t = [acc @ t]"
  by (induction t arbitrary: acc) auto

lemma split_bearer: "CHR '' '' \<notin> set t \<Longrightarrow> split_spaces [] (''Bearer '' @ t) = [''Bearer'', t]"
  by (simp add: split_spaces_none)

text \<open>What package jwt promises of an access token that has not expired: it is parsed, with the
  secret it was signed with, and names its user.\<close>

definition access_law :: "'db backend \<Rightarrow> bool" where
  "access_law w \<longleftrightarrow> (\<forall>k c u token t. jc_user_id c = Some u \<longrightarrow> jc_sub c = None \<longrightarrow>
     jwt_signed w k c = Ok token \<longrightarrow> t div second < jc_exp c \<longrightarrow>
     (\<exists>d. jwt_parsed w k token t = Some d \<and> jc_user_id d = Some u))"

lemma access_lawD:
  assumes "access_law w" and "jc_user_id c = Some u" and "jc_sub c = None"
    and "jwt_signed w k c = Ok token" and "t div second < jc_exp c"
  shows "\<exists>d. jwt_parsed w k token t = Some d \<and> jc_user_id d = Some u"
  using assms unfolding access_law_def by blast

text \<open>C31: The secret of the tokens is a constant of the source, so whoever has read it signs a token for
  any account himself, and the site of a running server command obeys it: asked for the profile it gives that of the
  account, and asked to delete the account it does as much of it as the database does. If the database deletes the sessions, the
  account is logged out everywhere; if it then deletes the row, the account is gone, and if it refuses, as the foreign key
  of a subscription makes it do, the row stays and the sessions are gone all the same. No other account is touched.\<close>

theorem published_secret_opens_every_account:
  assumes "server_main sm s e = Ok (Running, Some sv, s1, e1)" and "sm_file sm = Ok f"
    and "backend_ok w" and "access_law w" and "uuid_Parse w (uuid_String w (us_ID u)) = Some (us_ID u)"
    and "jwt_signed w ''your-super-secret-jwt-key-change-me-in-production''
      \<lparr>jc_user_id = Some (uuid_String w (us_ID u)), jc_email = m, jc_sub = None, jc_exp = x, jc_iat = y\<rparr> = Ok token"
    and "fst (site_clock s) div second < x" and "CHR '' '' \<notin> set token"
    and "delete_sessions_user w (us_ID u) (st_db s) = (rs, db1)" and "delete_user_id w (us_ID u) db1 = (ru, db2)"
  shows "(\<forall>v. first_user_id w (us_ID u) (st_db s) = Ok v \<longrightarrow>
      fst (serve_web w (Account (Me (''Bearer '' @ token))) s1) = AccountReply (user_reply w v)) \<and>
    (\<exists>r s2. serve_web w (Account (DeleteAccount (''Bearer '' @ token))) s1 = (AccountReply r, s2) \<and>
      (fst r = 200 \<longleftrightarrow> rs = Ok () \<and> ru = Ok ()) \<and>
      sessions w (st_db s2) = {d \<in> sessions w (st_db s). rs = Ok () \<longrightarrow> ds_UserID d \<noteq> us_ID u} \<and>
      users w (st_db s2) = {v \<in> users w (st_db s). rs = Ok () \<and> ru = Ok () \<longrightarrow> us_ID v \<noteq> us_ID u})"
proof -
  have "\<exists>sv0 i. sv = (sv0, i)" by simp
  then obtain sv0 i where sv: "sv = (sv0, i)" by blast
  note srv = server_main_runs [OF assms(1) [unfolded sv] assms(2)]
  obtain t s0 where t: "site_clock s1 = (t, s0)" by (metis surj_pair)
  then have ts: "t = fst (site_clock s)" and db: "st_db s0 = st_db s"
    using srv(6,7) by (auto simp: site_clock_def case_prod_beta)
  then obtain d where d: "jwt_parsed w (jwtSecret s1) token t = Some d"
    "jc_user_id d = Some (uuid_String w (us_ID u))"
    using access_lawD [OF assms(4) _ _ assms(6), of _ t] assms(7) srv(5) by (auto simp: jwt_constant_def)
  let ?claims = "\<lparr>cm_UserID = uuid_String w (us_ID u), cm_Email = or_empty (jc_email d)\<rparr>"
  have valid: "ValidateAccessToken w token s1 = (Ok ?claims, s0)"
    using t d by (simp add: ValidateAccessToken_def or_empty_def)
  note auth = split_bearer [OF assms(8)] valid
  have me: "fst (serve_web w (Account (Me (''Bearer '' @ token))) s1) = AccountReply (user_reply w v)"
    if "first_user_id w (us_ID u) (st_db s) = Ok v" for v
    using auth that assms(5) db by (simp add: AuthMiddleware_def MeHandler_def token_user_def)
  obtain r s2 where del: "DeleteAccountHandler w ?claims s0 = (r, s2)" by (metis surj_pair)
  have rows: "sessions w db1 = {x \<in> sessions w (st_db s). rs = Ok () \<longrightarrow> ds_UserID x \<noteq> us_ID u}" "users w db1 = users w (st_db s)"
    "users w db2 = {v \<in> users w db1. ru = Ok () \<longrightarrow> us_ID v \<noteq> us_ID u}"
    "sessions w db2 = {x \<in> sessions w db1. ru = Ok () \<longrightarrow> ds_UserID x \<noteq> us_ID u}"
    using delete_sessions_row(3,4) [OF assms(3), of "us_ID u" "st_db s"] delete_user_id_row [OF assms(3), of "us_ID u" db1] assms(9,10)
    by (auto split: if_splits)
  have "(fst r = 200 \<longleftrightarrow> rs = Ok () \<and> ru = Ok ()) \<and> st_db s2 = (if rs = Ok () then db2 else db1)"
    using del assms(5,9,10) db
    by (cases rs; cases ru) (auto simp: DeleteAccountHandler_def on_db_def sendJSONError_def case_prod_beta)
  with rows have "(fst r = 200 \<longleftrightarrow> rs = Ok () \<and> ru = Ok ()) \<and>
      sessions w (st_db s2) = {d \<in> sessions w (st_db s). rs = Ok () \<longrightarrow> ds_UserID d \<noteq> us_ID u} \<and>
      users w (st_db s2) = {v \<in> users w (st_db s). rs = Ok () \<and> ru = Ok () \<longrightarrow> us_ID v \<noteq> us_ID u}" by auto
  moreover have "serve_web w (Account (DeleteAccount (''Bearer '' @ token))) s1 = (AccountReply r, s2)"
    using auth del by (simp add: AuthMiddleware_def)
  ultimately show ?thesis using me by blast
qed

lemma mem_access_law: "access_law mem_backend"
  by (simp add: access_law_def mem_backend_def or_empty_def)

theorem published_secret_opens_every_account_witness:
  "\<exists>sv s1 e1 s2 body. server_main sample_server site2 env0 = Ok (Running, Some sv, s1, e1) \<and>
    active0 \<in> users mem_backend (st_db s1) \<and>
    serve_web mem_backend (Account (DeleteAccount
      (''Bearer '' @ ''your-super-secret-jwt-key-change-me-in-productionx''))) s1 = (AccountReply (200, body), s2) \<and>
    active0 \<notin> users mem_backend (st_db s2)"
proof -
  have "\<exists>sv i s1 e1. server_main sample_server site2 env0 = Ok (Running, Some (sv, Some i), s1, e1)"
    by (simp add: server_main_def sample_server_def sample_file_def sample_config_def load_file_cases
        server_validateConfig_def DefaultConfig_def NewServer_def NewHandshakeManager_total
        Prelude.slice_def NewInbound_def NewAEADCipher_def aes_key_ok_def Inbound_Start_def
        Server_Start_def Let_def numeral_eq_Suc)
  then obtain sv s1 e1 where m: "server_main sample_server site2 env0 = Ok (Running, Some sv, s1, e1)" by blast
  have f: "sm_file sample_server = Ok sample_file" by (simp add: sample_server_def)
  have "\<exists>sv0 i. sv = (sv0, i)" by simp
  then have db: "st_db s1 = st_db site2" using server_main_runs(6) m f by metis
  have u: "uuid_Parse mem_backend (uuid_String mem_backend (us_ID active0)) = Some (us_ID active0)"
    by (simp add: active0_def pending0_def mem_backend_def mem_uuid_String_def)
  have token: "jwt_signed mem_backend ''your-super-secret-jwt-key-change-me-in-production''
      \<lparr>jc_user_id = Some (uuid_String mem_backend (us_ID active0)), jc_email = None, jc_sub = None,
       jc_exp = 1700000001, jc_iat = 0\<rparr> = Ok ''your-super-secret-jwt-key-change-me-in-productionx''"
    by (simp add: mem_backend_def mem_uuid_String_def or_empty_def active0_def pending0_def)
  have clock: "fst (site_clock site2) div second < 1700000001"
    by (simp add: site_clock_def read_clock_def now_def site2_def site0_def env0_def)
  let ?db1 = "mem_filter_sessions (\<lambda>x. ds_UserID x \<noteq> us_ID active0) (st_db site2)"
  have del: "delete_sessions_user mem_backend (us_ID active0) (st_db site2) = (Ok (), ?db1)"
    "delete_user_id mem_backend (us_ID active0) ?db1 = (Ok (), snd (mem_delete_user_id (us_ID active0) ?db1))"
    by (simp_all add: mem_backend_def mem_delete_user_id_def)
  from published_secret_opens_every_account [OF m f mem_backend_ok mem_access_law u token clock _ del]
  obtain r s2 where s2: "serve_web mem_backend (Account (DeleteAccount
      (''Bearer '' @ ''your-super-secret-jwt-key-change-me-in-productionx''))) s1 = (AccountReply r, s2)"
    "fst r = 200" "users mem_backend (st_db s2) = {v \<in> users mem_backend (st_db site2). us_ID v \<noteq> us_ID active0}" by auto
  moreover have "active0 \<in> users mem_backend (st_db s1)" by (simp add: db site2_def mem_backend_def)
  ultimately have "active0 \<in> users mem_backend (st_db s1) \<and> serve_web mem_backend (Account (DeleteAccount
      (''Bearer '' @ ''your-super-secret-jwt-key-change-me-in-productionx''))) s1 = (AccountReply (200, snd r), s2) \<and>
    active0 \<notin> users mem_backend (st_db s2)" by (cases r) simp
  with m show ?thesis by blast
qed

end
