(* ===== verification/Devices.thy ===== *)
theory Devices
  imports Exports
begin

text \<open>
  The TUN devices of \<open>internal/tun\<close> on Linux, Windows and Android, and how the exported
  interface uses the last one. The kernel gives one packet to a read, cut to the buffer; what
  the operating system answers to the other calls is an argument. Commands that are run to
  configure an interface are kept as lists of words.
\<close>

section \<open>Linux\<close>

record LinuxTun =
  lt_fd :: int
  lt_name :: string

definition trim_nuls :: "bytes \<Rightarrow> bytes" where
  "trim_nuls bs = rev (dropWhile (\<lambda>b. b = 0) (rev bs))"

text \<open>The descriptor of \<open>/dev/net/tun\<close>, and the 16 bytes of the name when the request is granted.\<close>

definition Linux_NewTunDevice :: "int result \<Rightarrow> bytes result \<Rightarrow> (LinuxTun \<times> string list list) result" where
  "Linux_NewTunDevice opened ioctl =
     bindR opened (\<lambda>fd. bindR ioctl (\<lambda>ifr_name.
       let name = map (\<lambda>b. char_of (unat b)) (trim_nuls ifr_name) in
       Ok (\<lparr>lt_fd = fd, lt_name = name\<rparr>,
           [[''ip'', ''addr'', ''add'', ''10.0.0.1/24'', ''dev'', name],
            [''ip'', ''link'', ''set'', ''dev'', name, ''up'']])))"

text \<open>
  A read takes the first packet that waits; without one it blocks, which is \<open>None\<close>. The read
  of \<open>ReadWithTimeout\<close> goes on in its goroutine when the time is over: \<open>lq_abandoned\<close> counts
  the goroutines that will take a packet nobody waits for.
\<close>

record linux_queue =
  lq_packets :: "bytes list"
  lq_abandoned :: nat

definition packet_queued :: "bytes \<Rightarrow> linux_queue \<Rightarrow> linux_queue" where
  "packet_queued p q =
     (case lq_abandoned q of
        0 \<Rightarrow> q\<lparr>lq_packets := lq_packets q @ [p]\<rparr>
      | Suc n \<Rightarrow> q\<lparr>lq_abandoned := n\<rparr>)"

definition Linux_Read :: "linux_queue \<Rightarrow> (bytes \<times> linux_queue) option" where
  "Linux_Read q =
     (case lq_packets q of
        [] \<Rightarrow> None
      | p # ps \<Rightarrow> Some (take 1500 p, q\<lparr>lq_packets := ps\<rparr>))"

text \<open>The arguments are the packets that arrive before the time is over.\<close>

definition ReadWithTimeout :: "bytes list \<Rightarrow> linux_queue \<Rightarrow> bytes \<times> linux_queue" where
  "ReadWithTimeout arrivals q =
     (case Linux_Read (fold packet_queued arrivals q) of
        Some r \<Rightarrow> r
      | None \<Rightarrow>
          (let q1 = fold packet_queued arrivals q in ([], q1\<lparr>lq_abandoned := lq_abandoned q1 + 1\<rparr>)))"

section \<open>Windows\<close>

definition tunOffset :: nat where "tunOffset = 4"

record WindowsTun =
  wt_name :: string

definition Windows_NewTunDevice :: "string result result \<Rightarrow> (WindowsTun \<times> string list list) result" where
  "Windows_NewTunDevice created =
     bindR created (\<lambda>named. bindR named (\<lambda>name.
       Ok (\<lparr>wt_name = name\<rparr>,
           [[''netsh'', ''interface'', ''ipv4'', ''set'', ''subinterface'', name, ''mtu=1350'', ''store=active'']])))"

text \<open>
  The device of package wireguard fills the buffer from the offset on, and gives the number
  of packets, the size of the first and the buffer.
\<close>

definition Windows_Read :: "(nat \<times> nat \<times> bytes) result \<Rightarrow> bytes result" where
  "Windows_Read read = bindR read (\<lambda>(n, size, buf).
     if n = 0 then Ok [] else slice buf tunOffset (tunOffset + size))"

text \<open>What the device is given: a buffer and the offset its packet begins at.\<close>

definition Windows_Write :: "bytes \<Rightarrow> bytes \<times> nat" where
  "Windows_Write data = (splice tunOffset data (make_buf (tunOffset + length data)), tunOffset)"

definition SetupIP :: "string \<Rightarrow> WindowsTun \<Rightarrow> string list list" where
  "SetupIP ip t =
     [[''netsh'', ''interface'', ''ip'', ''delete'', ''address'', wt_name t, ip],
      [''netsh'', ''interface'', ''ip'', ''set'', ''address'', wt_name t, ''static'', ip,
       ''255.255.255.0'', ''gateway=none'']]"

section \<open>Android\<close>

record AndroidTun =
  at_fd :: "int option"
  at_written :: "bytes list"
  at_handed :: "bytes list"

definition Android_NewTunDevice :: AndroidTun where
  "Android_NewTunDevice = \<lparr>at_fd = None, at_written = [], at_handed = []\<rparr>"

definition SetFD :: "int \<Rightarrow> AndroidTun \<Rightarrow> unit result \<times> AndroidTun" where
  "SetFD fd t = (if fd < 0 then (Fail OtherError, t) else (Ok (), t\<lparr>at_fd := Some fd\<rparr>))"

definition Android_Read :: "bytes result \<Rightarrow> AndroidTun \<Rightarrow> bytes result" where
  "Android_Read read t =
     (case at_fd t of None \<Rightarrow> Fail OtherError | Some _ \<Rightarrow> bindR read (\<lambda>p. Ok (take 1600 p)))"

text \<open>The package has a callback of its own, which no code sets: \<open>callback\<close> is whether it is set.\<close>

definition Android_Write :: "bool \<Rightarrow> unit result \<Rightarrow> bytes \<Rightarrow> AndroidTun \<Rightarrow> unit result \<times> AndroidTun" where
  "Android_Write callback wrote data t =
     (case at_fd t of
        Some _ \<Rightarrow> (wrote, if is_ok wrote then t\<lparr>at_written := at_written t @ [data]\<rparr> else t)
      | None \<Rightarrow> (Ok (), if callback then t\<lparr>at_handed := at_handed t @ [data]\<rparr> else t))"

definition Android_Close :: "unit result \<Rightarrow> AndroidTun \<Rightarrow> unit result" where
  "Android_Close closed t = (case at_fd t of Some _ \<Rightarrow> closed | None \<Rightarrow> Ok ())"

section \<open>The device behind the exported interface\<close>

text \<open>
  \<open>SetTunFileDescriptor\<close> on Android, with the device: it is made when there is none, and kept
  when the descriptor is refused.
\<close>

definition set_descriptor :: "int \<Rightarrow> vpn \<Rightarrow> AndroidTun \<Rightarrow> reply \<times> vpn \<times> AndroidTun" where
  "set_descriptor fd v t =
     (let t0 = (if v_tun v then t else Android_NewTunDevice); (r, t1) = SetFD fd t0;
          (answer, v1) = SetTunFileDescriptor Android True (is_ok r) v in
      (answer, v1, t1))"

text \<open>
  What the callback of the client does with a packet on Android; the list is what the
  application is given.
\<close>

definition to_application :: "unit result \<Rightarrow> bytes \<Rightarrow> vpn \<Rightarrow> AndroidTun \<Rightarrow> AndroidTun \<times> bytes list" where
  "to_application wrote data v t =
     (if v_tun v then (snd (Android_Write False wrote data t), [])
      else if v_callback v then (t, [data])
      else (t, []))"

section \<open>Laws\<close>

lemma trim_nuls_append: "trim_nuls (bs @ replicate n 0) = trim_nuls bs"
  by (simp add: trim_nuls_def dropWhile_append)

lemma trim_nuls_id: "bs \<noteq> [] \<Longrightarrow> last bs \<noteq> 0 \<Longrightarrow> trim_nuls bs = bs"
  by (cases bs rule: rev_cases) (simp_all add: trim_nuls_def)

lemma packets_queued:
  "fold packet_queued ps q =
     q\<lparr>lq_packets := lq_packets q @ drop (lq_abandoned q) ps, lq_abandoned := lq_abandoned q - length ps\<rparr>"
  by (induction ps arbitrary: q) (auto simp: packet_queued_def split: nat.split)

lemma Windows_Write_packet: "Windows_Write data = (replicate 4 0 @ data, 4)"
  by (simp add: Windows_Write_def tunOffset_def splice_def make_buf_def)

lemma Windows_Read_written:
  "Windows_Write data = (buf, off) \<Longrightarrow> Windows_Read (Ok (1, length data, buf)) = Ok data"
  by (auto simp: Windows_Write_packet Windows_Read_def tunOffset_def Prelude.slice_def)

end
