(* ===== verification/AndroidReader.thy ===== *)
theory AndroidReader
  imports VpnReader
begin

text \<open>
  The goroutine that reads the TUN device on Android, \<open>startAndroidTunReader\<close> in \<open>exports.go\<close>,
  and \<open>StopVPN\<close>, which does not know of it: it waits only for the read loop of the client, in \<open>Client.Stop\<close>.
  The goroutine uses three package variables, \<open>stopChan\<close>, \<open>tunDevice\<close> and \<open>clientInstance\<close>, and looks at
  each anew at every use; \<open>StopVPN\<close> sets them to nil one after the other. Each use of a variable is one
  step, a method of the client that takes its lock is another, and there is no step once the process has crashed.
\<close>

datatype android_stop = BCloseChan | BForgetChan | BCloseDevice | BForgetDevice | BStopClient
  | BForgetClient | BStopped

text \<open>\<open>AWaitAsk\<close>, \<open>AAsk\<close> and \<open>ASending\<close> are inside a method of the client, before its lock.\<close>

datatype android_pc = AWait | AWaitCall | AWaitAsk | ASelect | ACheck | ACall | AInDevice | ASleep | ATest | AAsk
  | ASend | ASending | AExit | ACrash

datatype client_var = ClientThere | ClientNil

record android_state =
  as_stop :: android_stop
  as_reader :: android_pc
  as_chan :: chan_var
  as_device :: device_var
  as_client :: client_var
  as_engine :: stop_state

definition android_running :: android_state where
  "android_running = \<lparr>as_stop = BCloseChan, as_reader = AWait, as_chan = ChanOpen,
     as_device = DeviceOpen, as_client = ClientThere, as_engine = running\<rparr>"

text \<open>\<open>Stop\<close> sets the client to not connected at its end.\<close>

definition still_connected :: "android_state \<Rightarrow> bool" where
  "still_connected s \<longleftrightarrow> stopper (as_engine s) \<noteq> StopDone"

text \<open>
  The reader waits three seconds at most for a client that is connected, asking it again and again;
  then it goes round: it looks at the channel, tests the device, calls its \<open>Read\<close>, sleeps after an error or an
  empty packet, and sends what it read if the client is connected. A method of a nil device or of a
  nil client dereferences it.
\<close>

inductive android_step :: "android_state \<Rightarrow> android_state \<Rightarrow> bool" where
  close_chan: "as_stop s = BCloseChan \<Longrightarrow> as_reader s \<noteq> ACrash \<Longrightarrow>
    android_step s (s\<lparr>as_stop := BForgetChan, as_chan := ChanClosed\<rparr>)"
| forget_chan: "as_stop s = BForgetChan \<Longrightarrow> as_reader s \<noteq> ACrash \<Longrightarrow>
    android_step s (s\<lparr>as_stop := BCloseDevice, as_chan := ChanNil\<rparr>)"
| close_device: "as_stop s = BCloseDevice \<Longrightarrow> as_reader s \<noteq> ACrash \<Longrightarrow>
    android_step s (s\<lparr>as_stop := BForgetDevice, as_device := DeviceClosed\<rparr>)"
| forget_device: "as_stop s = BForgetDevice \<Longrightarrow> as_reader s \<noteq> ACrash \<Longrightarrow>
    android_step s (s\<lparr>as_stop := BStopClient, as_device := DeviceNil\<rparr>)"
| client_stopped: "as_stop s = BStopClient \<Longrightarrow> stopper (as_engine s) = StopDone \<Longrightarrow> as_reader s \<noteq> ACrash \<Longrightarrow>
    android_step s (s\<lparr>as_stop := BForgetClient\<rparr>)"
| forget_client: "as_stop s = BForgetClient \<Longrightarrow> as_reader s \<noteq> ACrash \<Longrightarrow>
    android_step s (s\<lparr>as_stop := BStopped, as_client := ClientNil\<rparr>)"
| engine: "stop_step (as_engine s) c \<Longrightarrow> stopper c = stopper (as_engine s) \<or> as_stop s = BStopClient \<Longrightarrow>
    as_reader s \<noteq> ACrash \<Longrightarrow> android_step s (s\<lparr>as_engine := c\<rparr>)"
| there: "as_reader s = AWait \<Longrightarrow> as_client s = ClientThere \<Longrightarrow> android_step s (s\<lparr>as_reader := AWaitCall\<rparr>)"
| not_there: "as_reader s = AWait \<Longrightarrow> as_client s = ClientNil \<Longrightarrow> android_step s (s\<lparr>as_reader := AExit\<rparr>)"
| wait_nil: "as_reader s = AWaitCall \<Longrightarrow> as_client s = ClientNil \<Longrightarrow> android_step s (s\<lparr>as_reader := ACrash\<rparr>)"
| wait_call: "as_reader s = AWaitCall \<Longrightarrow> as_client s = ClientThere \<Longrightarrow> android_step s (s\<lparr>as_reader := AWaitAsk\<rparr>)"
| ask_again: "as_reader s = AWaitAsk \<Longrightarrow> \<not> lock_held (as_engine s) \<Longrightarrow> android_step s (s\<lparr>as_reader := AWait\<rparr>)"
| found: "as_reader s = AWaitAsk \<Longrightarrow> \<not> lock_held (as_engine s) \<Longrightarrow> still_connected s \<Longrightarrow>
    android_step s (s\<lparr>as_reader := ASelect\<rparr>)"
| gave_up: "as_reader s = AWaitAsk \<Longrightarrow> \<not> lock_held (as_engine s) \<Longrightarrow> \<not> still_connected s \<Longrightarrow>
    android_step s (s\<lparr>as_reader := AExit\<rparr>)"
| select_stop: "as_reader s = ASelect \<Longrightarrow> as_chan s = ChanClosed \<Longrightarrow> android_step s (s\<lparr>as_reader := AExit\<rparr>)"
| select_default: "as_reader s = ASelect \<Longrightarrow> as_chan s \<noteq> ChanClosed \<Longrightarrow>
    android_step s (s\<lparr>as_reader := ACheck\<rparr>)"
| no_device: "as_reader s = ACheck \<Longrightarrow> as_device s = DeviceNil \<Longrightarrow> android_step s (s\<lparr>as_reader := ASleep\<rparr>)"
| device: "as_reader s = ACheck \<Longrightarrow> as_device s \<noteq> DeviceNil \<Longrightarrow> android_step s (s\<lparr>as_reader := ACall\<rparr>)"
| call_nil: "as_reader s = ACall \<Longrightarrow> as_device s = DeviceNil \<Longrightarrow> android_step s (s\<lparr>as_reader := ACrash\<rparr>)"
| call: "as_reader s = ACall \<Longrightarrow> as_device s \<noteq> DeviceNil \<Longrightarrow> android_step s (s\<lparr>as_reader := AInDevice\<rparr>)"
| read_data: "as_reader s = AInDevice \<Longrightarrow> android_step s (s\<lparr>as_reader := ATest\<rparr>)"
| read_nothing: "as_reader s = AInDevice \<Longrightarrow> android_step s (s\<lparr>as_reader := ASleep\<rparr>)"
| wake: "as_reader s = ASleep \<Longrightarrow> android_step s (s\<lparr>as_reader := ASelect\<rparr>)"
| test_nil: "as_reader s = ATest \<Longrightarrow> as_client s = ClientNil \<Longrightarrow> android_step s (s\<lparr>as_reader := ACrash\<rparr>)"
| test: "as_reader s = ATest \<Longrightarrow> as_client s = ClientThere \<Longrightarrow> android_step s (s\<lparr>as_reader := AAsk\<rparr>)"
| ask_down: "as_reader s = AAsk \<Longrightarrow> \<not> lock_held (as_engine s) \<Longrightarrow> \<not> still_connected s \<Longrightarrow>
    android_step s (s\<lparr>as_reader := ASelect\<rparr>)"
| ask_up: "as_reader s = AAsk \<Longrightarrow> \<not> lock_held (as_engine s) \<Longrightarrow> still_connected s \<Longrightarrow>
    android_step s (s\<lparr>as_reader := ASend\<rparr>)"
| send_nil: "as_reader s = ASend \<Longrightarrow> as_client s = ClientNil \<Longrightarrow> android_step s (s\<lparr>as_reader := ACrash\<rparr>)"
| send: "as_reader s = ASend \<Longrightarrow> as_client s = ClientThere \<Longrightarrow> android_step s (s\<lparr>as_reader := ASending\<rparr>)"
| sent: "as_reader s = ASending \<Longrightarrow> \<not> lock_held (as_engine s) \<Longrightarrow> android_step s (s\<lparr>as_reader := ASelect\<rparr>)"

inductive_cases android_stepE: "android_step s t"

abbreviation android_steps :: "android_state \<Rightarrow> android_state \<Rightarrow> bool" where
  "android_steps \<equiv> android_step\<^sup>*\<^sup>*"

text \<open>The variables and the client follow the place of \<open>StopVPN\<close>.\<close>

definition android_inv :: "android_state \<Rightarrow> bool" where
  "android_inv s \<longleftrightarrow>
     as_chan s = (case as_stop s of BCloseChan \<Rightarrow> ChanOpen | BForgetChan \<Rightarrow> ChanClosed | _ \<Rightarrow> ChanNil) \<and>
     as_device s = (case as_stop s of BCloseChan \<Rightarrow> DeviceOpen | BForgetChan \<Rightarrow> DeviceOpen
       | BCloseDevice \<Rightarrow> DeviceOpen | BForgetDevice \<Rightarrow> DeviceClosed | _ \<Rightarrow> DeviceNil) \<and>
     as_client s = (if as_stop s = BStopped then ClientNil else ClientThere) \<and> stop_inv (as_engine s) \<and>
     (as_stop s = BForgetClient \<or> as_stop s = BStopped \<longrightarrow> stopper (as_engine s) = StopDone) \<and>
     (as_stop s \<notin> {BStopClient, BForgetClient, BStopped} \<longrightarrow> stopper (as_engine s) = StopIdle)"

lemma android_running_inv: "android_inv android_running"
  by (simp add: android_inv_def android_running_def stop_inv_def running_def)

lemma android_step_inv: "android_step s t \<Longrightarrow> android_inv s \<Longrightarrow> android_inv t"
proof (induction rule: android_step.induct)
  case (engine s c)
  then show ?case using stop_step_inv [OF engine(1)] done_stays [OF engine(1)] by (auto simp: android_inv_def)
qed (simp_all add: android_inv_def)

lemma android_steps_inv: "android_steps s t \<Longrightarrow> android_inv s \<Longrightarrow> android_inv t"
  by (induction rule: rtranclp_induct) (auto intro: android_step_inv)

section \<open>What StopVPN can do\<close>

text \<open>\<open>StopVPN\<close> comes to \<open>Client.Stop\<close> whatever the reader does, as long as the process lives.\<close>

definition stop_rank :: "android_stop \<Rightarrow> nat" where
  "stop_rank b = (case b of BCloseChan \<Rightarrow> 4 | BForgetChan \<Rightarrow> 3 | BCloseDevice \<Rightarrow> 2 | BForgetDevice \<Rightarrow> 1 | _ \<Rightarrow> 0)"

lemma stop_moves:
  assumes "0 < stop_rank (as_stop s)" and "as_reader s \<noteq> ACrash"
  shows "\<exists>t. android_step s t \<and> as_reader t = as_reader s \<and> as_engine t = as_engine s \<and>
    stop_rank (as_stop t) < stop_rank (as_stop s)"
proof (cases "as_stop s")
  case BCloseChan
  from android_step.close_chan [OF this assms(2)] this show ?thesis by (auto simp: stop_rank_def)
next
  case BForgetChan
  from android_step.forget_chan [OF this assms(2)] this show ?thesis by (auto simp: stop_rank_def)
next
  case BCloseDevice
  from android_step.close_device [OF this assms(2)] this show ?thesis by (auto simp: stop_rank_def)
next
  case BForgetDevice
  from android_step.forget_device [OF this assms(2)] this show ?thesis by (auto simp: stop_rank_def)
qed (use assms in \<open>simp_all add: stop_rank_def\<close>)

lemma comes_to_client:
  assumes "as_reader s \<noteq> ACrash"
  shows "\<exists>t. android_steps s t \<and> as_reader t = as_reader s \<and> as_engine t = as_engine s \<and> stop_rank (as_stop t) = 0"
  using assms
proof (induction "stop_rank (as_stop s)" arbitrary: s rule: less_induct)
  case less
  show ?case
  proof (cases "stop_rank (as_stop s) = 0")
    case False
    with stop_moves [of s] less.prems obtain t where t: "android_step s t" "as_reader t = as_reader s"
      "as_engine t = as_engine s" "stop_rank (as_stop t) < stop_rank (as_stop s)" by blast
    from less.hyps [OF t(4)] less.prems t(1-3) show ?thesis by (metis converse_rtranclp_into_rtranclp)
  qed blast
qed

lemma engine_steps:
  assumes "stop_reach c d" and "as_stop s = BStopClient" and "as_reader s \<noteq> ACrash" and "as_engine s = c"
  shows "android_steps s (s\<lparr>as_engine := d\<rparr>)"
  using assms
proof (induction rule: stop_reach.induct)
  case start
  then have "s\<lparr>as_engine := c\<rparr> = s" by simp
  then show ?case by simp
next
  case (step d1 d2)
  have "android_step (s\<lparr>as_engine := d1\<rparr>) (s\<lparr>as_engine := d1\<rparr>\<lparr>as_engine := d2\<rparr>)"
    by (rule android_step.engine) (use step in simp_all)
  with step show ?case using rtranclp.rtrancl_into_rtrancl by simp
qed

lemma done_then_stopped:
  assumes "as_stop s \<in> {BStopClient, BForgetClient, BStopped}" and "stopper (as_engine s) = StopDone" and "as_reader s \<noteq> ACrash"
  shows "\<exists>t. android_steps s t \<and> as_reader t = as_reader s \<and> as_stop t = BStopped"
proof -
  have f: "\<exists>t. android_steps s t \<and> as_reader t = as_reader s \<and> as_stop t = BStopped"
    if "as_stop s = BForgetClient" "as_reader s \<noteq> ACrash" for s
    using android_step.forget_client [OF that] by (intro exI conjI) (erule r_into_rtranclp, simp_all)
  show ?thesis
  proof (cases "as_stop s = BStopClient")
    case True
    from android_step.client_stopped [OF this assms(2,3)] f [of "s\<lparr>as_stop := BForgetClient\<rparr>"] assms(3)
    show ?thesis by (auto intro: converse_rtranclp_into_rtranclp)
  next
    case False
    with assms(1) f [of s] assms(3) show ?thesis by auto
  qed
qed

lemma stop_completes:
  assumes "android_inv s" and "as_reader s \<noteq> ACrash" and "\<not> doomed (as_engine s)"
  shows "\<exists>t. android_steps s t \<and> as_reader t = as_reader s \<and> as_stop t = BStopped"
proof -
  obtain t where t: "android_steps s t" "as_reader t = as_reader s" "as_engine t = as_engine s" "stop_rank (as_stop t) = 0"
    using comes_to_client [OF assms(2)] by blast
  have inv: "android_inv t" using android_steps_inv [OF t(1) assms(1)] .
  have place: "as_stop t \<in> {BStopClient, BForgetClient, BStopped}"
    using t(4) by (cases "as_stop t") (auto simp: stop_rank_def)
  have "\<exists>u. android_steps t u \<and> as_reader u = as_reader t \<and> as_stop u = BStopped"
  proof (cases "as_stop t = BStopClient")
    case True
    have "stop_inv (as_engine t)" using inv by (simp add: android_inv_def)
    then obtain d where d: "stop_reach (as_engine t) d" "stopper d = StopDone"
      using to_exit assms(3) t(3) from_exit stop_reach_inv stop_reach_trans by metis
    have "android_steps t (t\<lparr>as_engine := d\<rparr>)" by (rule engine_steps [OF d(1) True]) (use assms(2) t(2) in simp_all)
    with done_then_stopped [of "t\<lparr>as_engine := d\<rparr>"] True d(2) assms(2) t(2) show ?thesis
      by (auto intro: rtranclp_trans)
  next
    case False
    with place inv done_then_stopped [of t] assms(2) t(2) show ?thesis by (auto simp: android_inv_def)
  qed
  with t(1,2) show ?thesis by (metis rtranclp_trans)
qed

lemma no_step_after_crash: "as_reader s = ACrash \<Longrightarrow> \<not> android_step s t"
  by (auto elim: android_stepE)

lemma stays_crashed: "android_steps s t \<Longrightarrow> as_reader s = ACrash \<Longrightarrow> t = s"
  by (induction rule: rtranclp_induct) (auto dest: no_step_after_crash)

lemma doomed_engine_steps: "android_steps s t \<Longrightarrow> doomed (as_engine s) \<Longrightarrow> doomed (as_engine t)"
proof (induction rule: rtranclp_induct)
  case (step t u)
  from step(2) step.IH [OF step.prems] show ?case
    by (induction rule: android_step.induct) (auto intro: doomed_step)
qed

lemma stopped_not_doomed: "android_inv s \<Longrightarrow> as_stop s = BStopped \<Longrightarrow> \<not> lock_held (as_engine s)"
  by (auto simp: android_inv_def stop_inv_def)

section \<open>What the reader does\<close>

text \<open>After the channel is forgotten a reader that is in its round never leaves it by an exit.\<close>

definition in_round :: "android_pc \<Rightarrow> bool" where
  "in_round a \<longleftrightarrow> a \<notin> {AWait, AWaitCall, AWaitAsk, AExit}"

lemma round_step:
  assumes "android_step s t" and "as_stop s = BStopped" and "as_chan s = ChanNil" and "in_round (as_reader s)"
  shows "as_stop t = BStopped \<and> as_chan t = ChanNil \<and> in_round (as_reader t)"
  using assms(1) by (rule android_stepE) (use assms(2-4) in \<open>auto simp: in_round_def\<close>)

lemma round_steps:
  assumes "android_steps s t" and "as_stop s = BStopped" and "as_chan s = ChanNil" and "in_round (as_reader s)"
  shows "as_stop t = BStopped \<and> as_chan t = ChanNil \<and> in_round (as_reader t)"
  using assms by (induction rule: rtranclp_induct) (auto dest: round_step)

text \<open>A reader that is in its round when \<open>StopVPN\<close> has returned takes another step, unless it has crashed.\<close>

lemma round_goes_on:
  assumes "in_round (as_reader s)" and "as_reader s \<noteq> ACrash" and "as_stop s = BStopped" and "android_inv s"
  shows "\<exists>t. android_step s t \<and> as_reader t \<noteq> as_reader s"
proof -
  have v: "as_chan s = ChanNil" "as_device s = DeviceNil" "as_client s = ClientNil"
    using assms(3,4) by (simp_all add: android_inv_def)
  have c: "\<not> lock_held (as_engine s)" "\<not> still_connected s"
    using stopped_not_doomed [OF assms(4,3)] assms(3,4) by (simp_all add: android_inv_def still_connected_def)
  have go: "\<exists>t. android_step s t \<and> as_reader t \<noteq> as_reader s"
    if "android_step s (s\<lparr>as_reader := a\<rparr>)" "a \<noteq> as_reader s" for a
    using that by auto
  show ?thesis
    using assms(1,2) v c go [OF android_step.select_default] go [OF android_step.no_device]
      go [OF android_step.call_nil] go [OF android_step.read_nothing] go [OF android_step.wake]
      go [OF android_step.test_nil] go [OF android_step.send_nil] go [OF android_step.ask_down] go [OF android_step.sent]
    by (cases "as_reader s") (simp_all add: in_round_def)
qed

end
