(* ===== verification/DeviceProperties.thy ===== *)
theory DeviceProperties
  imports Devices AndroidReader
begin

text \<open>
  The properties of the devices and of the reader on Android: what StopVPN leaves behind there,
  what a refused descriptor does to the way down, and what a read that timed out does to the
  packets after it.
\<close>

section \<open>The reader on Android\<close>

text \<open>The client is found, and the reader begins its rounds.\<close>

lemma android_starts:
  "android_steps android_running (android_running\<lparr>as_reader := ASelect\<rparr>)"
proof -
  let ?at = "\<lambda>a. android_running\<lparr>as_reader := a\<rparr>"
  note d = android_running_def running_def still_connected_def
  have "android_step android_running (?at AWaitCall)" by (rule android_step.there) (simp_all add: d)
  moreover have "android_step (?at AWaitCall) (?at AWaitAsk)"
    using android_step.wait_call [of "?at AWaitCall"] by (simp add: d)
  moreover have "android_step (?at AWaitAsk) (?at ASelect)"
    using android_step.found [of "?at AWaitAsk"] by (simp add: d)
  ultimately show ?thesis by (meson converse_rtranclp_into_rtranclp rtranclp.rtrancl_refl)
qed

lemma android_stops_in:
  assumes "android_steps android_running s" and "as_reader s \<noteq> ACrash" and "as_engine s = running"
  shows "\<exists>t. android_steps android_running t \<and> as_stop t = BStopped \<and> as_reader t = as_reader s \<and> android_inv t"
proof -
  have inv: "android_inv s" by (rule android_steps_inv [OF assms(1) android_running_inv])
  have "\<not> doomed (as_engine s)" by (simp add: assms(3) doomed_def running_def)
  from stop_completes [OF inv assms(2) this] obtain t where t: "android_steps s t" "as_reader t = as_reader s"
    "as_stop t = BStopped" by blast
  with android_steps_inv [OF t(1) inv] rtranclp_trans [OF assms(1) t(1)] show ?thesis by blast
qed

lemma android_in_round: "\<exists>s. android_steps android_running s \<and> as_stop s = BStopped \<and> as_reader s = ASelect"
  using android_stops_in [OF android_starts] by (auto simp: android_running_def)

lemma android_can_crash: "\<exists>s. android_steps android_running s \<and> as_stop s = BStopped \<and> as_reader s = ACrash"
proof -
  let ?at = "\<lambda>a. android_running\<lparr>as_reader := a\<rparr>"
  have "android_step (?at ASelect) (?at ACheck)"
    using android_step.select_default [of "?at ASelect"] by (simp add: android_running_def)
  moreover have "android_step (?at ACheck) (?at ACall)"
    using android_step.device [of "?at ACheck"] by (simp add: android_running_def)
  ultimately have "android_steps android_running (?at ACall)"
    using android_starts by (meson rtranclp.rtrancl_into_rtrancl)
  from android_stops_in [OF this] obtain t where t: "android_steps android_running t" "as_stop t = BStopped"
    "as_reader t = ACall" "android_inv t" by (auto simp: android_running_def)
  then have "as_device t = DeviceNil" by (simp add: android_inv_def)
  with t(3) have "android_step t (t\<lparr>as_reader := ACrash\<rparr>)" by (rule android_step.call_nil)
  from rtranclp.rtrancl_into_rtrancl [OF t(1) this] t(2) show ?thesis by auto
qed

lemma android_can_be_doomed: "\<exists>s. android_steps android_running s \<and> doomed (as_engine s)"
proof -
  obtain t where t: "android_steps android_running t" "as_reader t = AWait" "as_engine t = running" "stop_rank (as_stop t) = 0"
    using comes_to_client [of android_running] by (auto simp: android_running_def)
  have "android_inv t" by (rule android_steps_inv [OF t(1) android_running_inv])
  then have place: "as_stop t = BStopClient"
    using t(3,4) by (cases "as_stop t") (auto simp: stop_rank_def android_inv_def running_def)
  obtain d where d: "stop_reach running d" "doomed d" using doomed_reachable by blast
  have "android_steps t (t\<lparr>as_engine := d\<rparr>)" by (rule engine_steps [OF d(1) place]) (use t in simp_all)
  from rtranclp_trans [OF t(1) this] d(2) show ?thesis by auto
qed

text \<open>C32: On Android StopVPN does not wait for the reader of the TUN device: from any state it can still return
  exactly when the process lives and \<open>Client.Stop\<close> has not come into its deadlock with the client's read loop, which it can. And the reader
  is not stopped by it: one that is in its round when StopVPN has returned goes round for ever or crashes the
  application, and both can happen to a running tunnel.\<close>

theorem android_reader_outlives_stopvpn:
  assumes "android_steps android_running s"
  shows "((\<exists>t. android_steps s t \<and> as_stop t = BStopped) \<longleftrightarrow>
      as_stop s = BStopped \<or> as_reader s \<noteq> ACrash \<and> \<not> doomed (as_engine s)) \<and>
    (as_stop s = BStopped \<and> in_round (as_reader s) \<longrightarrow>
      (\<forall>t. android_steps s t \<longrightarrow> as_reader t \<noteq> AExit \<and>
        (as_reader t = ACrash \<or> (\<exists>u. android_step t u \<and> as_reader u \<noteq> as_reader t)))) \<and>
    (\<exists>t. android_steps android_running t \<and> as_stop t = BStopped \<and> as_reader t = ASelect) \<and>
    (\<exists>t. android_steps android_running t \<and> as_stop t = BStopped \<and> as_reader t = ACrash) \<and>
    (\<exists>t. android_steps android_running t \<and> doomed (as_engine t))"
proof (intro conjI)
  have inv: "android_inv s" using android_steps_inv [OF assms android_running_inv] .
  have "as_stop s = BStopped \<or> as_reader s \<noteq> ACrash \<and> \<not> doomed (as_engine s)"
    if t: "android_steps s t" "as_stop t = BStopped" for t
  proof -
    have "\<not> doomed (as_engine t)"
      using stopped_not_doomed [OF android_steps_inv [OF t(1) inv] t(2)] by (simp add: doomed_def)
    then show ?thesis using doomed_engine_steps [OF t(1)] stays_crashed [OF t(1)] t(2) by auto
  qed
  then show "(\<exists>t. android_steps s t \<and> as_stop t = BStopped) \<longleftrightarrow>
      as_stop s = BStopped \<or> as_reader s \<noteq> ACrash \<and> \<not> doomed (as_engine s)"
    using stop_completes [OF inv] by blast
  have "as_reader t \<noteq> AExit \<and> (as_reader t = ACrash \<or> (\<exists>u. android_step t u \<and> as_reader u \<noteq> as_reader t))"
    if s: "as_stop s = BStopped" "in_round (as_reader s)" and t: "android_steps s t" for t
  proof -
    have "as_chan s = ChanNil" using inv s by (simp add: android_inv_def)
    then have r: "as_stop t = BStopped \<and> as_chan t = ChanNil \<and> in_round (as_reader t)"
      using round_steps [OF t s(1)] s(2) by blast
    with round_goes_on [OF _ _ _ android_steps_inv [OF t inv]] show ?thesis by (auto simp: in_round_def)
  qed
  then show "as_stop s = BStopped \<and> in_round (as_reader s) \<longrightarrow>
      (\<forall>t. android_steps s t \<longrightarrow> as_reader t \<noteq> AExit \<and>
        (as_reader t = ACrash \<or> (\<exists>u. android_step t u \<and> as_reader u \<noteq> as_reader t)))" by blast
qed (rule android_in_round android_can_crash android_can_be_doomed)+

theorem android_reader_outlives_stopvpn_witness:
  "\<exists>s. android_steps android_running s \<and> as_stop s = BStopped \<and> as_reader s = ASelect \<and>
    (\<forall>t. android_steps s t \<longrightarrow> as_reader t \<noteq> AExit)"
proof -
  from android_in_round obtain s where s: "android_steps android_running s" "as_stop s = BStopped"
    "as_reader s = ASelect" by blast
  with android_reader_outlives_stopvpn [OF s(1)] show ?thesis by (auto simp: in_round_def)
qed

section \<open>The way down on Android\<close>

text \<open>A descriptor that is refused leaves a device without one behind, and from then on every
  packet for the application is dropped without an error; before the call its callback was
  given each of them.\<close>

theorem refused_descriptor_silences_the_callback:
  assumes "fd < 0" and "\<not> v_tun v" and "v_callback v" and "set_descriptor fd v t = (r, v1, t1)"
  shows "r = ErrorReply \<and> to_application wrote data v t = (t, [data]) \<and>
    to_application wrote data v1 t1 = (t1, [])"
  using assms
  by (auto simp: set_descriptor_def SetFD_def SetTunFileDescriptor_def to_application_def
      Android_Write_def Android_NewTunDevice_def)

theorem refused_descriptor_silences_the_callback_witness:
  "\<exists>v1 t1. set_descriptor (- 1) (vpn_init\<lparr>v_callback := True\<rparr>) Android_NewTunDevice = (ErrorReply, v1, t1) \<and>
    to_application (Ok ()) [0x45] v1 t1 = (t1, [])"
proof -
  obtain r v1 t1 where s: "set_descriptor (- 1) (vpn_init\<lparr>v_callback := True\<rparr>) Android_NewTunDevice = (r, v1, t1)"
    by (metis surj_pair)
  from refused_descriptor_silences_the_callback [OF _ _ _ this, of "Ok ()" "[0x45]"] s show ?thesis
    by (simp add: vpn_init_def)
qed

section \<open>Reads that time out\<close>

fun read_times :: "nat \<Rightarrow> linux_queue \<Rightarrow> linux_queue" where
  "read_times 0 q = q"
| "read_times (Suc n) q = read_times n (snd (ReadWithTimeout [] q))"

lemma read_times_abandons:
  "lq_packets q = [] \<Longrightarrow> read_times n q = q\<lparr>lq_abandoned := lq_abandoned q + n\<rparr>"
  by (induction n arbitrary: q) (simp_all add: ReadWithTimeout_def Linux_Read_def)

text \<open>Each read that times out on Linux takes one later packet with it: after \<open>n\<close> of them the
  next \<open>n\<close> packets are read by goroutines nobody waits for, and the first packet a later read
  gives is the one behind them.\<close>

theorem timed_out_reads_lose_packets:
  assumes "lq_packets q = []" and "lq_abandoned q = 0" and "n < length ps"
  shows "ReadWithTimeout ps (read_times n q) = (take 1500 (ps ! n), q\<lparr>lq_packets := drop (Suc n) ps\<rparr>)"
proof -
  have "drop n ps = ps ! n # drop (Suc n) ps" using assms(3) by (rule Cons_nth_drop_Suc [symmetric])
  with assms show ?thesis
    by (simp add: ReadWithTimeout_def Linux_Read_def read_times_abandons packets_queued)
qed

theorem timed_out_reads_lose_packets_witness:
  "ReadWithTimeout [[1], [2], [3]] (read_times 2 \<lparr>lq_packets = [], lq_abandoned = 0\<rparr>) =
    ([3], \<lparr>lq_packets = [], lq_abandoned = 0\<rparr>)"
  using timed_out_reads_lose_packets [of "\<lparr>lq_packets = [], lq_abandoned = 0\<rparr>" 2 "[[1], [2], [3]]"] by simp

end
