(* ===== verification/HelloProperties.thy ===== *)
theory HelloProperties
  imports TunnelProperties
begin

text \<open>
  What the client reads of a TLS hello in a packet from the tunnel, \<open>extractSNI\<close> of
  \<open>internal/engine/client.go\<close>: the server name of a whole hello comes with three bytes of
  its entry, and a hello that is cut off crashes the client.
\<close>

section \<open>Hellos\<close>

text \<open>
  A hello as the parser walks through it: 43 bytes of record header, handshake header, version
  and random, the session id, the cipher suites, the compression methods, the length of the
  extensions, and extensions of a type and a body. The length of the extensions is a
  number of its own, since a cut hello claims more than it holds.
\<close>

definition ext_bytes :: "u16 \<times> bytes \<Rightarrow> bytes" where
  "ext_bytes x = be16 (fst x) @ be16 (of_nat (length (snd x))) @ snd x"

definition exts_bytes :: "(u16 \<times> bytes) list \<Rightarrow> bytes" where
  "exts_bytes xs = concat (map ext_bytes xs)"

definition hello_start :: "bytes \<Rightarrow> bytes \<Rightarrow> bytes \<Rightarrow> bytes \<Rightarrow> nat \<Rightarrow> bytes" where
  "hello_start pre sid suites methods n =
     pre @ [of_nat (length sid)] @ sid @ be16 (of_nat (length suites)) @ suites @
     [of_nat (length methods)] @ methods @ be16 (of_nat n)"

definition hello_ok :: "bytes \<Rightarrow> bytes \<Rightarrow> bytes \<Rightarrow> bytes \<Rightarrow> nat \<Rightarrow> bool" where
  "hello_ok pre sid suites methods n \<longleftrightarrow> length pre = 43 \<and> length sid < 256 \<and>
     length suites < 65536 \<and> length methods < 256 \<and> n < 65536"

definition ext_ok :: "u16 \<times> bytes \<Rightarrow> bool" where
  "ext_ok x \<longleftrightarrow> fst x \<noteq> 0 \<and> length (snd x) < 65536"

lemma unat_small [simp]:
  "n < 256 \<Longrightarrow> unat (of_nat n :: byte) = n" "n < 65536 \<Longrightarrow> unat (of_nat n :: u16) = n"
  by (simp_all add: unat_of_nat take_bit_nat_eq_self)

section \<open>Reading at a place\<close>

lemma index_here: "length a = n \<Longrightarrow> index (a @ x # b) n = Ok x"
  by (auto simp: index_def nth_append)

lemma u16_here: "length a = n \<Longrightarrow> u16_at (a @ be16 v @ b) n = Ok v"
  by (auto simp: u16_at_def slice_ok)

lemma slice_here: "length a = n \<Longrightarrow> n + length b = m \<Longrightarrow> slice (a @ b @ c) n m = Ok b"
  by (auto simp: slice_ok)

text \<open>What is in front of a cut is read as before.\<close>

lemma index_taken: "i < m \<Longrightarrow> i < length d \<Longrightarrow> index (take m d) i = index d i"
  by (simp add: index_def)

lemma u16_taken: "i + 2 \<le> m \<Longrightarrow> i + 2 \<le> length d \<Longrightarrow> u16_at (take m d) i = u16_at d i"
  by (auto simp: u16_at_def Prelude.slice_def drop_take min_def)

lemma hello_reads:
  assumes "hello_ok pre sid suites methods n"
  shows "index (hello_start pre sid suites methods n @ rest) 43 = Ok (of_nat (length sid))"
    and "u16_at (hello_start pre sid suites methods n @ rest) (44 + length sid) = Ok (of_nat (length suites))"
    and "index (hello_start pre sid suites methods n @ rest) (44 + length sid + (2 + length suites)) =
      Ok (of_nat (length methods))"
    and "u16_at (hello_start pre sid suites methods n @ rest)
      (44 + length sid + (2 + length suites) + (1 + length methods)) = Ok (of_nat n)"
    and "length (hello_start pre sid suites methods n) =
      44 + length sid + (2 + length suites) + (1 + length methods) + 2"
proof -
  let ?d = "hello_start pre sid suites methods n @ rest"
  note l = assms [unfolded hello_ok_def]
  show "index ?d 43 = Ok (of_nat (length sid))"
    using l index_here [of pre 43] by (simp add: hello_start_def)
  show "u16_at ?d (44 + length sid) = Ok (of_nat (length suites))"
    using l u16_here [of "pre @ of_nat (length sid) # sid" "44 + length sid"] by (simp add: hello_start_def)
  show "index ?d (44 + length sid + (2 + length suites)) = Ok (of_nat (length methods))"
    using l index_here [of "pre @ of_nat (length sid) # sid @ be16 (of_nat (length suites)) @ suites"
        "44 + length sid + (2 + length suites)"] by (simp add: hello_start_def)
  show "u16_at ?d (44 + length sid + (2 + length suites) + (1 + length methods)) = Ok (of_nat n)"
    using l u16_here [of "pre @ of_nat (length sid) # sid @ be16 (of_nat (length suites)) @ suites @
        of_nat (length methods) # methods" "44 + length sid + (2 + length suites) + (1 + length methods)"]
    by (simp add: hello_start_def)
  show "length (hello_start pre sid suites methods n) =
      44 + length sid + (2 + length suites) + (1 + length methods) + 2"
    using l by (simp add: hello_start_def)
qed

text \<open>The parser reaches the extensions.\<close>

lemma extractSNI_at_extensions:
  assumes "hello_ok pre sid suites methods n"
  shows "extractSNI (hello_start pre sid suites methods n @ rest) =
    sni_loop (hello_start pre sid suites methods n @ rest) (length (hello_start pre sid suites methods n))
      (length (hello_start pre sid suites methods n) + n)"
proof -
  note l = assms [unfolded hello_ok_def]
  show ?thesis
    using l hello_reads(1-4) [OF assms, of rest] hello_reads(5) [OF assms] by (simp add: extractSNI_def Let_def)
qed

text \<open>Cut before that it gives nothing.\<close>

lemma extractSNI_cut_early:
  assumes "hello_ok pre sid suites methods n" and "44 \<le> m" and "m < length (hello_start pre sid suites methods n)"
  shows "extractSNI (take m (hello_start pre sid suites methods n @ rest)) = Ok []"
proof -
  let ?d = "hello_start pre sid suites methods n @ rest" and ?s = "44 + length sid"
  note l = assms(1) [unfolded hello_ok_def]
  note r = hello_reads(1-4) [OF assms(1), of rest] hello_reads(5) [OF assms(1)]
  have len: "length (take m ?d) = m" using assms(3) by simp
  have r1: "index (take m ?d) 43 = Ok (of_nat (length sid))"
    using index_taken [of 43 m ?d] r(1,5) assms(2) by simp
  have r2: "u16_at (take m ?d) ?s = Ok (of_nat (length suites))" if "?s + 2 \<le> m"
    using u16_taken [OF that, of ?d] r(2,5) by simp
  have r3: "index (take m ?d) (?s + (2 + length suites)) = Ok (of_nat (length methods))" if "?s + (2 + length suites) + 1 \<le> m"
    using index_taken [of "?s + (2 + length suites)" m ?d] that r(3,5) by simp
  have "m < ?s + (2 + length suites) + (1 + length methods) + 2" using assms(3) r(5) by simp
  then show ?thesis
    using assms(2) len l r1 r2 r3 by (auto simp: extractSNI_def Let_def not_less simp del: take_append)
qed

text \<open>An extension of another type is passed over.\<close>

lemma sni_loop_skip:
  assumes "length a = off" and "ext_ok x" and "off + 4 \<le> lim"
  shows "sni_loop (a @ ext_bytes x @ b) off lim =
    sni_loop (a @ ext_bytes x @ b) (off + length (ext_bytes x)) lim"
proof -
  have r: "u16_at (a @ ext_bytes x @ b) off = Ok (fst x)"
    "u16_at (a @ ext_bytes x @ b) (off + 2) = Ok (of_nat (length (snd x)))"
    using u16_here [OF assms(1)] u16_here [of "a @ be16 (fst x)" "off + 2"] assms(1)
    by (simp_all add: ext_bytes_def)
  have "off + length (ext_bytes x) = off + 4 + length (snd x)" by (simp add: ext_bytes_def)
  then show ?thesis
    using assms by (subst sni_loop.simps) (simp add: r ext_ok_def Let_def add.assoc del: add_2_eq_Suc')
qed

lemma sni_loop_skips:
  assumes "length a = off" and "list_all ext_ok xs" and "off + length (exts_bytes xs) \<le> lim"
  shows "sni_loop (a @ exts_bytes xs @ b) off lim =
    sni_loop (a @ exts_bytes xs @ b) (off + length (exts_bytes xs)) lim"
  using assms
proof (induction xs arbitrary: a off)
  case (Cons x xs)
  have "off + 4 \<le> lim" using Cons.prems(3) by (simp add: exts_bytes_def ext_bytes_def)
  with Cons.prems have "sni_loop (a @ exts_bytes (x # xs) @ b) off lim =
      sni_loop (a @ exts_bytes (x # xs) @ b) (off + length (ext_bytes x)) lim"
    using sni_loop_skip [of a off x lim "exts_bytes xs @ b"] by (simp add: exts_bytes_def)
  with Cons.IH [of "a @ ext_bytes x" "off + length (ext_bytes x)"] Cons.prems show ?case
    by (simp add: exts_bytes_def add.assoc)
qed (simp add: exts_bytes_def)

lemma hello_at_rest:
  assumes "hello_ok pre sid suites methods n" and "list_all ext_ok xs" and "length (exts_bytes xs) \<le> n"
  shows "extractSNI (hello_start pre sid suites methods n @ exts_bytes xs @ rest) =
    sni_loop (hello_start pre sid suites methods n @ exts_bytes xs @ rest)
      (length (hello_start pre sid suites methods n @ exts_bytes xs))
      (length (hello_start pre sid suites methods n) + n)"
  using extractSNI_at_extensions [OF assms(1), of "exts_bytes xs @ rest"] assms(3)
    sni_loop_skips [OF refl assms(2), of "hello_start pre sid suites methods n" _ rest]
  by simp

section \<open>The server name\<close>

definition name_entry :: "bytes \<Rightarrow> bytes" where
  "name_entry name = 0 # be16 (of_nat (length name)) @ name"

definition server_name :: "bytes \<Rightarrow> u16 \<times> bytes" where
  "server_name name = (0, be16 (of_nat (length (name_entry name))) @ name_entry name)"

text \<open>The extension of the server name holds a list of one entry: the kind of the name, its length, the
  name. What is read of a hello is the whole list: the name with three bytes before it.\<close>

theorem server_name_is_read_with_its_entry:
  assumes "hello_ok pre sid suites methods n" and "list_all ext_ok xs" and "length name < 65528"
    and "length (exts_bytes (xs @ server_name name # ys)) \<le> n"
  shows "extractSNI (hello_start pre sid suites methods n @ exts_bytes (xs @ server_name name # ys)) =
    Ok (0 # be16 (of_nat (length name)) @ name)"
proof -
  let ?a = "hello_start pre sid suites methods n @ exts_bytes xs"
  let ?body = "name_entry name"
  let ?d = "?a @ be16 0 @ be16 (of_nat (length (snd (server_name name)))) @
    be16 (of_nat (length ?body)) @ ?body @ exts_bytes ys"
  have d: "hello_start pre sid suites methods n @ exts_bytes (xs @ server_name name # ys) = ?d"
    by (simp add: exts_bytes_def ext_bytes_def server_name_def)
  have l: "length ?body < 65536" using assms(3) by (simp add: name_entry_def)
  have r1: "u16_at ?d (length ?a) = Ok 0" by (rule u16_here) simp
  have r2: "u16_at ?d (length ?a + 2) = Ok (of_nat (length (snd (server_name name))))"
    using u16_here [of "?a @ be16 0" "length ?a + 2"] by simp
  have r3: "u16_at ?d (length ?a + 4) = Ok (of_nat (length ?body))"
    using u16_here [of "?a @ be16 0 @ be16 (of_nat (length (snd (server_name name))))" "length ?a + 4"] by simp
  have r4: "slice ?d (6 + length ?a) (6 + length ?a + length ?body) = Ok ?body"
    using slice_here [of "?a @ be16 0 @ be16 (of_nat (length (snd (server_name name)))) @ be16 (of_nat (length ?body))"
        "6 + length ?a" ?body] by simp
  have fit: "length ?a + 4 \<le> length (hello_start pre sid suites methods n) + n"
    "length ?a + 4 + 2 + length ?body \<le> length ?d"
    using assms(4) by (simp_all add: exts_bytes_def ext_bytes_def server_name_def)
  have "extractSNI ?d = sni_loop ?d (length ?a) (length (hello_start pre sid suites methods n) + n)"
    using hello_at_rest [OF assms(1,2), of "be16 0 @ be16 (of_nat (length (snd (server_name name)))) @
        be16 (of_nat (length ?body)) @ ?body @ exts_bytes ys"] assms(4) by (simp add: exts_bytes_def)
  also have "\<dots> = Ok ?body"
    using fit l by (subst sni_loop.simps) (simp add: r1 r2 r3 r4 Let_def del: add_2_eq_Suc' length_append append_assoc)
  finally show ?thesis unfolding d by (simp add: name_entry_def)
qed

section \<open>A hello that is cut off\<close>

text \<open>The loop asks for the four bytes of a header wherever the lengths say that one begins.\<close>

lemma sni_loop_cut:
  assumes "length a = off" and "list_all ext_ok xs" and "off + length (exts_bytes xs) \<le> lim"
  shows "sni_loop (take m (a @ exts_bytes xs)) off lim =
    (if off + length (exts_bytes xs) + 4 \<le> lim \<or> xs \<noteq> [] \<and> m < off + length (exts_bytes (butlast xs)) + 4
     then Panic else Ok [])"
  using assms
proof (induction xs arbitrary: a off)
  case Nil
  have "u16_at (take m a) off = Panic" using Nil(1) by (simp add: u16_at_def Prelude.slice_def)
  then show ?case by (subst sni_loop.simps) (simp add: exts_bytes_def)
next
  case (Cons x xs)
  let ?d = "a @ exts_bytes (x # xs)"
  have d: "?d = (a @ ext_bytes x) @ exts_bytes xs" by (simp add: exts_bytes_def)
  have fit: "off + 4 \<le> lim" "off + 4 \<le> length ?d" using Cons.prems by (simp_all add: exts_bytes_def ext_bytes_def)
  have r: "u16_at ?d off = Ok (fst x)" "u16_at ?d (off + 2) = Ok (of_nat (length (snd x)))"
    using u16_here [OF Cons.prems(1)] u16_here [of "a @ be16 (fst x)" "off + 2"] Cons.prems(1)
    by (simp_all add: exts_bytes_def ext_bytes_def)
  show ?case
  proof (cases "m < off + 4")
    case True
    have "u16_at (take m ?d) off = Panic \<or> u16_at (take m ?d) (off + 2) = Panic"
      using True by (auto simp: u16_at_def Prelude.slice_def)
    moreover have "u16_at (take m ?d) off = Panic \<or> (\<exists>v. u16_at (take m ?d) off = Ok v)"
      by (auto simp: u16_at_def Prelude.slice_def)
    ultimately have "sni_loop (take m ?d) off lim = Panic"
      using fit(1) by (subst sni_loop.simps) auto
    with True show ?thesis by simp
  next
    case False
    then have t: "u16_at (take m ?d) off = Ok (fst x)" "u16_at (take m ?d) (off + 2) = Ok (of_nat (length (snd x)))"
      using u16_taken [of off m ?d] u16_taken [of "off + 2" m ?d] fit(2) r by simp_all
    have l: "off + 4 + length (snd x) = off + length (ext_bytes x)" by (simp add: ext_bytes_def)
    have step: "sni_loop (take m ?d) off lim = sni_loop (take m ?d) (off + length (ext_bytes x)) lim"
      using Cons.prems(2) fit(1)
      by (subst sni_loop.simps) (simp add: t ext_ok_def Let_def l del: add_2_eq_Suc' take_append)
    have "sni_loop (take m ((a @ ext_bytes x) @ exts_bytes xs)) (off + length (ext_bytes x)) lim =
        (if off + length (ext_bytes x) + length (exts_bytes xs) + 4 \<le> lim \<or>
           xs \<noteq> [] \<and> m < off + length (ext_bytes x) + length (exts_bytes (butlast xs)) + 4 then Panic else Ok [])"
      by (rule Cons.IH) (use Cons.prems in \<open>simp_all add: exts_bytes_def\<close>)
    with step False show ?thesis unfolding d by (simp add: exts_bytes_def add.assoc)
  qed
qed

lemma receive_panics_with_the_domain:
  assumes "Session_Unwrap (cl_session c) d e = Some (Ok (Ok p, s, e1))" and "d \<noteq> []"
    and "cl_handshakeDone c" and "\<And>c1 e1. p \<noteq> [] \<Longrightarrow> follow_domain order p c1 e1 = (if short then Panic else Ok (c1, e1))"
    and "p = [] \<Longrightarrow> \<not> short"
  shows "receive order d c e = Some Panic \<longleftrightarrow> short"
  using assms by (cases "p = []") (simp_all add: receive_def processIncomingPacket_def Let_def)

text \<open>C37: Any packet of the tunnel can carry a hello, whoever sent it. Behind any sixteen bytes, which a session in
  VK mode takes for a header, let a hello come with extensions of which none is a server name, cut after any number of bytes.
  It makes the goroutine of the packet panic, and with it the client, exactly when the cut leaves the length of the
  extensions and either is before the end of the four bytes that head the last extension, or
  the hello claims at least four bytes of extensions more than it has. A cut within the body
  of the last extension, or before the extensions, does no harm.\<close>

theorem cut_hello_crashes_the_client:
  assumes "mask_mode (mx_currentMask (ss_RemoteMixer (cl_session c))) = ModeVK" and "cl_handshakeDone c"
    and "length h = 16" and "hello_ok (0x16 # pre) sid suites methods n" and "list_all ext_ok xs"
    and "length (exts_bytes xs) \<le> n" and "start = hello_start (0x16 # pre) sid suites methods n"
  shows "receive order (h @ take m (start @ exts_bytes xs)) c e = Some Panic \<longleftrightarrow>
    length start \<le> m \<and>
    (length (exts_bytes xs) + 4 \<le> n \<or> xs \<noteq> [] \<and> m < length start + length (exts_bytes (butlast xs)) + 4)"
    (is "_ \<longleftrightarrow> ?crash")
proof -
  let ?w = "start @ exts_bytes xs"
  let ?p = "take m ?w"
  have s: "44 \<le> length start" "start ! 0 = 0x16" using assms(4,7) by (simp_all add: hello_start_def hello_ok_def)
  have "follow_domain order ?p c1 e1 = (if ?crash then Panic else Ok (c1, e1))" if "?p \<noteq> []" for c1 e1
  proof (cases "43 < length ?p")
    case False
    then have "m < length start" using s(1) by (simp add: min_def split: if_splits)
    with False show ?thesis by (simp add: follow_domain_def)
  next
    case True
    have p0: "?p ! 0 = 0x16" using True s by (auto simp: nth_append)
    have "extractSNI ?p = (if ?crash then Panic else Ok [])"
    proof (cases "m < length start")
      case cut: True
      have "44 \<le> m" using True by simp
      with cut extractSNI_cut_early [OF assms(4), of m "exts_bytes xs"] assms(7) show ?thesis
        by (simp del: take_append)
    next
      case False
      then have "?p = start @ take (m - length start) (exts_bytes xs)" by simp
      with extractSNI_at_extensions [OF assms(4)] assms(7)
      have "extractSNI ?p = sni_loop ?p (length start) (length start + n)" by metis
      also have "\<dots> = (if ?crash then Panic else Ok [])"
        using sni_loop_cut [OF refl assms(5), of start "length start + n" m] assms(6) False by (simp add: add.assoc)
      finally show ?thesis .
    qed
    with True p0 show ?thesis by (simp add: follow_domain_def del: take_append)
  qed
  moreover obtain s1 e1 where "Session_Unwrap (cl_session c) (h @ ?p) e = Some (Ok (Ok ?p, s1, e1))"
    using vk_accepts_anything [OF assms(1), of "h @ ?p" e] assms(3) by (simp add: Session_Unwrap_def Let_def)
  moreover have "\<not> ?crash" if "?p = []" using that s(1) by auto
  moreover have "h @ ?p \<noteq> []" using assms(3) by auto
  ultimately show ?thesis
    using receive_panics_with_the_domain [of c "h @ ?p" e ?p s1 e1 order ?crash] assms(2) by blast
qed

text \<open>A hello with one extension of type 1 and of five bytes: cut in its header, and cut in its body.\<close>

lemma cut_hello_crashes_the_client_witness:
  "receive [] (replicate 16 0 @ take 51 (0x16 # replicate 42 0 @ [0, 0, 0, 0, 0, 9, 0, 1, 0, 5, 1, 2, 3, 4, 5])) client1 env0
     = Some Panic \<and>
   receive [] (replicate 16 0 @ take 55 (0x16 # replicate 42 0 @ [0, 0, 0, 0, 0, 9, 0, 1, 0, 5, 1, 2, 3, 4, 5])) client1 env0
     \<noteq> Some Panic"
proof -
  let ?start = "hello_start (0x16 # replicate 42 0) [] [] [] 9" and ?xs = "[(1, [1, 2, 3, 4, 5])] :: (u16 \<times> bytes) list"
  have w: "0x16 # replicate 42 0 @ [0, 0, 0, 0, 0, 9, 0, 1, 0, 5, 1, 2, 3, 4, 5] = ?start @ exts_bytes ?xs"
    by (simp add: hello_start_def exts_bytes_def ext_bytes_def be16_def)
  have c: "mask_mode (mx_currentMask (ss_RemoteMixer (cl_session client1))) = ModeVK" "cl_handshakeDone client1"
    by (simp_all add: client1_def session0_def)
  have h: "hello_ok (0x16 # replicate 42 0) [] [] [] 9" "list_all ext_ok ?xs" "length (exts_bytes ?xs) \<le> 9"
    by (simp_all add: hello_ok_def ext_ok_def exts_bytes_def ext_bytes_def)
  have l: "length ?start = 49" "length (exts_bytes ?xs) = 9" "exts_bytes (butlast ?xs) = []"
    by (simp_all add: hello_start_def exts_bytes_def ext_bytes_def)
  note crash = cut_hello_crashes_the_client [OF c _ h refl, of "replicate 16 0" "[]" _ env0, unfolded l]
  from crash [of 51] crash [of 55] show ?thesis unfolding w by simp
qed

end
