(* ===== verification/CopyProperties.thy ===== *)
theory CopyProperties
  imports TunnelProperties
begin

text \<open>
  The copies of a handshake. Each end writes its message three times and reads one, so that two copies
  of the SYN are read by \<open>handleDataExchange\<close> of the server as packets of the tunnel, and two of the
  ACK by \<open>readLoop\<close> of the client.
\<close>

lemma receive_drops:
  assumes "Session_Unwrap (cl_session c) a e = Some (Ok (Ok p, r, e1))" and "a \<noteq> []" and "cl_handshakeDone c"
    and "p ! 0 = 0" and "20 \<le> length p" and "\<not> is_ip p"
  shows "receive order a c e = Some (Ok (c\<lparr>cl_packetsRecv := cl_packetsRecv c + 1,
    cl_bytesRecv := cl_bytesRecv c + of_nat (length a), cl_session := r\<rparr>, e1))"
  using assms by (auto simp: receive_def processIncomingPacket_def follow_domain_def Let_def)

text \<open>C36: The copies do no harm to a tunnel in VK mode, the first mode of every default. The server unwraps a
  copy of the SYN, of any message that is no FIN, to something that is no IP packet, and drops
  it; the client drops a copy of the ACK; and both ends stay as they were for the packets that follow.\<close>

theorem handshake_copies_are_dropped:
  assumes "tunnel_up ModeVK c k sv" and "cl_handshakeDone c" and "params_ok interval modes cur"
    and "small_modes modes cur" and "NewHandshake typ interval modes cur seq e = (h, e1)" and "typ \<noteq> HandshakeFin"
  shows "(\<exists>sv1 es1. handle_packet k (Encode h @ Sign hm (Encode h)) sv es = Some (Ok (sv1, es1)) \<and>
      sv_tun sv1 = sv_tun sv \<and> tunnel_up ModeVK c k sv1) \<and>
    (\<exists>c1. receive order (Encode h @ Sign hm (Encode h)) c ec = Some (Ok (c1, ec)) \<and>
      cl_delivered c1 = cl_delivered c \<and> tunnel_up ModeVK c1 k sv)"
proof
  let ?a = "Encode h @ Sign hm (Encode h)"
  note behind = Encode_behind_sixteen [OF assms(3,5,4), of "Sign hm (Encode h)"]
  have len: "52 \<le> length ?a" "?a \<noteq> []" "drop 16 ?a \<noteq> []" using behind by auto
  have noip: "\<not> is_ip (drop 16 ?a)" using behind behind_sixteen_is_no_ip by blast
  have "h_Magic h = [0xDE, 0xAD, 0xBE, 0xEF]"
    using assms(5) by (auto simp: NewHandshake_def case_prod_beta Let_def)
  then have "?a ! 4 = typ" using NewHandshake_props(4) [OF assms(3,5)] by (simp add: Encode_def encode_head_def)
  with assms(6) have fin: "\<not> is_fin ?a" by (simp add: is_fin_def)
  have u: "\<exists>r1. Session_Unwrap r ?a e2 = Some (Ok (Ok (drop 16 ?a), r1, e2)) \<and> in_step ModeVK r1"
    if "in_step ModeVK r" for r e2
    using that vk_accepts_anything [of "ss_RemoteMixer r" ?a e2] len(1)
    by (simp add: Session_Unwrap_def Let_def in_step_def)
  have k: "k < length (sv_objects sv)" "in_step ModeVK (sc_Session (sv_objects sv ! k))"
    using assms(1) by (simp_all add: tunnel_up_def)
  from handle_packet_unwraps [OF k(1) len(2) fin k(2) u, of es] obtain sv1 es1 where
    sv1: "handle_packet k ?a sv es = Some (Ok (sv1, es1))" "in_step ModeVK (sc_Session (sv_objects sv1 ! k))"
      "length (sv_objects sv1) = length (sv_objects sv)" and
    "sv_tun sv1 = map_option (\<lambda>out. if is_ip (drop 16 ?a) then out @ [drop 16 ?a] else out) (sv_tun sv)" by blast
  with noip have "sv_tun sv1 = sv_tun sv" by (simp only: if_False option.map_ident)
  with sv1 assms(1) show "\<exists>sv1 es1. handle_packet k ?a sv es = Some (Ok (sv1, es1)) \<and>
      sv_tun sv1 = sv_tun sv \<and> tunnel_up ModeVK c k sv1" by (auto simp: tunnel_up_def)
  have "in_step ModeVK (cl_session c)" using assms(1) by (simp add: tunnel_up_def)
  from u [OF this, of ec] obtain r1 where r: "Session_Unwrap (cl_session c) ?a ec = Some (Ok (Ok (drop 16 ?a), r1, ec))"
    "in_step ModeVK r1" by blast
  have "20 \<le> length (drop 16 ?a)" using behind by (auto simp del: drop_append)
  from receive_drops [OF r(1) len(2) assms(2) _ this noip, of order] behind
  show "\<exists>c1. receive order ?a c ec = Some (Ok (c1, ec)) \<and> cl_delivered c1 = cl_delivered c \<and> tunnel_up ModeVK c1 k sv"
    using assms(1) r(2) by (auto simp: tunnel_up_def simp del: drop_append)
qed

lemma handshake_copies_are_dropped_witness:
  "\<exists>h e1 sv1 es1. NewHandshake HandshakeSyn (300 * second) [ModeVK, ModeOzon] ModeVK 5 env0 = (h, e1) \<and>
     handle_packet 0 (Encode h @ Sign manager0 (Encode h)) server1 env0 = Some (Ok (sv1, es1)) \<and> sv_tun sv1 = Some []"
proof -
  obtain h e1 where h: "NewHandshake HandshakeSyn (300 * second) [ModeVK, ModeOzon] ModeVK 5 env0 = (h, e1)"
    by (metis surj_pair)
  have "small_modes [ModeVK, ModeOzon] ModeVK" by (simp add: small_modes_def)
  with handshake_copies_are_dropped [OF client1_up _ params0 _ h, of manager0 env0 NewMaskSelector env0] h
  show ?thesis by (auto simp: client1_def)
qed

section \<open>RuTube before VK\<close>















end
