(* ===== verification/AcceptProperties.thy ===== *)
theory AcceptProperties
  imports TransportProperties TunnelProperties
begin

text \<open>
  Who accepts. The inbound side starts a loop of its own that accepts from the listener and
  answers what its cipher opens, and the server accepts from the same listener. What becomes of a client
  depends on which of the two its connection goes to.
\<close>

definition unanswered :: hs_conn where
  "unanswered = \<lparr>hc_read_deadline = None, hc_write_deadline = None, hc_read = Fail OtherError\<rparr>"

text \<open>What a client writes to start does not depend on what it reads; without an answer it is not
  connected.\<close>

lemma Start_unanswered:
  assumes "Start (Ok ()) conn c e = Ok (Ok (), a, c1, e1)" and "hc_read_deadline conn = None" and "\<not> cl_connected c"
  shows "\<exists>c2 e2. Start (Ok ()) unanswered c e = Ok (Fail OtherError, a, c2, e2) \<and> \<not> cl_connected c2"
proof -
  let ?c = "c\<lparr>cl_conn := True, cl_handshakeMgr := ResetReplayState (cl_handshakeMgr c)\<rparr>"
  from assms(1,3) obtain r sent c2 e3 where p: "performHandshake conn ?c e = Ok (r, sent, c2, e3)"
    and r: "(case r of Ok _ \<Rightarrow> Ok (Ok (), sent, c2\<lparr>cl_connected := True, cl_handshakeDone := True\<rparr>, e3)
      | _ \<Rightarrow> Ok (r, sent, c2\<lparr>cl_write_error := Some NetClosed\<rparr>, e3)) = Ok (Ok (), a, c1, e1)"
    by (auto simp: Start_def Let_def bindR_eq_Ok)
  then have "performHandshake conn ?c e = Ok (Ok (), a, c2, e1)" by (cases r) auto
  then have "\<exists>e2. performHandshake unanswered ?c e = Ok (Fail OtherError, a, ?c, e2)"
    using assms(2)
    by (auto simp: performHandshake_def PerformClientHandshake_def unanswered_def conn_Read_def Let_def case_prod_beta
        bindR_eq_Ok split: result.splits)
  with assms(3) show ?thesis by (auto simp: Start_def Let_def)
qed

text \<open>C8: A connection to the server command over KCP or TCP is taken by the server or by the loop of the inbound side,
  whichever accepts first. A client that the server takes is connected. A client that the other loop takes
  has written the same three packets, and is answered only what the cipher of the inbound side opens
  among them; a client that is answered nothing does not connect.\<close>

theorem who_accepts_decides:
  assumes "NewClient cfg e0 = Ok (Some c, e1)" and "tunnel_ok cfg"
    and "hm_authKey (sv_handshake sv) = cc_AuthKey cfg"
    and "map_of (s_LastSeen (hm_state (sv_handshake sv))) (unixnano64 (now (clk e)) XOR ss_ID (cl_session c)) = None"
  shows "\<exists>a b c1 e2 k sv1 e3. Start (Ok ()) (direct b) c e = Ok (Ok (), replicate 3 a, c1, e2) \<and>
    handleConnection (direct a) sv es = Ok (Some k, replicate 3 b, sv1, e3) \<and> cl_connected c1 \<and>
    (\<exists>cts n1 e4. inbound_loop ci (map InData (replicate 3 a)) n ei [] = Ok (cts, n1, e4) \<and>
      map (Aead_Decrypt ci) cts = map Ok (answered ci (map InData (replicate 3 a)))) \<and>
    (\<exists>c2 e5. Start (Ok ()) unanswered c e = Ok (Fail OtherError, replicate 3 a, c2, e5) \<and> \<not> cl_connected c2)"
proof -
  from tunnel_opens [OF assms, of es] obtain a b c1 e2 sv1 e3 where
    o: "Start (Ok ()) (direct b) c e = Ok (Ok (), replicate 3 a, c1, e2)"
    "handleConnection (direct a) sv es = Ok (Some (length (sv_objects sv)), replicate 3 b, sv1, e3)"
    "cl_connected c1" by blast
  have "\<not> cl_connected c" using NewClient_props(6) [OF assms(1)] assms(2) by (simp add: tunnel_ok_def)
  from Start_unanswered [OF o(1) _ this] have
    s: "\<exists>c2 e4. Start (Ok ()) unanswered c e = Ok (Fail OtherError, replicate 3 a, c2, e4) \<and> \<not> cl_connected c2"
    by (simp add: direct_def)
  have "\<exists>cts n1 e4. inbound_loop ci (map InData (replicate 3 a)) n ei [] = Ok (cts, n1, e4) \<and>
      map (Aead_Decrypt ci) cts = map Ok (answered ci (map InData (replicate 3 a)))"
    using inbound_loop_answers [of ci "map InData (replicate 3 a)" n ei "[]"] by (simp only: append_Nil)
  with o s show ?thesis by blast
qed

lemma who_accepts_decides_witness:
  "\<exists>c e0 a b c1 e2 k sv1 e3 c2 e4. NewClient cfg0 env0 = Ok (Some c, e0) \<and>
    Start (Ok ()) (direct b) c env0 = Ok (Ok (), replicate 3 a, c1, e2) \<and>
    handleConnection (direct a) server0 env0 = Ok (Some k, replicate 3 b, sv1, e3) \<and>
    Start (Ok ()) unanswered c env0 = Ok (Fail OtherError, replicate 3 a, c2, e4)"
proof -
  obtain c e0 where c: "NewClient cfg0 env0 = Ok (Some c, e0)"
    using NewClient_total [of cfg0 env0] by (auto simp: cfg0_def key0_def)
  have k: "hm_authKey (sv_handshake server0) = cc_AuthKey cfg0" by (simp add: server0_def cfg0_def)
  have f: "map_of (s_LastSeen (hm_state (sv_handshake server0))) x = None" for x by (simp add: server0_def)
  from who_accepts_decides [OF c cfg0_ok k f, where e = env0 and es = env0 and ci = "\<lparr>aead = key0, ac_nonce = []\<rparr>" and n = 0 and ei = env0] obtain a b c1 e2 k sv1 e3 c2 e5 where
    "Start (Ok ()) (direct b) c env0 = Ok (Ok (), replicate 3 a, c1, e2)"
    "handleConnection (direct a) server0 env0 = Ok (Some k, replicate 3 b, sv1, e3)"
    "Start (Ok ()) unanswered c env0 = Ok (Fail OtherError, replicate 3 a, c2, e5)"
    by (elim exE conjE) (rule that)
  with c show ?thesis by (intro exI conjI)
qed

end
