(* ===== verification/ConfusionProperties.thy ===== *)
theory ConfusionProperties
  imports TunnelProperties
begin

text \<open>
  What \<open>Unwrap\<close> of the mixer does with a packet that its current mask refuses: it tries the masks of
  all its modes, and stays in the first mode whose mask takes the packet. The WebRTC mask takes nearly everything.
\<close>

section \<open>Packets too short\<close>

text \<open>Modes whose masks refuse what is shorter than sixteen bytes.\<close>

definition wants_sixteen :: "ProtocolMode set" where
  "wants_sixteen = {ModeVK, ModeRuTube, ModeYandex, ModeOzon, ModeWildberries, ModeSberID, ModeGosuslugi,
     ModeTeams, ModeWinUpdate, ModeZoom}"

lemma short_is_refused:
  "mask_mode mk \<in> wants_sixteen \<Longrightarrow> length d < 16 \<Longrightarrow> Masker_Unwrap mk d e = Some (Fail ErrInvalidPacket)"
  by (cases mk)
    (simp_all add: wants_sixteen_def stateless_def VK_Unwrap_def RuTube_Unwrap_def Yandex_Unwrap_def Ozon_Unwrap_def
      Wildberries_Unwrap_def SberID_Unwrap_def Gosuslugi_Unwrap_def Teams_Unwrap_def WinUpdate_Unwrap_def
      Zoom_Unwrap_def Let_def)

lemma try_modes_short:
  assumes "set ms \<subseteq> wants_sixteen" and "length d < 16"
  shows "\<exists>e1. try_modes (ms @ rest) d e = try_modes rest d e1"
  using assms(1)
proof (induction ms arbitrary: e)
  case (Cons m ms)
  obtain mk e1 where mk: "CreateMask m e = Ok (mk, e1)" "mask_mode mk = served m" using CreateMask_ok by blast
  have "served m = m" using Cons.prems by (auto simp: served_def wants_sixteen_def)
  with Cons.prems mk have "Masker_Unwrap mk d e1 = Some (Fail ErrInvalidPacket)"
    using short_is_refused assms(2) by simp
  with Cons mk show ?case by simp
qed auto

text \<open>A packet in which the WebRTC mask recognises none of its own.\<close>

definition no_rtc :: "bytes \<Rightarrow> bool" where
  "no_rtc d \<longleftrightarrow> d ! 1 AND 0x7F \<noteq> 111 \<and> d ! 0 \<notin> {22, 0x14} \<and> de32 (take 4 (drop 4 d)) \<noteq> 0x2112A442 \<and>
     \<not> (d ! 20 = of_char (CHR ''I'') \<and> d ! 21 = of_char (CHR ''C'') \<and> d ! 22 = of_char (CHR ''E''))"

lemma WebRTC_takes_short:
  "12 \<le> length d \<Longrightarrow> length d < 16 \<Longrightarrow> d ! 1 AND 0x7F \<noteq> 111 \<Longrightarrow> WebRTC_Unwrap d = Ok (drop 12 d)"
  by (simp add: WebRTC_Unwrap_def go_simps)

lemma WebRTC_takes_plain: "12 \<le> length d \<Longrightarrow> no_rtc d \<Longrightarrow> WebRTC_Unwrap d = Ok (drop 12 d)"
  by (auto simp: WebRTC_Unwrap_def no_rtc_def go_simps Let_def)

section \<open>Sessions\<close>

definition vk_then_rtc :: "Session \<Rightarrow> bool" where
  "vk_then_rtc s \<longleftrightarrow> mask_mode (mx_currentMask (ss_RemoteMixer s)) = ModeVK \<and>
     (\<exists>ms ms'. mx_modes (ss_RemoteMixer s) = ms @ ModeWebRTC # ms' \<and> set ms \<subseteq> wants_sixteen)"

definition rtc_end :: "Session \<Rightarrow> bool" where
  "rtc_end s \<longleftrightarrow> mask_mode (mx_currentMask (ss_RemoteMixer s)) = ModeWebRTC"

text \<open>A session of the default modes is such a session once its modes are set.\<close>

lemma default_modes_confusable:
  assumes "SyncModes s e = Ok (s1, e1)" and "Modes (ss_MaskConfig s) = cc_Modes (fst (DefaultClientConfig e0))"
  shows "vk_then_rtc s1"
proof -
  let ?seven = "[ModeVK, ModeRuTube, ModeYandex, ModeOzon, ModeWildberries, ModeSberID, ModeGosuslugi]"
  let ?ms = "?seven @ ModeWebRTC # [ModeQUIC, ModeTLS]"
  have ms: "Modes (ss_MaskConfig s) = ?ms" using assms(2) by (simp add: DefaultClientConfig_def case_prod_beta)
  obtain l e2 r e3 where r: "Mixer.SetModes ?ms (ss_LocalMixer s) e = Ok (l, e2)"
    "Mixer.SetModes ?ms (ss_RemoteMixer s) e2 = Ok (r, e3)"
    "ss_RemoteMixer s1 = SetSwitchInterval (SwitchInterval (ss_MaskConfig s)) r"
    using assms(1) by (auto simp: SyncModes_def Let_def bindR_eq_Ok ms)
  have "hd ?ms \<in> plain_modes" by (simp add: plain_modes_def codec_modes_def)
  with SetModes_to [of ?ms "ss_RemoteMixer s" e2] r(2) have "mx_modes r = ?ms" "mask_mode (mx_currentMask r) = ModeVK"
    by auto
  moreover have "set ?seven \<subseteq> wants_sixteen" by (simp add: wants_sixteen_def)
  ultimately show ?thesis
    using r(3) unfolding vk_then_rtc_def by (intro conjI exI [of _ ?seven] exI [of _ "[ModeQUIC, ModeTLS]"])
      (simp_all add: SetSwitchInterval_def)
qed

lemma timeless_ends: "timeless vk_then_rtc" "timeless rtc_end"
  by (simp_all add: timeless_def vk_then_rtc_def rtc_end_def)

lemma vk_end_unwraps:
  assumes "vk_then_rtc s" and "16 \<le> length d"
  shows "\<exists>s1. Session_Unwrap s d e = Some (Ok (Ok (drop 16 d), s1, e)) \<and> vk_then_rtc s1"
  using assms vk_accepts_anything [of "ss_RemoteMixer s" d e] by (simp add: Session_Unwrap_def Let_def vk_then_rtc_def)

lemma vk_end_confused:
  assumes "vk_then_rtc s" and "12 \<le> length d" and "length d < 16" and "d ! 1 AND 0x7F \<noteq> 111"
  shows "\<exists>s1 e1. Session_Unwrap s d e = Some (Ok (Ok (drop 12 d), s1, e1)) \<and> rtc_end s1"
proof -
  let ?r = "ss_RemoteMixer s"
  obtain ms ms' where m: "mx_modes ?r = ms @ ModeWebRTC # ms'" "set ms \<subseteq> wants_sixteen"
    and vk: "mask_mode (mx_currentMask ?r) = ModeVK" using assms(1) by (auto simp: vk_then_rtc_def)
  from try_modes_short [OF m(2) assms(3), of "ModeWebRTC # ms'" e] obtain e1 where
    t: "try_modes (mx_modes ?r) d e = try_modes (ModeWebRTC # ms') d e1" using m(1) by auto
  have refused: "Masker_Unwrap (mx_currentMask ?r) d e = Some (Fail ErrInvalidPacket)"
    using short_is_refused [OF _ assms(3)] vk by (simp add: wants_sixteen_def)
  show ?thesis
    using refused t WebRTC_takes_short [OF assms(2-4)]
    by (simp add: Session_Unwrap_def Mixer_Unwrap_def CreateMask_def made_def stateless_def Let_def rtc_end_def)
qed

lemma rtc_end_unwraps:
  assumes "rtc_end s" and "12 \<le> length d" and "no_rtc d"
  shows "\<exists>s1. Session_Unwrap s d e = Some (Ok (Ok (drop 12 d), s1, e)) \<and> rtc_end s1"
proof -
  obtain w where "mx_currentMask (ss_RemoteMixer s) = MWebRTC w"
    using assms(1) by (cases "mx_currentMask (ss_RemoteMixer s)") (simp_all add: rtc_end_def)
  with WebRTC_takes_plain [OF assms(2,3)] show ?thesis
    by (simp add: Session_Unwrap_def Mixer_Unwrap_def stateless_def Let_def rtc_end_def)
qed

section \<open>Packets one after the other\<close>

fun handle_all :: "nat \<Rightarrow> bytes list \<Rightarrow> Server \<Rightarrow> env \<Rightarrow> (Server \<times> env) result option" where
  "handle_all k [] sv e = Some (Ok (sv, e))"
| "handle_all k (d # ds) sv e = bindO (handle_packet k d sv e) (\<lambda>(sv1, e1). handle_all k ds sv1 e1)"

text \<open>What the VK mask makes of a payload: twelve bytes of its own, the length, the payload.\<close>

definition vk_packet :: "bytes \<times> bytes \<Rightarrow> bytes" where
  "vk_packet hp = fst hp @ be32 (of_nat (length (snd hp))) @ snd hp"

lemma VK_Wrap_packet:
  assumes "length (vk_magicBytes v) = 4"
  shows "\<exists>h v1. length h = 12 \<and> VK_Wrap v p = Ok (vk_packet (h, p), v1)"
proof -
  let ?h = "vk_magicBytes v @ be32 (vk_streamID v) @ be32 (vk_packetNum v)"
  have "\<exists>v1. VK_Wrap v p = Ok (vk_packet (?h, p), v1)"
    using assms by (simp add: VK_Wrap_def vk_packet_def buf_simps write_at_def splice_def make_buf_def)
  then show ?thesis using assms by (intro exI [of _ ?h]) simp
qed

definition tunnel_packet :: "bytes \<times> bytes \<Rightarrow> bool" where
  "tunnel_packet hp \<longleftrightarrow> length (fst hp) = 12 \<and> is_ip (snd hp) \<and> length (snd hp) < 16777216 \<and>
     \<not> is_fin (vk_packet hp) \<and> no_rtc (vk_packet hp)"

lemma vk_packet_cuts:
  assumes "tunnel_packet hp"
  shows "drop 16 (vk_packet hp) = snd hp" and "\<not> is_ip (drop 12 (vk_packet hp))" and "16 \<le> length (vk_packet hp)"
proof -
  have l: "length (fst hp) = 12" "length (snd hp) < 16777216" using assms by (simp_all add: tunnel_packet_def)
  have "drop_bit 24 (of_nat (length (snd hp)) :: u32) = 0"
  proof -
    have m: "take_bit 24 (length (snd hp)) = length (snd hp)" using l(2) by (simp add: take_bit_nat_eq_self)
    have "\<not> bit (length (snd hp)) (24 + n)" for n
      using arg_cong [OF m, of "\<lambda>k. bit k (24 + n)"] by (simp add: bit_take_bit_iff)
    then show ?thesis by (intro bit_word_eqI) (simp add: bit_simps)
  qed
  then have "drop 12 (vk_packet hp) ! 0 = 0" using l(1) by (simp add: vk_packet_def be32_def)
  then show "\<not> is_ip (drop 12 (vk_packet hp))" by (simp add: is_ip_def ip_version_def)
  show "drop 16 (vk_packet hp) = snd hp" "16 \<le> length (vk_packet hp)" using l(1) by (simp_all add: vk_packet_def)
qed

lemma handle_all_vk:
  assumes "k < length (sv_objects sv)" and "vk_then_rtc (sc_Session (sv_objects sv ! k))"
    and "sv_tun sv = Some out" and "list_all tunnel_packet hps"
  shows "\<exists>sv1 e1. handle_all k (map vk_packet hps) sv e = Some (Ok (sv1, e1)) \<and>
    sv_tun sv1 = Some (out @ map snd hps)"
  using assms
proof (induction hps arbitrary: sv e out)
  case (Cons hp hps)
  from Cons.prems(4) have hp: "tunnel_packet hp" by simp
  note cut = vk_packet_cuts [OF hp]
  have "vk_packet hp \<noteq> []" "\<not> is_fin (vk_packet hp)" "is_ip (snd hp)"
    using cut(3) hp by (auto simp: tunnel_packet_def)
  from handle_packet_session [OF Cons.prems(1) this(1,2) timeless_ends(1) Cons.prems(2), where Q = vk_then_rtc
      and p = "snd hp" and e = e] vk_end_unwraps cut this(3) Cons.prems(3) obtain sv1 e1 where
    s: "handle_packet k (vk_packet hp) sv e = Some (Ok (sv1, e1))" "sv_tun sv1 = Some (out @ [snd hp])"
      "vk_then_rtc (sc_Session (sv_objects sv1 ! k))" "length (sv_objects sv1) = length (sv_objects sv)"
    by force
  from Cons.IH [OF _ s(3,2), of e1] s Cons.prems(1,4) show ?case by simp
qed simp

lemma handle_all_rtc:
  assumes "k < length (sv_objects sv)" and "rtc_end (sc_Session (sv_objects sv ! k))"
    and "sv_tun sv = Some out" and "list_all tunnel_packet hps"
  shows "\<exists>sv1 e1. handle_all k (map vk_packet hps) sv e = Some (Ok (sv1, e1)) \<and> sv_tun sv1 = Some out"
  using assms
proof (induction hps arbitrary: sv e)
  case (Cons hp hps)
  from Cons.prems(4) have hp: "tunnel_packet hp" by simp
  note cut = vk_packet_cuts [OF hp]
  have "vk_packet hp \<noteq> []" "\<not> is_fin (vk_packet hp)" "no_rtc (vk_packet hp)" "12 \<le> length (vk_packet hp)"
    using cut(3) hp by (auto simp: tunnel_packet_def)
  from handle_packet_session [OF Cons.prems(1) this(1,2) timeless_ends(2) Cons.prems(2), where Q = rtc_end
      and p = "drop 12 (vk_packet hp)" and e = e] rtc_end_unwraps this(3,4) cut(2) Cons.prems(3) obtain sv1 e1 where
    s: "handle_packet k (vk_packet hp) sv e = Some (Ok (sv1, e1))" "sv_tun sv1 = Some out"
      "rtc_end (sc_Session (sv_objects sv1 ! k))" "length (sv_objects sv1) = length (sv_objects sv)"
    by force
  from Cons.IH [OF _ s(3,2), of e1] s Cons.prems(1,4) show ?case by simp
qed simp

text \<open>One packet of twelve to fifteen bytes, which anyone can send and which need hold nothing, moves a
  tunnel in VK mode that also knows the WebRTC mode, as those with the default modes do, into the WebRTC mode for good. Before it,
  the packets of the client come out of the TUN device; after it, none whose random header the WebRTC mask takes for a plain
  one of twelve bytes, as the server takes those bytes off instead of sixteen. Of the others, which the
  predicate \<open>no_rtc\<close> leaves out, one can still come through: a header with payload type 111 and the extension bit may be cut at sixteen.\<close>

theorem one_short_packet_ends_the_way_up:
  assumes "k < length (sv_objects sv)" and "vk_then_rtc (sc_Session (sv_objects sv ! k))"
    and "sv_tun sv = Some out" and "list_all tunnel_packet hps"
    and "12 \<le> length d" and "length d < 16" and "d ! 1 AND 0x7F \<noteq> 111" and "\<not> is_fin d"
  shows "(\<exists>sv1 e1. handle_all k (map vk_packet hps) sv e = Some (Ok (sv1, e1)) \<and> sv_tun sv1 = Some (out @ map snd hps)) \<and>
    (\<exists>sv1 e1. handle_all k (d # map vk_packet hps) sv e = Some (Ok (sv1, e1)) \<and> sv_tun sv1 = Some out)"
proof
  show "\<exists>sv1 e1. handle_all k (map vk_packet hps) sv e = Some (Ok (sv1, e1)) \<and> sv_tun sv1 = Some (out @ map snd hps)"
    using handle_all_vk [OF assms(1-4)] .
  have "d \<noteq> []" "\<not> is_ip (drop 12 d)" using assms(5,6) by (auto simp: is_ip_def)
  from handle_packet_session [OF assms(1) this(1) assms(8) timeless_ends(1) assms(2), where Q = rtc_end
      and p = "drop 12 d" and e = e] vk_end_confused [OF _ assms(5-7)] this(2) assms(3) obtain sv1 e1 where
    s: "handle_packet k d sv e = Some (Ok (sv1, e1))" "sv_tun sv1 = Some out"
      "rtc_end (sc_Session (sv_objects sv1 ! k))" "length (sv_objects sv1) = length (sv_objects sv)"
    by force
  from handle_all_rtc [OF _ s(3,2) assms(4), of e1] s assms(1)
  show "\<exists>sv1 e1. handle_all k (d # map vk_packet hps) sv e = Some (Ok (sv1, e1)) \<and> sv_tun sv1 = Some out" by simp
qed

definition default_server :: Server where
  "default_server = server1\<lparr>sv_objects := [conn0\<lparr>sc_Session := session0\<lparr>ss_RemoteMixer :=
     vk_mixer\<lparr>mx_modes := [ModeVK, ModeOzon, ModeWebRTC]\<rparr>\<rparr>\<rparr>]\<rparr>"

lemma one_short_packet_ends_the_way_up_witness:
  "(\<exists>sv1 e1. handle_all 0 [vk_packet (replicate 12 7, ip0)] default_server env0 = Some (Ok (sv1, e1)) \<and>
      sv_tun sv1 = Some [ip0]) \<and>
    (\<exists>sv1 e1. handle_all 0 [replicate 12 0, vk_packet (replicate 12 7, ip0)] default_server env0 = Some (Ok (sv1, e1)) \<and>
      sv_tun sv1 = Some [])"
proof -
  have s: "vk_then_rtc (sc_Session (sv_objects default_server ! 0))"
    unfolding vk_then_rtc_def
    by (intro conjI exI [of _ "[ModeVK, ModeOzon]"] exI [of _ "[]"]) (simp_all add: default_server_def wants_sixteen_def)
  have t: "sv_tun default_server = Some []" by (simp add: default_server_def)
  have v: "vk_packet (replicate 12 7, ip0) = replicate 12 7 @ [0, 0, 0, 20, 0x45] @ replicate 19 0"
    by (simp add: vk_packet_def be32_def ip0_def)
  have "take 4 (drop 4 (replicate 12 7 @ x)) = [7, 7, 7, 7]" for x :: bytes by (simp add: numeral_eq_Suc)
  moreover have "de32 [7, 7, 7, 7] = 0x07070707" by (simp add: de32.simps)
  ultimately have "no_rtc (vk_packet (replicate 12 7, ip0))"
    unfolding v no_rtc_def by (simp add: nth_append)
  moreover have "\<not> is_fin (vk_packet (replicate 12 7, ip0))" unfolding v is_fin_def by (simp add: nth_append)
  ultimately have p: "list_all tunnel_packet [(replicate 12 7, ip0)]"
    by (simp add: tunnel_packet_def ip0_ip) (simp add: ip0_def)
  have "\<not> is_fin (replicate 12 0)" by (simp add: is_fin_def)
  with one_short_packet_ends_the_way_up [OF _ s t p, of "replicate 12 0" env0]
  show ?thesis by (simp add: default_server_def del: handle_all.simps)
qed

section \<open>Rotation by time\<close>

text \<open>Only \<open>GetCurrentMask\<close> looks at the switch interval, and nothing calls it: however much time has
  passed, sending leaves the mode, the mask and the time of the last switch as they are.\<close>

lemma sending_never_rotates:
  assumes "Session_Wrap s p e = Ok (pkt, s1, e1)"
  shows "mx_currentMode (ss_LocalMixer s1) = mx_currentMode (ss_LocalMixer s)"
    and "mx_currentMask (ss_LocalMixer s1) = mx_currentMask (ss_LocalMixer s)"
    and "mx_lastSwitch (ss_LocalMixer s1) = mx_lastSwitch (ss_LocalMixer s)"
    and "ss_RemoteMixer s1 = ss_RemoteMixer s"
  using assms by (auto simp: Session_Wrap_def Mixer_Wrap_def bindR_eq_Ok Let_def)

end
