(* ===== verification/ReadLoop.thy ===== *)
theory ReadLoop
  imports Handshake
begin

text \<open>
  The reads of \<open>readLoop\<close> of \<open>internal/engine/client.go\<close>. Each round starts a goroutine that calls \<open>conn.Read\<close> into the one buffer of the loop, and waits for it
  half a second at most; then it begins the next round, and the goroutine goes on reading. The
  read deadline is the one the handshake set; nothing sets another. The keep-alive of the
  loop only writes, and is a definition of theory EngineClient. On a connection of package net every
  read fails once the deadline has passed; whether a read of another connection still returns
  data that is waiting, as those of the KCP module do, is a field of the state.
\<close>

section \<open>State and steps\<close>

datatype read_result =
    GotBytes nat
  | TimedOut
  | ConnClosed
  | OtherFailure

text \<open>The read the loop waits for, with the time at which the wait began.\<close>

datatype read_wait =
    NoRead
  | Blocked instant
  | Answered instant read_result

text \<open>
  The clock, the deadline and whether data is returned after it, the buffer, the number of goroutines still in a \<open>Read\<close> nobody waits for,
  whether the loop has returned, and the client's \<open>handshakeDone\<close>, which no step of the loop changes: \<open>Start\<close>
  sets it right after it has started the goroutine of the loop, where this model begins, and \<open>Stop\<close> resets it when the loop
  has returned. The last three fields are a history: what reads of the connection
  returned, what the loop handed to \<open>processIncomingPacket\<close>, and how many waits were given up.
\<close>

record read_side =
  rs_now :: instant
  rs_deadline :: "instant option"
  rs_late_data :: bool
  rs_buf :: bytes
  rs_wait :: read_wait
  rs_abandoned :: nat
  rs_over :: bool
  rs_handshakeDone :: bool
  rs_arrived :: "bytes list"
  rs_taken :: "bytes list"
  rs_given_up :: nat

definition expired :: "read_side \<Rightarrow> bool" where
  "expired s \<longleftrightarrow> (case rs_deadline s of None \<Rightarrow> False | Some t \<Rightarrow> t \<le> rs_now s)"

definition readable :: "read_side \<Rightarrow> bool" where
  "readable s \<longleftrightarrow> rs_late_data s \<or> \<not> expired s"

text \<open>A read that returns data: it is in the buffer, from the front.\<close>

definition arrives :: "bytes \<Rightarrow> read_side \<Rightarrow> read_side" where
  "arrives d s = s\<lparr>rs_buf := splice 0 d (rs_buf s), rs_arrived := rs_arrived s @ [d]\<rparr>"

text \<open>
  The loop copies what it waited for out of the buffer; an empty packet is passed over, and so is any before the handshake is done. A \<open>select\<close>
  takes any of its cases that are ready: a wait may be given up though the read has just
  returned.
\<close>

definition half_second :: duration where
  "half_second = 500000000"

definition take_packet :: "nat \<Rightarrow> read_side \<Rightarrow> read_side" where
  "take_packet n s =
     s\<lparr>rs_wait := NoRead, rs_taken := rs_taken s @
       (if n = 0 \<or> \<not> rs_handshakeDone s then [] else [take n (rs_buf s)])\<rparr>"

inductive read_step :: "read_side \<Rightarrow> read_side \<Rightarrow> bool" where
  tick: "rs_now s \<le> t \<Longrightarrow> read_step s (s\<lparr>rs_now := t\<rparr>)"
| begin_read: "rs_wait s = NoRead \<Longrightarrow> \<not> rs_over s \<Longrightarrow> read_step s (s\<lparr>rs_wait := Blocked (rs_now s)\<rparr>)"
| data: "rs_wait s = Blocked b \<Longrightarrow> readable s \<Longrightarrow> length d \<le> length (rs_buf s) \<Longrightarrow>
    read_step s ((arrives d s)\<lparr>rs_wait := Answered b (GotBytes (length d))\<rparr>)"
| fail: "rs_wait s = Blocked b \<Longrightarrow> r \<in> {ConnClosed, OtherFailure} \<or> r = TimedOut \<and> expired s \<Longrightarrow>
    read_step s (s\<lparr>rs_wait := Answered b r\<rparr>)"
| abandoned_data: "rs_abandoned s = Suc k \<Longrightarrow> readable s \<Longrightarrow> length d \<le> length (rs_buf s) \<Longrightarrow>
    read_step s ((arrives d s)\<lparr>rs_abandoned := k\<rparr>)"
| abandoned_fail: "rs_abandoned s = Suc k \<Longrightarrow> read_step s (s\<lparr>rs_abandoned := k\<rparr>)"
| give_up: "rs_wait s = Blocked b \<Longrightarrow> b + half_second \<le> rs_now s \<Longrightarrow>
    read_step s (s\<lparr>rs_wait := NoRead, rs_abandoned := Suc (rs_abandoned s), rs_given_up := Suc (rs_given_up s)\<rparr>)"
| give_up_late: "rs_wait s = Answered b r \<Longrightarrow> b + half_second \<le> rs_now s \<Longrightarrow>
    read_step s (s\<lparr>rs_wait := NoRead, rs_given_up := Suc (rs_given_up s)\<rparr>)"
| got: "rs_wait s = Answered b (GotBytes n) \<Longrightarrow> read_step s (take_packet n s)"
| again: "rs_wait s = Answered b TimedOut \<Longrightarrow> read_step s (s\<lparr>rs_wait := NoRead\<rparr>)"
| failed: "rs_wait s = Answered b OtherFailure \<Longrightarrow>
    read_step s (s\<lparr>rs_wait := NoRead, rs_now := rs_now s + second\<rparr>)"
| closed: "rs_wait s = Answered b ConnClosed \<Longrightarrow> read_step s (s\<lparr>rs_wait := NoRead, rs_over := True\<rparr>)"
| stop: "read_step s (s\<lparr>rs_wait := NoRead, rs_over := True\<rparr>)"

abbreviation read_steps :: "read_side \<Rightarrow> read_side \<Rightarrow> bool" where
  "read_steps \<equiv> read_step\<^sup>*\<^sup>*"

inductive_cases read_stepE: "read_step s t"

text \<open>What the handshake leaves behind on the connection, and the loop when it starts.\<close>

definition handshake_deadline :: "HandshakeManager \<Rightarrow> instant \<Rightarrow> instant" where
  "handshake_deadline hm t = t + hm_timeout hm"

definition loop_started :: "instant \<Rightarrow> instant option \<Rightarrow> bool \<Rightarrow> read_side" where
  "loop_started t deadline late =
     \<lparr>rs_now = t, rs_deadline = deadline, rs_late_data = late, rs_buf = make_buf 65536, rs_wait = NoRead, rs_abandoned = 0,
      rs_over = False, rs_handshakeDone = True, rs_arrived = [], rs_taken = [], rs_given_up = 0\<rparr>"

section \<open>What every step keeps\<close>

fun held_of :: "read_wait \<Rightarrow> bytes \<Rightarrow> bytes list" where
  "held_of (Answered b (GotBytes n)) buf = (if n = 0 then [] else [take n buf])"
| "held_of _ buf = []"

definition held :: "read_side \<Rightarrow> bytes list" where
  "held s = held_of (rs_wait s) (rs_buf s)"

lemma length_held_of: "length (held_of w buf) = length (held_of w [])"
  by (cases "(w, buf)" rule: held_of.cases) simp_all

lemma held_of_failure [simp]: "r \<in> {ConnClosed, OtherFailure} \<or> r = TimedOut \<Longrightarrow> held_of (Answered b r) buf = []"
  by auto

abbreviation nonempty :: "bytes list \<Rightarrow> bytes list" where
  "nonempty \<equiv> filter (\<lambda>d. d \<noteq> [])"

lemma arrives_simps [simp]:
  "rs_now (arrives d s) = rs_now s" "rs_late_data (arrives d s) = rs_late_data s" "rs_deadline (arrives d s) = rs_deadline s"
  "rs_wait (arrives d s) = rs_wait s" "rs_abandoned (arrives d s) = rs_abandoned s"
  "rs_over (arrives d s) = rs_over s" "rs_taken (arrives d s) = rs_taken s"
  "rs_given_up (arrives d s) = rs_given_up s" "rs_handshakeDone (arrives d s) = rs_handshakeDone s" "rs_arrived (arrives d s) = rs_arrived s @ [d]"
  "length d \<le> length (rs_buf s) \<Longrightarrow> length (rs_buf (arrives d s)) = length (rs_buf s)"
  "length d \<le> length (rs_buf s) \<Longrightarrow> take (length d) (rs_buf (arrives d s)) = d"
  by (simp_all add: arrives_def splice_def)

lemma expired_simps [simp]:
  "expired (arrives d s) = expired s" "expired (s\<lparr>rs_wait := w\<rparr>) = expired s"
  "expired (s\<lparr>rs_abandoned := k\<rparr>) = expired s"
  by (simp_all add: expired_def arrives_def split: option.splits)

text \<open>The deadline is never moved, and time only goes on.\<close>

lemma read_steps_deadline:
  "read_steps s t \<Longrightarrow> rs_deadline t = rs_deadline s \<and> rs_late_data t = rs_late_data s \<and> rs_now s \<le> rs_now t"
proof (induction rule: rtranclp_induct)
  case (step t u)
  from step.hyps(2) have "rs_deadline u = rs_deadline t \<and> rs_late_data u = rs_late_data t \<and> rs_now t \<le> rs_now u"
    by cases (simp_all add: take_packet_def)
  with step.IH show ?case by simp
qed simp

lemma read_steps_expired: "read_steps s t \<Longrightarrow> expired s \<Longrightarrow> expired t"
  using read_steps_deadline by (fastforce simp: expired_def split: option.splits)

text \<open>Until a wait is given up or the loop ends, everything that arrived is handed on, in order.\<close>

definition all_taken :: "read_side \<Rightarrow> bool" where
  "all_taken s \<longleftrightarrow> rs_handshakeDone s \<and> (rs_given_up s = 0 \<longrightarrow> rs_abandoned s = 0 \<and>
     (\<not> rs_over s \<longrightarrow> rs_taken s @ held s = nonempty (rs_arrived s)))"

lemma read_step_all_taken: "read_step s t \<Longrightarrow> all_taken s \<Longrightarrow> all_taken t"
  by (induction rule: read_step.induct)
    (auto simp: all_taken_def held_def take_packet_def)

text \<open>A packet is lost only to a wait that was given up.\<close>

definition losses_bounded :: "read_side \<Rightarrow> bool" where
  "losses_bounded s \<longleftrightarrow> rs_handshakeDone s \<and> rs_abandoned s \<le> rs_given_up s \<and> (\<not> rs_over s \<longrightarrow>
     length (nonempty (rs_arrived s)) + rs_abandoned s \<le>
     length (rs_taken s) + length (held_of (rs_wait s) []) + rs_given_up s)"

lemma read_step_losses: "read_step s t \<Longrightarrow> losses_bounded s \<Longrightarrow> losses_bounded t"
proof (induction rule: read_step.induct)
  case (give_up_late s b r)
  have "length (held_of (Answered b r) []) \<le> 1"
    by (cases "(Answered b r, [] :: bytes)" rule: held_of.cases) simp_all
  with give_up_late show ?case by (auto simp: losses_bounded_def)
qed (auto simp: losses_bounded_def take_packet_def)

definition read_inv :: "read_side \<Rightarrow> bool" where
  "read_inv s \<longleftrightarrow> all_taken s \<and> losses_bounded s \<and> length (rs_buf s) = 65536"

lemma read_step_buf: "read_step s t \<Longrightarrow> length (rs_buf t) = length (rs_buf s)"
  by (induction rule: read_step.induct) (simp_all add: take_packet_def)

lemma read_steps_inv: "read_steps s t \<Longrightarrow> read_inv s \<Longrightarrow> read_inv t"
  by (induction rule: rtranclp_induct)
    (auto simp: read_inv_def read_step_buf intro: read_step_all_taken read_step_losses)

lemma loop_started_inv: "read_inv (loop_started t deadline late)"
  by (simp add: read_inv_def all_taken_def losses_bounded_def loop_started_def held_def)

section \<open>Waits that are given up\<close>

text \<open>A silent connection: the loop gives up one read after another.\<close>

lemma silent_rounds:
  assumes "rs_wait s = NoRead" and "\<not> rs_over s"
  shows "read_steps s (s\<lparr>rs_now := rs_now s + int k * half_second, rs_abandoned := rs_abandoned s + k,
    rs_given_up := rs_given_up s + k\<rparr>)"
proof (induction k)
  case (Suc k)
  let ?a = "s\<lparr>rs_now := rs_now s + int k * half_second, rs_abandoned := rs_abandoned s + k,
    rs_given_up := rs_given_up s + k\<rparr>"
  let ?b = "?a\<lparr>rs_wait := Blocked (rs_now ?a)\<rparr>"
  let ?c = "?b\<lparr>rs_now := rs_now ?a + half_second\<rparr>"
  let ?d = "?c\<lparr>rs_wait := NoRead, rs_abandoned := Suc (rs_abandoned ?c), rs_given_up := Suc (rs_given_up ?c)\<rparr>"
  have "read_step ?a ?b" using assms by (intro read_step.begin_read) simp_all
  moreover have "read_step ?b ?c" using read_step.tick [of ?b "rs_now ?a + half_second"] by (simp add: half_second_def)
  moreover have "read_step ?c ?d" using read_step.give_up [of ?c "rs_now ?a"] by simp
  moreover have "?d = s\<lparr>rs_now := rs_now s + int (Suc k) * half_second, rs_abandoned := rs_abandoned s + Suc k,
      rs_given_up := rs_given_up s + Suc k\<rparr>"
    using assms(1) by (simp add: algebra_simps)
  ultimately show ?case using Suc by (metis rtranclp.rtrancl_into_rtrancl)
qed simp

text \<open>What arrives then is read by the goroutines nobody waits for.\<close>

lemma arrivals_lost:
  assumes "rs_abandoned s = length ds + j" and "readable s" and "\<forall>d\<in>set ds. length d \<le> length (rs_buf s)"
  shows "\<exists>u. read_steps s u \<and> rs_arrived u = rs_arrived s @ ds \<and> rs_taken u = rs_taken s \<and>
    rs_now u = rs_now s \<and> rs_wait u = rs_wait s \<and> rs_over u = rs_over s"
  using assms
proof (induction ds arbitrary: s)
  case Nil
  then show ?case by auto
next
  case (Cons d ds)
  let ?t = "(arrives d s)\<lparr>rs_abandoned := length ds + j\<rparr>"
  have st: "read_step s ?t" using Cons.prems by (intro read_step.abandoned_data) simp_all
  have "readable ?t" using Cons.prems(2) by (simp add: readable_def)
  with Cons.IH [of ?t] Cons.prems(3) obtain u where "read_steps ?t u" "rs_arrived u = rs_arrived s @ d # ds"
    "rs_taken u = rs_taken s" "rs_now u = rs_now s" "rs_wait u = rs_wait s" "rs_over u = rs_over s" by auto
  with st show ?case by (metis converse_rtranclp_into_rtranclp)
qed

section \<open>After the deadline\<close>

lemma read_step_expired:
  assumes "read_step s t" and "expired s" and "\<not> rs_late_data s"
  shows "rs_arrived t = rs_arrived s" and
    "held t = [] \<and> rs_taken t \<in> {rs_taken s, rs_taken s @ held s} \<or> held t = held s \<and> rs_taken t = rs_taken s"
  using assms by (cases; auto simp: held_def take_packet_def readable_def)+

lemma read_steps_deaf:
  assumes "read_steps s t" and "expired s" and "\<not> rs_late_data s"
  shows "rs_arrived t = rs_arrived s \<and>
    (held t = [] \<and> rs_taken t \<in> {rs_taken s, rs_taken s @ held s} \<or> held t = held s \<and> rs_taken t = rs_taken s)"
  using assms(1)
proof (induction rule: rtranclp_induct)
  case (step t u)
  from read_step_expired [OF step.hyps(2) read_steps_expired [OF step.hyps(1) assms(2)]] step.IH
    read_steps_deadline [OF step.hyps(1)] assms(3) show ?case by auto
qed simp

lemma expired_spins:
  assumes "expired s" and "rs_wait s = NoRead" and "\<not> rs_over s"
  shows "read_step\<^sup>+\<^sup>+ s s"
proof -
  let ?b = "s\<lparr>rs_wait := Blocked (rs_now s)\<rparr>"
  let ?c = "s\<lparr>rs_wait := Answered (rs_now s) TimedOut\<rparr>"
  have "read_step s ?b" using assms by (intro read_step.begin_read)
  moreover have "read_step ?b ?c"
    using read_step.fail [of ?b "rs_now s" TimedOut] assms(1) by simp
  moreover have "s\<lparr>rs_wait := NoRead\<rparr> = s" using assms(2) by (cases s) simp
  then have "read_step ?c s" using read_step.again [of ?c "rs_now s"] by simp
  ultimately show ?thesis by (meson tranclp.intros)
qed

section \<open>Properties\<close>

text \<open>C9: What the loop hands on is what arrived, in order, as long as no wait is given up. Each wait of half a
  second in which nothing arrives costs at most one packet, and can cost it: after such waits as
  many packets may arrive as there were waits and all be lost, read by goroutines that nobody
  waits for.\<close>

theorem silent_waits_lose_packets:
  assumes "read_steps (loop_started t deadline late) s" and "\<not> rs_over s"
  shows "(rs_given_up s = 0 \<longrightarrow> rs_taken s @ held s = nonempty (rs_arrived s)) \<and>
    length (nonempty (rs_arrived s)) \<le> length (rs_taken s) + length (held s) + rs_given_up s \<and>
    (rs_wait s = NoRead \<and> (\<forall>d\<in>set ds. length d \<le> 65536) \<and>
     readable (s\<lparr>rs_now := rs_now s + int (length ds) * half_second\<rparr>) \<longrightarrow>
     (\<exists>u. read_steps s u \<and> rs_now u = rs_now s + int (length ds) * half_second \<and> \<not> rs_over u \<and>
       rs_wait u = NoRead \<and> rs_arrived u = rs_arrived s @ ds \<and> rs_taken u = rs_taken s))"
proof (intro conjI impI)
  have inv: "read_inv s" using read_steps_inv [OF assms(1) loop_started_inv] .
  then show "rs_taken s @ held s = nonempty (rs_arrived s)" if "rs_given_up s = 0"
    using that assms(2) by (simp add: read_inv_def all_taken_def)
  show "length (nonempty (rs_arrived s)) \<le> length (rs_taken s) + length (held s) + rs_given_up s"
    using inv assms(2) length_held_of [of "rs_wait s" "rs_buf s"]
    by (simp add: read_inv_def losses_bounded_def held_def)
  assume idle: "rs_wait s = NoRead \<and> (\<forall>d\<in>set ds. length d \<le> 65536) \<and>
    readable (s\<lparr>rs_now := rs_now s + int (length ds) * half_second\<rparr>)"
  let ?n = "length ds"
  let ?t = "s\<lparr>rs_now := rs_now s + int ?n * half_second, rs_abandoned := rs_abandoned s + ?n,
    rs_given_up := rs_given_up s + ?n\<rparr>"
  have "read_steps s ?t" using silent_rounds idle assms(2) by blast
  moreover have "readable ?t" using idle by (simp add: readable_def expired_def split: option.splits)
  with arrivals_lost [of ?t ds "rs_abandoned s"] idle inv assms(2) obtain u where
    "read_steps ?t u" "rs_arrived u = rs_arrived s @ ds" "rs_taken u = rs_taken s" "rs_wait u = NoRead"
    "rs_now u = rs_now s + int ?n * half_second" "\<not> rs_over u" by (auto simp: read_inv_def add.commute)
  ultimately show "\<exists>u. read_steps s u \<and> rs_now u = rs_now s + int ?n * half_second \<and> \<not> rs_over u \<and>
      rs_wait u = NoRead \<and> rs_arrived u = rs_arrived s @ ds \<and> rs_taken u = rs_taken s"
    by (intro exI [of _ u]) auto
qed

lemma silent_waits_lose_packets_witness:
  "\<exists>u. read_steps (loop_started 0 (Some (10 * second)) False) u \<and> rs_now u = second \<and>
     rs_arrived u = [[0x45], [0x60]] \<and> rs_taken u = []"
proof -
  have "\<not> rs_over (loop_started 0 (Some (10 * second)) False)" by (simp add: loop_started_def)
  from silent_waits_lose_packets [OF rtranclp.rtrancl_refl this, of "[[0x45], [0x60]]"] show ?thesis
    by (auto simp: loop_started_def readable_def expired_def half_second_def)
qed

text \<open>C6: The deadline the handshake set for its own answer stays on the connection. Once it has passed, the loop,
  which takes the failing read for a timeout of its own, goes round without waiting; and on a connection
  of package net no read returns data any more, so that the client hands on nothing but the packet
  it may already have read, whatever the server sends.\<close>

theorem client_is_deaf_after_the_handshake_timeout:
  assumes "read_steps (loop_started t (Some (handshake_deadline hm t0)) late) s" and "handshake_deadline hm t0 \<le> rs_now s"
    and "read_steps s u"
  shows "(\<not> late \<longrightarrow> rs_arrived u = rs_arrived s \<and> rs_taken u \<in> {rs_taken s, rs_taken s @ held s}) \<and>
    (rs_wait u = NoRead \<and> \<not> rs_over u \<longrightarrow> read_step\<^sup>+\<^sup>+ u u)"
proof -
  have "rs_deadline s = Some (handshake_deadline hm t0)" and l: "rs_late_data s = late"
    using read_steps_deadline [OF assms(1)] by (simp_all add: loop_started_def)
  with assms(2) have e: "expired s" by (simp add: expired_def)
  with read_steps_expired [OF assms(3)] have "expired u" by simp
  with read_steps_deaf [OF assms(3) e] expired_spins l show ?thesis by auto
qed

lemma client_is_deaf_after_the_handshake_timeout_witness:
  "\<exists>s. read_steps (loop_started 0 (Some (10 * second)) False) s \<and> rs_now s = 10 * second \<and> rs_arrived s = [] \<and>
     (\<forall>u. read_steps s u \<longrightarrow> rs_taken u = [])"
proof -
  let ?hm = "\<lparr>hm_state = NewHandshakeState, hm_authKey = [], hm_timeout = 10 * second\<rparr>"
  let ?s = "loop_started 0 (Some (10 * second)) False"
  let ?t = "?s\<lparr>rs_now := 10 * second\<rparr>"
  have d: "handshake_deadline ?hm 0 = 10 * second" by (simp add: handshake_deadline_def)
  have st: "read_steps ?s ?t" using read_step.tick [of ?s "10 * second"] by (simp add: loop_started_def r_into_rtranclp)
  have "rs_taken u = []" if "read_steps ?t u" for u
    using client_is_deaf_after_the_handshake_timeout [of 0 ?hm 0 False ?t u] st that d
    by (simp add: loop_started_def held_def)
  with st show ?thesis by (intro exI [of _ ?t]) (simp add: loop_started_def)
qed

end
