(* ===== verification/Utilities.thy ===== *)
theory Utilities
  imports GoCrypto
begin

text \<open>
  The helpers of \<open>internal/utils\<close> and the counters of \<open>pkg/metrics\<close>: random numbers, the
  rotation of browser fingerprints, the pools, the metrics. Nothing else of the repository
  calls them. A pool of package sync may drop what it holds at any time.
\<close>

section \<open>Random numbers\<close>

definition RandomBytes :: "nat \<Rightarrow> env \<Rightarrow> bytes \<times> env" where
  "RandomBytes n e = draw n e"

text \<open>
  \<open>rand.Int\<close> panics for a bound that is not positive; else its answer is some number below the
  bound for each eight bytes of the source.
\<close>

definition RandomInt :: "int \<Rightarrow> int \<Rightarrow> env \<Rightarrow> (int \<times> env) result" where
  "RandomInt mn mx e =
     (if mn = mx then Ok (mn, e)
      else if mx - mn \<le> 0 then Panic
      else let (b, e1) = draw 8 e in Ok (mn + uint (de64 b) mod (mx - mn), e1))"

definition RandomUint64 :: "env \<Rightarrow> u64 \<times> env" where
  "RandomUint64 e = (let (b, e1) = draw 8 e in (de64 b, e1))"

text \<open>The sum has the lower bound twice.\<close>

definition RandomDuration :: "duration \<Rightarrow> duration \<Rightarrow> env \<Rightarrow> (duration \<times> env) result" where
  "RandomDuration mn mx e = bindR (RandomInt mn mx e) (\<lambda>(n, e1). Ok (mn + n, e1))"

section \<open>Fingerprints\<close>

record FingerprintRotator =
  fr_index :: nat
  fr_profiles :: "string list"
  fr_lastRotate :: instant
  fr_interval :: duration

definition NewFingerprintRotator :: "duration \<Rightarrow> FingerprintRotator" where
  "NewFingerprintRotator interval =
     \<lparr>fr_index = 0,
      fr_profiles = [''chrome_120'', ''firefox_120'', ''safari_16_0'', ''edge_120'', ''ios_17_0'',
        ''android_chrome_120''],
      fr_lastRotate = zero_time, fr_interval = interval\<rparr>"

definition GetCurrent :: "FingerprintRotator \<Rightarrow> env \<Rightarrow> string \<times> FingerprintRotator \<times> env" where
  "GetCurrent f e =
     (let (t, e1) = read_clock e in
      if fr_interval f < t - fr_lastRotate f then
        (let (t1, e2) = read_clock e1;
             f1 = f\<lparr>fr_index := (fr_index f + 1) mod length (fr_profiles f), fr_lastRotate := t1\<rparr> in
         (fr_profiles f1 ! fr_index f1, f1, e2))
      else (fr_profiles f ! fr_index f, f, e1))"

definition GenerateJA3 :: "FingerprintRotator \<Rightarrow> env \<Rightarrow> bytes \<times> FingerprintRotator \<times> env" where
  "GenerateJA3 f e =
     (let (fp, f1, e1) = GetCurrent f e in (take 16 (sha256 (map (\<lambda>c. of_char c) fp)), f1, e1))"

text \<open>The text of an instant, which package time makes, is an argument.\<close>

definition GenerateJA4 ::
  "(instant \<Rightarrow> string) \<Rightarrow> FingerprintRotator \<Rightarrow> env \<Rightarrow> bytes \<times> FingerprintRotator \<times> env" where
  "GenerateJA4 time_String f e =
     (let (fp, f1, e1) = GetCurrent f e; (t, e2) = read_clock e1 in
      (take 20 (sha256 (map (\<lambda>c. of_char c) (fp @ time_String t))), f1, e2))"

definition fr_inv :: "FingerprintRotator \<Rightarrow> bool" where
  "fr_inv f \<longleftrightarrow> fr_index f < length (fr_profiles f)"

lemma NewFingerprintRotator_inv: "fr_inv (NewFingerprintRotator interval)"
  by (simp add: fr_inv_def NewFingerprintRotator_def)

lemma GetCurrent_inv:
  assumes "fr_inv f" and "GetCurrent f e = (fp, f1, e1)"
  shows "fr_inv f1 \<and> fp \<in> set (fr_profiles f) \<and> fr_profiles f1 = fr_profiles f"
proof -
  have "fr_profiles f \<noteq> []" using assms(1) by (auto simp: fr_inv_def)
  with assms show ?thesis by (auto simp: GetCurrent_def fr_inv_def Let_def split: prod.splits if_splits)
qed

section \<open>Pools\<close>

text \<open>A buffer is its contents and its capacity; the pool holds empty buffers by their capacities.\<close>

record BufferPool =
  bp_maxSize :: nat
  bp_pool :: "nat list"

definition NewBufferPool :: "nat \<Rightarrow> BufferPool" where
  "NewBufferPool max_size = \<lparr>bp_maxSize = max_size, bp_pool = []\<rparr>"

text \<open>The argument is which buffer the pool gives, if any: it may make a new one instead.\<close>

definition BufferPool_Get :: "nat option \<Rightarrow> BufferPool \<Rightarrow> (bytes \<times> nat) \<times> BufferPool" where
  "BufferPool_Get which p =
     (case which of
        Some i \<Rightarrow>
          if i < length (bp_pool p)
          then (([], bp_pool p ! i), p\<lparr>bp_pool := take i (bp_pool p) @ drop (Suc i) (bp_pool p)\<rparr>)
          else (([], bp_maxSize p), p)
      | None \<Rightarrow> (([], bp_maxSize p), p))"

definition BufferPool_Put :: "bytes \<times> nat \<Rightarrow> BufferPool \<Rightarrow> BufferPool" where
  "BufferPool_Put buf p =
     (if bp_maxSize p < snd buf then p else p\<lparr>bp_pool := bp_pool p @ [snd buf]\<rparr>)"

type_synonym 'v ConnPool = "string \<Rightarrow> 'v option"

definition ConnPool_Store :: "string \<Rightarrow> 'v \<Rightarrow> 'v ConnPool \<Rightarrow> 'v ConnPool" where
  "ConnPool_Store k v c = c(k \<mapsto> v)"

definition ConnPool_Load :: "string \<Rightarrow> 'v ConnPool \<Rightarrow> 'v option" where
  "ConnPool_Load k c = c k"

definition ConnPool_Delete :: "string \<Rightarrow> 'v ConnPool \<Rightarrow> 'v ConnPool" where
  "ConnPool_Delete k c = c(k := None)"

section \<open>Metrics\<close>

text \<open>The counters by mode and protocol, as exact numbers, and the gauge.\<close>

record metrics =
  BytesReceived :: "(string \<times> string) \<Rightarrow> nat"
  BytesSent :: "(string \<times> string) \<Rightarrow> nat"
  ActiveSessions :: int

definition RecordBytes :: "string \<Rightarrow> string \<Rightarrow> u64 \<Rightarrow> u64 \<Rightarrow> metrics \<Rightarrow> metrics" where
  "RecordBytes label protocol received sent m =
     m\<lparr>BytesReceived := (BytesReceived m)((label, protocol) := BytesReceived m (label, protocol) + unat received),
       BytesSent := (BytesSent m)((label, protocol) := BytesSent m (label, protocol) + unat sent)\<rparr>"

definition UpdateSessions :: "int \<Rightarrow> metrics \<Rightarrow> metrics" where
  "UpdateSessions n m = m\<lparr>ActiveSessions := n\<rparr>"

section \<open>Properties\<close>

lemma RandomInt_range:
  assumes "mn < mx"
  shows "\<exists>n e1. RandomInt mn mx e = Ok (n, e1) \<and> mn \<le> n \<and> n < mx"
proof -
  obtain b e1 where b: "draw 8 e = (b, e1)" by (metis surj_pair)
  let ?r = "uint (de64 b) mod (mx - mn)"
  have "0 \<le> ?r" "?r < mx - mn" using assms by simp_all
  with assms b show ?thesis by (auto simp: RandomInt_def)
qed

text \<open>A random duration is not in the range it is asked for: the lower bound is added twice. Bounds
  in the wrong order panic.\<close>

theorem random_duration_is_above_its_range:
  assumes "0 < mn"
  shows "(mn < mx \<longrightarrow> (\<exists>d e1. RandomDuration mn mx e = Ok (d, e1) \<and> 2 * mn \<le> d \<and> d < mn + mx)) \<and>
    (mx < mn \<longrightarrow> RandomDuration mn mx e = Panic) \<and>
    (mn = mx \<longrightarrow> RandomDuration mn mx e = Ok (2 * mn, e))"
  using RandomInt_range [of mn mx e] assms by (auto simp: RandomDuration_def RandomInt_def)

theorem random_duration_is_above_its_range_witness:
  "\<exists>d e1. RandomDuration 10 15 \<lparr>rand = (\<lambda>_. 0), clk = (\<lambda>_. 0), dials = (\<lambda>_. None), zone = (\<lambda>_. 0)\<rparr> =
    Ok (d, e1) \<and> 15 < d"
  using random_duration_is_above_its_range [of 10 15] by fastforce

text \<open>A fingerprint rotator always names one of its profiles, and rotates exactly when its interval
  has passed.\<close>

theorem fingerprint_rotates:
  assumes "fr_inv f" and "GetCurrent f e = (fp, f1, e1)"
  shows "fr_inv f1 \<and> fp = fr_profiles f ! fr_index f1 \<and>
    fr_index f1 =
      (if fr_interval f < now (clk e) - fr_lastRotate f then (fr_index f + 1) mod length (fr_profiles f)
       else fr_index f)"
proof (cases "fr_interval f < now (clk e) - fr_lastRotate f")
  case True
  with assms(2) GetCurrent_inv [OF assms, THEN conjunct1] show ?thesis
    by (auto simp: GetCurrent_def read_clock_def)
next
  case False
  with assms show ?thesis by (auto simp: GetCurrent_def read_clock_def)
qed

theorem fingerprint_rotates_witness:
  "\<exists>f1 e1. GetCurrent (NewFingerprintRotator 5) \<lparr>rand = (\<lambda>_. 0), clk = (\<lambda>_. 0), dials = (\<lambda>_. None), zone = (\<lambda>_. 0)\<rparr> =
    (''firefox_120'', f1, e1)"
proof -
  obtain fp f1 e1 where g: "GetCurrent (NewFingerprintRotator 5)
      \<lparr>rand = (\<lambda>_. 0), clk = (\<lambda>_. 0), dials = (\<lambda>_. None), zone = (\<lambda>_. 0)\<rparr> = (fp, f1, e1)"
    by (metis surj_pair)
  from fingerprint_rotates [OF NewFingerprintRotator_inv g] g show ?thesis
    by (simp add: NewFingerprintRotator_def now_def zero_time_def)
qed

end
