(* ===== verification/Reports.thy ===== *)
theory Reports
  imports Exports EngineMixer Padding
begin

text \<open>
  The reports of statistics: the \<open>GetStats\<close> functions of the mixers, the session, the engine,
  the padding and the server, as association lists from the keys of the Go maps. Durations are
  given as they are, not as their texts. A map is visited in some order, that of the list.
  Beside them, \<open>SendTo\<close> of the client and \<open>GetAllSessions\<close> of the server.
\<close>

section \<open>Mixers\<close>

text \<open>The counts of the modes, by the names of the modes.\<close>

definition mode_stats :: "(ProtocolMode \<Rightarrow> string) \<Rightarrow> (ProtocolMode \<times> int) list \<Rightarrow> (string \<times> int) list" where
  "mode_stats name st = fold (\<lambda>(mode, count). AList.update (name mode) count) st []"

record mixer_report =
  mr_current_mode :: string
  mr_packets_wrapped :: int
  mr_packets_unwrapped :: int
  mr_errors :: int
  mr_total_modes :: nat
  mr_mode_stats :: "(string \<times> int) list"

record mask_report = mixer_report +
  mr_rotation :: "(duration \<times> duration) option"
  mr_time_based_enabled :: bool
  mr_is_daytime :: bool
  mr_current_hour :: int

definition Mixer_GetStats :: "MaskMixer \<Rightarrow> env \<Rightarrow> mask_report \<times> env" where
  "Mixer_GetStats m e =
     (let (rotation, e1) =
            (if 0 < mx_switchInterval m
             then (let (t, e1) = read_clock e in
                   (Some (mx_lastSwitch m + mx_switchInterval m - t, mx_switchInterval m), e1))
             else (None, e));
          (day, e2) = isDayTime e1; (hour, e3) = getHourOfDay e2 in
      (\<lparr>mr_current_mode = mode_String (mx_currentMode m), mr_packets_wrapped = mx_packetsWrapped m,
        mr_packets_unwrapped = mx_packetsUnwrapped m, mr_errors = mx_errorsCount m,
        mr_total_modes = length (mx_modes m), mr_mode_stats = mode_stats mode_String (mx_stats m),
        mr_rotation = rotation, mr_time_based_enabled = mx_timeBasedEnabled m,
        mr_is_daytime = day, mr_current_hour = hour\<rparr>, e3))"

definition PM_GetStats :: "ProtocolMixer \<Rightarrow> mixer_report" where
  "PM_GetStats m =
     \<lparr>mr_current_mode = Engine_mode_String (pm_currentMode m), mr_packets_wrapped = pm_packetsWrapped m,
      mr_packets_unwrapped = pm_packetsUnwrapped m, mr_errors = pm_errorsCount m,
      mr_total_modes = length (pm_modes m), mr_mode_stats = mode_stats Engine_mode_String (pm_stats m)\<rparr>"

section \<open>Session, engine and padding\<close>

record session_report =
  sr_id :: u64
  sr_state :: string
  sr_created_at :: instant
  sr_last_seen :: instant
  sr_bytes_in :: u64
  sr_bytes_out :: u64
  sr_local_mode :: string
  sr_remote_mode :: string
  sr_mask_stats :: mask_report

definition Session_GetStats :: "Session \<Rightarrow> env \<Rightarrow> session_report \<times> env" where
  "Session_GetStats s e =
     (let (masks, e1) = Mixer_GetStats (ss_LocalMixer s) e in
      (\<lparr>sr_id = ss_ID s, sr_state = SessionState_String (ss_State s), sr_created_at = ss_CreatedAt s,
        sr_last_seen = ss_LastSeen s, sr_bytes_in = ss_BytesIn s, sr_bytes_out = ss_BytesOut s,
        sr_local_mode = mode_String (GetCurrentMode (ss_LocalMixer s)),
        sr_remote_mode = mode_String (GetCurrentMode (ss_RemoteMixer s)), sr_mask_stats = masks\<rparr>, e1))"

record padding_report =
  pr_min_size :: int
  pr_max_size :: int
  pr_current_size :: int
  pr_rotate_interval :: duration
  pr_use_histogram :: bool
  pr_target_sizes_len :: nat

definition Padding_GetStats :: "PaddingEngine \<Rightarrow> padding_report" where
  "Padding_GetStats p =
     \<lparr>pr_min_size = pe_minSize p, pr_max_size = pe_maxSize p, pr_current_size = pe_currentSize p,
      pr_rotate_interval = pe_rotateEvery p, pr_use_histogram = pe_useHistogram p,
      pr_target_sizes_len = length (pe_targetSizes p)\<rparr>"

section \<open>Server and client\<close>

record connection_report =
  cr_id :: u64
  cr_start_time :: instant
  cr_duration :: duration
  cr_bytes_in :: u64
  cr_bytes_out :: u64
  cr_last_seen :: instant
  cr_state :: string
  cr_local_mode :: string

record server_report =
  vr_active_connections :: nat
  vr_total_bytes_in :: u64
  vr_total_bytes_out :: u64
  vr_sessions :: "connection_report list"

text \<open>The connections of the table, in the order in which it is visited; each reads the clock.\<close>

fun connection_reports :: "ServerConnection list \<Rightarrow> env \<Rightarrow> connection_report list \<times> env" where
  "connection_reports [] e = ([], e)"
| "connection_reports (sc # scs) e =
     (let (t, e1) = read_clock e; (rs, e2) = connection_reports scs e1 in
      (\<lparr>cr_id = sc_ID sc, cr_start_time = sc_StartTime sc, cr_duration = t - sc_StartTime sc,
        cr_bytes_in = sc_BytesIn sc, cr_bytes_out = sc_BytesOut sc, cr_last_seen = sc_LastSeen sc,
        cr_state = SessionState_String (ss_State (sc_Session sc)),
        cr_local_mode = mode_String (GetCurrentMode (ss_LocalMixer (sc_Session sc)))\<rparr> # rs, e2))"

definition Server_GetStats :: "Server \<Rightarrow> env \<Rightarrow> server_report \<times> env" where
  "Server_GetStats sv e =
     (let scs = map (\<lambda>(_, c). sv_objects sv ! c) (sv_connections sv); (rs, e1) = connection_reports scs e in
      (\<lparr>vr_active_connections = length (sv_connections sv),
        vr_total_bytes_in = sum_list (map sc_BytesIn scs),
        vr_total_bytes_out = sum_list (map sc_BytesOut scs), vr_sessions = rs\<rparr>, e1))"

definition GetAllSessions :: "Server \<Rightarrow> Session list" where
  "GetAllSessions sv = map (\<lambda>(_, c). sc_Session (sv_objects sv ! c)) (sv_connections sv)"

text \<open>Unlike \<open>Send\<close> it drops nothing; what the writer answers is an argument.\<close>

definition SendTo :: "unit result \<Rightarrow> bytes \<Rightarrow> Client \<Rightarrow> env \<Rightarrow> (unit result \<times> bytes list \<times> Client \<times> env) result" where
  "SendTo wrote payload c e =
     (if \<not> cl_connected c then Ok (Fail NetClosed, [], c, e)
      else
        let c1 = c\<lparr>cl_packetsSent := cl_packetsSent c + 1,
                   cl_bytesSent := cl_bytesSent c + of_nat (length payload)\<rparr> in
        bindR (Session_Wrap (cl_session c1) payload e) (\<lambda>(wrapped, s, e1).
          Ok (wrote, [wrapped], c1\<lparr>cl_session := s\<rparr>, e1)))"

section \<open>Properties\<close>

lemma mode_stats_at:
  assumes "distinct (map fst st)" and "\<forall>a\<in>insert mode (fst ` set st). \<forall>b\<in>insert mode (fst ` set st). name a = name b \<longrightarrow> a = b"
  shows "map_of (fold (\<lambda>(mode, count). AList.update (name mode) count) st acc) (name mode) =
    (case map_of st mode of Some n \<Rightarrow> Some n | None \<Rightarrow> map_of acc (name mode))"
  using assms
proof (induction st arbitrary: acc)
  case (Cons x st)
  obtain a n where x: "x = (a, n)" by fastforce
  have "map_of (fold (\<lambda>(mode, count). AList.update (name mode) count) st (AList.update (name a) n acc)) (name mode) =
      (case map_of st mode of Some n \<Rightarrow> Some n | None \<Rightarrow> map_of (AList.update (name a) n acc) (name mode))"
  proof (rule Cons.IH)
    show "distinct (map fst st)" using Cons.prems(1) by simp
    show "\<forall>a\<in>insert mode (fst ` set st). \<forall>b\<in>insert mode (fst ` set st). name a = name b \<longrightarrow> a = b"
      using Cons.prems(2) by simp
  qed
  moreover have "name a = name mode \<longrightarrow> a = mode" using Cons.prems(2) x by simp
  moreover have "a \<notin> fst ` set st" using Cons.prems(1) x by simp
  then have "map_of st a = None" by (simp add: map_of_eq_None_iff)
  ultimately show ?case unfolding x
    by (cases "a = mode") (simp_all add: update_conv' split: option.split)
qed simp

lemma mode_String_inj:
  assumes "a \<in> {0..15}" and "b \<in> {0..15}" and "mode_String a = mode_String b"
  shows "a = b"
proof -
  have "distinct (map mode_String [0..15])" by (simp add: upto_rec1 mode_String_def)
  then have "inj_on mode_String {0..15}" by (simp only: distinct_map set_upto)
  from inj_onD [OF this assms(3,1,2)] show ?thesis .
qed

text \<open>The report of a mixer gives the exact count of each of the sixteen modes; of two modes without
  a name, in the engine's mixer, only the one that is visited last is counted.\<close>

theorem mode_reports_are_exact:
  assumes "distinct (map fst st)" and "fst ` set st \<subseteq> {0..15}" and "m \<in> {0..15}"
  shows "map_of (mode_stats mode_String st) (mode_String m) = map_of st m \<and>
    (15 < x \<and> 15 < y \<longrightarrow> mode_stats Engine_mode_String [(x, i), (y, j)] = [(''unknown'', j)])"
proof
  have "\<forall>a\<in>insert m (fst ` set st). \<forall>b\<in>insert m (fst ` set st). mode_String a = mode_String b \<longrightarrow> a = b"
    using assms(2,3) mode_String_inj by blast
  from mode_stats_at [OF assms(1) this, of "[]"] show
    "map_of (mode_stats mode_String st) (mode_String m) = map_of st m"
    by (simp add: mode_stats_def split: option.split)
qed (simp add: mode_stats_def Engine_mode_String_def)

theorem mode_reports_are_exact_witness:
  "map_of (mode_stats mode_String [(ModeVK, 3), (ModeOzon, 4)]) (mode_String ModeOzon) = Some 4"
  using mode_reports_are_exact [of "[(ModeVK, 3), (ModeOzon, 4)]" ModeOzon] by simp

end
