(* ===== verification/Spec2Isabelle.thy ===== *)
theory Spec2Isabelle
  imports MaskProperties WireProperties SessionProperties TunnelProperties AnswerProperties CryptoProperties
    EngineProperties TransportProperties ExportProperties RoutingProperties AccountProperties
    PaymentProperties CommandProperties DeviceProperties HelloProperties CopyProperties AcceptProperties
    ConfusionProperties ReadLoop Utilities Reports
begin

text \<open>
  L7-Shred is a tunnel whose packets are dressed up as the traffic of ordinary services. A
  client reads IP packets from a TUN device, wraps each in a mask and sends it to a server over
  UDP, TCP or KCP; the server unwraps it and hands the payload to its own TUN device or
  callback; answers go the same way back. Before that the two ends agree on a session in a
  handshake signed with a shared key. Around the tunnel stand an interface exported to a
  Flutter application, two commands, and a web site with accounts and payments.

  The development translates the Go code into HOL, file by file, and proves what makes each part
  correct and what the parts make together. Where the code misbehaves, the theorems say under
  which conditions it does.

  \<^bold>\<open>Conventions.\<close> A Go call gives a \<open>result\<close> (theory Prelude): \<open>Ok v\<close>, \<open>Fail e\<close> for a returned
  error, or \<open>Panic\<close>; a method that changes its receiver returns it updated. Bytes are words of eight bits;
  integers of a fixed width that the code lets wrap are words, Go's \<open>int\<close> is \<open>int\<close>. Slicing and
  indexing go through functions that panic out of range. Time, random bytes and the answers of the peer are
  read from an environment \<open>env\<close> passed along with the state, so that every definition computes.
  A mutex is not a field: what the code runs under one lock is one step. Where the order
  of goroutines matters, their steps are an inductive relation, cut where one goroutine can see the
  middle of what another does, and the theorems speak of every reachable state.

  \<^bold>\<open>Masks\<close> (\<open>internal/masks\<close>). SimpleMasks holds the masks that put a header before the payload
  (vk, wildberries, gosuslugi, ozon, sberid, yandex, rutube, zoom, teams, winupdate, browser,
  stun), HttpMasks DNS over HTTPS, the HTTP/2 frames, TLS and the choice of a mask from a
  domain name, RtcMask the WebRTC one, QuicMask the QUIC one
  with its transport and congestion window, over the AES-GCM of GoAead. Masker is the Go
  interface as a datatype with one constructor for each implementation, and the factory. MaskLaws states the
  contract of a mask in the locale \<open>mask_codec\<close> and interprets it on each mask that keeps it;
  HttpLaws, QuicLaws and MaskerLaws say which keep it, which lose the payload and
  which panic. MaskProperties collects the theorems.

  \<^bold>\<open>Mixer, handshake, sessions\<close> (\<open>internal/shred\<close>). Mixer rotates the modes (MixerLaws), Handshake
  is the signed handshake with its memory of sequence numbers (HandshakeLaws), Replay the sliding window
  behind the locale \<open>replay_window\<close>, Session a session and the manager's table, Frames and
  Shaping the framing, the Fragmentor and the shaper, behind the locales \<open>stream_codec\<close> and
  \<open>splitter\<close>, ShredEngine the pipeline of \<open>engine.go\<close>. WireProperties and SessionProperties: frames
  and fragments read back, handshakes round trip, the two ends agree on the key
  and the mode, a repeated packet is refused, a session's operations keep its invariant.

  \<^bold>\<open>Client and server\<close> (\<open>internal/engine\<close>). EngineServer is the server, its connections numbered
  objects on a heap, because the table and the goroutines share them; EngineClient the client; ClientStop
  the wait between \<open>Stop\<close> and \<open>readLoop\<close>; Routing the routes and what is read of the output of
  the system's commands. EngineMixer, Shredder and Background are the second mixer, the
  encrypting pipeline and the cover traffic. EngineLaws and ServerLaws say what the
  operations do to the sessions of the two ends. TunnelRuns has whole runs over a connection that keeps packets
  apart, as KCP does: the client sends and beats, and the server reads first the two copies of the SYN that
  the handshake left and then what the client sent. ServerTable takes the goroutines of the
  server, \<open>Stop\<close> among them, step by step: the place of each connection in \<open>handleConnection\<close>,
  between being made, entered in the table, marked as established, closed and taken out.

  TunnelProperties: in six of the modes, every IP packet of the client comes out of the TUN device of the server once, in
  order and unchanged, up to a packet that looks like a FIN, and before them only what remains of the
  copies; a table entry names an established connection that is open or about to go; what a stranger
  can do. CopyProperties: the copies do no harm in VK mode, and with RuTube before VK they end the
  way up. AnswerProperties is the way back, for any number of clients; HelloProperties says what the client
  makes of a TLS hello in a packet, ReadLoop what its waits and the deadline of the
  handshake cost, AcceptProperties which of two loops gets a connection,
  ConfusionProperties how one packet moves a session into another mode. RoutingProperties has the routes, and
  that a start with them is a start without them, or panics on a short line; EngineProperties the rest.

  \<^bold>\<open>Cryptography\<close> (\<open>internal/crypto\<close>). GoCrypto and GoAead compute SHA-256, HMAC, AES and
  its Galois/counter mode, as the packages of Go's library do. Ciphers is the cipher, the ratchet and the key encapsulation,
  Noise the handshake and the hybrid exchange, Padding and Authenticators the files of those
  names. CryptoProperties: the cipher opens exactly what it seals, ratchets stay in step,
  the two Noise sides agree, and where they give less than their names promise.

  \<^bold>\<open>Transports, devices, application\<close>. Transport and Inbound model \<open>internal/transport\<close>: the checks of a
  configuration, the dialer, the outbound connection, the answering loop and the raw UDP
  endpoint with its one shared buffer. Exports is \<open>exports.go\<close>; VpnReader and AndroidReader are its two goroutines against
  \<open>StopVPN\<close>, each with the wait of the client's \<open>Stop\<close> of theory ClientStop within it; Devices the TUN devices of \<open>internal/tun\<close> and Subnets the table of \<open>routes.go\<close>.
  TransportProperties, ExportProperties and DeviceProperties hold the theorems.

  \<^bold>\<open>Web site\<close>. Accounts models the handlers of \<open>internal/api\<close>, the tokens and passwords of
  \<open>internal/auth\<close> and the mails of \<open>internal/email\<close>, Payments \<open>internal/payment\<close>, both over the tables of
  \<open>internal/database/models.go\<close>. AccountLaws, AccountProperties and PaymentProperties: the tables
  stay well formed, who registers an email first chooses its password, one event changes one
  subscription.

  \<^bold>\<open>Commands and the rest\<close>. Commands is \<open>cmd/client\<close> and \<open>cmd/server\<close> from the configuration file to
  the loops, and CommandProperties what two configuration files together bring about. Utilities holds
  \<open>internal/utils\<close> and \<open>pkg/metrics\<close>, Reports the \<open>GetStats\<close> functions. Samples has the concrete values
  the witnesses evaluate.

  \<^bold>\<open>Loops\<close>. No definition uses fuel. Loops that always end are recursive functions;
  those that may not (\<open>fragment_loop\<close>, \<open>Process_loop\<close>, \<open>ack_loop\<close>, \<open>token_loop\<close>) are partial functions whose value \<open>None\<close>
  means that the code does not return, and the lemmas say exactly when it does. Loops over a
  device or a connection take the list of what it gives.

  \<^bold>\<open>Parameters\<close>. Curve25519 and HKDF of \<open>golang.org/x/crypto\<close> (with the commutation of the
  exchange as the one law), bcrypt, jwt and uuid, the database behind gorm with the laws
  \<open>backend_ok\<close> of its \<open>Create\<close>, \<open>First\<close>, \<open>Save\<close> and \<open>Delete\<close>, any of which may refuse, what the operating system answers to a
  dial, a read, a write or a command, and the decoding of JSON and of the configuration. Each law
  has an instance in a witness: the end of AccountLaws is a database in memory that satisfies them.

  \<^bold>\<open>Not modelled\<close>. The jitter of \<open>shred\<close> and of \<open>engine\<close> sleeps for a time computed in floating
  point and changes no data. The texts of mails and the protocol of the mail server, the
  layout of JSON, the calls into wintun, \<open>ioctl\<close> and KCP are the systems' own. \<open>db.go\<close>
  only opens the database; the tables \<open>EmailVerification\<close> and \<open>PasswordReset\<close> are never used. \<open>keepAliveLoop\<close>
  of the transport, the list \<open>PopularDomains\<close>, the histogram and the counters of the metrics have no
  caller; the gRPC file is generated and unused. The attributes that hide a console window belong to the
  system. Sums of Go's \<open>int\<close> near \<open>2 ^ 63\<close> are not cut off: no length, count or configured value
  comes near it but in \<open>RandomInt\<close>, whose range is an argument.
\<close>

end
